(* ===== verification/Prelude.thy ===== *)
theory Prelude
  imports Complex_Main "HOL-Library.Word"
begin

text \<open>
  What every component shares: the machine integers of the Rust sources, the results
  of its fallible operations, and the generic lemmas on lists that the components use.

    \<^item> @\<open>u8\<close>, @\<open>u16\<close>, @\<open>u32\<close>, @\<open>u64\<close> are words, so their arithmetic wraps as the release
      build of the workspace does (no profile sets overflow checks).
    \<^item> @\<open>i32\<close> is an integer with the wrap-around written out by \<open>wrap_i32\<close>; \<open>in_i32\<close> is the
      range of the type and \<open>sat_i32\<close> is the saturating conversion (\<open>as i32\<close> from a float,
      \<open>saturating_add\<close>, \<open>saturating_sub\<close>).
    \<^item> A \<open>Result<T, E>\<close> is a sum \<open>'e + 'a\<close> with the error on the left; a panic is \<open>None\<close> of an
      option.
    \<^item> A clock reading is a natural number of the unit the component uses;
      \<open>saturating_duration_since\<close> and \<open>saturating_sub\<close> are the truncated subtraction of \<open>nat\<close>.
\<close>

section \<open>Machine integers\<close>

type_synonym byte = "8 word"
type_synonym u16 = "16 word"
type_synonym u32 = "32 word"
type_synonym u64 = "64 word"

definition in_i32 :: "int \<Rightarrow> bool" where
  "in_i32 n \<longleftrightarrow> - 2147483648 \<le> n \<and> n \<le> 2147483647"

definition wrap_i32 :: "int \<Rightarrow> int" where
  "wrap_i32 n = (n + 2147483648) mod 4294967296 - 2147483648"

definition sat_i32 :: "int \<Rightarrow> int" where
  "sat_i32 n = max (- 2147483648) (min n 2147483647)"

text \<open>Facts that resolve the width of a machine integer once its range is known.\<close>

named_theorems range_simps

lemma wrap_i32_id [range_simps]: "in_i32 n \<Longrightarrow> wrap_i32 n = n"
  by (simp add: in_i32_def wrap_i32_def)

lemma sat_i32_id [range_simps]: "in_i32 n \<Longrightarrow> sat_i32 n = n"
  by (simp add: in_i32_def sat_i32_def)

lemma in_i32_wrap [simp, intro]: "in_i32 (wrap_i32 n)"
proof -
  have "0 \<le> (n + 2147483648) mod 4294967296" "(n + 2147483648) mod 4294967296 < 4294967296"
    by simp_all
  then show ?thesis unfolding in_i32_def wrap_i32_def by linarith
qed

lemma in_i32_sat [simp, intro]: "in_i32 (sat_i32 n)"
  by (auto simp: in_i32_def sat_i32_def)

lemma wrap_i32_mod [simp]: "wrap_i32 (n mod 4294967296) = wrap_i32 n"
  by (simp add: wrap_i32_def mod_add_left_eq)

lemma wrap_i32_wrap [simp]: "wrap_i32 (wrap_i32 n) = wrap_i32 n"
  by (rule wrap_i32_id) simp

lemma wrap_i32_add_wrap [simp]:
  "wrap_i32 (wrap_i32 a + b) = wrap_i32 (a + b)"
  "wrap_i32 (a + wrap_i32 b) = wrap_i32 (a + b)"
proof -
  have *: "(wrap_i32 x + y + 2147483648) mod 4294967296 = (x + y + 2147483648) mod 4294967296" for x y
    unfolding wrap_i32_def by (simp add: mod_simps algebra_simps)
  show "wrap_i32 (wrap_i32 a + b) = wrap_i32 (a + b)"
    using * [of a b] by (simp add: wrap_i32_def [of "_ + b"])
  show "wrap_i32 (a + wrap_i32 b) = wrap_i32 (a + b)"
    using * [of b a] by (simp add: wrap_i32_def [of "a + _"] add.commute)
qed

text \<open>The wrapping operators of \<open>i32\<close>.\<close>

definition add32 :: "int \<Rightarrow> int \<Rightarrow> int" where "add32 a b = wrap_i32 (a + b)"
definition sub32 :: "int \<Rightarrow> int \<Rightarrow> int" where "sub32 a b = wrap_i32 (a - b)"
definition neg32 :: "int \<Rightarrow> int" where "neg32 a = wrap_i32 (- a)"
definition abs32 :: "int \<Rightarrow> int" where "abs32 a = wrap_i32 \<bar>a\<bar>"

lemma add32_id [range_simps]: "in_i32 (a + b) \<Longrightarrow> add32 a b = a + b"
  by (simp add: add32_def wrap_i32_id)

lemma sub32_id [range_simps]: "in_i32 (a - b) \<Longrightarrow> sub32 a b = a - b"
  by (simp add: sub32_def wrap_i32_id)

lemma neg32_id [range_simps]: "in_i32 (- a) \<Longrightarrow> neg32 a = - a"
  by (simp add: neg32_def wrap_i32_id)

lemma abs32_id [range_simps]: "in_i32 \<bar>a\<bar> \<Longrightarrow> abs32 a = \<bar>a\<bar>"
  by (simp add: abs32_def wrap_i32_id)

lemma in_i32_ops [simp, intro]:
  "in_i32 (add32 a b)" "in_i32 (sub32 a b)" "in_i32 (neg32 a)" "in_i32 (abs32 a)"
  by (simp_all add: add32_def sub32_def neg32_def abs32_def)

text \<open>Signed division truncates towards zero, as \<open>/\<close> does on \<open>i32\<close>.\<close>

definition tdiv :: "int \<Rightarrow> int \<Rightarrow> int" where
  "tdiv a b = (if (a < 0) = (b < 0) then \<bar>a\<bar> div \<bar>b\<bar> else - (\<bar>a\<bar> div \<bar>b\<bar>))"

lemma tdiv_nonneg [simp]: "0 \<le> a \<Longrightarrow> 0 < b \<Longrightarrow> tdiv a b = a div b"
  by (simp add: tdiv_def)

text \<open>\<open>f64::round\<close> rounds half away from zero.\<close>

definition round_away :: "real \<Rightarrow> int" where
  "round_away x = (if 0 \<le> x then \<lfloor>x + 1 / 2\<rfloor> else - \<lfloor>1 / 2 - x\<rfloor>)"

text \<open>\<open>as i32\<close> of a float truncates towards zero and saturates.\<close>

definition trunc_toward :: "real \<Rightarrow> int" where
  "trunc_toward x = (if 0 \<le> x then \<lfloor>x\<rfloor> else - \<lfloor>- x\<rfloor>)"

definition real_to_i32 :: "real \<Rightarrow> int" where
  "real_to_i32 x = sat_i32 (trunc_toward x)"

lemma in_i32_real_to_i32 [simp, intro]: "in_i32 (real_to_i32 x)"
  by (simp add: real_to_i32_def)

lemma trunc_toward_of_int [simp]: "trunc_toward (real_of_int n) = n"
  by (auto simp: trunc_toward_def)

lemma round_away_of_int [simp]: "round_away (real_of_int n) = n"
proof (cases "0 \<le> n")
  case True
  have "\<lfloor>real_of_int n + 1 / 2\<rfloor> = n" by (rule floor_unique) auto
  then show ?thesis using True by (simp add: round_away_def)
next
  case False
  have "\<lfloor>1 / 2 - real_of_int n\<rfloor> = - n" by (rule floor_unique) auto
  then show ?thesis using False by (simp add: round_away_def)
qed

text \<open>The remainder a truncating conversion leaves is below one, with the sign of its argument.\<close>

lemma trunc_toward_error: "\<bar>x - real_of_int (trunc_toward x)\<bar> < 1"
proof (cases "0 \<le> x")
  case True
  then show ?thesis by (simp add: trunc_toward_def) linarith
next
  case False
  have "real_of_int \<lfloor>- x\<rfloor> \<le> - x" "- x < real_of_int \<lfloor>- x\<rfloor> + 1" by linarith+
  then have "\<bar>x - - real_of_int \<lfloor>- x\<rfloor>\<bar> < 1" by linarith
  then show ?thesis using False by (simp add: trunc_toward_def)
qed

section \<open>Results\<close>

fun is_ok :: "'e + 'a \<Rightarrow> bool" where
  "is_ok (Inl e) = False"
| "is_ok (Inr x) = True"

text \<open>The \<open>?\<close> operator: the first error is returned at once.\<close>

fun and_then :: "'e + 'a \<Rightarrow> ('a \<Rightarrow> 'e + 'b) \<Rightarrow> 'e + 'b" where
  "and_then (Inl e) f = Inl e"
| "and_then (Inr x) f = f x"

lemma and_then_ok [simp]:
  "and_then r f = Inr y \<longleftrightarrow> (\<exists>x. r = Inr x \<and> f x = Inr y)"
  by (cases r) auto

lemma and_then_err:
  "and_then r f = Inl e \<longleftrightarrow> r = Inl e \<or> (\<exists>x. r = Inr x \<and> f x = Inl e)"
  by (cases r) auto

section \<open>Lists\<close>

lemma take_length_append [simp]: "take (length xs) (xs @ ys) = xs"
  by simp

text \<open>\<open>Iterator::position\<close> and \<open>Iterator::find\<close>.\<close>

fun position :: "('a \<Rightarrow> bool) \<Rightarrow> 'a list \<Rightarrow> nat option" where
  "position P [] = None"
| "position P (x # xs) = (if P x then Some 0 else map_option Suc (position P xs))"

lemma position_Some:
  "position P xs = Some i \<Longrightarrow> i < length xs \<and> P (xs ! i) \<and> (\<forall>j < i. \<not> P (xs ! j))"
proof (induction xs arbitrary: i)
  case Nil then show ?case by simp
next
  case (Cons x xs)
  show ?case
  proof (cases "P x")
    case True then show ?thesis using Cons.prems by simp
  next
    case False
    then obtain k where k: "position P xs = Some k" "i = Suc k" using Cons.prems by auto
    then show ?thesis using Cons.IH [of k] False by (auto simp: nth_Cons split: nat.split)
  qed
qed

lemma position_None: "position P xs = None \<longleftrightarrow> (\<forall>x \<in> set xs. \<not> P x)"
  by (induction xs) auto

lemma find_SomeD: "List.find P xs = Some x \<Longrightarrow> x \<in> set xs \<and> P x"
  by (induction xs) (auto split: if_splits)

lemma find_Some_in [dest]: "List.find P xs = Some x \<Longrightarrow> x \<in> set xs"
  by (simp add: find_SomeD)

lemma find_NoneD: "List.find P xs = None \<Longrightarrow> x \<in> set xs \<Longrightarrow> \<not> P x"
  by (induction xs) (auto split: if_splits)


section \<open>Components that keep an invariant\<close>

text \<open>
  The contract of a component driven by events: every event it handles keeps its invariant.
  A run is a list of events, handled in order.
\<close>

definition run :: "('ev \<Rightarrow> 's \<Rightarrow> 's) \<Rightarrow> 'ev list \<Rightarrow> 's \<Rightarrow> 's" where
  "run step evs s = foldl (\<lambda>s e. step e s) s evs"

lemma run_simps [simp]:
  "run step [] s = s"
  "run step (e # evs) s = run step evs (step e s)"
  "run step (evs @ evs') s = run step evs' (run step evs s)"
  by (simp_all add: run_def)

locale keeps_invariant =
  fixes step :: "'ev \<Rightarrow> 's \<Rightarrow> 's" and good :: "'ev \<Rightarrow> bool" and inv :: "'s \<Rightarrow> bool"
  assumes step_inv: "good e \<Longrightarrow> inv s \<Longrightarrow> inv (step e s)"
begin

lemma run_inv: "list_all good evs \<Longrightarrow> inv s \<Longrightarrow> inv (run step evs s)"
  by (induction evs arbitrary: s) (auto intro: step_inv)

end

section \<open>Bounded queues\<close>

text \<open>
  A queue whose sender never blocks: an item is dropped when the queue holds \<open>cap\<close> items (or
  its receiver is gone), and appended otherwise.
\<close>

locale bounded_queue =
  fixes offer :: "'a \<Rightarrow> 'q \<Rightarrow> 'q" and content :: "'q \<Rightarrow> 'a list" and cap :: nat
  assumes offer_cases:
    "content (offer x q) = content q \<or> length (content q) < cap \<and> content (offer x q) = content q @ [x]"
begin

lemma offer_bounded: "length (content q) \<le> cap \<Longrightarrow> length (content (offer x q)) \<le> cap"
  using offer_cases [of x q] by auto

lemma offers_bounded: "length (content q) \<le> cap \<Longrightarrow> length (content (fold offer xs q)) \<le> cap"
  by (induction xs arbitrary: q) (auto intro: offer_bounded)

lemma offer_keeps_queued: "\<exists>new. content (offer x q) = content q @ new"
  using offer_cases [of x q] by auto

lemma offer_dropped: "cap \<le> length (content q) \<Longrightarrow> content (offer x q) = content q"
  using offer_cases [of x q] by auto

end

end
