(* ===== verification/Wire.thy ===== *)
theory Wire
  imports Prelude
begin

text \<open>
  The byte-level reader and writer of \<open>protocol/src/wire.rs\<close>.  A \<open>WriteBuf\<close> is the list of
  bytes written so far, so a \<open>put\<close> operation is the list it appends.  A \<open>ReadBuf\<close> is the
  slice and the position of the cursor, and a \<open>get\<close> operation a function from the buffer to
  the value and the advanced buffer, or the \<open>WireError\<close> with its text.

  The contract of a pair of such operations is the locale \<open>codec\<close>: what was put is what is
  got, and exactly its bytes are consumed, whatever follows them.  The locale \<open>safe_reader\<close>
  is the contract of the reader alone: the cursor only moves forward and stays inside the
  slice, so no index of the code is out of range.
\<close>

section \<open>Errors and the cursor\<close>

datatype wire_error = WireError string

record read_buf =
  rb_bytes :: "byte list"
  rb_pos :: nat

type_synonym 'a reader = "read_buf \<Rightarrow> wire_error + 'a \<times> read_buf"

definition new_buf :: "byte list \<Rightarrow> read_buf" where
  "new_buf bs = \<lparr>rb_bytes = bs, rb_pos = 0\<rparr>"

text \<open>The cursor after \<open>pre\<close> and before \<open>xs\<close>.\<close>

definition rb_at :: "byte list \<Rightarrow> byte list \<Rightarrow> read_buf" where
  "rb_at pre xs = \<lparr>rb_bytes = pre @ xs, rb_pos = length pre\<rparr>"

lemma new_buf_at: "new_buf bs = rb_at [] bs"
  by (simp add: new_buf_def rb_at_def)

text \<open>Sequencing of fallible reads (the \<open>?\<close> operator) and the value of a block.\<close>

definition rd_bind :: "'a reader \<Rightarrow> ('a \<Rightarrow> 'b reader) \<Rightarrow> 'b reader" where
  "rd_bind m f = (\<lambda>r. case m r of Inl e \<Rightarrow> Inl e | Inr (x, r') \<Rightarrow> f x r')"

definition rd_return :: "'a \<Rightarrow> 'a reader" where
  "rd_return x = (\<lambda>r. Inr (x, r))"

definition rd_fail :: "string \<Rightarrow> 'a reader" where
  "rd_fail what = (\<lambda>r. Inl (WireError what))"

lemma rd_return_apply [simp]: "rd_return x r = Inr (x, r)"
  by (simp add: rd_return_def)

lemma rd_fail_apply [simp]: "rd_fail w r = Inl (WireError w)"
  by (simp add: rd_fail_def)

lemma rd_bind_Inr [simp]: "m r = Inr (x, r') \<Longrightarrow> rd_bind m f r = f x r'"
  by (simp add: rd_bind_def)

lemma rd_bind_Inl [simp]: "m r = Inl e \<Longrightarrow> rd_bind m f r = Inl e"
  by (simp add: rd_bind_def)

lemma rd_bind_ok:
  "rd_bind m f r = Inr z \<longleftrightarrow> (\<exists>x r'. m r = Inr (x, r') \<and> f x r' = Inr z)"
  by (auto simp: rd_bind_def split: sum.splits)

section \<open>The operations of \<open>WriteBuf\<close>\<close>

text \<open>\<open>to_be_bytes\<close> of an integer of \<open>k\<close> bytes, and \<open>from_be_bytes\<close>.\<close>

fun be_bytes :: "nat \<Rightarrow> nat \<Rightarrow> byte list" where
  "be_bytes 0 n = []"
| "be_bytes (Suc k) n = be_bytes k (n div 256) @ [word_of_nat (n mod 256)]"

definition be_val :: "byte list \<Rightarrow> nat" where
  "be_val bs = foldl (\<lambda>a b. a * 256 + unat b) 0 bs"

definition put_u8 :: "byte \<Rightarrow> byte list" where
  "put_u8 v = [v]"

definition put_u16 :: "u16 \<Rightarrow> byte list" where
  "put_u16 v = be_bytes 2 (unat v)"

definition put_u32 :: "u32 \<Rightarrow> byte list" where
  "put_u32 v = be_bytes 4 (unat v)"

definition put_i32 :: "int \<Rightarrow> byte list" where
  "put_i32 v = be_bytes 4 (nat (v mod 4294967296))"

definition put_u64 :: "u64 \<Rightarrow> byte list" where
  "put_u64 v = be_bytes 8 (unat v)"

text \<open>A Rust string is its UTF-8 bytes, one character of a HOL string each.\<close>

definition str_bytes :: "string \<Rightarrow> byte list" where
  "str_bytes s = map of_char s"

definition bytes_str :: "byte list \<Rightarrow> string" where
  "bytes_str bs = map (\<lambda>b. char_of (unat b)) bs"

definition put_str :: "string \<Rightarrow> byte list" where
  "put_str s = put_u32 (word_of_nat (length s)) @ str_bytes s"

section \<open>UTF-8 validation\<close>

text \<open>\<open>std::str::from_utf8\<close>: no overlong form, no surrogate, nothing above U+10FFFF.\<close>

definition utf8_cont :: "byte \<Rightarrow> bool" where
  "utf8_cont b \<longleftrightarrow> 128 \<le> unat b \<and> unat b \<le> 191"

definition utf8_second :: "byte \<Rightarrow> byte \<Rightarrow> bool" where
  "utf8_second a b =
     (if unat a = 224 then 160 \<le> unat b \<and> unat b \<le> 191
      else if unat a = 237 then 128 \<le> unat b \<and> unat b \<le> 159
      else if unat a = 240 then 144 \<le> unat b \<and> unat b \<le> 191
      else if unat a = 244 then 128 \<le> unat b \<and> unat b \<le> 143
      else utf8_cont b)"

definition utf8_width :: "byte \<Rightarrow> nat" where
  "utf8_width a =
     (let n = unat a in
      if n < 128 then 1
      else if 194 \<le> n \<and> n \<le> 223 then 2
      else if 224 \<le> n \<and> n \<le> 239 then 3
      else if 240 \<le> n \<and> n \<le> 244 then 4 else 0)"

fun utf8_valid :: "byte list \<Rightarrow> bool" where
  "utf8_valid [] = True"
| "utf8_valid (a # bs) =
     (if utf8_width a = 1 then utf8_valid bs
      else if utf8_width a = 2 then
        (case bs of b # cs \<Rightarrow> utf8_cont b \<and> utf8_valid cs | _ \<Rightarrow> False)
      else if utf8_width a = 3 then
        (case bs of b # c # ds \<Rightarrow> utf8_second a b \<and> utf8_cont c \<and> utf8_valid ds | _ \<Rightarrow> False)
      else if utf8_width a = 4 then
        (case bs of b # c # d # es \<Rightarrow>
           utf8_second a b \<and> utf8_cont c \<and> utf8_cont d \<and> utf8_valid es | _ \<Rightarrow> False)
      else False)"

section \<open>The operations of \<open>ReadBuf\<close>\<close>

text \<open>
  \<open>take\<close>.  The \<open>checked_add\<close> of the code and its range check return the same error; a slice
  has at most \<open>isize::MAX\<close> bytes and every \<open>n\<close> comes from a \<open>u32\<close>, so on the 64-bit targets the
  sum is exact and one comparison decides both.
\<close>

definition rd_take :: "nat \<Rightarrow> string \<Rightarrow> byte list reader" where
  "rd_take n what = (\<lambda>r.
     let end_pos = rb_pos r + n in
     if end_pos > length (rb_bytes r) then Inl (WireError what)
     else Inr (take n (drop (rb_pos r) (rb_bytes r)), r\<lparr>rb_pos := end_pos\<rparr>))"

definition get_u8 :: "byte reader" where
  "get_u8 = rd_bind (rd_take 1 ''u8'') (\<lambda>bs. rd_return (bs ! 0))"

definition get_u16 :: "u16 reader" where
  "get_u16 = rd_bind (rd_take 2 ''u16'') (\<lambda>bs. rd_return (word_of_nat (be_val bs)))"

definition get_u32 :: "u32 reader" where
  "get_u32 = rd_bind (rd_take 4 ''u32'') (\<lambda>bs. rd_return (word_of_nat (be_val bs)))"

definition get_i32 :: "int reader" where
  "get_i32 = rd_bind (rd_take 4 ''i32'') (\<lambda>bs. rd_return (wrap_i32 (int (be_val bs))))"

definition get_u64 :: "u64 reader" where
  "get_u64 = rd_bind (rd_take 8 ''u64'') (\<lambda>bs. rd_return (word_of_nat (be_val bs)))"

definition get_bytes :: "nat \<Rightarrow> string \<Rightarrow> byte list reader" where
  "get_bytes n what = rd_take n what"

definition get_str :: "string reader" where
  "get_str = rd_bind get_u32 (\<lambda>n.
     if unat n > 64 * 1024 then rd_fail ''string too long''
     else rd_bind (rd_take (unat n) ''string'') (\<lambda>raw.
       if utf8_valid raw then rd_return (bytes_str raw) else rd_fail ''invalid utf-8 string''))"

definition remaining :: "read_buf \<Rightarrow> nat" where
  "remaining r = length (rb_bytes r) - rb_pos r"

text \<open>The loop \<open>for _ in 0..n\<close> that fills a vector.\<close>

fun get_many :: "nat \<Rightarrow> 'a reader \<Rightarrow> 'a list reader" where
  "get_many 0 g = rd_return []"
| "get_many (Suc n) g = rd_bind g (\<lambda>x. rd_bind (get_many n g) (\<lambda>xs. rd_return (x # xs)))"

section \<open>Big-endian values\<close>

lemma byte_less [simp, intro]: "unat (b :: byte) < 256"
  using unsigned_less [of b] by simp

lemma unat_less_width: "unat (w :: 'w::len word) < 2 ^ LENGTH('w)"
  by (fact unsigned_less)

lemma unat_mod_width [simp]:
  "unat (a :: u16) mod 65536 = unat a"
  "unat (b :: u32) mod 4294967296 = unat b"
  "unat (c :: u64) mod 18446744073709551616 = unat c"
  using unat_less_width [of a] unat_less_width [of b] unat_less_width [of c] by simp_all

lemma length_be_bytes [simp]: "length (be_bytes k n) = k"
  by (induction k arbitrary: n) auto

lemma be_val_snoc [simp]: "be_val (bs @ [b]) = be_val bs * 256 + unat b"
  by (simp add: be_val_def)

lemma be_val_Nil [simp]: "be_val [] = 0"
  by (simp add: be_val_def)

lemma be_val_be_bytes [simp]: "be_val (be_bytes k n) = n mod 256 ^ k"
proof (induction k arbitrary: n)
  case 0 then show ?case by simp
next
  case (Suc k)
  have "n mod 256 ^ Suc k = n mod (256 * 256 ^ k)" by simp
  also have "\<dots> = 256 * (n div 256 mod 256 ^ k) + n mod 256" by (rule mod_mult2_eq)
  finally show ?case using Suc by (simp add: unat_of_nat take_bit_eq_mod)
qed

lemma be_val_less: "be_val bs < 256 ^ length bs"
proof (induction bs rule: rev_induct)
  case Nil then show ?case by simp
next
  case (snoc b bs)
  have "unat b < 256" by simp
  then have "be_val bs * 256 + unat b < (be_val bs + 1) * 256" by simp
  also have "\<dots> \<le> 256 ^ length bs * 256" using snoc by (simp add: Suc_leI)
  finally show ?case by (simp add: mult.commute)
qed

lemma be_bytes_be_val: "be_bytes (length bs) (be_val bs) = bs"
proof (induction bs rule: rev_induct)
  case Nil then show ?case by simp
next
  case (snoc b bs)
  have b: "unat b < 256" by simp
  then have "(be_val bs * 256 + unat b) div 256 = be_val bs"
    "(be_val bs * 256 + unat b) mod 256 = unat b" by simp_all
  then show ?case using snoc by simp
qed

lemma byte_char [simp]: "char_of (unat (of_char c :: byte)) = c"
proof -
  have *: "(of_char c :: byte) = word_of_nat (of_char c)" by (simp add: of_nat_of_char)
  have "unat (of_char c :: byte) = of_char c"
    unfolding * by (simp add: unat_of_nat take_bit_eq_mod)
  then show ?thesis by simp
qed

lemma char_byte [simp]: "(of_char (char_of (unat b)) :: byte) = b"
proof -
  have "unat b < 256" by simp
  then have "(of_char (char_of (unat b)) :: nat) = unat b" by simp
  then have "word_of_nat (of_char (char_of (unat b))) = b" by simp
  then show ?thesis by (metis of_nat_of_char)
qed

lemma bytes_str_bytes [simp]: "bytes_str (str_bytes s) = s"
  by (simp add: bytes_str_def str_bytes_def comp_def)

lemma str_bytes_str [simp]: "str_bytes (bytes_str bs) = bs"
  by (simp add: bytes_str_def str_bytes_def comp_def)

lemma length_str_bytes [simp]: "length (str_bytes s) = length s"
  by (simp add: str_bytes_def)

lemma length_bytes_str [simp]: "length (bytes_str bs) = length bs"
  by (simp add: bytes_str_def)

section \<open>The contract of a codec\<close>

text \<open>What is put is got back, and exactly its bytes are consumed.\<close>

locale codec =
  fixes put :: "'a \<Rightarrow> byte list" and get :: "'a reader" and ok :: "'a \<Rightarrow> bool"
  assumes get_put: "ok x \<Longrightarrow> get (rb_at pre (put x @ rest)) = Inr (x, rb_at (pre @ put x) rest)"
begin

lemma put_prefix_free:
  assumes "ok x" "ok y" "put x @ r = put y @ s"
  shows "x = y \<and> r = s"
proof -
  have "Inr (x, rb_at (put x) r) = get (rb_at [] (put x @ r))"
    using get_put [of x "[]" r] assms by simp
  also have "\<dots> = Inr (y, rb_at (put y) s)"
    using get_put [of y "[]" s] assms by simp
  finally have "x = y" by simp
  then show ?thesis using assms by simp
qed

lemma get_many_put:
  "list_all ok xs \<Longrightarrow>
   get_many (length xs) get (rb_at pre (concat (map put xs) @ rest))
     = Inr (xs, rb_at (pre @ concat (map put xs)) rest)"
proof (induction xs arbitrary: pre)
  case Nil then show ?case by simp
next
  case (Cons x xs)
  have "get (rb_at pre (put x @ concat (map put xs) @ rest))
      = Inr (x, rb_at (pre @ put x) (concat (map put xs) @ rest))"
    using Cons.prems by (intro get_put) simp
  moreover have "get_many (length xs) get (rb_at (pre @ put x) (concat (map put xs) @ rest))
      = Inr (xs, rb_at ((pre @ put x) @ concat (map put xs)) rest)"
    using Cons by simp
  ultimately show ?case by simp
qed

end

text \<open>The cursor moves forward and stays inside the slice it reads.\<close>

definition advanced :: "read_buf \<Rightarrow> read_buf \<Rightarrow> bool" where
  "advanced r r' \<longleftrightarrow> rb_bytes r' = rb_bytes r \<and> rb_pos r \<le> rb_pos r' \<and> rb_pos r' \<le> length (rb_bytes r)"

lemma advanced_refl: "rb_pos r \<le> length (rb_bytes r) \<Longrightarrow> advanced r r"
  by (simp add: advanced_def)

lemma advanced_trans: "advanced r s \<Longrightarrow> advanced s t \<Longrightarrow> advanced r t"
  by (auto simp: advanced_def)

locale safe_reader =
  fixes get :: "'a reader"
  assumes stays: "rb_pos r \<le> length (rb_bytes r) \<Longrightarrow> get r = Inr (x, r') \<Longrightarrow> advanced r r'"
begin

lemma many_stays:
  "rb_pos r \<le> length (rb_bytes r) \<Longrightarrow> get_many n get r = Inr (xs, r') \<Longrightarrow> advanced r r'"
proof (induction n arbitrary: r xs r')
  case 0 then show ?case by (simp add: advanced_refl)
next
  case (Suc n)
  from Suc.prems(2) obtain y s ys where y: "get r = Inr (y, s)" "get_many n get s = Inr (ys, r')"
    by (auto simp: rd_bind_ok)
  have rs: "advanced r s" by (rule stays [OF Suc.prems(1) y(1)])
  then have "rb_pos s \<le> length (rb_bytes s)" by (simp add: advanced_def)
  then have "advanced s r'" using y(2) by (rule Suc.IH)
  with rs show ?case by (rule advanced_trans)
qed

end

section \<open>The codecs of the primitive types\<close>

lemma rd_take_at [simp]:
  "rd_take (length xs) what (rb_at pre (xs @ rest)) = Inr (xs, rb_at (pre @ xs) rest)"
  by (simp add: rd_take_def rb_at_def Let_def)

lemma rd_take_at' [simp]:
  "length xs = n \<Longrightarrow> rd_take n what (rb_at pre (xs @ rest)) = Inr (xs, rb_at (pre @ xs) rest)"
  using rd_take_at by blast

lemma rd_take_short:
  "length xs < n \<Longrightarrow> rd_take n what (rb_at pre xs) = Inl (WireError what)"
  by (simp add: rd_take_def rb_at_def Let_def)

interpretation u8_codec: codec put_u8 get_u8 "\<lambda>_. True"
  by unfold_locales (simp add: get_u8_def put_u8_def rd_take_at' [of "[_]" 1, simplified])

interpretation u16_codec: codec put_u16 get_u16 "\<lambda>_. True"
  by unfold_locales (simp add: get_u16_def put_u16_def)

interpretation u32_codec: codec put_u32 get_u32 "\<lambda>_. True"
  by unfold_locales (simp add: get_u32_def put_u32_def)

interpretation u64_codec: codec put_u64 get_u64 "\<lambda>_. True"
  by unfold_locales (simp add: get_u64_def put_u64_def)

interpretation i32_codec: codec put_i32 get_i32 in_i32
  by unfold_locales (simp add: get_i32_def put_i32_def range_simps)


definition str_ok :: "string \<Rightarrow> bool" where
  "str_ok s \<longleftrightarrow> length s \<le> 64 * 1024 \<and> utf8_valid (str_bytes s)"

interpretation str_codec: codec put_str get_str str_ok
proof unfold_locales
  fix s pre rest assume ok: "str_ok s"
  then have len: "unat (word_of_nat (length s) :: u32) = length s"
    by (simp add: str_ok_def unat_of_nat take_bit_eq_mod)
  show "get_str (rb_at pre (put_str s @ rest)) = Inr (s, rb_at (pre @ put_str s) rest)"
    using ok by (simp add: get_str_def put_str_def u32_codec.get_put str_ok_def len)
qed

lemma bytes_codec:
  "get_bytes (length bs) what (rb_at pre (bs @ rest)) = Inr (bs, rb_at (pre @ bs) rest)"
  by (simp add: get_bytes_def)

section \<open>Every reader stays inside its slice\<close>

named_theorems stays_rules

lemma rd_take_stays [stays_rules]:
  "rb_pos r \<le> length (rb_bytes r) \<Longrightarrow> rd_take n what r = Inr (x, r') \<Longrightarrow> advanced r r'"
  by (auto simp: rd_take_def Let_def advanced_def split: if_splits)

lemma safe_return [intro!]: "safe_reader (rd_return x)"
  by unfold_locales (simp add: advanced_refl)

lemma safe_fail [intro!]: "safe_reader (rd_fail w)"
  by unfold_locales simp

lemma safe_take [intro!]: "safe_reader (rd_take n what)"
  by unfold_locales (rule rd_take_stays)

lemma safe_bind [intro!]:
  assumes m: "safe_reader m" and f: "\<And>x. safe_reader (f x)"
  shows "safe_reader (rd_bind m f)"
proof
  fix r y r'
  assume r: "rb_pos r \<le> length (rb_bytes r)" and "rd_bind m f r = Inr (y, r')"
  then obtain x s where x: "m r = Inr (x, s)" "f x s = Inr (y, r')" by (auto simp: rd_bind_ok)
  have a: "advanced r s" using m r x(1) by (rule safe_reader.stays)
  then have "rb_pos s \<le> length (rb_bytes s)" by (simp add: advanced_def)
  with f have "advanced s r'" using x(2) by (rule safe_reader.stays)
  with a show "advanced r r'" by (rule advanced_trans)
qed

lemma safe_if [intro!]: "safe_reader a \<Longrightarrow> safe_reader b \<Longrightarrow> safe_reader (if c then a else b)"
  by simp

lemma safe_many [intro!]: "safe_reader g \<Longrightarrow> safe_reader (get_many n g)"
  by (rule safe_reader.intro) (rule safe_reader.many_stays)

interpretation u8_reader: safe_reader get_u8
  unfolding get_u8_def by auto

interpretation u16_reader: safe_reader get_u16
  unfolding get_u16_def by auto

interpretation u32_reader: safe_reader get_u32
  unfolding get_u32_def by auto

interpretation i32_reader: safe_reader get_i32
  unfolding get_i32_def by auto

interpretation u64_reader: safe_reader get_u64
  unfolding get_u64_def by auto

lemma safe_bytes [intro!]: "safe_reader (get_bytes n what)"
  unfolding get_bytes_def by auto

lemmas safe_primitives [intro!] =
  u8_reader.safe_reader_axioms u16_reader.safe_reader_axioms u32_reader.safe_reader_axioms
  i32_reader.safe_reader_axioms u64_reader.safe_reader_axioms

interpretation str_reader: safe_reader get_str
  unfolding get_str_def by auto

text \<open>A read from a buffer that is too short is the error the code names, and a string's
  length field above 64 KiB is refused before any of its bytes are looked at.\<close>

lemma get_u32_short: "length xs < 4 \<Longrightarrow> get_u32 (rb_at pre xs) = Inl (WireError ''u32'')"
  by (simp add: get_u32_def rd_take_short)

lemma get_str_too_long:
  "unat n > 64 * 1024 \<Longrightarrow> get_str (rb_at pre (put_u32 n @ rest)) = Inl (WireError ''string too long'')"
  by (simp add: get_str_def u32_codec.get_put)


section \<open>What a reader accepts\<close>

text \<open>A reader that checks what it reads: whatever the bytes are, its value is well formed.\<close>

locale validating_reader =
  fixes get :: "'a reader" and ok :: "'a \<Rightarrow> bool"
  assumes sound: "get r = Inr (x, r') \<Longrightarrow> ok x"
begin

lemma many_sound: "get_many n get r = Inr (xs, r') \<Longrightarrow> list_all ok xs \<and> length xs = n"
  by (induction n arbitrary: r xs) (auto simp: rd_bind_ok dest: sound)

end

lemma rd_take_length: "rd_take n what r = Inr (bs, r') \<Longrightarrow> length bs = n"
  by (auto simp: rd_take_def Let_def split: if_splits)

lemma u32_less [simp]: "unat (w :: u32) < 4294967296"
  using unat_less_width [of w] by simp

interpretation i32_validating: validating_reader get_i32 in_i32
  by unfold_locales (auto simp: get_i32_def rd_bind_ok)

interpretation str_validating: validating_reader get_str str_ok
  by unfold_locales
    (auto simp: get_str_def rd_bind_ok str_ok_def dest: rd_take_length split: if_splits)

end
