(* ===== verification/Frames.thy ===== *)
theory Frames
  imports Wire
begin

text \<open>
  The frame layer: the constants of \<open>protocol/src/lib.rs\<close> and \<open>id.rs\<close>, and \<open>frame.rs\<close>.  A
  \<open>Read\<close> is the list of the results its \<open>read\<close> calls will give: a chunk of bytes (handed out
  in pieces when the buffer of the caller is smaller) or an error; the end of the list, and
  an empty chunk, are the end of file.  The main results are that decoding does not depend on
  how the bytes are cut into chunks, and that it inverts the encoder.
\<close>

section \<open>Constants\<close>

definition VERSION :: u16 where "VERSION = 3"
definition MIN_PROTOCOL :: u16 where "MIN_PROTOCOL = 3"
definition MAX_PROTOCOL :: u16 where "MAX_PROTOCOL = VERSION"

definition compatible :: "u16 \<Rightarrow> bool" where
  "compatible peer_version \<longleftrightarrow> MIN_PROTOCOL \<le> peer_version \<and> peer_version \<le> MAX_PROTOCOL"

definition MAX_PAYLOAD :: nat where "MAX_PAYLOAD = 8 * 1024 * 1024"
definition HEADER_LEN :: nat where "HEADER_LEN = 10"
definition LEN_OFFSET :: nat where "LEN_OFFSET = 6"
definition MAGIC :: "byte list" where "MAGIC = [0x4B, 0x56, 0x4D, 0x31]"

definition FLAG_COMPRESSED :: byte where "FLAG_COMPRESSED = 0x01"
definition FLAGS_KNOWN :: byte where "FLAGS_KNOWN = 0x00"

text \<open>The error codes and control commands of \<open>id.rs\<close>.\<close>

definition ERR_PROTOCOL :: byte where "ERR_PROTOCOL = 1"
definition ERR_VERSION_MISMATCH :: byte where "ERR_VERSION_MISMATCH = 2"
definition ERR_NAME_CONFLICT :: byte where "ERR_NAME_CONFLICT = 3"
definition ERR_INTERNAL :: byte where "ERR_INTERNAL = 4"
definition ERR_NOT_ALLOWED :: byte where "ERR_NOT_ALLOWED = 5"
definition ERR_NOT_LOCAL :: byte where "ERR_NOT_LOCAL = 6"
definition ERR_REVOKED :: byte where "ERR_REVOKED = 7"

definition CTRL_DISCONNECT :: byte where "CTRL_DISCONNECT = 1"
definition CTRL_RECONNECT :: byte where "CTRL_RECONNECT = 2"
definition CTRL_RESTART :: byte where "CTRL_RESTART = 3"

lemmas const_defs =
  VERSION_def MIN_PROTOCOL_def MAX_PROTOCOL_def MAX_PAYLOAD_def HEADER_LEN_def LEN_OFFSET_def
  MAGIC_def FLAGS_KNOWN_def FLAG_COMPRESSED_def

lemmas err_defs =
  ERR_PROTOCOL_def ERR_VERSION_MISMATCH_def ERR_NAME_CONFLICT_def ERR_INTERNAL_def
  ERR_NOT_ALLOWED_def ERR_NOT_LOCAL_def ERR_REVOKED_def

lemmas ctrl_defs = CTRL_DISCONNECT_def CTRL_RECONNECT_def CTRL_RESTART_def

section \<open>Readers\<close>

datatype io_kind =
  WouldBlock | TimedOut | ConnectionReset | ConnectionAborted | UnexpectedEof | InvalidData
  | OtherError | PlatformKind nat

datatype io_error = IoError (err_kind: io_kind) (err_text: string)

datatype read_ev = Chunk "byte list" | ReadErr io_error

text \<open>One call of \<open>read\<close> with a buffer of \<open>n\<close> bytes.\<close>

fun read_step :: "read_ev list \<Rightarrow> nat \<Rightarrow> (io_error + byte list) \<times> read_ev list" where
  "read_step [] n = (Inr [], [])"
| "read_step (ReadErr e # s) n = (Inl e, s)"
| "read_step (Chunk bs # s) n =
     (if length bs \<le> n then (Inr bs, s) else (Inr (take n bs), Chunk (drop n bs) # s))"

text \<open>A \<open>Cursor\<close> over a slice hands out the whole slice.\<close>

definition cursor :: "byte list \<Rightarrow> read_ev list" where
  "cursor bs = [Chunk bs]"

fun pending_bytes :: "read_ev list \<Rightarrow> byte list" where
  "pending_bytes [] = []"
| "pending_bytes (Chunk bs # s) = bs @ pending_bytes s"
| "pending_bytes (ReadErr e # s) = pending_bytes s"

definition cursor_position :: "byte list \<Rightarrow> read_ev list \<Rightarrow> nat" where
  "cursor_position bs s = length bs - length (pending_bytes s)"

section \<open>Frames\<close>

record frame =
  fr_type :: byte
  fr_flags :: byte
  fr_payload :: "byte list"

definition new_frame :: "byte \<Rightarrow> byte list \<Rightarrow> frame" where
  "new_frame t payload = \<lparr>fr_type = t, fr_flags = 0, fr_payload = payload\<rparr>"

definition encode_frame :: "frame \<Rightarrow> byte list" where
  "encode_frame f =
     MAGIC @ [fr_type f] @ [fr_flags f]
     @ be_bytes 4 (unat (word_of_nat (length (fr_payload f)) :: u32)) @ fr_payload f"

text \<open>\<open>ReadStatus\<close>; a full read carries the bytes now in the buffer.\<close>

datatype read_status = Eof | Partial | Full "byte list"

function read_full :: "read_ev list \<Rightarrow> nat \<Rightarrow> byte list \<Rightarrow> (io_error + read_status) \<times> read_ev list" where
  "read_full s need filled =
     (if need = 0 then (Inr (Full filled), s)
      else case read_step s need of
        (Inl e, s') \<Rightarrow> (Inl e, s')
      | (Inr [], s') \<Rightarrow> (Inr (if filled = [] then Eof else Partial), s')
      | (Inr (b # bs), s') \<Rightarrow> read_full s' (need - length (b # bs)) (filled @ b # bs))"
  by pat_completeness auto
termination by (relation "measure (\<lambda>(s, need, filled). need)") auto

declare read_full.simps [simp del]

definition decode_header :: "byte list \<Rightarrow> string + byte \<times> byte \<times> nat" where
  "decode_header header =
     (if take 4 header \<noteq> MAGIC then Inl ''bad magic''
      else let t = header ! 4; fl = header ! 5 in
        if and fl (not FLAGS_KNOWN) \<noteq> 0 then Inl ''unknown frame flags''
        else let len = be_val [header ! 6, header ! 7, header ! 8, header ! 9] in
          if len > MAX_PAYLOAD then Inl ''payload too large'' else Inr (t, fl, len))"

definition decode_from :: "read_ev list \<Rightarrow> (io_error + frame option) \<times> read_ev list" where
  "decode_from s =
     (case read_full s HEADER_LEN [] of
        (Inl e, s1) \<Rightarrow> (Inl e, s1)
      | (Inr Eof, s1) \<Rightarrow> (Inr None, s1)
      | (Inr Partial, s1) \<Rightarrow> (Inl (IoError UnexpectedEof ''partial header''), s1)
      | (Inr (Full header), s1) \<Rightarrow>
          (case decode_header header of
             Inl what \<Rightarrow> (Inl (IoError OtherError what), s1)
           | Inr (t, fl, len) \<Rightarrow>
               (case read_full s1 len [] of
                  (Inl e, s2) \<Rightarrow> (Inl e, s2)
                | (Inr (Full payload), s2) \<Rightarrow>
                    (Inr (Some \<lparr>fr_type = t, fr_flags = fl, fr_payload = payload\<rparr>), s2)
                | (Inr _, s2) \<Rightarrow> (Inl (IoError UnexpectedEof ''partial payload''), s2))))"

section \<open>Reading does not depend on the segmentation\<close>

text \<open>A healthy stream: every \<open>read\<close> gives at least one byte until the end of file.\<close>

fun healthy :: "read_ev list \<Rightarrow> bool" where
  "healthy [] = True"
| "healthy (Chunk bs # s) = (bs \<noteq> [] \<and> healthy s)"
| "healthy (ReadErr e # s) = False"

lemma healthy_eof: "healthy s \<Longrightarrow> pending_bytes s = [] \<longleftrightarrow> s = []"
  by (cases s rule: healthy.cases) auto

lemma read_step_healthy:
  assumes "healthy s" "0 < n" "pending_bytes s \<noteq> []"
  obtains b bs s' where "read_step s n = (Inr (b # bs), s')" "healthy s'"
    "pending_bytes s = (b # bs) @ pending_bytes s'" "length (b # bs) \<le> n"
proof (cases s rule: healthy.cases)
  case 1 then show ?thesis using assms by simp
next
  case (2 cs s1)
  then obtain c cs' where c: "cs = c # cs'" using assms(1) by (cases cs) auto
  show ?thesis
  proof (cases "length cs \<le> n")
    case True then show ?thesis using that [of c cs' s1] assms 2 c by simp
  next
    case False
    obtain m where n: "n = Suc m" using assms(2) by (cases n) auto
    show ?thesis
      using that [of c "take m cs'" "Chunk (drop m cs') # s1"] assms 2 c False n by simp
  qed
next
  case (3 e s1) then show ?thesis using assms by simp
qed

lemma read_full_healthy:
  assumes "healthy s"
  shows "\<exists>s'. healthy s' \<and> pending_bytes s' = drop need (pending_bytes s) \<and>
    read_full s need filled =
      (Inr (if need \<le> length (pending_bytes s) then Full (filled @ take need (pending_bytes s))
            else if filled = [] \<and> pending_bytes s = [] then Eof else Partial), s')"
  using assms
proof (induction need arbitrary: s filled rule: less_induct)
  case (less need)
  consider "need = 0" | "0 < need" "pending_bytes s = []" | "0 < need" "pending_bytes s \<noteq> []" by blast
  then show ?case
  proof cases
    case 1 then show ?thesis using less.prems by (simp add: read_full.simps [of s])
  next
    case 2
    then have "s = []" using less.prems by (simp add: healthy_eof)
    then show ?thesis using 2 by (simp add: read_full.simps [of "[]"])
  next
    case 3
    then obtain b bs s' where r: "read_step s need = (Inr (b # bs), s')" "healthy s'"
      "pending_bytes s = (b # bs) @ pending_bytes s'" "length (b # bs) \<le> need"
      using read_step_healthy less.prems by blast
    have "need - length (b # bs) < need" using 3 by simp
    from less.IH [OF this r(2), of "filled @ b # bs"] obtain s2 where s2:
      "healthy s2" "pending_bytes s2 = drop (need - length (b # bs)) (pending_bytes s')"
      "read_full s' (need - length (b # bs)) (filled @ b # bs) =
        (Inr (if need - length (b # bs) \<le> length (pending_bytes s')
              then Full ((filled @ b # bs) @ take (need - length (b # bs)) (pending_bytes s'))
              else Partial), s2)" by auto
    have "read_full s need filled = read_full s' (need - length (b # bs)) (filled @ b # bs)"
      using 3 r by (simp add: read_full.simps [of s])
    moreover have "need \<le> length (pending_bytes s)
        \<longleftrightarrow> need - length (b # bs) \<le> length (pending_bytes s')"
      using r(3,4) by auto
    moreover have "take need (pending_bytes s) = b # bs @ take (need - length (b # bs)) (pending_bytes s')"
      "drop need (pending_bytes s) = drop (need - length (b # bs)) (pending_bytes s')"
      using r(3,4) by (cases need; simp)+
    ultimately show ?thesis using s2 3 r(3) by (intro exI [of _ s2]) auto
  qed
qed

text \<open>What \<open>decode_from\<close> gives on the bytes of a stream: the frame and its size, or the error.\<close>

definition decode_bytes :: "byte list \<Rightarrow> io_error + (frame \<times> nat) option" where
  "decode_bytes bs =
     (if bs = [] then Inr None
      else if length bs < HEADER_LEN then Inl (IoError UnexpectedEof ''partial header'')
      else case decode_header (take HEADER_LEN bs) of
        Inl what \<Rightarrow> Inl (IoError OtherError what)
      | Inr (t, fl, len) \<Rightarrow>
          if length bs < HEADER_LEN + len then Inl (IoError UnexpectedEof ''partial payload'')
          else Inr (Some (\<lparr>fr_type = t, fr_flags = fl,
                           fr_payload = take len (drop HEADER_LEN bs)\<rparr>, HEADER_LEN + len)))"

lemma decode_from_spec:
  assumes "healthy s"
  shows "fst (decode_from s) = map_sum id (map_option fst) (decode_bytes (pending_bytes s))"
    and "decode_bytes (pending_bytes s) = Inr (Some (f, n)) \<Longrightarrow>
      healthy (snd (decode_from s)) \<and> pending_bytes (snd (decode_from s)) = drop n (pending_bytes s)"
proof -
  let ?p = "pending_bytes s"
  obtain s1 where s1: "healthy s1" "pending_bytes s1 = drop HEADER_LEN ?p"
    "read_full s HEADER_LEN [] =
      (Inr (if HEADER_LEN \<le> length ?p then Full (take HEADER_LEN ?p)
            else if ?p = [] then Eof else Partial), s1)"
    using read_full_healthy [OF assms, of HEADER_LEN "[]"] by auto
  show "fst (decode_from s) = map_sum id (map_option fst) (decode_bytes ?p)"
    and "decode_bytes ?p = Inr (Some (f, n)) \<Longrightarrow>
      healthy (snd (decode_from s)) \<and> pending_bytes (snd (decode_from s)) = drop n ?p"
  proof -
    have nz: "HEADER_LEN \<noteq> 0" by (simp add: HEADER_LEN_def)
    have body: "\<exists>s2. healthy s2 \<and> pending_bytes s2 = drop (HEADER_LEN + len) ?p \<and>
        read_full s1 len [] =
          (Inr (if HEADER_LEN + len \<le> length ?p then Full (take len (drop HEADER_LEN ?p))
                else if drop HEADER_LEN ?p = [] then Eof else Partial), s2)"
      if "HEADER_LEN \<le> length ?p" for len
      using read_full_healthy [OF s1(1), of len "[]"] that
      by (auto simp: s1(2) add.commute le_diff_conv2)
    show "fst (decode_from s) = map_sum id (map_option fst) (decode_bytes ?p)"
    proof (cases "HEADER_LEN \<le> length ?p \<and> is_ok (decode_header (take HEADER_LEN ?p))")
      case True
      then obtain t fl len where h: "decode_header (take HEADER_LEN ?p) = Inr (t, fl, len)"
        by (cases "decode_header (take HEADER_LEN ?p)") auto
      obtain s2 where "healthy s2" "pending_bytes s2 = drop (HEADER_LEN + len) ?p"
        "read_full s1 len [] =
          (Inr (if HEADER_LEN + len \<le> length ?p then Full (take len (drop HEADER_LEN ?p))
                else if drop HEADER_LEN ?p = [] then Eof else Partial), s2)"
        using body True by blast
      then show ?thesis using True s1(3) h nz by (auto simp: decode_from_def decode_bytes_def)
    next
      case False
      then show ?thesis using s1(3) nz
        by (auto simp: decode_from_def decode_bytes_def split: sum.split)
    qed
    assume d: "decode_bytes ?p = Inr (Some (f, n))"
    then obtain t fl len where h: "HEADER_LEN \<le> length ?p"
      "decode_header (take HEADER_LEN ?p) = Inr (t, fl, len)" "n = HEADER_LEN + len"
      "HEADER_LEN + len \<le> length ?p"
      by (auto simp: decode_bytes_def split: if_splits sum.splits)
    with body [of len] s1(3)
    show "healthy (snd (decode_from s)) \<and> pending_bytes (snd (decode_from s)) = drop n ?p"
      by (auto simp: decode_from_def)
  qed
qed


section \<open>Encoding and decoding are inverse\<close>

definition frame_ok :: "frame \<Rightarrow> bool" where
  "frame_ok f \<longleftrightarrow> fr_flags f = 0 \<and> length (fr_payload f) \<le> MAX_PAYLOAD"

lemma length_MAGIC [simp]: "length MAGIC = 4"
  by (simp add: MAGIC_def)

lemma length_encode_frame [simp]: "length (encode_frame f) = HEADER_LEN + length (fr_payload f)"
  by (simp add: encode_frame_def HEADER_LEN_def)

lemma unat_len_u32: "n \<le> MAX_PAYLOAD \<Longrightarrow> unat (word_of_nat n :: u32) = n"
  by (simp add: MAX_PAYLOAD_def unat_of_nat take_bit_eq_mod)

lemma list_of_four: "length xs = 4 \<Longrightarrow> [xs ! 0, xs ! 1, xs ! 2, xs ! 3] = xs"
  by (rule nth_equalityI) (auto simp: less_Suc_eq numeral_eq_Suc)

lemma decode_header_bytes:
  assumes "length l = 4"
  shows "decode_header (MAGIC @ [t, fl] @ l) =
     (if fl \<noteq> 0 then Inl ''unknown frame flags''
      else if be_val l > MAX_PAYLOAD then Inl ''payload too large'' else Inr (t, fl, be_val l))"
  using list_of_four [OF assms]
  by (auto simp: decode_header_def MAGIC_def FLAGS_KNOWN_def Let_def numeral_eq_Suc)

lemma decode_bytes_encode:
  assumes "frame_ok f"
  shows "decode_bytes (encode_frame f @ rest) = Inr (Some (f, length (encode_frame f)))"
proof -
  let ?l = "be_bytes 4 (unat (word_of_nat (length (fr_payload f)) :: u32))"
  have len: "be_val ?l = length (fr_payload f)"
    using assms by (simp add: frame_ok_def unat_len_u32 MAX_PAYLOAD_def)
  have split: "encode_frame f @ rest = (MAGIC @ [fr_type f, fr_flags f] @ ?l) @ fr_payload f @ rest"
    by (simp add: encode_frame_def)
  have hd: "take HEADER_LEN (encode_frame f @ rest) = MAGIC @ [fr_type f, fr_flags f] @ ?l"
    "drop HEADER_LEN (encode_frame f @ rest) = fr_payload f @ rest"
    unfolding split by (simp_all add: HEADER_LEN_def)
  have "decode_header (MAGIC @ [fr_type f, fr_flags f] @ ?l) = Inr (fr_type f, fr_flags f, length (fr_payload f))"
    using assms by (subst decode_header_bytes) (auto simp: frame_ok_def len simp del: be_val_be_bytes)
  moreover have "encode_frame f @ rest \<noteq> []" by (simp add: encode_frame_def)
  ultimately show ?thesis
    unfolding decode_bytes_def hd by (simp add: HEADER_LEN_def)
qed

lemma decode_header_cases:
  assumes "decode_header h = Inr (t, fl, len)" "length h = 10"
  shows "fl = 0 \<and> len \<le> MAX_PAYLOAD \<and> h = MAGIC @ [t, fl] @ be_bytes 4 len"
proof -
  have m: "take 4 h = MAGIC" using assms(1) by (auto simp: decode_header_def split: if_splits)
  have split: "h = take 4 h @ [h ! 4, h ! 5] @ drop 6 h"
  proof -
    have "drop 4 h = h ! 4 # h ! 5 # drop 6 h"
      using assms(2) Cons_nth_drop_Suc [of 4 h] Cons_nth_drop_Suc [of 5 h] by simp
    then show ?thesis using append_take_drop_id [of 4 h] by simp
  qed
  have l: "length (drop 6 h) = 4" using assms(2) by simp
  have "h = MAGIC @ [h ! 4, h ! 5] @ drop 6 h" using split m by simp
  then have "decode_header h = decode_header (MAGIC @ [h ! 4, h ! 5] @ drop 6 h)" by simp
  then have eq: "fl = 0" "len \<le> MAX_PAYLOAD" "t = h ! 4" "fl = h ! 5" "len = be_val (drop 6 h)"
    using assms(1) decode_header_bytes [OF l] by (auto split: if_splits)
  moreover have "be_bytes 4 (be_val (drop 6 h)) = drop 6 h"
    using be_bytes_be_val [of "drop 6 h"] l by simp
  ultimately show ?thesis using split m by simp
qed

lemma decode_bytes_canonical:
  assumes "decode_bytes bs = Inr (Some (f, n))"
  shows "frame_ok f \<and> n = length (encode_frame f) \<and> take n bs = encode_frame f"
proof -
  obtain t fl len where h: "decode_header (take HEADER_LEN bs) = Inr (t, fl, len)"
    "HEADER_LEN + len \<le> length bs" "n = HEADER_LEN + len"
    "f = \<lparr>fr_type = t, fr_flags = fl, fr_payload = take len (drop HEADER_LEN bs)\<rparr>"
    using assms by (auto simp: decode_bytes_def split: if_splits sum.splits)
  then have c: "fl = 0 \<and> len \<le> MAX_PAYLOAD \<and> take HEADER_LEN bs = MAGIC @ [t, fl] @ be_bytes 4 len"
    by (intro decode_header_cases) (auto simp: HEADER_LEN_def)
  have "take n bs = take HEADER_LEN bs @ take len (drop HEADER_LEN bs)" using h by (simp add: take_add)
  then have "take n bs = MAGIC @ [t, fl] @ be_bytes 4 len @ take len (drop HEADER_LEN bs)"
    using c by simp
  moreover have "length (fr_payload f) = len" using h by simp
  ultimately show ?thesis using h c
    by (simp add: frame_ok_def encode_frame_def unat_len_u32 HEADER_LEN_def)
qed

end
