(* ===== verification/Messages.thy ===== *)
theory Messages
  imports Frames
begin

text \<open>
  The typed messages of \<open>protocol/src/message/\<close>: the geometry types with their codecs
  (\<open>geometry.rs\<close>) and the seventeen messages with the frame type of each, the encoder and
  the decoder (\<open>mod.rs\<close>).  The \<open>scale\<close> of a screen is kept as the 32 bits of its IEEE
  number, which is all the protocol reads of it.
\<close>

section \<open>Geometry\<close>

record screen_info =
  si_width :: u32
  si_height :: u32
  si_scale :: u32

definition F32_ONE :: u32 where "F32_ONE = 0x3F800000"

definition default_screen_info :: screen_info where
  "default_screen_info = \<lparr>si_width = 1920, si_height = 1080, si_scale = F32_ONE\<rparr>"

definition MAX_DIMENSION :: u32 where "MAX_DIMENSION = 32768"

text \<open>\<open>is_finite\<close>, and \<open><= 0.0\<close> of a number that is not a NaN.\<close>

definition f32_is_finite :: "u32 \<Rightarrow> bool" where
  "f32_is_finite b \<longleftrightarrow> and (drop_bit 23 b) 0xFF \<noteq> 0xFF"

definition f32_le_zero :: "u32 \<Rightarrow> bool" where
  "f32_le_zero b \<longleftrightarrow> b = 0 \<or> drop_bit 31 b \<noteq> 0"

definition put_screen_info :: "screen_info \<Rightarrow> byte list" where
  "put_screen_info i = put_u32 (si_width i) @ put_u32 (si_height i) @ put_u32 (si_scale i)"

definition get_screen_info :: "screen_info reader" where
  "get_screen_info =
     rd_bind get_u32 (\<lambda>w. rd_bind get_u32 (\<lambda>h. rd_bind get_u32 (\<lambda>scale.
       if \<not> f32_is_finite scale \<or> f32_le_zero scale
       then rd_fail ''invalid screen scale (must be finite and positive)''
       else rd_return \<lparr>si_width = max (min w MAX_DIMENSION) 1,
                       si_height = max (min h MAX_DIMENSION) 1, si_scale = scale\<rparr>)))"

datatype key_kind = KeyDown | KeyUp | KeyRepeat

fun key_to_id :: "key_kind \<Rightarrow> byte" where
  "key_to_id KeyDown = 0"
| "key_to_id KeyUp = 1"
| "key_to_id KeyRepeat = 2"

definition key_from_id :: "byte \<Rightarrow> key_kind option" where
  "key_from_id i = (if i = 0 then Some KeyDown else if i = 1 then Some KeyUp
     else if i = 2 then Some KeyRepeat else None)"

record rect =
  rx :: int
  ry :: int
  rw :: int
  rh :: int

definition rect_left :: "rect \<Rightarrow> int" where "rect_left r = rx r"
definition rect_right :: "rect \<Rightarrow> int" where "rect_right r = add32 (rx r) (rw r)"
definition rect_top :: "rect \<Rightarrow> int" where "rect_top r = ry r"
definition rect_bottom :: "rect \<Rightarrow> int" where "rect_bottom r = add32 (ry r) (rh r)"

definition rect_contains :: "rect \<Rightarrow> int \<Rightarrow> int \<Rightarrow> bool" where
  "rect_contains r x y \<longleftrightarrow>
     rx r \<le> x \<and> x < add32 (rx r) (rw r) \<and> ry r \<le> y \<and> y < add32 (ry r) (rh r)"

definition rect_center :: "rect \<Rightarrow> int \<times> int" where
  "rect_center r = (add32 (rx r) (tdiv (rw r) 2), add32 (ry r) (tdiv (rh r) 2))"

definition put_rect :: "rect \<Rightarrow> byte list" where
  "put_rect r = put_i32 (rx r) @ put_i32 (ry r) @ put_i32 (rw r) @ put_i32 (rh r)"

definition get_rect :: "rect reader" where
  "get_rect = rd_bind get_i32 (\<lambda>x. rd_bind get_i32 (\<lambda>y. rd_bind get_i32 (\<lambda>w. rd_bind get_i32 (\<lambda>h.
     rd_return \<lparr>rx = x, ry = y, rw = w, rh = h\<rparr>))))"

record screen =
  sc_id :: byte
  sc_name :: string
  sc_rect :: rect

definition overlaps_vertically :: "screen \<Rightarrow> screen \<Rightarrow> bool" where
  "overlaps_vertically s t \<longleftrightarrow>
     rect_top (sc_rect s) < rect_bottom (sc_rect t) \<and> rect_top (sc_rect t) < rect_bottom (sc_rect s)"

definition overlaps_horizontally :: "screen \<Rightarrow> screen \<Rightarrow> bool" where
  "overlaps_horizontally s t \<longleftrightarrow>
     rect_left (sc_rect s) < rect_right (sc_rect t) \<and> rect_left (sc_rect t) < rect_right (sc_rect s)"

definition put_screen :: "screen \<Rightarrow> byte list" where
  "put_screen s = put_u8 (sc_id s) @ put_str (sc_name s) @ put_rect (sc_rect s)"

definition get_screen :: "screen reader" where
  "get_screen = rd_bind get_u8 (\<lambda>i. rd_bind get_str (\<lambda>n. rd_bind get_rect (\<lambda>r.
     rd_return \<lparr>sc_id = i, sc_name = n, sc_rect = r\<rparr>)))"

record layout =
  screens :: "screen list"

definition put_layout :: "layout \<Rightarrow> byte list" where
  "put_layout l = put_u8 (word_of_nat (length (screens l))) @ concat (map put_screen (screens l))"

definition get_layout :: "layout reader" where
  "get_layout = rd_bind get_u8 (\<lambda>n. rd_bind (get_many (unat n) get_screen) (\<lambda>ss.
     rd_return \<lparr>screens = ss\<rparr>))"

section \<open>Messages\<close>

datatype message =
  Hello (h_version: u16) (h_id: string) (h_name: string) (h_info: screen_info)
| Welcome (w_version: u16) (w_id: string) (w_layout: layout) (w_screen: byte)
| ScreenInfoMsg screen_info
| LayoutMsg layout
| Control byte
| Enter byte int int
| Leave byte
| MouseMoveAbs int int
| MouseMoveRel int int
| CursorPos int int
| MouseButton byte bool
| MouseWheel int int
| Key key_kind u32
| ClipboardMsg string "byte list"
| KeepAlive
| ErrorMsg byte string
| Escape

text \<open>The frame type ids of \<open>id::types\<close>.\<close>

fun msg_type :: "message \<Rightarrow> byte" where
  "msg_type (Hello v i n s) = 0x01"
| "msg_type (Welcome v i l s) = 0x02"
| "msg_type (ScreenInfoMsg i) = 0x03"
| "msg_type (LayoutMsg l) = 0x04"
| "msg_type (Control c) = 0x05"
| "msg_type (Enter s x y) = 0x10"
| "msg_type (Leave s) = 0x11"
| "msg_type (MouseMoveAbs x y) = 0x20"
| "msg_type (MouseMoveRel x y) = 0x21"
| "msg_type (CursorPos x y) = 0x14"
| "msg_type (MouseButton b p) = 0x22"
| "msg_type (MouseWheel x y) = 0x23"
| "msg_type (Key k c) = 0x30"
| "msg_type (ClipboardMsg m d) = 0x40"
| "msg_type KeepAlive = 0x7e"
| "msg_type (ErrorMsg c t) = 0x7f"
| "msg_type Escape = 0x13"

fun msg_payload :: "message \<Rightarrow> byte list" where
  "msg_payload (Hello v i n s) = put_u16 v @ put_str i @ put_str n @ put_screen_info s"
| "msg_payload (Welcome v i l s) = put_u16 v @ put_str i @ put_layout l @ put_u8 s"
| "msg_payload (ScreenInfoMsg i) = put_screen_info i"
| "msg_payload (LayoutMsg l) = put_layout l"
| "msg_payload (Control c) = put_u8 c"
| "msg_payload (Enter s x y) = put_u8 s @ put_i32 x @ put_i32 y"
| "msg_payload (Leave s) = put_u8 s"
| "msg_payload (MouseMoveAbs x y) = put_i32 x @ put_i32 y"
| "msg_payload (MouseMoveRel x y) = put_i32 x @ put_i32 y"
| "msg_payload (CursorPos x y) = put_i32 x @ put_i32 y"
| "msg_payload (MouseButton b p) = put_u8 b @ put_u8 (if p then 1 else 0)"
| "msg_payload (MouseWheel x y) = put_i32 x @ put_i32 y"
| "msg_payload (Key k c) = put_u8 (key_to_id k) @ put_u32 c"
| "msg_payload (ClipboardMsg m d) = put_str m @ put_u32 (word_of_nat (length d)) @ d"
| "msg_payload KeepAlive = []"
| "msg_payload (ErrorMsg c t) = put_u8 c @ put_str t"
| "msg_payload Escape = []"

definition to_frame :: "message \<Rightarrow> frame" where
  "to_frame m = new_frame (msg_type m) (msg_payload m)"

definition get_payload :: "byte \<Rightarrow> message reader" where
  "get_payload t =
     (if t = 0x01 then
        rd_bind get_u16 (\<lambda>v. rd_bind get_str (\<lambda>i. rd_bind get_str (\<lambda>n. rd_bind get_screen_info (\<lambda>s.
          rd_return (Hello v i n s)))))
      else if t = 0x02 then
        rd_bind get_u16 (\<lambda>v. rd_bind get_str (\<lambda>i. rd_bind get_layout (\<lambda>l. rd_bind get_u8 (\<lambda>s.
          rd_return (Welcome v i l s)))))
      else if t = 0x03 then rd_bind get_screen_info (\<lambda>i. rd_return (ScreenInfoMsg i))
      else if t = 0x04 then rd_bind get_layout (\<lambda>l. rd_return (LayoutMsg l))
      else if t = 0x05 then rd_bind get_u8 (\<lambda>c. rd_return (Control c))
      else if t = 0x10 then
        rd_bind get_u8 (\<lambda>s. rd_bind get_i32 (\<lambda>x. rd_bind get_i32 (\<lambda>y. rd_return (Enter s x y))))
      else if t = 0x11 then rd_bind get_u8 (\<lambda>s. rd_return (Leave s))
      else if t = 0x20 then rd_bind get_i32 (\<lambda>x. rd_bind get_i32 (\<lambda>y. rd_return (MouseMoveAbs x y)))
      else if t = 0x21 then rd_bind get_i32 (\<lambda>x. rd_bind get_i32 (\<lambda>y. rd_return (MouseMoveRel x y)))
      else if t = 0x14 then rd_bind get_i32 (\<lambda>x. rd_bind get_i32 (\<lambda>y. rd_return (CursorPos x y)))
      else if t = 0x22 then
        rd_bind get_u8 (\<lambda>b. rd_bind get_u8 (\<lambda>p. rd_return (MouseButton b (p \<noteq> 0))))
      else if t = 0x23 then rd_bind get_i32 (\<lambda>x. rd_bind get_i32 (\<lambda>y. rd_return (MouseWheel x y)))
      else if t = 0x30 then
        rd_bind get_u8 (\<lambda>k. case key_from_id k of
            None \<Rightarrow> rd_fail ''bad key kind''
          | Some kind \<Rightarrow> rd_bind get_u32 (\<lambda>c. rd_return (Key kind c)))
      else if t = 0x40 then
        rd_bind get_str (\<lambda>m. rd_bind get_u32 (\<lambda>n. rd_bind (get_bytes (unat n) ''clipboard data'') (\<lambda>d.
          rd_return (ClipboardMsg m d))))
      else if t = 0x7e then rd_return KeepAlive
      else if t = 0x7f then rd_bind get_u8 (\<lambda>c. rd_bind get_str (\<lambda>s. rd_return (ErrorMsg c s)))
      else if t = 0x13 then rd_return Escape
      else rd_fail ''unknown message type'')"

definition from_frame :: "frame \<Rightarrow> wire_error + message" where
  "from_frame f =
     (case get_payload (fr_type f) (new_buf (fr_payload f)) of
        Inl e \<Rightarrow> Inl e
      | Inr (m, r) \<Rightarrow>
          if remaining r \<noteq> 0 then Inl (WireError ''trailing bytes in payload'') else Inr m)"

definition encode_msg :: "message \<Rightarrow> byte list" where
  "encode_msg m = encode_frame (to_frame m)"

definition decode_msg :: "byte list \<Rightarrow> wire_error + message" where
  "decode_msg bs =
     (case decode_from (cursor bs) of
        (Inl e, s) \<Rightarrow> Inl (WireError ''bad frame'')
      | (Inr None, s) \<Rightarrow> Inl (WireError ''no frame'')
      | (Inr (Some f), s) \<Rightarrow>
          if cursor_position bs s \<noteq> length bs then Inl (WireError ''trailing bytes after frame'')
          else from_frame f)"

section \<open>The codecs of the geometry types\<close>

definition screen_info_ok :: "screen_info \<Rightarrow> bool" where
  "screen_info_ok i \<longleftrightarrow> 1 \<le> si_width i \<and> si_width i \<le> MAX_DIMENSION \<and> 1 \<le> si_height i \<and>
     si_height i \<le> MAX_DIMENSION \<and> f32_is_finite (si_scale i) \<and> \<not> f32_le_zero (si_scale i)"

definition rect_in_i32 :: "rect \<Rightarrow> bool" where
  "rect_in_i32 r \<longleftrightarrow> in_i32 (rx r) \<and> in_i32 (ry r) \<and> in_i32 (rw r) \<and> in_i32 (rh r)"

definition screen_ok :: "screen \<Rightarrow> bool" where
  "screen_ok s \<longleftrightarrow> str_ok (sc_name s) \<and> rect_in_i32 (sc_rect s)"

definition layout_ok :: "layout \<Rightarrow> bool" where
  "layout_ok l \<longleftrightarrow> length (screens l) \<le> 255 \<and> list_all screen_ok (screens l)"

interpretation screen_info_codec: codec put_screen_info get_screen_info screen_info_ok
  by unfold_locales
    (simp add: put_screen_info_def get_screen_info_def u32_codec.get_put screen_info_ok_def)

interpretation rect_codec: codec put_rect get_rect rect_in_i32
  by unfold_locales (simp add: put_rect_def get_rect_def i32_codec.get_put rect_in_i32_def)

interpretation screen_codec: codec put_screen get_screen screen_ok
  by unfold_locales
    (simp add: put_screen_def get_screen_def u8_codec.get_put str_codec.get_put
      rect_codec.get_put screen_ok_def)

interpretation layout_codec: codec put_layout get_layout layout_ok
proof unfold_locales
  fix l pre rest assume ok: "layout_ok l"
  then have "unat (word_of_nat (length (screens l)) :: byte) = length (screens l)"
    by (simp add: layout_ok_def unat_of_nat take_bit_eq_mod)
  then show "get_layout (rb_at pre (put_layout l @ rest)) = Inr (l, rb_at (pre @ put_layout l) rest)"
    using ok by (simp add: get_layout_def put_layout_def u8_codec.get_put layout_ok_def
        screen_codec.get_many_put)
qed

section \<open>The codec of the messages\<close>

fun message_ok :: "message \<Rightarrow> bool" where
  "message_ok (Hello v i n s) \<longleftrightarrow> str_ok i \<and> str_ok n \<and> screen_info_ok s"
| "message_ok (Welcome v i l s) \<longleftrightarrow> str_ok i \<and> layout_ok l"
| "message_ok (ScreenInfoMsg i) \<longleftrightarrow> screen_info_ok i"
| "message_ok (LayoutMsg l) \<longleftrightarrow> layout_ok l"
| "message_ok (Enter s x y) \<longleftrightarrow> in_i32 x \<and> in_i32 y"
| "message_ok (MouseMoveAbs x y) \<longleftrightarrow> in_i32 x \<and> in_i32 y"
| "message_ok (MouseMoveRel x y) \<longleftrightarrow> in_i32 x \<and> in_i32 y"
| "message_ok (CursorPos x y) \<longleftrightarrow> in_i32 x \<and> in_i32 y"
| "message_ok (MouseWheel x y) \<longleftrightarrow> in_i32 x \<and> in_i32 y"
| "message_ok (ClipboardMsg m d) \<longleftrightarrow> str_ok m \<and> length d < 2 ^ 32"
| "message_ok (ErrorMsg c t) \<longleftrightarrow> str_ok t"
| "message_ok _ \<longleftrightarrow> True"

lemma key_from_to [simp]: "key_from_id (key_to_id k) = Some k"
  by (cases k) (simp_all add: key_from_id_def)

lemmas get_put_simps =
  u8_codec.get_put u16_codec.get_put u32_codec.get_put i32_codec.get_put str_codec.get_put
  screen_info_codec.get_put layout_codec.get_put bytes_codec

lemma get_payload_put:
  assumes "message_ok m"
  shows "get_payload (msg_type m) (rb_at pre (msg_payload m @ rest)) = Inr (m, rb_at (pre @ msg_payload m) rest)"
proof (cases m)
  case (ClipboardMsg t d)
  have "unat (word_of_nat (length d) :: u32) = length d"
    using assms ClipboardMsg by (simp add: unat_of_nat take_bit_eq_mod)
  then show ?thesis using assms ClipboardMsg
    by (simp add: get_payload_def get_put_simps)
qed (use assms in \<open>simp_all add: get_payload_def get_put_simps\<close>)

lemma from_to_frame: "message_ok m \<Longrightarrow> from_frame (to_frame m) = Inr m"
  using get_payload_put [of m "[]" "[]"]
  by (simp add: from_frame_def to_frame_def new_frame_def new_buf_at remaining_def rb_at_def)

definition sendable :: "message \<Rightarrow> bool" where
  "sendable m \<longleftrightarrow> message_ok m \<and> length (msg_payload m) \<le> MAX_PAYLOAD"

lemma frame_ok_to_frame: "sendable m \<Longrightarrow> frame_ok (to_frame m)"
  by (simp add: sendable_def frame_ok_def to_frame_def new_frame_def)

lemma healthy_cursor [simp]: "healthy (cursor bs) \<longleftrightarrow> bs \<noteq> []"
  by (simp add: cursor_def)

lemma pending_cursor [simp]: "pending_bytes (cursor bs) = bs"
  by (simp add: cursor_def)

text \<open>\<open>Message::decode\<close> through \<open>decode_bytes\<close>.\<close>

lemma decode_msg_spec:
  "decode_msg bs =
     (case decode_bytes bs of
        Inl e \<Rightarrow> Inl (WireError ''bad frame'')
      | Inr None \<Rightarrow> Inl (WireError ''no frame'')
      | Inr (Some (f, n)) \<Rightarrow>
          if n \<noteq> length bs then Inl (WireError ''trailing bytes after frame'') else from_frame f)"
proof (cases "bs = []")
  case True
  have "read_full (cursor []) HEADER_LEN [] = (Inr Eof, [])"
    by (simp add: cursor_def read_full.simps [of "[Chunk []]"] HEADER_LEN_def)
  then show ?thesis using True by (simp add: decode_msg_def decode_from_def decode_bytes_def)
next
  case False
  obtain res s where d: "decode_from (cursor bs) = (res, s)" by (cases "decode_from (cursor bs)")
  have res: "res = map_sum id (map_option fst) (decode_bytes bs)"
    using decode_from_spec(1) [of "cursor bs"] False d by simp
  have "n \<le> length bs \<and> pending_bytes s = drop n bs" if that: "decode_bytes bs = Inr (Some (f, n))" for f n
  proof -
    have "length (take n bs) = n" using decode_bytes_canonical [OF that] by metis
    then show ?thesis using decode_from_spec(2) [of "cursor bs" f n] False d that by simp
  qed
  then show ?thesis using d res
    by (auto simp: decode_msg_def cursor_position_def split: sum.split option.split)
qed


lemma decode_msg_encode_frame:
  assumes "frame_ok f" shows "decode_msg (encode_frame f) = from_frame f"
  using decode_bytes_encode [OF assms, of "[]"] by (simp add: decode_msg_spec)

lemma decode_msg_ok:
  assumes "decode_msg bs = Inr m"
  obtains f where "frame_ok f" "bs = encode_frame f" "from_frame f = Inr m"
proof -
  obtain f n where f: "decode_bytes bs = Inr (Some (f, n))" "n = length bs" "from_frame f = Inr m"
    using assms by (auto simp: decode_msg_spec split: sum.splits option.splits if_splits)
  have "frame_ok f \<and> bs = encode_frame f" using decode_bytes_canonical [OF f(1)] f(2) by simp
  then show ?thesis using that f(3) by blast
qed

section \<open>What a decoder accepts\<close>

interpretation screen_info_validating: validating_reader get_screen_info screen_info_ok
  by unfold_locales
    (auto simp: get_screen_info_def rd_bind_ok screen_info_ok_def MAX_DIMENSION_def split: if_splits)

interpretation rect_validating: validating_reader get_rect rect_in_i32
  by unfold_locales (auto simp: get_rect_def rd_bind_ok rect_in_i32_def dest: i32_validating.sound)

interpretation screen_validating: validating_reader get_screen screen_ok
  by unfold_locales (auto simp: get_screen_def rd_bind_ok screen_ok_def
      dest: str_validating.sound rect_validating.sound)

interpretation layout_validating: validating_reader get_layout layout_ok
proof
  fix r l r' assume "get_layout r = Inr (l, r')"
  then obtain n s ss where n: "get_many (unat (n :: byte)) get_screen s = Inr (ss, r')" "l = \<lparr>screens = ss\<rparr>"
    by (auto simp: get_layout_def rd_bind_ok)
  have "unat n \<le> 255" using byte_less [of n] by linarith
  then show "layout_ok l" using screen_validating.many_sound [OF n(1)] n(2) by (auto simp: layout_ok_def)
qed

lemmas validating_sound =
  i32_validating.sound str_validating.sound screen_info_validating.sound layout_validating.sound
  rd_take_length

lemma get_payload_sound: "get_payload t r = Inr (m, r') \<Longrightarrow> message_ok m"
  unfolding get_payload_def
  by (auto simp: rd_bind_ok get_bytes_def u32_less split: if_splits option.splits
      dest!: validating_sound)

lemma from_frame_sound: "from_frame f = Inr m \<Longrightarrow> message_ok m"
  by (auto simp: from_frame_def split: sum.splits if_splits dest: get_payload_sound)

lemma safe_screen_info [intro!]: "safe_reader get_screen_info"
  unfolding get_screen_info_def by auto

lemma safe_rect [intro!]: "safe_reader get_rect"
  unfolding get_rect_def by auto

lemma safe_screen [intro!]: "safe_reader get_screen"
  unfolding get_screen_def by (auto intro: str_reader.safe_reader_axioms)

lemma safe_layout [intro!]: "safe_reader get_layout"
  unfolding get_layout_def by auto

lemma safe_key: "safe_reader (case k of None \<Rightarrow> rd_fail w | Some x \<Rightarrow> rd_bind get_u32 (\<lambda>c. rd_return (f x c)))"
  by (cases k) auto

interpretation payload_reader: safe_reader "get_payload t" for t
  unfolding get_payload_def
  by (intro safe_if safe_bind safe_return safe_fail safe_key safe_bytes safe_screen_info safe_layout
      safe_primitives str_reader.safe_reader_axioms)

section \<open>Properties\<close>

text \<open>
  C7. Every message that can be sent decodes, from the bytes the encoder wrote for it, to
  itself: all seventeen messages, with strings up to 64 KiB, layouts up to 255 screens and
  payloads up to \<open>MAX_PAYLOAD\<close>.
\<close>
theorem message_round_trip: "sendable m \<Longrightarrow> decode_msg (encode_msg m) = Inr m"
  by (simp add: encode_msg_def decode_msg_encode_frame frame_ok_to_frame from_to_frame sendable_def)

theorem message_round_trip_witness:
  "decode_msg (encode_msg (Hello 3 ''m-1'' ''hp'' default_screen_info))
     = Inr (Hello 3 ''m-1'' ''hp'' default_screen_info)"
  by (rule message_round_trip)
    (simp add: sendable_def str_ok_def str_bytes_def utf8_width_def screen_info_ok_def
      default_screen_info_def MAX_DIMENSION_def F32_ONE_def f32_is_finite_def f32_le_zero_def
      MAX_PAYLOAD_def put_str_def put_screen_info_def put_u16_def put_u32_def)

text \<open>
  C18. Whatever bytes arrive, a message that decodes is well formed (strings are valid UTF-8 of
  at most 64 KiB, dimensions are in 1..32768, the scale is finite and positive, coordinates are
  32-bit), and the bytes were exactly one frame of a known flag set with a payload within the
  cap, so no trailing or missing byte is ever accepted.
\<close>
theorem decoded_is_well_formed:
  "decode_msg bs = Inr m \<Longrightarrow>
     message_ok m \<and> (\<exists>f. bs = encode_frame f \<and> frame_ok f \<and> from_frame f = Inr m)"
  using from_frame_sound by (blast elim: decode_msg_ok)

theorem decoded_is_well_formed_witness: "message_ok (Control 1)"
  using decoded_is_well_formed [of "encode_msg (Control 1)" "Control 1"]
    decode_msg_encode_frame [of "to_frame (Control 1)"] from_to_frame [of "Control 1"]
  by (simp add: encode_msg_def frame_ok_def to_frame_def new_frame_def put_u8_def MAX_PAYLOAD_def)

text \<open>
  C19. \<open>Frame::decode_from\<close> reads the same frame, or the same error, from a stream however the
  bytes are cut into reads, and leaves the same bytes unread after a frame.
\<close>
theorem decode_from_segmentation:
  assumes "healthy s" "healthy t" "pending_bytes s = pending_bytes t"
  shows "fst (decode_from s) = fst (decode_from t) \<and>
    (fst (decode_from s) = Inr (Some f) \<longrightarrow>
      pending_bytes (snd (decode_from s)) = pending_bytes (snd (decode_from t)) \<and>
      pending_bytes s = encode_frame f @ pending_bytes (snd (decode_from s)))"
proof (intro conjI impI)
  show "fst (decode_from s) = fst (decode_from t)" using assms by (simp add: decode_from_spec(1))
  assume "fst (decode_from s) = Inr (Some f)"
  then obtain n where n: "decode_bytes (pending_bytes s) = Inr (Some (f, n))"
    using decode_from_spec(1) [OF assms(1)]
    by (cases "decode_bytes (pending_bytes s)") auto
  note canonical = decode_bytes_canonical [OF n]
  show "pending_bytes (snd (decode_from s)) = pending_bytes (snd (decode_from t))"
    using assms n by (simp add: decode_from_spec(2))
  show "pending_bytes s = encode_frame f @ pending_bytes (snd (decode_from s))"
    using assms decode_from_spec(2) [OF assms(1) n] canonical append_take_drop_id [of n "pending_bytes s"]
    by metis
qed

theorem decode_from_segmentation_witness:
  "fst (decode_from [Chunk [0x4B, 0x56], Chunk [0x4D, 0x31, 0x7e, 0, 0, 0], Chunk [0, 0]])
     = fst (decode_from [Chunk [0x4B, 0x56, 0x4D, 0x31, 0x7e, 0, 0, 0, 0, 0]])"
  using decode_from_segmentation [of "[Chunk [0x4B, 0x56], Chunk [0x4D, 0x31, 0x7e, 0, 0, 0], Chunk [0, 0]]"
      "[Chunk [0x4B, 0x56, 0x4D, 0x31, 0x7e, 0, 0, 0, 0, 0]]"] by simp

text \<open>
  A clipboard above the payload cap can be encoded and sent, but every decoder refuses its
  frame: the sender has no check of its own.
\<close>
theorem oversized_clipboard_refused:
  assumes "str_ok mime" "MAX_PAYLOAD < length data" "length data < 2 ^ 31"
  shows "decode_msg (encode_msg (ClipboardMsg mime data)) = Inl (WireError ''bad frame'')"
proof -
  let ?f = "to_frame (ClipboardMsg mime data)"
  let ?n = "length (fr_payload ?f)"
  let ?l = "be_bytes 4 (unat (word_of_nat ?n :: u32))"
  have n: "MAX_PAYLOAD < ?n" "?n < 2 ^ 32"
    using assms by (auto simp: to_frame_def new_frame_def put_str_def put_u32_def str_ok_def)
  then have len: "be_val ?l = ?n" by (simp add: unat_of_nat take_bit_eq_mod)
  have split: "encode_frame ?f = (MAGIC @ [fr_type ?f, fr_flags ?f] @ ?l) @ fr_payload ?f"
    by (simp add: encode_frame_def)
  have hd: "take HEADER_LEN (encode_frame ?f) = MAGIC @ [fr_type ?f, fr_flags ?f] @ ?l"
    unfolding split by (simp add: HEADER_LEN_def)
  have "fr_flags ?f = 0" by (simp add: to_frame_def new_frame_def)
  then have "decode_header (take HEADER_LEN (encode_frame ?f)) = Inl ''payload too large''"
    unfolding hd using n by (subst decode_header_bytes) (auto simp: len simp del: be_val_be_bytes)
  moreover have "encode_frame ?f \<noteq> []" by (simp add: encode_frame_def)
  ultimately show ?thesis
    by (simp add: encode_msg_def decode_msg_spec decode_bytes_def)
qed

theorem oversized_clipboard_refused_witness:
  "decode_msg (encode_msg (ClipboardMsg ''text/plain'' (replicate 9000000 0))) = Inl (WireError ''bad frame'')"
  by (rule oversized_clipboard_refused)
    (simp_all add: str_ok_def str_bytes_def utf8_width_def MAX_PAYLOAD_def)

end
