(* ===== verification/Transport.thy ===== *)
theory Transport
  imports Messages
begin

text \<open>
  The TCP transport of \<open>core/src/transport.rs\<close> and the datagrams of \<open>core/src/udp.rs\<close>.  The
  socket is the list of the results of its \<open>read\<close> calls (the readers of \<open>Frames\<close>), so every
  segmentation, timeout and reset is a value of it.  The socket options the constructors set
  are not modelled.  \<open>try_decode\<close> and \<open>recv\<close> are \<open>None\<close> where the \<open>expect\<close> of the code panics,
  which a lemma shows never happens.
\<close>

section \<open>The transport\<close>

datatype recv_result = Msg message | NoData | EndOfStream

record transport =
  tr_stream :: "read_ev list"
  tr_buf :: "byte list"

definition open_transport :: "read_ev list \<Rightarrow> transport" where
  "open_transport s = \<lparr>tr_stream = s, tr_buf = []\<rparr>"

text \<open>\<open>windows(4).position(|w| w == MAGIC)\<close>.\<close>

definition find_magic :: "byte list \<Rightarrow> nat option" where
  "find_magic bs = position (\<lambda>i. take 4 (drop i bs) = MAGIC) [0..<length bs - 3]"

definition try_decode :: "byte list \<Rightarrow> ((io_error + message option) \<times> byte list) option" where
  "try_decode buf =
     (if length buf < HEADER_LEN then Some (Inr None, buf)
      else if take 4 buf \<noteq> MAGIC then
        (case find_magic buf of
           Some pos \<Rightarrow> Some (Inr None, drop pos buf)
         | None \<Rightarrow> Some (Inr None, []))
      else
        let len = be_val (take (HEADER_LEN - LEN_OFFSET) (drop LEN_OFFSET buf)) in
        if len > MAX_PAYLOAD then Some (Inl (IoError InvalidData ''frame payload too large''), buf)
        else
          let total = HEADER_LEN + len in
          if length buf < total then Some (Inr None, buf)
          else (case decode_from (cursor (take total buf)) of
              (Inl e, _) \<Rightarrow> Some (Inl e, buf)
            | (Inr None, _) \<Rightarrow> None
            | (Inr (Some f), _) \<Rightarrow>
                (case from_frame f of
                   Inl (WireError w) \<Rightarrow> Some (Inl (IoError OtherError w), drop total buf)
                 | Inr m \<Rightarrow> Some (Inr (Some m), drop total buf))))"

fun stream_size :: "read_ev list \<Rightarrow> nat" where
  "stream_size [] = 0"
| "stream_size (Chunk bs # s) = Suc (length bs) + stream_size s"
| "stream_size (ReadErr e # s) = Suc (stream_size s)"

lemma read_step_smaller:
  "read_step s n = (Inr (b # bs), s') \<Longrightarrow> stream_size s' < stream_size s"
proof (cases "(s, n)" rule: read_step.cases)
  case (3 bs' s1 n')
  assume r: "read_step s n = (Inr (b # bs), s')"
  show ?thesis
  proof (cases "length bs' \<le> n")
    case True then show ?thesis using r 3 by auto
  next
    case False
    then have "take n bs' = b # bs" "s' = Chunk (drop n bs') # s1" using r 3 by auto
    then show ?thesis using 3 False by (cases n) auto
  qed
qed auto

function recv :: "transport \<Rightarrow> ((io_error + recv_result) \<times> transport) option" where
  "recv t =
     (case try_decode (tr_buf t) of
        None \<Rightarrow> None
      | Some (Inl e, buf) \<Rightarrow> Some (Inl e, t\<lparr>tr_buf := buf\<rparr>)
      | Some (Inr (Some m), buf) \<Rightarrow> Some (Inr (Msg m), t\<lparr>tr_buf := buf\<rparr>)
      | Some (Inr None, buf) \<Rightarrow>
          (case read_step (tr_stream t) 512 of
             (Inr [], s) \<Rightarrow>
               Some (if buf = [] then Inr EndOfStream else Inl (IoError OtherError ''eof mid-frame''),
                 \<lparr>tr_stream = s, tr_buf = buf\<rparr>)
           | (Inr (b # bs), s) \<Rightarrow> recv \<lparr>tr_stream = s, tr_buf = buf @ b # bs\<rparr>
           | (Inl e, s) \<Rightarrow>
               Some (if err_kind e = WouldBlock \<or> err_kind e = TimedOut then Inr NoData
                     else if err_kind e = ConnectionReset \<or> err_kind e = ConnectionAborted then Inr EndOfStream
                     else Inl e,
                 \<lparr>tr_stream = s, tr_buf = buf\<rparr>)))"
  by pat_completeness auto
termination
  by (relation "measure (\<lambda>t. stream_size (tr_stream t))") (auto dest!: read_step_smaller [OF sym])

declare recv.simps [simp del]

definition send_msg :: "message \<Rightarrow> byte list" where
  "send_msg m = encode_msg m"

section \<open>Datagrams\<close>

definition ENVELOPE_LEN :: nat where "ENVELOPE_LEN = 1 + 4"

definition pack :: "byte \<Rightarrow> u32 \<Rightarrow> message \<Rightarrow> byte list" where
  "pack i seq m = [i] @ be_bytes 4 (unat seq) @ encode_msg m"

record datagram =
  dg_id :: byte
  dg_seq :: u32
  dg_msg :: message

definition unpack :: "byte list \<Rightarrow> datagram option" where
  "unpack bs =
     (if length bs < ENVELOPE_LEN then None
      else case decode_msg (drop ENVELOPE_LEN bs) of
        Inl e \<Rightarrow> None
      | Inr m \<Rightarrow> Some \<lparr>dg_id = bs ! 0, dg_seq = word_of_nat (be_val (take 4 (drop 1 bs))), dg_msg = m\<rparr>)"

definition is_newer :: "u32 \<Rightarrow> u32 \<Rightarrow> bool" where
  "is_newer seq last_seq \<longleftrightarrow> seq \<noteq> last_seq \<and> seq - last_seq < push_bit 31 1"

section \<open>Decoding from the buffer\<close>

lemma decode_bytes_None: "decode_bytes bs = Inr None \<Longrightarrow> bs = []"
  by (auto simp: decode_bytes_def split: if_splits sum.splits)

lemma decode_from_cursor:
  "bs \<noteq> [] \<Longrightarrow> fst (decode_from (cursor bs)) = map_sum id (map_option fst) (decode_bytes bs)"
  using decode_from_spec(1) [of "cursor bs"] by simp

lemma try_decode_total: "try_decode buf \<noteq> None"
proof -
  have "fst (decode_from (cursor (take n buf))) \<noteq> Inr None" if "n \<le> length buf" "0 < n" for n
  proof -
    have ne: "take n buf \<noteq> []" using that by auto
    have "map_sum id (map_option fst) r = Inr None \<Longrightarrow> r = Inr None" for r :: "io_error + (frame \<times> nat) option"
      by (cases r) auto
    then show ?thesis using decode_bytes_None [of "take n buf"] ne
      by (auto simp: decode_from_cursor)
  qed
  then have "decode_from (cursor (take (HEADER_LEN + len) buf)) \<noteq> (Inr None, s)"
    if "\<not> length buf < HEADER_LEN + len" for len s
    using that by (metis HEADER_LEN_def add_gr_0 fst_conv linorder_not_less zero_less_numeral)
  then show ?thesis
    unfolding try_decode_def Let_def
    by (auto split: option.split prod.split sum.split wire_error.split)
qed

text \<open>The bytes of a sendable message at the front of the stream.\<close>

lemma encode_msg_split:
  "encode_msg m = MAGIC @ [msg_type m, 0]
     @ be_bytes 4 (unat (word_of_nat (length (msg_payload m)) :: u32)) @ msg_payload m"
  by (simp add: encode_msg_def encode_frame_def to_frame_def new_frame_def)

lemma encode_msg_not_Nil [simp]: "encode_msg m \<noteq> []"
  by (simp add: encode_msg_split)

lemma length_encode_msg [simp]: "length (encode_msg m) = HEADER_LEN + length (msg_payload m)"
  by (simp add: encode_msg_def to_frame_def new_frame_def)

lemma take_prefix: "xs @ p = ys @ rest \<Longrightarrow> n \<le> length xs \<Longrightarrow> n \<le> length ys \<Longrightarrow> take n xs = take n ys"
  by (metis append_take_drop_id same_append_eq take_append take_all_iff append_eq_append_conv_if diff_is_0_eq take0 append_Nil2)

lemma header_of_msg:
  assumes "sendable m" "buf @ p = encode_msg m @ rest" "HEADER_LEN \<le> length buf"
  shows "take 4 buf = MAGIC"
    and "be_val (take (HEADER_LEN - LEN_OFFSET) (drop LEN_OFFSET buf)) = length (msg_payload m)"
proof -
  have t: "take HEADER_LEN buf = take HEADER_LEN (encode_msg m)"
    using assms by (intro take_prefix) auto
  have h: "take HEADER_LEN (encode_msg m) = MAGIC @ [msg_type m, 0]
      @ be_bytes 4 (unat (word_of_nat (length (msg_payload m)) :: u32))"
    unfolding encode_msg_split by (simp add: HEADER_LEN_def)
  have "take 4 buf = take 4 (take HEADER_LEN buf)" by (simp add: HEADER_LEN_def)
  also have "\<dots> = MAGIC" unfolding t h by simp
  finally show "take 4 buf = MAGIC" .
  have "take (HEADER_LEN - LEN_OFFSET) (drop LEN_OFFSET buf) = drop LEN_OFFSET (take HEADER_LEN buf)"
    by (simp add: drop_take)
  also have "\<dots> = be_bytes 4 (unat (word_of_nat (length (msg_payload m)) :: u32))"
    unfolding t h by (simp add: LEN_OFFSET_def)
  finally show "be_val (take (HEADER_LEN - LEN_OFFSET) (drop LEN_OFFSET buf)) = length (msg_payload m)"
    using assms(1) by (simp add: sendable_def unat_len_u32 MAX_PAYLOAD_def)
qed

lemma try_decode_partial:
  assumes "sendable m" "buf @ p = encode_msg m @ rest" "length buf < length (encode_msg m)"
  shows "try_decode buf = Some (Inr None, buf)"
proof (cases "length buf < HEADER_LEN")
  case True then show ?thesis by (simp add: try_decode_def)
next
  case False
  then show ?thesis using header_of_msg [OF assms(1,2)] assms
    by (simp add: try_decode_def sendable_def)
qed

lemma try_decode_whole:
  assumes "sendable m" "buf @ p = encode_msg m @ rest" "length (encode_msg m) \<le> length buf"
  shows "try_decode buf = Some (Inr (Some m), drop (length (encode_msg m)) buf)"
proof -
  have h: "take 4 buf = MAGIC"
    "be_val (take (HEADER_LEN - LEN_OFFSET) (drop LEN_OFFSET buf)) = length (msg_payload m)"
    using header_of_msg [OF assms(1,2)] assms(3) by auto
  have "take (length (encode_msg m)) buf = take (length (encode_msg m)) (encode_msg m)"
    using assms by (intro take_prefix) auto
  then have t: "take (HEADER_LEN + length (msg_payload m)) buf = encode_msg m" by simp
  have "decode_bytes (encode_msg m) = Inr (Some (to_frame m, length (encode_msg m)))"
    using decode_bytes_encode [OF frame_ok_to_frame [OF assms(1)], of "[]"] by (simp add: encode_msg_def)
  then have "fst (decode_from (cursor (encode_msg m))) = Inr (Some (to_frame m))"
    by (simp add: decode_from_cursor)
  then obtain s where d: "decode_from (cursor (encode_msg m)) = (Inr (Some (to_frame m)), s)"
    by (cases "decode_from (cursor (encode_msg m))") auto
  have "from_frame (to_frame m) = Inr m" using assms(1) by (simp add: from_to_frame sendable_def)
  then show ?thesis using h t d assms
    by (simp add: try_decode_def sendable_def)
qed

section \<open>Receiving\<close>

lemma recv_total: "recv t \<noteq> None"
proof (induction t rule: recv.induct)
  case (1 t)
  show ?case
  proof (cases "try_decode (tr_buf t)")
    case None then show ?thesis using try_decode_total by blast
  next
    case (Some rb)
    then show ?thesis
      using 1 by (subst recv.simps) (auto split: sum.split option.split prod.split list.split)
  qed
qed

text \<open>What the peer has sent and the receiver has not delivered yet.\<close>

definition undelivered :: "transport \<Rightarrow> byte list" where
  "undelivered t = tr_buf t @ pending_bytes (tr_stream t)"

lemma recv_delivers:
  assumes "healthy (tr_stream t)" "undelivered t = encode_msg m @ rest" "sendable m"
  shows "\<exists>t'. recv t = Some (Inr (Msg m), t') \<and> healthy (tr_stream t') \<and> undelivered t' = rest"
  using assms(1,2)
proof (induction t rule: recv.induct)
  case (1 t)
  show ?case
  proof (cases "length (encode_msg m) \<le> length (tr_buf t)")
    case True
    have d: "try_decode (tr_buf t) = Some (Inr (Some m), drop (length (encode_msg m)) (tr_buf t))"
      using 1 assms(3) True by (intro try_decode_whole) (auto simp: undelivered_def)
    have "drop (length (encode_msg m)) (undelivered t) = rest" using 1 by simp
    then have "undelivered (t\<lparr>tr_buf := drop (length (encode_msg m)) (tr_buf t)\<rparr>) = rest"
      using True by (simp add: undelivered_def)
    then show ?thesis using d 1 by (subst recv.simps) simp
  next
    case False
    then have d: "try_decode (tr_buf t) = Some (Inr None, tr_buf t)"
      using 1 assms(3) by (intro try_decode_partial) (auto simp: undelivered_def)
    have "pending_bytes (tr_stream t) \<noteq> []"
    proof
      assume "pending_bytes (tr_stream t) = []"
      then have "length (tr_buf t) = length (encode_msg m @ rest)"
        using 1 by (simp add: undelivered_def)
      then show False using False by simp
    qed
    then obtain b bs s where r: "read_step (tr_stream t) 512 = (Inr (b # bs), s)" "healthy s"
      "pending_bytes (tr_stream t) = (b # bs) @ pending_bytes s"
      using 1 read_step_healthy [of "tr_stream t" 512] by (metis zero_less_numeral)
    let ?t = "\<lparr>tr_stream = s, tr_buf = tr_buf t @ b # bs\<rparr>"
    have "undelivered ?t = encode_msg m @ rest" using 1 r by (simp add: undelivered_def)
    then have "\<exists>t'. recv ?t = Some (Inr (Msg m), t') \<and> healthy (tr_stream t') \<and> undelivered t' = rest"
      using 1 d r by simp
    moreover have "recv t = recv ?t" using d r by (subst recv.simps) simp
    ultimately show ?thesis by simp
  qed
qed

fun recv_many :: "nat \<Rightarrow> transport \<Rightarrow> (recv_result list \<times> transport) option" where
  "recv_many 0 t = Some ([], t)"
| "recv_many (Suc n) t =
     (case recv t of
        Some (Inr r, t') \<Rightarrow>
          (case recv_many n t' of None \<Rightarrow> None | Some (rs, t'') \<Rightarrow> Some (r # rs, t''))
      | _ \<Rightarrow> None)"

lemma recv_at_end: "undelivered t = [] \<Longrightarrow> healthy (tr_stream t) \<Longrightarrow> \<exists>t'. recv t = Some (Inr EndOfStream, t')"
  by (subst recv.simps)
    (auto simp: undelivered_def healthy_eof try_decode_def HEADER_LEN_def)

section \<open>Properties\<close>

text \<open>
  C8. The transport delivers every message that was sent, in the order it was sent, whatever the
  segmentation of the byte stream, and reports the end of the stream after the last one.
\<close>
theorem transport_delivers_in_order:
  assumes "list_all sendable ms" "healthy s" "pending_bytes s = concat (map send_msg ms)"
  shows "\<exists>t t'. recv_many (length ms) (open_transport s) = Some (map Msg ms, t) \<and>
    recv t = Some (Inr EndOfStream, t')"
proof -
  have "\<exists>t'. recv_many (length ms) t = Some (map Msg ms, t') \<and> healthy (tr_stream t') \<and> undelivered t' = []"
    if "list_all sendable ms" "healthy (tr_stream t)" "undelivered t = concat (map send_msg ms)" for t
    using that
  proof (induction ms arbitrary: t)
    case Nil then show ?case by simp
  next
    case (Cons m ms)
    then obtain t1 where t1: "recv t = Some (Inr (Msg m), t1)" "healthy (tr_stream t1)"
      "undelivered t1 = concat (map send_msg ms)"
      using recv_delivers [of t m "concat (map send_msg ms)"] unfolding send_msg_def by auto
    then obtain t2 where "recv_many (length ms) t1 = Some (map Msg ms, t2) \<and>
        healthy (tr_stream t2) \<and> undelivered t2 = []"
      using Cons by auto
    then show ?case using t1 by auto
  qed
  from this [of "open_transport s"] assms show ?thesis
    using recv_at_end by (fastforce simp: open_transport_def undelivered_def)
qed

theorem transport_delivers_in_order_witness:
  "\<exists>t. recv_many 2 (open_transport [Chunk (take 7 (encode_msg KeepAlive @ encode_msg (Control 1))),
       Chunk (drop 7 (encode_msg KeepAlive @ encode_msg (Control 1)))])
     = Some ([Msg KeepAlive, Msg (Control 1)], t)"
  using transport_delivers_in_order [of "[KeepAlive, Control 1]"
      "[Chunk (take 7 (encode_msg KeepAlive @ encode_msg (Control 1))),
        Chunk (drop 7 (encode_msg KeepAlive @ encode_msg (Control 1)))]"]
  by (auto simp: sendable_def put_u8_def MAX_PAYLOAD_def send_msg_def HEADER_LEN_def numeral_2_eq_2
      simp flip: append_assoc)

text \<open>
  A header that announces more than \<open>MAX_PAYLOAD\<close> bytes is an error as soon as the header is
  there: nothing of the body is read, whatever the peer goes on to send.
\<close>
theorem oversized_frame_refused:
  assumes "MAX_PAYLOAD < unat n"
  shows "recv \<lparr>tr_stream = s, tr_buf = MAGIC @ [t, fl] @ put_u32 n @ body\<rparr>
    = Some (Inl (IoError InvalidData ''frame payload too large''),
        \<lparr>tr_stream = s, tr_buf = MAGIC @ [t, fl] @ put_u32 n @ body\<rparr>)"
proof -
  have "be_val (take (HEADER_LEN - LEN_OFFSET) (drop LEN_OFFSET (MAGIC @ [t, fl] @ put_u32 n @ body))) = unat n"
    by (simp add: HEADER_LEN_def LEN_OFFSET_def put_u32_def)
  then have "try_decode (MAGIC @ [t, fl] @ put_u32 n @ body)
      = Some (Inl (IoError InvalidData ''frame payload too large''), MAGIC @ [t, fl] @ put_u32 n @ body)"
    unfolding try_decode_def using assms by (simp add: HEADER_LEN_def put_u32_def)
  then show ?thesis by (subst recv.simps) simp
qed

theorem oversized_frame_refused_witness:
  "\<exists>t. recv \<lparr>tr_stream = [Chunk [1, 2, 3]], tr_buf = MAGIC @ [1, 0] @ put_u32 0xFFFFFFFF @ []\<rparr>
     = Some (Inl (IoError InvalidData ''frame payload too large''), t)"
  using oversized_frame_refused [of "0xFFFFFFFF" "[Chunk [1, 2, 3]]" 1 0 "[]"]
  by (simp add: MAX_PAYLOAD_def)

text \<open>
  One stray byte in front of a message costs it: the resynchronisation drops the byte and
  reports no message although a whole frame is in the buffer, so \<open>recv\<close> waits for more bytes, and
  at the end of the stream the delivered message is lost with an error.
\<close>
theorem resync_withholds_frame:
  assumes "sendable m" "g \<noteq> 0x4B"
  shows "try_decode (g # encode_msg m) = Some (Inr None, encode_msg m) \<and>
    recv \<lparr>tr_stream = [], tr_buf = g # encode_msg m\<rparr>
      = Some (Inl (IoError OtherError ''eof mid-frame''), \<lparr>tr_stream = [], tr_buf = encode_msg m\<rparr>)"
proof -
  have t4: "take 4 (encode_msg m) = MAGIC" unfolding encode_msg_split by simp
  have g4: "take 4 (g # encode_msg m) \<noteq> MAGIC" using assms(2) by (simp add: MAGIC_def)
  have "[0..<length (g # encode_msg m) - 3] = 0 # 1 # [2..<length (g # encode_msg m) - 3]"
    by (simp add: HEADER_LEN_def upt_conv_Cons numeral_2_eq_2)
  then have "find_magic (g # encode_msg m) = Some 1"
    using t4 g4 by (simp add: find_magic_def)
  then have d: "try_decode (g # encode_msg m) = Some (Inr None, encode_msg m)"
    using g4 by (simp add: try_decode_def HEADER_LEN_def)
  then show ?thesis by (subst recv.simps) simp
qed

theorem resync_withholds_frame_witness:
  "try_decode (0 # encode_msg KeepAlive) = Some (Inr None, encode_msg KeepAlive)"
  using resync_withholds_frame [of KeepAlive 0] by (simp add: sendable_def)


section \<open>Sequence numbers\<close>

lemma seq_offset: "seq = last_seq + word_of_nat (unat (seq - last_seq))" for seq last_seq :: u32
  by simp

lemma is_newer_unat: "is_newer seq last_seq \<longleftrightarrow> 0 < unat (seq - last_seq) \<and> unat (seq - last_seq) < 2147483648"
proof -
  have "seq = last_seq \<longleftrightarrow> unat (seq - last_seq) = 0" by (simp add: unat_eq_0)
  moreover have "seq - last_seq < push_bit 31 1 \<longleftrightarrow> unat (seq - last_seq) < 2147483648"
    by (simp add: word_less_nat_alt push_bit_eq_mult)
  ultimately show ?thesis by (auto simp: is_newer_def)
qed

lemma seq_diff_nat:
  assumes "b \<le> a" "a - b < 2 ^ 32"
  shows "unat (word_of_nat a - word_of_nat b :: u32) = a - b"
proof -
  have "(word_of_nat a - word_of_nat b :: u32) = word_of_nat (a - b)" using assms(1) by (simp add: of_nat_diff)
  then show ?thesis using assms(2) by (simp add: unat_of_nat take_bit_eq_mod)
qed

lemma is_newer_nat:
  assumes "b < a + 2147483648" "a < b + 2147483648"
  shows "is_newer (word_of_nat a) (word_of_nat b) \<longleftrightarrow> b < a"
proof (cases "b \<le> a")
  case True
  then have "unat (word_of_nat a - word_of_nat b :: u32) = a - b" using assms by (intro seq_diff_nat) auto
  then show ?thesis using True assms by (auto simp: is_newer_unat)
next
  case False
  have w: "(word_of_nat a :: u32) = word_of_nat (a + 4294967296)" by simp
  have "unat (word_of_nat (a + 4294967296) - word_of_nat b :: u32) = a + 4294967296 - b"
    using False assms by (intro seq_diff_nat) auto
  then have "unat (word_of_nat a - word_of_nat b :: u32) = a + 4294967296 - b"
    by (simp only: w [symmetric])
  then have "\<not> unat (word_of_nat a - word_of_nat b :: u32) < 2147483648" using assms by simp
  then show ?thesis using False by (simp add: is_newer_unat)
qed

text \<open>What a receiver applies of the datagrams that arrive, given the last number it has seen.\<close>

fun apply_newer :: "u32 \<Rightarrow> u32 list \<Rightarrow> u32 list" where
  "apply_newer last_seq [] = []"
| "apply_newer last_seq (s # ss) =
     (if is_newer s last_seq then s # apply_newer s ss else apply_newer last_seq ss)"

text \<open>
  However a network reorders, repeats or drops datagrams, a receiver that keeps the newest
  sequence number applies them in strictly increasing order of sending, each at most once; the
  counter may wrap, as long as the numbers in flight span less than half its range.
\<close>
theorem apply_newer_increasing:
  assumes "\<forall>n \<in> set ns. base \<le> n \<and> n < base + 2147483648" "base \<le> prev" "prev < base + 2147483648"
  shows "\<exists>ks. apply_newer (word_of_nat prev) (map word_of_nat ns) = map word_of_nat ks \<and>
    sorted_wrt (<) (prev # ks) \<and> set ks \<subseteq> set ns"
  using assms
proof (induction ns arbitrary: prev)
  case Nil then show ?case by simp
next
  case (Cons n ns)
  have new: "is_newer (word_of_nat n) (word_of_nat prev) \<longleftrightarrow> prev < n"
    using Cons.prems by (intro is_newer_nat) auto
  show ?case
  proof (cases "prev < n")
    case True
    then obtain ks where "apply_newer (word_of_nat n) (map word_of_nat ns) = map word_of_nat ks"
      "sorted_wrt (<) (n # ks)" "set ks \<subseteq> set ns"
      using Cons.IH [of n] Cons.prems by auto
    then show ?thesis using True new by (intro exI [of _ "n # ks"]) auto
  next
    case False
    then obtain ks where "apply_newer (word_of_nat prev) (map word_of_nat ns) = map word_of_nat ks"
      "sorted_wrt (<) (prev # ks)" "set ks \<subseteq> set ns"
      using Cons.IH [of prev] Cons.prems by auto
    then show ?thesis using False new by auto
  qed
qed

theorem apply_newer_increasing_witness:
  "\<exists>ks. apply_newer (word_of_nat 4294967295) (map word_of_nat [4294967297, 4294967296, 4294967297])
     = map word_of_nat ks \<and> sorted_wrt (<) (4294967295 # ks)"
proof -
  have "\<forall>n \<in> set [4294967297, 4294967296, 4294967297 :: nat]. 4294967295 \<le> n \<and> n < 4294967295 + 2147483648"
    by simp
  from apply_newer_increasing [OF this order.refl] show ?thesis by fastforce
qed

lemma unpack_pack: "sendable m \<Longrightarrow> unpack (pack i seq m) = Some \<lparr>dg_id = i, dg_seq = seq, dg_msg = m\<rparr>"
  by (simp add: unpack_def pack_def ENVELOPE_LEN_def encode_msg_def decode_msg_encode_frame frame_ok_to_frame
      from_to_frame sendable_def)

text \<open>
  A datagram unpacks to the client id, the sequence number and the message it was packed
  from, and bytes that unpack were exactly an envelope followed by one frame.
\<close>
theorem datagram_round_trip:
  "(sendable m \<longrightarrow> unpack (pack i seq m) = Some \<lparr>dg_id = i, dg_seq = seq, dg_msg = m\<rparr>) \<and>
   (unpack bs = Some d \<longrightarrow> (\<exists>f. frame_ok f \<and> from_frame f = Inr (dg_msg d) \<and>
      bs = [dg_id d] @ be_bytes 4 (unat (dg_seq d)) @ encode_frame f))"
proof (intro conjI impI)
  assume "sendable m"
  then show "unpack (pack i seq m) = Some \<lparr>dg_id = i, dg_seq = seq, dg_msg = m\<rparr>" by (rule unpack_pack)
next
  assume u: "unpack bs = Some d"
  then have len: "5 \<le> length bs" "decode_msg (drop 5 bs) = Inr (dg_msg d)" "dg_id d = bs ! 0"
    "dg_seq d = word_of_nat (be_val (take 4 (drop 1 bs)))"
    by (auto simp: unpack_def ENVELOPE_LEN_def split: if_splits sum.splits)
  obtain f where f: "frame_ok f" "drop 5 bs = encode_frame f" "from_frame f = Inr (dg_msg d)"
    using len(2) by (rule decode_msg_ok)
  have l4: "length (take 4 (drop 1 bs)) = 4" using len(1) by simp
  have "be_val (take 4 (drop 1 bs)) < 2 ^ 32"
    using be_val_less [of "take 4 (drop 1 bs)"] l4 by simp
  then have "unat (dg_seq d) = be_val (take 4 (drop 1 bs))"
    using len(4) by (simp add: unat_of_nat take_bit_eq_mod)
  then have q: "be_bytes 4 (unat (dg_seq d)) = take 4 (drop 1 bs)"
    using be_bytes_be_val [of "take 4 (drop 1 bs)"] l4 by simp
  have "bs = bs ! 0 # drop 1 bs" using len(1) by (cases bs) auto
  also have "drop 1 bs = take 4 (drop 1 bs) @ drop 5 bs"
    using append_take_drop_id [of 4 "drop 1 bs"] by simp
  finally have "bs = [dg_id d] @ be_bytes 4 (unat (dg_seq d)) @ encode_frame f"
    using len(3) q f(2) by simp
  with f show "\<exists>f. frame_ok f \<and> from_frame f = Inr (dg_msg d) \<and>
      bs = [dg_id d] @ be_bytes 4 (unat (dg_seq d)) @ encode_frame f" by blast
qed

theorem datagram_round_trip_witness:
  "unpack (pack 2 7 KeepAlive) = Some \<lparr>dg_id = 2, dg_seq = 7, dg_msg = KeepAlive\<rparr>"
  using datagram_round_trip [of KeepAlive 2 7] by (simp add: sendable_def)

end
