(* ===== verification/Desktop.thy ===== *)
theory Desktop
  imports Messages
begin

text \<open>
  The virtual desktop of \<open>core/src/layout.rs\<close>: lookup of screens, the removal of layout noise
  (\<open>normalized\<close>), the ray cast that chooses the destination of a crossing (\<open>neighbor\<close>), the
  exit edge and the warnings about an arrangement.  \<open>layout\<close> is the record of \<open>Messages\<close>: the
  core type has the same single field.
\<close>

datatype direction = DLeft | DRight | DTop | DBottom

definition EDGE_TOLERANCE :: int where "EDGE_TOLERANCE = 16"

definition near :: "int \<Rightarrow> int \<Rightarrow> int \<Rightarrow> bool" where
  "near edge_a edge_b tol \<longleftrightarrow> abs32 (sub32 edge_a edge_b) \<le> tol"

definition spans_overlap :: "int \<Rightarrow> int \<Rightarrow> int \<Rightarrow> int \<Rightarrow> int \<Rightarrow> bool" where
  "spans_overlap a_lo a_hi b_lo b_hi tol \<longleftrightarrow> sub32 a_lo tol < b_hi \<and> sub32 b_lo tol < a_hi"

text \<open>\<open>v.clamp(lo, hi)\<close>; every call of this module has \<open>lo \<le> hi\<close>, so it never panics.\<close>

definition clamp_i32 :: "int \<Rightarrow> int \<Rightarrow> int \<Rightarrow> int" where
  "clamp_i32 v lo hi = (if v < lo then lo else if hi < v then hi else v)"

section \<open>Normalisation\<close>

text \<open>The new rectangle of \<open>b\<close> next to \<open>a\<close>: the body of the inner loop.\<close>

definition snap_side :: "rect \<Rightarrow> rect \<Rightarrow> rect" where
  "snap_side a b =
     (let align = (\<lambda>nb. if abs32 (sub32 (ry nb) (ry a)) \<le> EDGE_TOLERANCE then nb\<lparr>ry := ry a\<rparr> else nb) in
      if near (rect_right a) (rect_left b) EDGE_TOLERANCE \<and>
         spans_overlap (rect_top a) (rect_bottom a) (rect_top b) (rect_bottom b) EDGE_TOLERANCE
      then align (b\<lparr>rx := rect_right a\<rparr>)
      else if near (rect_right b) (rect_left a) EDGE_TOLERANCE \<and>
         spans_overlap (rect_top a) (rect_bottom a) (rect_top b) (rect_bottom b) EDGE_TOLERANCE
      then align (b\<lparr>rx := sub32 (rect_left a) (rw b)\<rparr>)
      else b)"

definition snap_stack :: "rect \<Rightarrow> rect \<Rightarrow> rect \<Rightarrow> rect" where
  "snap_stack a b nb =
     (let align = (\<lambda>nb. if abs32 (sub32 (rx nb) (rx a)) \<le> EDGE_TOLERANCE then nb\<lparr>rx := rx a\<rparr> else nb) in
      if near (rect_bottom a) (rect_top b) EDGE_TOLERANCE \<and>
         spans_overlap (rect_left a) (rect_right a) (rect_left b) (rect_right b) EDGE_TOLERANCE
      then align (nb\<lparr>ry := rect_bottom a\<rparr>)
      else if near (rect_bottom b) (rect_top a) EDGE_TOLERANCE \<and>
         spans_overlap (rect_left a) (rect_right a) (rect_left b) (rect_right b) EDGE_TOLERANCE
      then align (nb\<lparr>ry := sub32 (rect_top a) (rh b)\<rparr>)
      else nb)"

definition snap_rect :: "rect \<Rightarrow> rect \<Rightarrow> rect" where
  "snap_rect a b = snap_stack a b (snap_side a b)"

definition snap_step :: "nat \<Rightarrow> rect \<Rightarrow> screen list \<times> bool \<Rightarrow> nat \<Rightarrow> screen list \<times> bool" where
  "snap_step i a st j =
     (let (ss, changed) = st in
      if i = j then (ss, changed)
      else let b = sc_rect (ss ! j); nb = snap_rect a b in
        if nb \<noteq> b then (ss[j := (ss ! j)\<lparr>sc_rect := nb\<rparr>], True) else (ss, changed))"

definition snap_row :: "screen list \<times> bool \<Rightarrow> nat \<Rightarrow> screen list \<times> bool" where
  "snap_row st i = foldl (snap_step i (sc_rect (fst st ! i))) st [0..<length (fst st)]"

definition normalize_pass :: "screen list \<Rightarrow> screen list \<times> bool" where
  "normalize_pass ss = foldl snap_row (ss, False) [0..<length ss]"

fun normalize_loop :: "nat \<Rightarrow> screen list \<Rightarrow> screen list" where
  "normalize_loop 0 ss = ss"
| "normalize_loop (Suc n) ss =
     (let (ss', changed) = normalize_pass ss in if changed then normalize_loop n ss' else ss')"

definition normalized :: "layout \<Rightarrow> layout" where
  "normalized l = \<lparr>screens = normalize_loop 8 (screens l)\<rparr>"

section \<open>Lookup and crossing\<close>

definition find_screen :: "layout \<Rightarrow> byte \<Rightarrow> screen option" where
  "find_screen l i = List.find (\<lambda>s. sc_id s = i) (screens l)"

definition screen_at :: "layout \<Rightarrow> int \<Rightarrow> int \<Rightarrow> screen option" where
  "screen_at l x y = List.find (\<lambda>s. rect_contains (sc_rect s) x y) (screens l)"

text \<open>The span of a candidate across the ray, its facing edge, and whether it lies past the edge.\<close>

fun candidate_span :: "direction \<Rightarrow> rect \<Rightarrow> rect \<Rightarrow> int \<times> int \<times> int \<times> bool" where
  "candidate_span DLeft from s =
     (rect_top s, rect_bottom s, rect_right s, rect_right s \<le> add32 (rect_left from) EDGE_TOLERANCE)"
| "candidate_span DRight from s =
     (rect_top s, rect_bottom s, rect_left s, rect_left s \<ge> sub32 (rect_right from) EDGE_TOLERANCE)"
| "candidate_span DTop from s =
     (rect_left s, rect_right s, rect_bottom s, rect_bottom s \<le> add32 (rect_top from) EDGE_TOLERANCE)"
| "candidate_span DBottom from s =
     (rect_left s, rect_right s, rect_top s, rect_top s \<ge> sub32 (rect_bottom from) EDGE_TOLERANCE)"

fun parallel_distance :: "direction \<Rightarrow> rect \<Rightarrow> int \<Rightarrow> int" where
  "parallel_distance DLeft from s_edge = max (sub32 (rect_left from) s_edge) 0"
| "parallel_distance DRight from s_edge = max (sub32 s_edge (rect_right from)) 0"
| "parallel_distance DTop from s_edge = max (sub32 (rect_top from) s_edge) 0"
| "parallel_distance DBottom from s_edge = max (sub32 s_edge (rect_bottom from)) 0"

definition perp_distance :: "int \<Rightarrow> int \<Rightarrow> int \<Rightarrow> int" where
  "perp_distance exit_perp s_lo s_hi =
     (if exit_perp < s_lo then sub32 s_lo exit_perp
      else if exit_perp \<ge> s_hi then sub32 exit_perp (max (sub32 s_hi 1) s_lo) else 0)"

text \<open>The score of a screen, when it is a candidate.\<close>

definition candidate_score :: "byte \<Rightarrow> rect \<Rightarrow> direction \<Rightarrow> int \<Rightarrow> screen \<Rightarrow> (int \<times> int) option" where
  "candidate_score from_id from dir exit_perp s =
     (if sc_id s = from_id then None
      else let (s_lo, s_hi, s_edge, past) = candidate_span dir from (sc_rect s) in
        if \<not> past then None
        else Some (perp_distance exit_perp s_lo s_hi, parallel_distance dir from s_edge))"

definition score_less :: "int \<times> int \<Rightarrow> int \<times> int \<Rightarrow> bool" where
  "score_less a b \<longleftrightarrow> fst a < fst b \<or> (fst a = fst b \<and> snd a < snd b)"

definition better :: "byte \<Rightarrow> rect \<Rightarrow> direction \<Rightarrow> int
    \<Rightarrow> ((int \<times> int) \<times> screen) option \<Rightarrow> screen \<Rightarrow> ((int \<times> int) \<times> screen) option" where
  "better from_id from dir exit_perp best s =
     (case candidate_score from_id from dir exit_perp s of
        None \<Rightarrow> best
      | Some score \<Rightarrow>
          (case best of
             None \<Rightarrow> Some (score, s)
           | Some (b, t) \<Rightarrow> if score_less score b then Some (score, s) else best))"

definition best_candidate :: "layout \<Rightarrow> byte \<Rightarrow> rect \<Rightarrow> direction \<Rightarrow> int \<Rightarrow> ((int \<times> int) \<times> screen) option" where
  "best_candidate l from_id from dir exit_perp = foldl (better from_id from dir exit_perp) None (screens l)"

definition last_pixel :: "int \<Rightarrow> int" where
  "last_pixel w = max (sub32 w 1) 0"

fun entry_point :: "direction \<Rightarrow> rect \<Rightarrow> int \<Rightarrow> int \<Rightarrow> int \<times> int" where
  "entry_point DLeft c at_x at_y =
     (last_pixel (rw c), clamp_i32 (sub32 at_y (ry c)) 0 (last_pixel (rh c)))"
| "entry_point DRight c at_x at_y = (0, clamp_i32 (sub32 at_y (ry c)) 0 (last_pixel (rh c)))"
| "entry_point DTop c at_x at_y =
     (clamp_i32 (sub32 at_x (rx c)) 0 (last_pixel (rw c)), last_pixel (rh c))"
| "entry_point DBottom c at_x at_y = (clamp_i32 (sub32 at_x (rx c)) 0 (last_pixel (rw c)), 0)"

definition neighbor :: "layout \<Rightarrow> byte \<Rightarrow> direction \<Rightarrow> int \<Rightarrow> int \<Rightarrow> (byte \<times> int \<times> int) option" where
  "neighbor l from_id dir at_x at_y =
     (case find_screen l from_id of
        None \<Rightarrow> None
      | Some from \<Rightarrow>
          let exit_perp = (if dir = DLeft \<or> dir = DRight then at_y else at_x) in
          (case best_candidate l from_id (sc_rect from) dir exit_perp of
             None \<Rightarrow> None
           | Some (score, c) \<Rightarrow>
               let (lx, ly) = entry_point dir (sc_rect c) at_x at_y in Some (sc_id c, lx, ly)))"

definition exit_direction :: "layout \<Rightarrow> byte \<Rightarrow> int \<Rightarrow> int \<Rightarrow> direction option" where
  "exit_direction l from_id x y =
     (case find_screen l from_id of
        None \<Rightarrow> None
      | Some s \<Rightarrow>
          if x < rect_left (sc_rect s) then Some DLeft
          else if x \<ge> rect_right (sc_rect s) then Some DRight
          else if y < rect_top (sc_rect s) then Some DTop
          else if y \<ge> rect_bottom (sc_rect s) then Some DBottom
          else None)"

text \<open>The warnings; the text of each is fixed but for the names it quotes.\<close>

datatype layout_issue = NoSize string | Overlap string string

definition rects_overlap :: "rect \<Rightarrow> rect \<Rightarrow> bool" where
  "rects_overlap a b \<longleftrightarrow>
     (rect_left a < rect_right b \<and> rect_left b < rect_right a) \<and>
     (rect_top a < rect_bottom b \<and> rect_top b < rect_bottom a)"

fun issues_from :: "screen list \<Rightarrow> layout_issue list" where
  "issues_from [] = []"
| "issues_from (a # rest) =
     (if rw (sc_rect a) \<le> 0 \<or> rh (sc_rect a) \<le> 0 then NoSize (sc_name a) # issues_from rest
      else map (\<lambda>b. Overlap (sc_name a) (sc_name b))
             (filter (\<lambda>b. rects_overlap (sc_rect a) (sc_rect b)) rest) @ issues_from rest)"

definition layout_issues :: "layout \<Rightarrow> layout_issue list" where
  "layout_issues l = issues_from (screens l)"

section \<open>Arrangements a user can build\<close>

text \<open>
  Positions and sizes far inside the range of \<open>i32\<close>.  The configuration bounds the sizes, and
  nothing bounds the positions.  On such rectangles no operation of this module wraps.
\<close>

definition rect_sane :: "rect \<Rightarrow> bool" where
  "rect_sane r \<longleftrightarrow> \<bar>rx r\<bar> \<le> 2 ^ 28 \<and> \<bar>ry r\<bar> \<le> 2 ^ 28 \<and> 0 < rw r \<and> rw r \<le> 2 ^ 28 \<and> 0 < rh r \<and> rh r \<le> 2 ^ 28"

definition layout_sane :: "layout \<Rightarrow> bool" where
  "layout_sane l \<longleftrightarrow> (\<forall>s \<in> set (screens l). rect_sane (sc_rect s))"

lemma rect_sane_edges [simp]:
  assumes "rect_sane r"
  shows "rect_left r = rx r" "rect_right r = rx r + rw r" "rect_top r = ry r"
    "rect_bottom r = ry r + rh r" "last_pixel (rw r) = rw r - 1" "last_pixel (rh r) = rh r - 1"
proof -
  have "in_i32 (rx r + rw r)" "in_i32 (ry r + rh r)" "in_i32 (rw r - 1)" "in_i32 (rh r - 1)"
    using assms by (auto simp: rect_sane_def in_i32_def)
  then show "rect_left r = rx r" "rect_right r = rx r + rw r" "rect_top r = ry r"
    "rect_bottom r = ry r + rh r" "last_pixel (rw r) = rw r - 1" "last_pixel (rh r) = rh r - 1"
    using assms by (simp_all add: rect_left_def rect_right_def rect_top_def rect_bottom_def
        last_pixel_def range_simps rect_sane_def)
qed

lemma rect_contains_sane:
  "rect_sane r \<Longrightarrow> rect_contains r x y \<longleftrightarrow> rx r \<le> x \<and> x < rx r + rw r \<and> ry r \<le> y \<and> y < ry r + rh r"
  using rect_sane_edges(2,4) [of r] by (simp add: rect_contains_def rect_right_def rect_bottom_def)


section \<open>Lookup\<close>

lemma find_screen_in: "find_screen l i = Some s \<Longrightarrow> s \<in> set (screens l) \<and> sc_id s = i"
  unfolding find_screen_def using find_SomeD by fastforce

lemma find_screen_none: "find_screen l i = None \<longleftrightarrow> i \<notin> sc_id ` set (screens l)"
  by (auto simp: find_screen_def find_None_iff)

lemma find_screen_exists: "i \<in> sc_id ` set (screens l) \<Longrightarrow> \<exists>s. find_screen l i = Some s"
  using find_screen_none [of l i] by (cases "find_screen l i") auto

lemma find_screen_sane: "layout_sane l \<Longrightarrow> find_screen l i = Some s \<Longrightarrow> rect_sane (sc_rect s)"
  using find_screen_in by (auto simp: layout_sane_def)

section \<open>Normalisation keeps the screens\<close>

text \<open>Two screen lists that differ in positions only.\<close>

definition same_shapes :: "screen list \<Rightarrow> screen list \<Rightarrow> bool" where
  "same_shapes ss ts \<longleftrightarrow>
     map (\<lambda>s. (sc_id s, sc_name s, rw (sc_rect s), rh (sc_rect s))) ss
   = map (\<lambda>s. (sc_id s, sc_name s, rw (sc_rect s), rh (sc_rect s))) ts"

lemma same_shapes_refl [simp]: "same_shapes ss ss"
  by (simp add: same_shapes_def)

lemma same_shapes_trans: "same_shapes a b \<Longrightarrow> same_shapes b c \<Longrightarrow> same_shapes a c"
  by (simp add: same_shapes_def)

lemma same_shapes_length: "same_shapes a b \<Longrightarrow> length a = length b"
  unfolding same_shapes_def by (rule map_eq_imp_length_eq)

lemma same_shapes_nth:
  "same_shapes a b \<longleftrightarrow> length a = length b \<and> (\<forall>i < length a.
     sc_id (a ! i) = sc_id (b ! i) \<and> sc_name (a ! i) = sc_name (b ! i) \<and>
     rw (sc_rect (a ! i)) = rw (sc_rect (b ! i)) \<and> rh (sc_rect (a ! i)) = rh (sc_rect (b ! i)))"
  unfolding same_shapes_def by (subst list_eq_iff_nth_eq) auto

lemma same_shapes_update:
  "sc_id s = sc_id (ss ! j) \<Longrightarrow> sc_name s = sc_name (ss ! j) \<Longrightarrow> rw (sc_rect s) = rw (sc_rect (ss ! j)) \<Longrightarrow>
   rh (sc_rect s) = rh (sc_rect (ss ! j)) \<Longrightarrow> same_shapes ss (ss[j := s])"
  unfolding same_shapes_nth by (metis length_list_update nth_list_update_eq nth_list_update_neq)

lemma snap_rect_size [simp]: "rw (snap_rect a b) = rw b" "rh (snap_rect a b) = rh b"
  by (simp_all add: snap_rect_def snap_stack_def snap_side_def Let_def)

lemma snap_step_shapes: "same_shapes (fst st) (fst (snap_step i a st j))"
  by (cases st) (auto simp: snap_step_def Let_def intro!: same_shapes_update)

lemma foldl_shapes:
  assumes "\<And>st x. same_shapes (fst st) (fst (f st x))"
  shows "same_shapes (fst st) (fst (foldl f st xs))"
proof (induction xs arbitrary: st)
  case Nil then show ?case by simp
next
  case (Cons x xs)
  show ?case using same_shapes_trans [OF assms Cons] by simp
qed

lemma snap_row_shapes: "same_shapes (fst st) (fst (snap_row st i))"
  unfolding snap_row_def by (rule foldl_shapes) (rule snap_step_shapes)

lemma normalize_pass_shapes: "same_shapes ss (fst (normalize_pass ss))"
  unfolding normalize_pass_def using foldl_shapes [OF snap_row_shapes, of "(ss, False)"] by simp

lemma normalize_loop_shapes: "same_shapes ss (normalize_loop n ss)"
proof (induction n arbitrary: ss)
  case 0 then show ?case by simp
next
  case (Suc n)
  obtain ts ch where p: "normalize_pass ss = (ts, ch)" by (cases "normalize_pass ss")
  then have "same_shapes ss ts" using normalize_pass_shapes [of ss] by simp
  then show ?case using p Suc [of ts] by (auto intro: same_shapes_trans)
qed

text \<open>A pass over an arrangement that no pair of screens would change changes nothing.\<close>

definition settled :: "screen list \<Rightarrow> bool" where
  "settled ss \<longleftrightarrow> (\<forall>i < length ss. \<forall>j < length ss. i \<noteq> j \<longrightarrow>
     snap_rect (sc_rect (ss ! i)) (sc_rect (ss ! j)) = sc_rect (ss ! j))"

lemma foldl_fixed: "(\<And>x. x \<in> set xs \<Longrightarrow> f st x = st) \<Longrightarrow> foldl f st xs = st"
  by (induction xs) auto

lemma settled_pass: "settled ss \<Longrightarrow> normalize_pass ss = (ss, False)"
  unfolding normalize_pass_def
  by (rule foldl_fixed) (auto simp: snap_row_def snap_step_def settled_def Let_def intro!: foldl_fixed)

text \<open>Only a pass that changed something continues, so an early stop is a settled arrangement.\<close>

lemma snap_step_flag: "snd st \<Longrightarrow> snd (snap_step i a st j)"
  by (cases st) (auto simp: snap_step_def Let_def)

lemma foldl_flag: "(\<And>st x. snd st \<Longrightarrow> snd (f st x)) \<Longrightarrow> snd st \<Longrightarrow> snd (foldl f st xs)"
  by (induction xs arbitrary: st) auto

lemma snap_row_flag: "snd st \<Longrightarrow> snd (snap_row st i)"
  unfolding snap_row_def by (rule foldl_flag) (auto intro: snap_step_flag)

lemma snap_step_unchanged: "\<not> snd (snap_step i a st j) \<Longrightarrow> snap_step i a st j = st"
  by (cases st) (auto simp: snap_step_def Let_def split: if_splits)

lemma foldl_unchanged:
  assumes "\<And>st x. snd st \<Longrightarrow> snd (f st x)" "\<And>st x. \<not> snd (f st x) \<Longrightarrow> f st x = st"
  shows "\<not> snd (foldl f st xs) \<Longrightarrow> foldl f st xs = st \<and> (\<forall>x \<in> set xs. f st x = st)"
proof (induction xs arbitrary: st)
  case Nil then show ?case by simp
next
  case (Cons x xs)
  have "\<not> snd (f st x)" using Cons.prems foldl_flag [of f, OF assms(1)] by (metis foldl_Cons)
  then have "f st x = st" by (rule assms(2))
  then show ?case using Cons by simp
qed

lemma snap_steps_unchanged:
  "\<not> snd (foldl (snap_step i a) st xs) \<Longrightarrow>
   foldl (snap_step i a) st xs = st \<and> (\<forall>x \<in> set xs. snap_step i a st x = st)"
  by (rule foldl_unchanged [of "snap_step i a", OF snap_step_flag snap_step_unchanged])

lemma pass_unchanged:
  assumes "normalize_pass ss = (ts, False)"
  shows "ts = ss \<and> settled ss"
proof -
  have row: "\<And>st i. \<not> snd (snap_row st i) \<Longrightarrow> snap_row st i = st"
    unfolding snap_row_def using snap_steps_unchanged by blast
  have all: "foldl snap_row (ss, False) [0..<length ss] = (ss, False) \<and>
      (\<forall>i \<in> set [0..<length ss]. snap_row (ss, False) i = (ss, False))"
  proof (rule foldl_unchanged [of snap_row, OF snap_row_flag row])
    show "\<not> snd (foldl snap_row (ss, False) [0..<length ss])"
      using assms by (simp add: normalize_pass_def)
  qed
  have "snap_rect (sc_rect (ss ! i)) (sc_rect (ss ! j)) = sc_rect (ss ! j)"
    if "i < length ss" "j < length ss" "i \<noteq> j" for i j
  proof -
    have "snap_row (ss, False) i = (ss, False)" using all that by simp
    then have "\<not> snd (foldl (snap_step i (sc_rect (ss ! i))) (ss, False) [0..<length ss])"
      by (simp add: snap_row_def)
    then have "snap_step i (sc_rect (ss ! i)) (ss, False) j = (ss, False)"
      using snap_steps_unchanged that by simp
    then show ?thesis using that by (auto simp: snap_step_def Let_def split: if_splits)
  qed
  then show ?thesis using all assms by (simp add: settled_def normalize_pass_def)
qed

lemma normalized_settled: "settled (screens l) \<Longrightarrow> normalized l = l"
  by (simp add: normalized_def settled_pass eval_nat_numeral)

lemma normalize_loop_settled:
  "k < n \<Longrightarrow> \<not> snd (normalize_pass (((fst \<circ> normalize_pass) ^^ k) ss)) \<Longrightarrow> settled (normalize_loop n ss)"
proof (induction n arbitrary: k ss)
  case 0 then show ?case by simp
next
  case (Suc n)
  obtain ts ch where p: "normalize_pass ss = (ts, ch)" by (cases "normalize_pass ss")
  show ?case
  proof (cases ch)
    case False then show ?thesis using p pass_unchanged [of ss ts] by simp
  next
    case True
    then obtain k' where k: "k = Suc k'" using Suc.prems p by (cases k) auto
    have it: "((fst \<circ> normalize_pass) ^^ Suc k') ss = ((fst \<circ> normalize_pass) ^^ k') ts"
      using p unfolding funpow_Suc_right by simp
    have n1: "k' < n" using Suc.prems(1) k by simp
    have n2: "\<not> snd (normalize_pass (((fst \<circ> normalize_pass) ^^ k') ts))"
      using Suc.prems(2) unfolding k it .
    have "settled (normalize_loop n ts)" by (rule Suc.IH [OF n1 n2])
    then show ?thesis using True p by simp
  qed
qed

section \<open>The ray cast\<close>

lemma score_less_total: "\<not> score_less a b \<Longrightarrow> \<not> score_less b a \<Longrightarrow> a = b"
  by (cases a; cases b) (auto simp: score_less_def)

lemma score_less_trans: "score_less a b \<Longrightarrow> score_less b c \<Longrightarrow> score_less a c"
  by (auto simp: score_less_def)

definition is_best :: "(screen \<Rightarrow> (int \<times> int) option) \<Rightarrow> screen list \<Rightarrow> ((int \<times> int) \<times> screen) option \<Rightarrow> bool" where
  "is_best sc ss r \<longleftrightarrow> (case r of
     None \<Rightarrow> (\<forall>s \<in> set ss. sc s = None)
   | Some (b, t) \<Rightarrow> t \<in> set ss \<and> sc t = Some b \<and> (\<forall>s \<in> set ss. \<forall>c. sc s = Some c \<longrightarrow> \<not> score_less c b))"

lemma is_best_None: "is_best sc ss r \<Longrightarrow> r = None \<longleftrightarrow> (\<forall>s \<in> set ss. sc s = None)"
  by (cases r) (force simp: is_best_def)+

lemma better_is_best:
  assumes "is_best (candidate_score i f d e) ss r"
  shows "is_best (candidate_score i f d e) (ss @ [s]) (better i f d e r s)"
proof (cases "candidate_score i f d e s")
  case None
  then show ?thesis using assms by (auto simp: is_best_def better_def split: option.splits)
next
  case (Some c)
  have irr: "\<not> score_less x x" for x by (simp add: score_less_def)
  show ?thesis
  proof (cases r)
    case None
    then show ?thesis using Some assms irr by (auto simp: is_best_def better_def)
  next
    case (Some bt)
    obtain b t where bt: "bt = (b, t)" by (cases bt)
    show ?thesis
      using \<open>candidate_score i f d e s = Some c\<close> Some bt assms irr
      by (auto simp: is_best_def better_def dest: score_less_trans)
  qed
qed

lemma best_candidate_is_best: "is_best (candidate_score i f d e) (screens l) (best_candidate l i f d e)"
proof -
  have "is_best (candidate_score i f d e) ss (foldl (better i f d e) None ss)" for ss
  proof (induction ss rule: rev_induct)
    case Nil then show ?case by (simp add: is_best_def)
  next
    case (snoc s ss) then show ?case by (simp add: better_is_best)
  qed
  then show ?thesis by (simp add: best_candidate_def)
qed

lemma clamp_i32_bounds: "lo \<le> hi \<Longrightarrow> lo \<le> clamp_i32 v lo hi \<and> clamp_i32 v lo hi \<le> hi"
  by (simp add: clamp_i32_def)

lemma clamp_i32_id [simp]: "lo \<le> v \<Longrightarrow> v \<le> hi \<Longrightarrow> clamp_i32 v lo hi = v"
  by (simp add: clamp_i32_def)

lemma entry_point_inside:
  assumes "rect_sane c" "entry_point dir c x y = (lx, ly)"
  shows "0 \<le> lx \<and> lx < rw c \<and> 0 \<le> ly \<and> ly < rh c"
proof -
  have pos: "0 \<le> rw c - 1" "0 \<le> rh c - 1" using assms(1) by (auto simp: rect_sane_def)
  show ?thesis
    using assms pos clamp_i32_bounds [OF pos(1)] clamp_i32_bounds [OF pos(2)]
    by (cases dir) (auto simp: less_le_trans)
qed

lemma neighbor_cases:
  assumes "neighbor l i dir x y = Some (j, lx, ly)"
  obtains src c score where "find_screen l i = Some src" "c \<in> set (screens l)" "sc_id c = j" "j \<noteq> i"
    "candidate_score i (sc_rect src) dir (if dir = DLeft \<or> dir = DRight then y else x) c = Some score"
    "\<forall>s \<in> set (screens l). \<forall>d.
       candidate_score i (sc_rect src) dir (if dir = DLeft \<or> dir = DRight then y else x) s = Some d
       \<longrightarrow> \<not> score_less d score"
    "entry_point dir (sc_rect c) x y = (lx, ly)"
proof -
  let ?e = "if dir = DLeft \<or> dir = DRight then y else x"
  obtain src score c where n: "find_screen l i = Some src"
    "best_candidate l i (sc_rect src) dir ?e = Some (score, c)"
    "entry_point dir (sc_rect c) x y = (lx, ly)" "sc_id c = j"
    using assms by (auto simp: neighbor_def Let_def split: option.splits prod.splits)
  then have b: "c \<in> set (screens l)" "candidate_score i (sc_rect src) dir ?e c = Some score"
    "\<forall>s \<in> set (screens l). \<forall>d. candidate_score i (sc_rect src) dir ?e s = Some d \<longrightarrow> \<not> score_less d score"
    using best_candidate_is_best [of i "sc_rect src" dir ?e l] by (auto simp: is_best_def)
  have "j \<noteq> i" using b(2) n(4) by (auto simp: candidate_score_def split: if_splits)
  then show ?thesis using that n b by blast
qed


lemma candidate_past:
  "candidate_score i src dir e c = Some d \<Longrightarrow> sc_id c \<noteq> i \<and> snd (snd (snd (candidate_span dir src (sc_rect c))))"
  by (auto simp: candidate_score_def Let_def split: if_splits prod.splits)

lemma neighbor_none:
  "neighbor l i dir x y = None \<longleftrightarrow>
     (\<forall>src. find_screen l i = Some src \<longrightarrow>
        (\<forall>c \<in> set (screens l). sc_id c \<noteq> i \<longrightarrow> \<not> snd (snd (snd (candidate_span dir (sc_rect src) (sc_rect c))))))"
proof (cases "find_screen l i")
  case None then show ?thesis by (simp add: neighbor_def)
next
  case (Some src)
  let ?e = "if dir = DLeft \<or> dir = DRight then y else x"
  have b: "is_best (candidate_score i (sc_rect src) dir ?e) (screens l)
      (best_candidate l i (sc_rect src) dir ?e)" by (rule best_candidate_is_best)
  have "neighbor l i dir x y = None \<longleftrightarrow> best_candidate l i (sc_rect src) dir ?e = None"
    using Some by (simp add: neighbor_def Let_def split: option.split prod.split)
  also have "\<dots> \<longleftrightarrow> (\<forall>c \<in> set (screens l). candidate_score i (sc_rect src) dir ?e c = None)"
    using b by (rule is_best_None)
  also have "\<dots> \<longleftrightarrow> (\<forall>c \<in> set (screens l). sc_id c \<noteq> i \<longrightarrow>
      \<not> snd (snd (snd (candidate_span dir (sc_rect src) (sc_rect c)))))"
    by (rule ball_cong) (auto simp: candidate_score_def Let_def split: prod.splits)
  finally show ?thesis using Some by simp
qed

section \<open>Properties\<close>

text \<open>
  C16. A crossing lands on another screen of the layout, at a pixel inside it, and that screen is
  the closest one past the edge: no screen in that direction has a smaller distance across the
  ray, or the same and a smaller distance along it.
\<close>
theorem neighbor_is_closest:
  assumes "layout_sane l" "neighbor l i dir x y = Some (j, lx, ly)"
  shows "\<exists>src c score. find_screen l i = Some src \<and> c \<in> set (screens l) \<and> sc_id c = j \<and> j \<noteq> i \<and>
    0 \<le> lx \<and> lx < rw (sc_rect c) \<and> 0 \<le> ly \<and> ly < rh (sc_rect c) \<and>
    candidate_score i (sc_rect src) dir (if dir = DLeft \<or> dir = DRight then y else x) c = Some score \<and>
    (\<forall>s \<in> set (screens l). \<forall>d.
       candidate_score i (sc_rect src) dir (if dir = DLeft \<or> dir = DRight then y else x) s = Some d
       \<longrightarrow> fst score < fst d \<or> (fst score = fst d \<and> snd score \<le> snd d))"
proof -
  obtain src c score where n: "find_screen l i = Some src" "c \<in> set (screens l)" "sc_id c = j" "j \<noteq> i"
    "candidate_score i (sc_rect src) dir (if dir = DLeft \<or> dir = DRight then y else x) c = Some score"
    "\<forall>s \<in> set (screens l). \<forall>d.
       candidate_score i (sc_rect src) dir (if dir = DLeft \<or> dir = DRight then y else x) s = Some d
       \<longrightarrow> \<not> score_less d score"
    "entry_point dir (sc_rect c) x y = (lx, ly)"
    using assms(2) by (rule neighbor_cases)
  then have "0 \<le> lx \<and> lx < rw (sc_rect c) \<and> 0 \<le> ly \<and> ly < rh (sc_rect c)"
    using assms(1) entry_point_inside by (auto simp: layout_sane_def)
  moreover have "\<forall>s \<in> set (screens l). \<forall>d.
       candidate_score i (sc_rect src) dir (if dir = DLeft \<or> dir = DRight then y else x) s = Some d
       \<longrightarrow> fst score < fst d \<or> (fst score = fst d \<and> snd score \<le> snd d)"
    using n(6) by (force simp: score_less_def not_less)
  ultimately show ?thesis using n by blast
qed

definition two_screens :: layout where
  "two_screens = \<lparr>screens =
     [\<lparr>sc_id = 0, sc_name = ''pc'', sc_rect = \<lparr>rx = 0, ry = 0, rw = 1920, rh = 1080\<rparr>\<rparr>,
      \<lparr>sc_id = 1, sc_name = ''hp'', sc_rect = \<lparr>rx = -1930, ry = 4, rw = 1920, rh = 1080\<rparr>\<rparr>]\<rparr>"

lemmas layout_eval =
  neighbor_def find_screen_def best_candidate_def better_def candidate_score_def perp_distance_def
  last_pixel_def clamp_i32_def rect_left_def rect_right_def rect_top_def rect_bottom_def
  EDGE_TOLERANCE_def add32_def sub32_def abs32_def wrap_i32_def score_less_def

lemma two_screens_sane: "layout_sane two_screens"
  by (simp add: layout_sane_def two_screens_def rect_sane_def)

lemma two_screens_neighbor: "neighbor two_screens 0 DLeft 0 500 = Some (1, 1919, 496)"
  by (simp add: two_screens_def layout_eval)

theorem neighbor_is_closest_witness: "\<exists>c. c \<in> set (screens two_screens) \<and> sc_id c = 1"
  using neighbor_is_closest [OF two_screens_sane two_screens_neighbor] by blast

text \<open>
  An edge is dead exactly when no other screen lies past it: a gap of any width is crossed,
  and the ray never invents a destination.
\<close>
theorem edge_alive_iff:
  assumes "layout_sane l" "find_screen l i = Some src"
  shows "(\<exists>r. neighbor l i dir x y = Some r) \<longleftrightarrow>
    (\<exists>c \<in> set (screens l). sc_id c \<noteq> i \<and>
      (case dir of
         DLeft \<Rightarrow> rx (sc_rect c) + rw (sc_rect c) \<le> rx (sc_rect src) + EDGE_TOLERANCE
       | DRight \<Rightarrow> rx (sc_rect c) \<ge> rx (sc_rect src) + rw (sc_rect src) - EDGE_TOLERANCE
       | DTop \<Rightarrow> ry (sc_rect c) + rh (sc_rect c) \<le> ry (sc_rect src) + EDGE_TOLERANCE
       | DBottom \<Rightarrow> ry (sc_rect c) \<ge> ry (sc_rect src) + rh (sc_rect src) - EDGE_TOLERANCE))"
proof -
  have src: "rect_sane (sc_rect src)" using assms find_screen_sane by blast
  then have w: "add32 (rx (sc_rect src)) EDGE_TOLERANCE = rx (sc_rect src) + EDGE_TOLERANCE"
    "sub32 (rx (sc_rect src) + rw (sc_rect src)) EDGE_TOLERANCE = rx (sc_rect src) + rw (sc_rect src) - EDGE_TOLERANCE"
    "add32 (ry (sc_rect src)) EDGE_TOLERANCE = ry (sc_rect src) + EDGE_TOLERANCE"
    "sub32 (ry (sc_rect src) + rh (sc_rect src)) EDGE_TOLERANCE = ry (sc_rect src) + rh (sc_rect src) - EDGE_TOLERANCE"
    by (auto simp: EDGE_TOLERANCE_def rect_sane_def in_i32_def intro!: add32_id sub32_id)
  have sane: "\<And>c. c \<in> set (screens l) \<Longrightarrow> rect_sane (sc_rect c)"
    using assms(1) by (simp add: layout_sane_def)
  have "(\<exists>r. neighbor l i dir x y = Some r) \<longleftrightarrow> neighbor l i dir x y \<noteq> None" by auto
  also have "\<dots> \<longleftrightarrow> (\<exists>c \<in> set (screens l). sc_id c \<noteq> i \<and>
      snd (snd (snd (candidate_span dir (sc_rect src) (sc_rect c)))))"
    using assms(2) by (simp add: neighbor_none)
  finally show ?thesis using src sane w by (cases dir) (auto simp: rect_sane_edges)
qed

theorem edge_alive_iff_witness: "(\<exists>r. neighbor two_screens 0 DLeft 0 500 = Some r)"
  using edge_alive_iff [OF two_screens_sane, of 0 "hd (screens two_screens)" DLeft 0 500]
  by (simp add: two_screens_def find_screen_def EDGE_TOLERANCE_def)

text \<open>
  A sideways crossing carries the exit height straight across: whenever the exit point is
  within the destination's span, the entry point has the same virtual \<open>y\<close>, and outside the span
  the entry is the nearest row of the destination.
\<close>
theorem crossing_carries_height:
  assumes "layout_sane l" "dir = DLeft \<or> dir = DRight" "\<bar>y\<bar> \<le> 2 ^ 29"
    "neighbor l i dir x y = Some (j, lx, ly)"
  shows "\<exists>c \<in> set (screens l). sc_id c = j \<and>
    lx = (if dir = DLeft then rw (sc_rect c) - 1 else 0) \<and>
    ry (sc_rect c) + ly =
      (if y < ry (sc_rect c) then ry (sc_rect c)
       else if y \<ge> ry (sc_rect c) + rh (sc_rect c) then ry (sc_rect c) + rh (sc_rect c) - 1
       else y)"
proof -
  obtain src c score where n: "c \<in> set (screens l)" "sc_id c = j" "entry_point dir (sc_rect c) x y = (lx, ly)"
    using assms(4) by (rule neighbor_cases)
  then have c: "rect_sane (sc_rect c)" using assms(1) by (simp add: layout_sane_def)
  then have "sub32 y (ry (sc_rect c)) = y - ry (sc_rect c)"
    using assms(3) by (intro sub32_id) (auto simp: rect_sane_def in_i32_def)
  then show ?thesis using n c assms(2) by (intro bexI [of _ c]) (auto simp: clamp_i32_def)
qed

theorem crossing_carries_height_witness:
  "\<exists>c \<in> set (screens two_screens). sc_id c = 1 \<and> ry (sc_rect c) + 496 = 500"
  using crossing_carries_height [OF two_screens_sane _ _ two_screens_neighbor]
  by (auto split: if_splits simp: two_screens_def)

text \<open>
  Normalisation moves screens and does nothing else: it keeps their number and order, and
  every id, name and size.  An arrangement no pair of screens would change (deliberate gaps wider
  than the tolerance) is returned as it is, and when one of the eight passes changes nothing the
  result is such an arrangement, so normalising it again changes nothing.
\<close>
theorem normalized_keeps_screens:
  "same_shapes (screens l) (screens (normalized l)) \<and>
   (settled (screens l) \<longrightarrow> normalized l = l) \<and>
   ((\<exists>k < 8. \<not> snd (normalize_pass (((fst \<circ> normalize_pass) ^^ k) (screens l)))) \<longrightarrow>
     settled (screens (normalized l)) \<and> normalized (normalized l) = normalized l)"
proof (intro conjI impI)
  assume "settled (screens l)"
  then show "normalized l = l" by (simp add: normalized_settled)
next
  assume "\<exists>k < 8. \<not> snd (normalize_pass (((fst \<circ> normalize_pass) ^^ k) (screens l)))"
  then have "settled (screens (normalized l))"
    using normalize_loop_settled by (auto simp: normalized_def)
  then show "settled (screens (normalized l))" "normalized (normalized l) = normalized l"
    by (simp_all add: normalized_settled)
next
  show "same_shapes (screens l) (screens (normalized l))"
    by (simp add: normalized_def normalize_loop_shapes)
qed

theorem normalized_keeps_screens_witness: "length (screens (normalized two_screens)) = 2"
proof -
  have "length (screens two_screens) = length (screens (normalized two_screens))"
    using normalized_keeps_screens [of two_screens] same_shapes_length by blast
  then show ?thesis by (simp add: two_screens_def)
qed

text \<open>
  When the layout reports no issue, every screen has a size and no point of the desktop is
  on two screens, so \<open>screen_at\<close> names the only screen the cursor can be on.
\<close>
theorem no_issues_unambiguous:
  assumes "layout_issues l = []" "i < length (screens l)"
    "rect_contains (sc_rect (screens l ! i)) x y"
  shows "screen_at l x y = Some (screens l ! i) \<and> 0 < rw (sc_rect (screens l ! i)) \<and>
    (\<forall>j < length (screens l). rect_contains (sc_rect (screens l ! j)) x y \<longrightarrow> j = i)"
proof -
  have pos: "issues_from ss = [] \<Longrightarrow> k < length ss \<Longrightarrow> 0 < rw (sc_rect (ss ! k))" for ss k
    by (induction ss arbitrary: k) (auto simp: nth_Cons split: if_splits nat.split)
  have apart: "issues_from ss = [] \<Longrightarrow> j < k \<Longrightarrow> k < length ss \<Longrightarrow>
      \<not> rects_overlap (sc_rect (ss ! j)) (sc_rect (ss ! k))" for ss j k
    by (induction ss arbitrary: j k)
      (auto simp: nth_Cons filter_empty_conv split: if_splits nat.splits)
  have both: "rects_overlap a b" if "rect_contains a x y" "rect_contains b x y" for a b
    using that by (auto simp: rect_contains_def rects_overlap_def rect_left_def rect_right_def
        rect_top_def rect_bottom_def)
  have only: "j = i" if "j < length (screens l)" "rect_contains (sc_rect (screens l ! j)) x y" for j
    using apart [of "screens l" i j] apart [of "screens l" j i] both that assms
    by (metis layout_issues_def linorder_neqE_nat)
  have "\<exists>s. screen_at l x y = Some s"
    using assms by (cases "screen_at l x y") (auto simp: screen_at_def find_None_iff)
  then obtain s where s: "screen_at l x y = Some s" by blast
  then have "s \<in> set (screens l) \<and> rect_contains (sc_rect s) x y"
    unfolding screen_at_def by (rule find_SomeD)
  then have "s = screens l ! i" using only by (metis in_set_conv_nth)
  moreover have "0 < rw (sc_rect (screens l ! i))"
    by (rule pos) (use assms in \<open>simp_all add: layout_issues_def\<close>)
  ultimately show ?thesis using s only by blast
qed

theorem no_issues_unambiguous_witness:
  "screen_at two_screens 100 200 = Some (screens two_screens ! 0)"
  using no_issues_unambiguous [of two_screens 0 100 200]
  by (simp add: two_screens_def layout_issues_def rects_overlap_def rect_contains_def layout_eval)

end
