(* ===== verification/Actions.thy ===== *)
theory Actions
  imports Prelude
begin

text \<open>
  The action engine of \<open>core/src/actions.rs\<close>: the chords a user binds to session commands.
  Keys are USB HID usage ids (\<open>u32\<close>); a clock reading is in nanoseconds and is an argument of
  the operations that read the clock.
\<close>

section \<open>Data\<close>

datatype user_action = SwitchToScreen string | SwitchNext | ToggleLock | GoHome

record mods =
  m_ctrl :: bool
  m_alt :: bool
  m_shift :: bool
  m_meta :: bool

definition MODS_NONE :: mods where
  "MODS_NONE = \<lparr>m_ctrl = False, m_alt = False, m_shift = False, m_meta = False\<rparr>"

definition mods_any :: "mods \<Rightarrow> bool" where
  "mods_any m \<longleftrightarrow> m_ctrl m \<or> m_alt m \<or> m_shift m \<or> m_meta m"

definition HID_SCROLL_LOCK :: u32 where "HID_SCROLL_LOCK = 0x47"
definition HID_PAUSE :: u32 where "HID_PAUSE = 0x48"

definition is_modifier :: "u32 \<Rightarrow> bool" where
  "is_modifier key \<longleftrightarrow> key \<in> {0xE0, 0xE4, 0xE1, 0xE5, 0xE2, 0xE6, 0xE3, 0xE7}"

text \<open>The state of the modifier a key stands for is the direction of its transition.\<close>

definition apply_key :: "mods \<Rightarrow> u32 \<Rightarrow> bool \<Rightarrow> mods" where
  "apply_key m key down =
     (if key = 0xE0 \<or> key = 0xE4 then m\<lparr>m_ctrl := down\<rparr>
      else if key = 0xE1 \<or> key = 0xE5 then m\<lparr>m_shift := down\<rparr>
      else if key = 0xE2 \<or> key = 0xE6 then m\<lparr>m_alt := down\<rparr>
      else if key = 0xE3 \<or> key = 0xE7 then m\<lparr>m_meta := down\<rparr>
      else m)"

definition MIN_BINDABLE_KEY :: u32 where "MIN_BINDABLE_KEY = 0x04"

record binding =
  b_mods :: mods
  b_key :: u32
  b_action :: string
  b_screen :: string

record bind_section =
  bs_enabled :: bool
  bs_bindings :: "binding list"

text \<open>
  The numbers a \<open>key\<close> field may be written as: an integer, or a float that is integral.
  \<open>NonFinite\<close> stands for a NaN or an infinity.
\<close>

datatype key_number = NumU64 nat | NumI64 int | NumF64 real | NonFinite

fun u32_or_integral_float :: "key_number \<Rightarrow> u32 option" where
  "u32_or_integral_float (NumU64 v) = (if v < 4294967296 then Some (word_of_nat v) else None)"
| "u32_or_integral_float (NumI64 v) = (if 0 \<le> v \<and> v < 4294967296 then Some (word_of_int v) else None)"
| "u32_or_integral_float (NumF64 v) =
     (if 0 \<le> v \<and> v = of_int \<lfloor>v\<rfloor> \<and> v \<le> 4294967295 then Some (word_of_int \<lfloor>v\<rfloor>) else None)"
| "u32_or_integral_float NonFinite = None"

definition bare_safe :: "u32 \<Rightarrow> bool" where
  "bare_safe key \<longleftrightarrow> key = HID_SCROLL_LOCK \<or> key = HID_PAUSE \<or> (0x68 \<le> key \<and> key \<le> 0x73)"

definition is_bindable :: "binding \<Rightarrow> bool" where
  "is_bindable b \<longleftrightarrow> MIN_BINDABLE_KEY \<le> b_key b \<and> \<not> is_modifier (b_key b) \<and>
     (mods_any (b_mods b) \<or> bare_safe (b_key b))"

definition sanitized :: "bind_section \<Rightarrow> bind_section" where
  "sanitized c = c\<lparr>bs_bindings := filter is_bindable (bs_bindings c)\<rparr>"

definition default_bind_section :: bind_section where
  "default_bind_section = \<lparr>bs_enabled = True, bs_bindings =
     [\<lparr>b_mods = MODS_NONE, b_key = HID_SCROLL_LOCK, b_action = ''cycle'', b_screen = []\<rparr>,
      \<lparr>b_mods = MODS_NONE, b_key = HID_PAUSE, b_action = ''lock'', b_screen = []\<rparr>]\<rparr>"

section \<open>The engine\<close>

definition CHORD_LINGER :: nat where "CHORD_LINGER = 5 * 10 ^ 9"

record pending_chord =
  pc_key :: u32
  pc_mods :: mods
  pc_at :: nat

record action_engine =
  ae_cfg :: bind_section
  ae_mods :: mods
  ae_pending :: "pending_chord option"
  ae_fired :: "u32 option"
  ae_owned :: "u32 list"
  ae_last_seen :: "(mods \<times> u32) option"

definition new_sanitized :: "bind_section \<Rightarrow> action_engine" where
  "new_sanitized c = \<lparr>ae_cfg = c, ae_mods = MODS_NONE, ae_pending = None, ae_fired = None,
     ae_owned = [], ae_last_seen = None\<rparr>"

definition new_engine :: "bind_section \<Rightarrow> action_engine" where
  "new_engine c = new_sanitized (sanitized c)"

definition set_config :: "bind_section \<Rightarrow> action_engine \<Rightarrow> action_engine" where
  "set_config c e = e\<lparr>ae_pending := None, ae_cfg := sanitized c\<rparr>"

definition tick :: "nat \<Rightarrow> action_engine \<Rightarrow> action_engine" where
  "tick now e =
     (case ae_pending e of
        Some p \<Rightarrow> if now - pc_at p > CHORD_LINGER then e\<lparr>ae_pending := None\<rparr> else e
      | None \<Rightarrow> e)"

definition fire :: "binding \<Rightarrow> bool \<Rightarrow> user_action option" where
  "fire spec at_home =
     (if b_action spec = ''switch'' \<and> b_screen spec \<noteq> [] then Some (SwitchToScreen (b_screen spec))
      else if b_action spec = ''cycle'' then Some SwitchNext
      else if b_action spec = ''lock'' then Some ToggleLock
      else if b_action spec = ''home'' \<and> \<not> at_home then Some GoHome
      else None)"

definition effective_mods :: "action_engine \<Rightarrow> mods \<Rightarrow> mods" where
  "effective_mods e m = (if mods_any (ae_mods e) then ae_mods e else m)"

definition find_binding :: "action_engine \<Rightarrow> u32 \<Rightarrow> mods \<Rightarrow> binding option" where
  "find_binding e key m = List.find (\<lambda>b. b_key b = key \<and> b_mods b = m) (bs_bindings (ae_cfg e))"

definition starts_chord :: "action_engine \<Rightarrow> u32 \<Rightarrow> bool" where
  "starts_chord e key \<longleftrightarrow> list_ex (\<lambda>b. b_key b = key) (bs_bindings (ae_cfg e))"

definition key_down :: "nat \<Rightarrow> u32 \<Rightarrow> mods \<Rightarrow> bool \<Rightarrow> action_engine \<Rightarrow> user_action option \<times> action_engine" where
  "key_down now key m at_home e0 =
     (if \<not> bs_enabled (ae_cfg e0) then (None, e0)
      else let e = tick now e0 in
        if is_modifier key then
          let live = apply_key (ae_mods e) key True in
          (None, e\<lparr>ae_mods := live,
                   ae_pending := map_option (\<lambda>p. p\<lparr>pc_mods := live\<rparr>) (ae_pending e)\<rparr>)
        else
          let effective = effective_mods e m;
              e1 = e\<lparr>ae_pending := None, ae_last_seen := Some (effective, key)\<rparr> in
          (case find_binding e1 key effective of
             Some b \<Rightarrow> (fire b at_home, e1\<lparr>ae_fired := Some key\<rparr>)
           | None \<Rightarrow>
               if starts_chord e1 key
               then (None, e1\<lparr>ae_pending := Some \<lparr>pc_key = key, pc_mods = effective, pc_at = now\<rparr>,
                              ae_owned := ae_owned e1 @ [key]\<rparr>)
               else (None, e1)))"

definition key_up :: "u32 \<Rightarrow> action_engine \<Rightarrow> u32 option \<times> action_engine" where
  "key_up key e =
     (if is_modifier key then (None, e\<lparr>ae_mods := apply_key (ae_mods e) key False\<rparr>)
      else if ae_fired e = Some key then (Some key, e\<lparr>ae_fired := None\<rparr>)
      else if key \<in> set (ae_owned e) then (Some key, e\<lparr>ae_owned := remove1 key (ae_owned e)\<rparr>)
      else case ae_pending e of
        Some p \<Rightarrow> if pc_key p = key then (Some key, e) else (None, e)
      | None \<Rightarrow> (None, e))"

definition is_bound :: "action_engine \<Rightarrow> mods \<Rightarrow> u32 \<Rightarrow> bool" where
  "is_bound e m key \<longleftrightarrow> list_ex (\<lambda>b. b_key b = key \<and> b_mods b = m) (bs_bindings (ae_cfg e))"

section \<open>The engine as a component\<close>

datatype engine_event = KeyWentDown nat u32 mods bool | KeyWentUp u32 | ConfigAdopted bind_section | EngineTick nat

fun engine_step :: "engine_event \<Rightarrow> action_engine \<Rightarrow> action_engine" where
  "engine_step (KeyWentDown now key m at_home) e = snd (key_down now key m at_home e)"
| "engine_step (KeyWentUp key) e = snd (key_up key e)"
| "engine_step (ConfigAdopted c) e = set_config c e"
| "engine_step (EngineTick now) e = tick now e"

definition engine_ok :: "action_engine \<Rightarrow> bool" where
  "engine_ok e \<longleftrightarrow> list_all is_bindable (bs_bindings (ae_cfg e)) \<and> list_all (\<lambda>k. \<not> is_modifier k) (ae_owned e) \<and>
     (\<forall>k. ae_fired e = Some k \<longrightarrow> \<not> is_modifier k)"

lemma tick_keeps [simp]:
  "ae_cfg (tick now e) = ae_cfg e" "ae_mods (tick now e) = ae_mods e" "ae_fired (tick now e) = ae_fired e"
  "ae_owned (tick now e) = ae_owned e" "ae_last_seen (tick now e) = ae_last_seen e"
  by (auto simp: tick_def split: option.split)

lemma lookup_keeps [simp]:
  "find_binding (tick now e) key m = find_binding e key m"
  "starts_chord (tick now e) key = starts_chord e key"
  "effective_mods (tick now e) m = effective_mods e m"
  "find_binding (e\<lparr>ae_pending := p, ae_last_seen := s\<rparr>) key m = find_binding e key m"
  "starts_chord (e\<lparr>ae_pending := p, ae_last_seen := s\<rparr>) key = starts_chord e key"
  by (simp_all add: find_binding_def starts_chord_def effective_mods_def)

lemma sanitized_bindable [simp]: "list_all is_bindable (bs_bindings (sanitized c))"
  by (simp add: sanitized_def list_all_iff)

lemma key_down_cfg [simp]: "ae_cfg (snd (key_down now key m h e)) = ae_cfg e"
  by (auto simp: key_down_def Let_def split: option.split)

lemma key_up_cfg [simp]: "ae_cfg (snd (key_up key e)) = ae_cfg e"
  by (auto simp: key_up_def split: option.split)

lemma key_down_ok: "engine_ok e \<Longrightarrow> engine_ok (snd (key_down now key m h e))"
  by (auto simp: engine_ok_def key_down_def Let_def split: option.split)

lemma key_up_ok: "engine_ok e \<Longrightarrow> engine_ok (snd (key_up key e))"
  by (auto simp: engine_ok_def key_up_def list_all_iff split: option.split dest: notin_set_remove1)

lemma set_config_ok: "engine_ok e \<Longrightarrow> engine_ok (set_config c e)"
  by (auto simp: engine_ok_def set_config_def)

lemma tick_ok: "engine_ok e \<Longrightarrow> engine_ok (tick now e)"
  by (simp add: engine_ok_def)

interpretation engine: keeps_invariant engine_step "\<lambda>_. True" engine_ok
  by unfold_locales (metis engine_step.simps engine_event.exhaust key_down_ok key_up_ok set_config_ok tick_ok)

lemma new_engine_ok: "engine_ok (new_engine c)"
  by (simp add: engine_ok_def new_engine_def new_sanitized_def)

lemma fired_binding:
  assumes "fst (key_down now key m h e) = Some a"
  shows "bs_enabled (ae_cfg e) \<and> \<not> is_modifier key \<and>
    (\<exists>b \<in> set (bs_bindings (ae_cfg e)). b_key b = key \<and> b_mods b = effective_mods e m \<and> fire b h = Some a)"
proof -
  have bs: "find_binding e key m = Some b \<Longrightarrow>
      b \<in> set (bs_bindings (ae_cfg e)) \<and> b_key b = key \<and> b_mods b = m" for b m
    using find_SomeD by (fastforce simp: find_binding_def)
  show ?thesis using assms by (auto simp: key_down_def Let_def split: if_splits option.splits dest!: bs)
qed


section \<open>Ownership of releases\<close>

lemma key_down_owned: "k \<in> set (ae_owned e) \<Longrightarrow> k \<in> set (ae_owned (snd (key_down now key m h e)))"
  by (auto simp: key_down_def Let_def split: option.split)

lemma key_up_owned: "k \<in> set (ae_owned e) \<Longrightarrow> key \<noteq> k \<Longrightarrow> k \<in> set (ae_owned (snd (key_up key e)))"
  by (auto simp: key_up_def split: option.split)

lemma run_owned:
  "list_all (\<lambda>ev. ev \<noteq> KeyWentUp k) evs \<Longrightarrow> k \<in> set (ae_owned e) \<Longrightarrow> k \<in> set (ae_owned (run engine_step evs e))"
proof (induction evs arbitrary: e)
  case Nil then show ?case by simp
next
  case (Cons ev evs)
  have "k \<in> set (ae_owned (engine_step ev e))"
    using Cons.prems by (cases ev) (auto simp: set_config_def key_down_owned key_up_owned)
  then show ?case using Cons by simp
qed

lemma key_up_of_owned: "k \<in> set (ae_owned e) \<Longrightarrow> \<not> is_modifier k \<Longrightarrow> fst (key_up k e) = Some k"
  by (simp add: key_up_def)

lemma find_binding_cfg: "ae_cfg e = ae_cfg e' \<Longrightarrow> find_binding e k m = find_binding e' k m"
  by (simp add: find_binding_def)

section \<open>Properties\<close>

text \<open>
  C22. Whatever the configuration file says and whatever keys are pressed, released or rebound, a
  key press that fires an action is a press of a bound key with exactly the binding's modifiers,
  is never a modifier or a code of the error range, and without a modifier it is one of the keys
  whose bare press no application acts on: the keyboard's letters, digits, Tab, Space and Enter
  cannot be taken from the user.
\<close>
theorem fired_chord_is_safe:
  assumes "fst (key_down now key m at_home (run engine_step evs (new_engine c))) = Some a"
  shows "\<exists>b \<in> set (bs_bindings (ae_cfg (run engine_step evs (new_engine c)))).
    b_key b = key \<and> fire b at_home = Some a \<and>
    b_mods b = effective_mods (run engine_step evs (new_engine c)) m \<and>
    MIN_BINDABLE_KEY \<le> key \<and> \<not> is_modifier key \<and> (mods_any (b_mods b) \<or> bare_safe key)"
proof -
  have "engine_ok (run engine_step evs (new_engine c))"
    by (rule engine.run_inv [OF _ new_engine_ok]) (simp add: list_all_iff)
  then show ?thesis using fired_binding [OF assms]
    by (auto simp: engine_ok_def list_all_iff is_bindable_def)
qed

theorem fired_chord_is_safe_witness:
  "\<exists>b \<in> set (bs_bindings default_bind_section). b_key b = 0x48 \<and> bare_safe 0x48"
  using fired_chord_is_safe [of 0 "0x48" MODS_NONE True "[]" default_bind_section ToggleLock]
  by (auto simp: key_down_def Let_def new_engine_def new_sanitized_def sanitized_def
      default_bind_section_def tick_def is_modifier_def is_bindable_def bare_safe_def HID_PAUSE_def
      HID_SCROLL_LOCK_def MIN_BINDABLE_KEY_def effective_mods_def mods_any_def MODS_NONE_def
      find_binding_def fire_def)

text \<open>
  The release of a key that started a chord is always reported as the engine's own, whatever
  happens between the press and the release: other keys, fired chords, a new configuration.
\<close>
theorem chord_start_owns_release:
  assumes "bs_enabled (ae_cfg e)" "\<not> is_modifier k" "starts_chord e k"
    "find_binding e k (effective_mods e m) = None" "list_all (\<lambda>ev. ev \<noteq> KeyWentUp k) evs"
  shows "fst (key_up k (run engine_step evs (snd (key_down now k m h e)))) = Some k"
proof -
  have "k \<in> set (ae_owned (snd (key_down now k m h e)))"
    using assms(1-4) by (simp add: key_down_def Let_def)
  then show ?thesis using assms run_owned key_up_of_owned by blast
qed

definition ctrl_tab :: bind_section where
  "ctrl_tab = \<lparr>bs_enabled = True, bs_bindings =
     [\<lparr>b_mods = MODS_NONE\<lparr>m_ctrl := True\<rparr>, b_key = 0x2B, b_action = ''cycle'', b_screen = []\<rparr>]\<rparr>"

lemmas engine_eval =
  key_down_def key_up_def Let_def new_engine_def new_sanitized_def sanitized_def tick_def
  is_modifier_def is_bindable_def bare_safe_def HID_PAUSE_def HID_SCROLL_LOCK_def
  MIN_BINDABLE_KEY_def effective_mods_def mods_any_def MODS_NONE_def find_binding_def
  starts_chord_def fire_def apply_key_def

theorem chord_start_owns_release_witness:
  "fst (key_up 0x2B (run engine_step [ConfigAdopted default_bind_section]
     (snd (key_down 0 0x2B MODS_NONE False (new_engine ctrl_tab))))) = Some 0x2B"
  by (rule chord_start_owns_release) (simp_all add: ctrl_tab_def engine_eval)

text \<open>
  Only the last fired chord is remembered: when a second chord fires while the key of the
  first is still held, the release of the first key is no longer the engine's, so the client is
  sent a release for a press it never saw.
\<close>
theorem second_chord_forgets_first:
  assumes "bs_enabled (ae_cfg e)" "k1 \<noteq> k2" "\<not> is_modifier k1" "\<not> is_modifier k2" "k1 \<notin> set (ae_owned e)"
    "find_binding e k1 (effective_mods e m) = Some b1" "find_binding e k2 (effective_mods e m) = Some b2"
  shows "fst (key_up k1 (snd (key_down n2 k2 m h (snd (key_down n1 k1 m h e))))) = None"
proof -
  let ?e1 = "snd (key_down n1 k1 m h e)"
  have e1: "ae_owned ?e1 = ae_owned e" "ae_mods ?e1 = ae_mods e" "ae_cfg ?e1 = ae_cfg e"
    using assms by (simp_all add: key_down_def Let_def)
  then have "effective_mods ?e1 m = effective_mods e m" "find_binding ?e1 k2 (effective_mods e m) = Some b2"
    using assms(7) by (simp_all add: effective_mods_def find_binding_def)
  then have "ae_fired (snd (key_down n2 k2 m h ?e1)) = Some k2"
    "ae_owned (snd (key_down n2 k2 m h ?e1)) = ae_owned e"
    "ae_pending (snd (key_down n2 k2 m h ?e1)) = None"
    using assms e1 by (simp_all add: key_down_def [of n2] Let_def)
  then show ?thesis using assms by (simp add: key_up_def)
qed

theorem second_chord_forgets_first_witness:
  "fst (key_up 0x47 (snd (key_down 2 0x48 MODS_NONE False
     (snd (key_down 1 0x47 MODS_NONE False (new_engine default_bind_section)))))) = None"
  by (rule second_chord_forgets_first) (simp_all add: default_bind_section_def engine_eval)

text \<open>
  Modifier keys always pass through: they never fire, start or end a chord, and their
  releases are never kept from the client.
\<close>
theorem modifiers_pass_through:
  "is_modifier key \<longrightarrow>
     fst (key_down now key m h e) = None \<and> fst (key_up key e) = None \<and>
     ae_owned (snd (key_down now key m h e)) = ae_owned e \<and>
     ae_fired (snd (key_down now key m h e)) = ae_fired e \<and> snd (key_up key e) = e\<lparr>ae_mods := apply_key (ae_mods e) key False\<rparr>"
  by (auto simp: key_down_def key_up_def Let_def)

theorem modifiers_pass_through_witness: "fst (key_down 0 0xE0 MODS_NONE True (new_engine default_bind_section)) = None"
  using modifiers_pass_through [of "0xE0" 0 MODS_NONE True] by (simp add: is_modifier_def)

end
