(* ===== verification/Motion.thy ===== *)
theory Motion
  imports Prelude
begin

text \<open>
  Motion accumulation and cursor steering, \<open>core/src/motion/\<close>, and the input preferences of
  \<open>core/src/input.rs\<close>.  The \<open>f64\<close> accumulators are real numbers: sums and the halving and
  truncation of the code are exact, so what is proved is the algorithm without rounding error.
  Conversions to \<open>i32\<close> saturate as \<open>as i32\<close> does.

  Three parts of the program accumulate fractions and emit whole pixels.  Their common contract
  is the locale \<open>conserving\<close>: what goes in is what comes out plus what is still held.
\<close>

section \<open>The contract of an accumulator\<close>

text \<open>The sum of an amount over the steps of a run.\<close>

fun total :: "('ev \<Rightarrow> 's \<Rightarrow> 's) \<Rightarrow> ('ev \<Rightarrow> 's \<Rightarrow> 'a::comm_monoid_add) \<Rightarrow> 'ev list \<Rightarrow> 's \<Rightarrow> 'a" where
  "total step amount [] s = 0"
| "total step amount (e # evs) s = amount e s + total step amount evs (step e s)"

locale conserving =
  fixes step :: "'ev \<Rightarrow> 's \<Rightarrow> 's" and held :: "'s \<Rightarrow> real"
    and given :: "'ev \<Rightarrow> 's \<Rightarrow> real" and taken :: "'ev \<Rightarrow> 's \<Rightarrow> int"
  assumes balance: "held (step e s) + of_int (taken e s) = held s + given e s"
begin

lemma run_balance:
  "held (run step evs s) + of_int (total step taken evs s) = held s + total step given evs s"
proof (induction evs arbitrary: s)
  case Nil then show ?case by simp
next
  case (Cons e evs)
  show ?case using Cons [of "step e s"] balance [of e s] by simp
qed

end

section \<open>Pending motion\<close>

record pending_motion =
  pm_fx :: real
  pm_fy :: real

definition empty_motion :: pending_motion where
  "empty_motion = \<lparr>pm_fx = 0, pm_fy = 0\<rparr>"

definition pm_push :: "real \<Rightarrow> real \<Rightarrow> pending_motion \<Rightarrow> pending_motion" where
  "pm_push dx dy p = p\<lparr>pm_fx := pm_fx p + dx, pm_fy := pm_fy p + dy\<rparr>"

definition take_whole :: "pending_motion \<Rightarrow> (int \<times> int) option \<times> pending_motion" where
  "take_whole p =
     (let ix = real_to_i32 (pm_fx p); iy = real_to_i32 (pm_fy p) in
      if ix = 0 \<and> iy = 0 then (None, p)
      else (Some (ix, iy), p\<lparr>pm_fx := pm_fx p - of_int ix, pm_fy := pm_fy p - of_int iy\<rparr>))"

text \<open>\<open>flush\<close>: the moves handed to the callback, and the accumulator after.\<close>

definition pm_flush :: "pending_motion \<Rightarrow> (int \<times> int) list \<times> pending_motion" where
  "pm_flush p = (case take_whole p of (None, p') \<Rightarrow> ([], p') | (Some d, p') \<Rightarrow> ([d], p'))"

definition has_pending :: "pending_motion \<Rightarrow> bool" where
  "has_pending p \<longleftrightarrow> trunc_toward (pm_fx p) \<noteq> 0 \<or> trunc_toward (pm_fy p) \<noteq> 0"

datatype pm_event = PmPush real real | PmTake

fun pm_step :: "pm_event \<Rightarrow> pending_motion \<Rightarrow> pending_motion" where
  "pm_step (PmPush dx dy) p = pm_push dx dy p"
| "pm_step PmTake p = snd (take_whole p)"

definition emitted :: "(int \<times> int) option \<Rightarrow> int \<times> int" where
  "emitted r = (case r of None \<Rightarrow> (0, 0) | Some d \<Rightarrow> d)"

fun pm_in :: "pm_event \<Rightarrow> pending_motion \<Rightarrow> real \<times> real" where
  "pm_in (PmPush dx dy) p = (dx, dy)"
| "pm_in PmTake p = (0, 0)"

fun pm_out :: "pm_event \<Rightarrow> pending_motion \<Rightarrow> int \<times> int" where
  "pm_out (PmPush dx dy) p = (0, 0)"
| "pm_out PmTake p = emitted (fst (take_whole p))"

interpretation pending_x: conserving pm_step pm_fx "\<lambda>e p. fst (pm_in e p)" "\<lambda>e p. fst (pm_out e p)"
proof
  fix e p show "pm_fx (pm_step e p) + of_int (fst (pm_out e p)) = pm_fx p + fst (pm_in e p)"
    by (cases e) (auto simp: pm_push_def take_whole_def Let_def emitted_def)
qed

interpretation pending_y: conserving pm_step pm_fy "\<lambda>e p. snd (pm_in e p)" "\<lambda>e p. snd (pm_out e p)"
proof
  fix e p show "pm_fy (pm_step e p) + of_int (snd (pm_out e p)) = pm_fy p + snd (pm_in e p)"
    by (cases e) (auto simp: pm_push_def take_whole_def Let_def emitted_def)
qed

lemma real_to_i32_error:
  assumes "\<bar>x\<bar> < 2147483647"
  shows "\<bar>x - of_int (real_to_i32 x)\<bar> < 1" "real_to_i32 x = trunc_toward x"
proof -
  have e: "\<bar>x - of_int (trunc_toward x)\<bar> < 1" by (rule trunc_toward_error)
  then have "\<bar>of_int (trunc_toward x) :: real\<bar> < 2147483648" using assms by linarith
  then have "\<bar>trunc_toward x\<bar> < 2147483648" by linarith
  then have "in_i32 (trunc_toward x)" by (auto simp: in_i32_def)
  then show "real_to_i32 x = trunc_toward x" by (simp add: real_to_i32_def sat_i32_id)
  then show "\<bar>x - of_int (real_to_i32 x)\<bar> < 1" using e by simp
qed

section \<open>The gain tracker\<close>

text \<open>The sample counter is a natural number: \<open>2 ^ 32\<close> windows are not reached.\<close>

definition GAIN_MIN_REL :: real where "GAIN_MIN_REL = 12"
definition GAIN_MIN_REAL :: real where "GAIN_MIN_REAL = 4"
definition GAIN_MAX_JUMP_FACTOR :: real where "GAIN_MAX_JUMP_FACTOR = 4"
definition GAIN_MIN :: real where "GAIN_MIN = 1 / 4"
definition GAIN_MAX :: real where "GAIN_MAX = 3"
definition GAIN_WARMUP :: nat where "GAIN_WARMUP = 6"
definition GAIN_ALPHA :: real where "GAIN_ALPHA = 1 / 4"

lemmas gain_consts = GAIN_MIN_REL_def GAIN_MIN_REAL_def GAIN_MAX_JUMP_FACTOR_def GAIN_MIN_def
  GAIN_MAX_def GAIN_WARMUP_def GAIN_ALPHA_def

definition clamp_real :: "real \<Rightarrow> real \<Rightarrow> real \<Rightarrow> real" where
  "clamp_real v lo hi = (if v < lo then lo else if hi < v then hi else v)"

lemma clamp_real_bounds: "lo \<le> hi \<Longrightarrow> lo \<le> clamp_real v lo hi \<and> clamp_real v lo hi \<le> hi"
  by (simp add: clamp_real_def)

definition gain_alpha :: "nat \<Rightarrow> real" where
  "gain_alpha n = (if n \<le> GAIN_WARMUP then 1 / real n else GAIN_ALPHA)"

record gain_tracker =
  gt_last :: "(int \<times> int) option"
  gt_rel :: "int \<times> int"
  gt_gain :: real
  gt_samples :: nat

definition new_gain :: gain_tracker where
  "new_gain = \<lparr>gt_last = None, gt_rel = (0, 0), gt_gain = 1, gt_samples = 0\<rparr>"

definition on_delta :: "int \<Rightarrow> int \<Rightarrow> gain_tracker \<Rightarrow> gain_tracker" where
  "on_delta dx dy g = g\<lparr>gt_rel := (fst (gt_rel g) + dx, snd (gt_rel g) + dy)\<rparr>"

definition on_beacon :: "int \<Rightarrow> int \<Rightarrow> gain_tracker \<Rightarrow> real \<times> gain_tracker" where
  "on_beacon x y g =
     (let measured =
        (case gt_last g of
           None \<Rightarrow> g
         | Some (px, py) \<Rightarrow>
             let rel = real_of_int (\<bar>fst (gt_rel g)\<bar> + \<bar>snd (gt_rel g)\<bar>);
                 travel = real_of_int (add32 (abs32 (sub32 x px)) (abs32 (sub32 y py))) in
             if rel \<ge> GAIN_MIN_REL \<and> travel \<ge> GAIN_MIN_REAL \<and> travel \<le> GAIN_MAX_JUMP_FACTOR * rel
             then let window = clamp_real (travel / rel) GAIN_MIN GAIN_MAX;
                      n = gt_samples g + 1 in
                  g\<lparr>gt_samples := n, gt_gain := gt_gain g + gain_alpha n * (window - gt_gain g)\<rparr>
             else g);
          g' = measured\<lparr>gt_last := Some (x, y), gt_rel := (0, 0)\<rparr> in
      (gt_gain g', g'))"

datatype gain_event = Delta int int | Beacon int int

fun gain_step :: "gain_event \<Rightarrow> gain_tracker \<Rightarrow> gain_tracker" where
  "gain_step (Delta dx dy) g = on_delta dx dy g"
| "gain_step (Beacon x y) g = snd (on_beacon x y g)"

definition gain_ok :: "gain_tracker \<Rightarrow> bool" where
  "gain_ok g \<longleftrightarrow> GAIN_MIN \<le> gt_gain g \<and> gt_gain g \<le> GAIN_MAX"

lemma convex_between:
  fixes g w a lo hi :: real
  assumes "0 \<le> a" "a \<le> 1" "lo \<le> g" "g \<le> hi" "lo \<le> w" "w \<le> hi"
  shows "lo \<le> g + a * (w - g) \<and> g + a * (w - g) \<le> hi"
proof -
  have "g + a * (w - g) = (1 - a) * g + a * w" by (simp add: algebra_simps)
  moreover have "(1 - a) * lo + a * lo \<le> (1 - a) * g + a * w"
    using assms by (intro add_mono mult_left_mono) auto
  moreover have "(1 - a) * g + a * w \<le> (1 - a) * hi + a * hi"
    using assms by (intro add_mono mult_left_mono) auto
  ultimately show ?thesis by (simp add: algebra_simps)
qed

lemma gain_alpha_bounds: "0 < n \<Longrightarrow> 0 \<le> gain_alpha n \<and> gain_alpha n \<le> 1"
  by (simp add: gain_alpha_def GAIN_ALPHA_def)

lemma smoothed_ok:
  assumes "gain_ok g" "0 < n"
  shows "gain_ok (g\<lparr>gt_samples := n,
    gt_gain := gt_gain g + gain_alpha n * (clamp_real v GAIN_MIN GAIN_MAX - gt_gain g)\<rparr>)"
proof -
  have "GAIN_MIN \<le> clamp_real v GAIN_MIN GAIN_MAX \<and> clamp_real v GAIN_MIN GAIN_MAX \<le> GAIN_MAX"
    by (rule clamp_real_bounds) (simp add: gain_consts)
  then show ?thesis
    using assms convex_between [of "gain_alpha n" GAIN_MIN "gt_gain g" GAIN_MAX] gain_alpha_bounds [OF assms(2)]
    by (simp add: gain_ok_def)
qed

lemma gain_ok_frame [simp]: "gain_ok (g\<lparr>gt_last := l, gt_rel := r\<rparr>) = gain_ok g"
  by (simp add: gain_ok_def)

lemma on_beacon_ok: "gain_ok g \<Longrightarrow> gain_ok (snd (on_beacon x y g))"
  unfolding on_beacon_def Let_def snd_conv gain_ok_frame
  by (auto split: option.split intro: smoothed_ok)

interpretation gain: keeps_invariant gain_step "\<lambda>_. True" gain_ok
proof
  fix e g assume "gain_ok g"
  then show "gain_ok (gain_step e g)"
    by (cases e) (simp_all add: on_beacon_ok, simp add: gain_ok_def on_delta_def)
qed


section \<open>The position follower\<close>

definition FEED_FORWARD :: real where "FEED_FORWARD = 1 / 2"
definition FOLLOW_GAIN :: real where "FOLLOW_GAIN = 2 / 5"
definition FOLLOW_MAX_STEP :: real where "FOLLOW_MAX_STEP = 32"
definition FOLLOW_FLUSH_CAP :: real where "FOLLOW_FLUSH_CAP = 64"

lemmas follow_consts = FEED_FORWARD_def FOLLOW_GAIN_def FOLLOW_MAX_STEP_def FOLLOW_FLUSH_CAP_def

record follower =
  fo_tx :: real
  fo_ty :: real
  fo_active :: bool
  fo_fx :: real
  fo_fy :: real
  fo_bounds :: "(u32 \<times> u32) option"

definition default_follower :: follower where
  "default_follower = \<lparr>fo_tx = 0, fo_ty = 0, fo_active = False, fo_fx = 0, fo_fy = 0, fo_bounds = None\<rparr>"

definition last_index :: "u32 \<Rightarrow> real" where
  "last_index w = real_of_int (max (int (unat w) - 1) 0)"

definition clamp_command :: "follower \<Rightarrow> follower" where
  "clamp_command f =
     (case fo_bounds f of
        None \<Rightarrow> f
      | Some (w, h) \<Rightarrow> f\<lparr>fo_tx := clamp_real (fo_tx f) 0 (last_index w),
                         fo_ty := clamp_real (fo_ty f) 0 (last_index h)\<rparr>)"

definition set_bounds :: "u32 \<Rightarrow> u32 \<Rightarrow> follower \<Rightarrow> follower" where
  "set_bounds w h f = clamp_command (f\<lparr>fo_bounds := Some (w, h)\<rparr>)"

definition fo_enter :: "int \<Rightarrow> int \<Rightarrow> follower \<Rightarrow> follower" where
  "fo_enter x y f = clamp_command (f\<lparr>fo_tx := of_int x, fo_ty := of_int y, fo_active := True,
     fo_fx := 0, fo_fy := 0\<rparr>)"

definition fo_leave :: "follower \<Rightarrow> follower" where
  "fo_leave f = f\<lparr>fo_active := False, fo_fx := 0, fo_fy := 0\<rparr>"

definition fo_advance :: "int \<Rightarrow> int \<Rightarrow> follower \<Rightarrow> follower" where
  "fo_advance dx dy f = clamp_command (f\<lparr>fo_tx := fo_tx f + of_int dx, fo_ty := fo_ty f + of_int dy\<rparr>)"

text \<open>Take the whole pixels of the carry: the tail of \<open>push\<close> and of \<open>correct\<close>.\<close>

definition take_carry :: "follower \<Rightarrow> (int \<times> int) option \<times> follower" where
  "take_carry f =
     (let ix = real_to_i32 (fo_fx f); iy = real_to_i32 (fo_fy f) in
      if ix = 0 \<and> iy = 0 then (None, f)
      else (Some (ix, iy), f\<lparr>fo_fx := fo_fx f - of_int ix, fo_fy := fo_fy f - of_int iy\<rparr>))"

definition fo_push :: "int \<Rightarrow> int \<Rightarrow> follower \<Rightarrow> (int \<times> int) \<times> follower" where
  "fo_push dx dy f =
     (let f1 = fo_advance dx dy f;
          f2 = f1\<lparr>fo_fx := fo_fx f1 + of_int dx * FEED_FORWARD, fo_fy := fo_fy f1 + of_int dy * FEED_FORWARD\<rparr> in
      case take_carry f2 of (None, f3) \<Rightarrow> ((0, 0), f3) | (Some d, f3) \<Rightarrow> (d, f3))"

definition fo_reanchor :: "int \<Rightarrow> int \<Rightarrow> follower \<Rightarrow> follower" where
  "fo_reanchor x y f = clamp_command (f\<lparr>fo_tx := of_int x, fo_ty := of_int y, fo_fx := 0, fo_fy := 0\<rparr>)"

definition fo_command :: "follower \<Rightarrow> int \<times> int" where
  "fo_command f = (sat_i32 (round_away (fo_tx f)), sat_i32 (round_away (fo_ty f)))"

definition fo_correct :: "int \<times> int \<Rightarrow> follower \<Rightarrow> (int \<times> int) option \<times> follower" where
  "fo_correct pos f =
     (if \<not> fo_active f then (None, f)
      else
        let ex = clamp_real ((fo_tx f - of_int (fst pos)) * FOLLOW_GAIN) (- FOLLOW_MAX_STEP) FOLLOW_MAX_STEP;
            ey = clamp_real ((fo_ty f - of_int (snd pos)) * FOLLOW_GAIN) (- FOLLOW_MAX_STEP) FOLLOW_MAX_STEP in
        if ex = 0 \<and> ey = 0 then (None, f)
        else take_carry (f\<lparr>fo_fx := fo_fx f + ex, fo_fy := fo_fy f + ey\<rparr>))"

definition fo_flush :: "int \<times> int \<Rightarrow> follower \<Rightarrow> (int \<times> int) option \<times> follower" where
  "fo_flush pos f =
     (if \<not> fo_active f then (None, f)
      else
        let ex = clamp_real (fo_tx f - of_int (fst pos)) (- FOLLOW_FLUSH_CAP) FOLLOW_FLUSH_CAP;
            ey = clamp_real (fo_ty f - of_int (snd pos)) (- FOLLOW_FLUSH_CAP) FOLLOW_FLUSH_CAP;
            f' = f\<lparr>fo_fx := 0, fo_fy := 0\<rparr> in
        if ex = 0 \<and> ey = 0 then (None, f')
        else (Some (sat_i32 (round_away ex), sat_i32 (round_away ey)), f'))"

definition fo_error :: "int \<times> int \<Rightarrow> follower \<Rightarrow> int \<times> int" where
  "fo_error pos f = (real_to_i32 (fo_tx f - of_int (fst pos)), real_to_i32 (fo_ty f - of_int (snd pos)))"

datatype follow_event =
  FoBounds u32 u32 | FoEnter int int | FoLeave | FoPush int int | FoAdvance int int
  | FoReanchor int int | FoCorrect "int \<times> int" | FoFlush "int \<times> int"

fun follow_step :: "follow_event \<Rightarrow> follower \<Rightarrow> follower" where
  "follow_step (FoBounds w h) f = set_bounds w h f"
| "follow_step (FoEnter x y) f = fo_enter x y f"
| "follow_step FoLeave f = fo_leave f"
| "follow_step (FoPush dx dy) f = snd (fo_push dx dy f)"
| "follow_step (FoAdvance dx dy) f = fo_advance dx dy f"
| "follow_step (FoReanchor x y) f = fo_reanchor x y f"
| "follow_step (FoCorrect pos) f = snd (fo_correct pos f)"
| "follow_step (FoFlush pos) f = snd (fo_flush pos f)"

text \<open>The event carries coordinates of the width of the code's parameters.\<close>

fun follow_event_ok :: "follow_event \<Rightarrow> bool" where
  "follow_event_ok (FoPush dx dy) \<longleftrightarrow> in_i32 dx \<and> in_i32 dy"
| "follow_event_ok _ \<longleftrightarrow> True"

definition follower_ok :: "follower \<Rightarrow> bool" where
  "follower_ok f \<longleftrightarrow>
     (\<forall>w h. fo_bounds f = Some (w, h) \<longrightarrow>
        0 \<le> fo_tx f \<and> fo_tx f \<le> last_index w \<and> 0 \<le> fo_ty f \<and> fo_ty f \<le> last_index h) \<and>
     \<bar>fo_fx f\<bar> < 1 \<and> \<bar>fo_fy f\<bar> < 1"

lemma last_index_nonneg [simp]: "0 \<le> last_index w"
  by (simp add: last_index_def)

definition inside_bounds :: "follower \<Rightarrow> bool" where
  "inside_bounds f \<longleftrightarrow> (\<forall>w h. fo_bounds f = Some (w, h) \<longrightarrow>
        0 \<le> fo_tx f \<and> fo_tx f \<le> last_index w \<and> 0 \<le> fo_ty f \<and> fo_ty f \<le> last_index h)"

lemma follower_ok_alt: "follower_ok f \<longleftrightarrow> inside_bounds f \<and> \<bar>fo_fx f\<bar> < 1 \<and> \<bar>fo_fy f\<bar> < 1"
  by (simp add: follower_ok_def inside_bounds_def)

lemma clamp_command_inside [simp, intro]: "inside_bounds (clamp_command f)"
  using clamp_real_bounds [of 0] by (auto simp: inside_bounds_def clamp_command_def split: option.splits)

lemma clamp_command_carry [simp]:
  "fo_fx (clamp_command f) = fo_fx f" "fo_fy (clamp_command f) = fo_fy f"
  "fo_active (clamp_command f) = fo_active f" "fo_bounds (clamp_command f) = fo_bounds f"
  by (auto simp: clamp_command_def split: option.split)

lemma inside_bounds_carry [simp]: "inside_bounds (f\<lparr>fo_fx := a, fo_fy := b\<rparr>) = inside_bounds f"
  by (simp add: inside_bounds_def)

lemma take_carry_simps [simp]:
  "fo_tx (snd (take_carry f)) = fo_tx f" "fo_ty (snd (take_carry f)) = fo_ty f"
  "fo_bounds (snd (take_carry f)) = fo_bounds f" "fo_active (snd (take_carry f)) = fo_active f"
  "inside_bounds (snd (take_carry f)) = inside_bounds f"
  by (simp_all add: take_carry_def Let_def)

lemma take_carry_eq:
  "emitted (fst (take_carry f)) = (real_to_i32 (fo_fx f), real_to_i32 (fo_fy f))"
  "fo_fx (snd (take_carry f)) = fo_fx f - of_int (real_to_i32 (fo_fx f))"
  "fo_fy (snd (take_carry f)) = fo_fy f - of_int (real_to_i32 (fo_fy f))"
  by (auto simp: take_carry_def Let_def emitted_def)

lemma take_carry_small:
  "\<bar>fo_fx f\<bar> < 2147483647 \<Longrightarrow> \<bar>fo_fx (snd (take_carry f))\<bar> < 1"
  "\<bar>fo_fy f\<bar> < 2147483647 \<Longrightarrow> \<bar>fo_fy (snd (take_carry f))\<bar> < 1"
  using real_to_i32_error(1) by (simp_all add: take_carry_eq)

lemma fo_push_eq:
  "fst (fo_push dx dy f) = emitted (fst (take_carry ((fo_advance dx dy f)\<lparr>
      fo_fx := fo_fx f + of_int dx / 2, fo_fy := fo_fy f + of_int dy / 2\<rparr>)))"
  "snd (fo_push dx dy f) = snd (take_carry ((fo_advance dx dy f)\<lparr>
      fo_fx := fo_fx f + of_int dx / 2, fo_fy := fo_fy f + of_int dy / 2\<rparr>))"
  by (auto simp: fo_push_def Let_def fo_advance_def FEED_FORWARD_def emitted_def
      split: prod.split option.split)

lemma half_small:
  assumes "\<bar>f\<bar> < (1 :: real)" "in_i32 d"
  shows "\<bar>f + of_int d / 2\<bar> < 2147483647"
proof -
  have "\<bar>real_of_int d\<bar> \<le> 2147483648" using assms(2) by (auto simp: in_i32_def)
  then show ?thesis using assms(1) by linarith
qed

lemma fo_push_ok:
  assumes "follower_ok f" "in_i32 dx" "in_i32 dy"
  shows "follower_ok (snd (fo_push dx dy f))"
  using assms unfolding follower_ok_alt fo_push_eq
  by (auto simp: fo_advance_def intro!: take_carry_small half_small)

lemma correction_bound:
  "\<bar>clamp_real v (- FOLLOW_MAX_STEP) FOLLOW_MAX_STEP\<bar> \<le> 32"
  by (auto simp: clamp_real_def FOLLOW_MAX_STEP_def)

lemma truncated_step:
  assumes "\<bar>g\<bar> < (1 :: real)" "\<bar>v\<bar> \<le> 32"
  shows "\<bar>real_to_i32 (g + v)\<bar> \<le> 32"
proof -
  have "\<bar>g + v\<bar> < 33" using assms by linarith
  then have "\<bar>trunc_toward (g + v)\<bar> \<le> 32" by (simp add: trunc_toward_def) linarith
  then show ?thesis by (auto simp: real_to_i32_def sat_i32_def)
qed

lemma flush_step: "\<bar>sat_i32 (round_away (clamp_real v (- 64) 64))\<bar> \<le> 64"
proof -
  have "\<bar>clamp_real v (- 64) 64\<bar> \<le> 64" by (auto simp: clamp_real_def)
  then have "\<bar>round_away (clamp_real v (- 64) 64)\<bar> \<le> 64" by (simp add: round_away_def) linarith
  then show ?thesis by (auto simp: sat_i32_def)
qed

lemma fo_correct_ok:
  assumes "follower_ok f" shows "follower_ok (snd (fo_correct pos f))"
proof -
  have "\<bar>g + clamp_real v (- FOLLOW_MAX_STEP) FOLLOW_MAX_STEP\<bar> < 2147483647" if "\<bar>g\<bar> < 1" for g v
    using correction_bound [of v] that by linarith
  then show ?thesis using assms unfolding follower_ok_alt fo_correct_def Let_def
    by (auto intro!: take_carry_small)
qed

lemma follow_step_ok:
  assumes "follow_event_ok e" "follower_ok f" shows "follower_ok (follow_step e f)"
proof (cases e)
  case (FoFlush pos)
  then show ?thesis using assms by (auto simp: fo_flush_def Let_def follower_ok_alt)
next
  case FoLeave
  then show ?thesis using assms by (auto simp: fo_leave_def follower_ok_alt inside_bounds_def)
qed (use assms in \<open>auto simp: fo_push_ok fo_correct_ok, auto simp: follower_ok_alt set_bounds_def
      fo_enter_def fo_advance_def fo_reanchor_def\<close>)

interpretation follower: keeps_invariant follow_step follow_event_ok follower_ok
  by unfold_locales (rule follow_step_ok)

lemma default_follower_ok: "follower_ok default_follower"
  by (simp add: follower_ok_def default_follower_def)


text \<open>The carry of the follower: halves of the frames and corrections in, whole pixels out.\<close>

fun carry_given :: "follow_event \<Rightarrow> follower \<Rightarrow> real" where
  "carry_given (FoPush dx dy) f = of_int dx / 2"
| "carry_given (FoCorrect pos) f =
     (if fo_active f then clamp_real ((fo_tx f - of_int (fst pos)) * FOLLOW_GAIN) (- FOLLOW_MAX_STEP) FOLLOW_MAX_STEP else 0)"
| "carry_given (FoEnter x y) f = - fo_fx f"
| "carry_given (FoReanchor x y) f = - fo_fx f"
| "carry_given FoLeave f = - fo_fx f"
| "carry_given (FoFlush pos) f = (if fo_active f then - fo_fx f else 0)"
| "carry_given _ f = 0"

fun carry_taken :: "follow_event \<Rightarrow> follower \<Rightarrow> int" where
  "carry_taken (FoPush dx dy) f = fst (fst (fo_push dx dy f))"
| "carry_taken (FoCorrect pos) f = fst (emitted (fst (fo_correct pos f)))"
| "carry_taken _ f = 0"

interpretation follower_carry: conserving follow_step fo_fx carry_given carry_taken
proof
  fix e f
  show "fo_fx (follow_step e f) + of_int (carry_taken e f) = fo_fx f + carry_given e f"
  proof (cases e)
    case (FoPush dx dy)
    then show ?thesis by (simp add: fo_push_eq take_carry_eq)
  next
    case (FoCorrect pos)
    then show ?thesis by (auto simp: fo_correct_def Let_def take_carry_eq emitted_def [of None])
  qed (simp_all add: set_bounds_def fo_enter_def fo_leave_def fo_advance_def fo_reanchor_def fo_flush_def Let_def)
qed

section \<open>The motion probe\<close>

text \<open>The clock reading of the call is \<open>now\<close>, in nanoseconds; \<open>sample\<close> returns what it emits.\<close>

record motion_probe =
  mp_interval :: nat
  mp_last :: nat
  mp_active :: bool
  mp_anchor :: "int \<times> int"
  mp_exp :: "int \<times> int"
  mp_req_win :: "int \<times> int"
  mp_real_win :: "int \<times> int"

definition new_probe :: "nat \<Rightarrow> nat \<Rightarrow> motion_probe" where
  "new_probe interval now = \<lparr>mp_interval = interval, mp_last = now, mp_active = False, mp_anchor = (0, 0),
     mp_exp = (0, 0), mp_req_win = (0, 0), mp_real_win = (0, 0)\<rparr>"

definition probe_enter :: "nat \<Rightarrow> int \<times> int \<Rightarrow> motion_probe \<Rightarrow> motion_probe" where
  "probe_enter now pos p = p\<lparr>mp_active := True, mp_anchor := pos, mp_exp := (0, 0), mp_req_win := (0, 0),
     mp_real_win := pos, mp_last := now\<rparr>"

definition probe_leave :: "motion_probe \<Rightarrow> motion_probe" where
  "probe_leave p = p\<lparr>mp_active := False\<rparr>"

definition requested :: "int \<Rightarrow> int \<Rightarrow> motion_probe \<Rightarrow> motion_probe" where
  "requested dx dy p = p\<lparr>mp_exp := (fst (mp_exp p) + dx, snd (mp_exp p) + dy),
     mp_req_win := (fst (mp_req_win p) + dx, snd (mp_req_win p) + dy)\<rparr>"

definition sample :: "nat \<Rightarrow> int \<times> int \<Rightarrow> motion_probe \<Rightarrow> int list option \<times> motion_probe" where
  "sample now pos p =
     (if \<not> mp_active p then
        (None, p\<lparr>mp_active := True, mp_anchor := pos, mp_real_win := pos, mp_req_win := (0, 0), mp_last := now\<rparr>)
      else if now - mp_last p < mp_interval p then (None, p)
      else
        let ax = sub32 (fst pos) (fst (mp_real_win p));
            ay = sub32 (snd pos) (snd (mp_real_win p));
            idle = (mp_req_win p = (0, 0) \<and> ax = 0 \<and> ay = 0);
            p' = p\<lparr>mp_last := now, mp_real_win := pos, mp_req_win := (0, 0)\<rparr> in
        if idle then (None, p')
        else (Some [fst (mp_req_win p), snd (mp_req_win p), ax, ay, fst (mp_exp p), snd (mp_exp p), fst pos, snd pos], p'))"

definition probe_due :: "nat \<Rightarrow> motion_probe \<Rightarrow> bool" where
  "probe_due now p \<longleftrightarrow> mp_interval p \<le> now - mp_last p"

section \<open>Input preferences\<close>

record input_prefs =
  ip_pointer_speed :: real
  ip_wheel_speed :: real
  ip_swap_scroll :: bool

definition default_prefs :: input_prefs where
  "default_prefs = \<lparr>ip_pointer_speed = 1, ip_wheel_speed = 1, ip_swap_scroll = False\<rparr>"

definition clamp_prefs :: "input_prefs \<Rightarrow> input_prefs" where
  "clamp_prefs p = p\<lparr>ip_pointer_speed := clamp_real (ip_pointer_speed p) (1 / 4) 3,
     ip_wheel_speed := clamp_real (ip_wheel_speed p) (1 / 4) 8\<rparr>"

definition transform_wheel :: "input_prefs \<Rightarrow> int \<Rightarrow> int \<Rightarrow> int \<times> int" where
  "transform_wheel p dx dy =
     (let dy' = (if ip_swap_scroll p then neg32 dy else dy) in
      (sat_i32 (round_away (of_int dx * ip_wheel_speed p)), sat_i32 (round_away (of_int dy' * ip_wheel_speed p))))"

section \<open>Properties\<close>

text \<open>
  No motion is lost or invented by the accumulator: over any sequence of pushes and takes, on
  each axis, the whole pixels emitted plus the remainder still held are exactly the sum of the
  raw deltas; and after a take the remainder is less than a pixel.
\<close>
theorem pending_motion_conserved:
  fixes evs :: "pm_event list"
  defines "p \<equiv> run pm_step evs empty_motion"
  shows "pm_fx p + of_int (total pm_step (\<lambda>e s. fst (pm_out e s)) evs empty_motion)
      = total pm_step (\<lambda>e s. fst (pm_in e s)) evs empty_motion \<and>
    pm_fy p + of_int (total pm_step (\<lambda>e s. snd (pm_out e s)) evs empty_motion)
      = total pm_step (\<lambda>e s. snd (pm_in e s)) evs empty_motion \<and>
    (\<bar>pm_fx p\<bar> < 2147483647 \<and> \<bar>pm_fy p\<bar> < 2147483647 \<longrightarrow>
      \<bar>pm_fx (snd (take_whole p))\<bar> < 1 \<and> \<bar>pm_fy (snd (take_whole p))\<bar> < 1)"
  using pending_x.run_balance [of evs empty_motion] pending_y.run_balance [of evs empty_motion]
    real_to_i32_error(1) [of "pm_fx p"] real_to_i32_error(1) [of "pm_fy p"]
  by (auto simp: empty_motion_def p_def take_whole_def Let_def)

theorem pending_motion_conserved_witness:
  "\<bar>pm_fx (snd (take_whole (run pm_step [PmPush (7 / 4) (1 / 2), PmPush (3 / 4) 0] empty_motion)))\<bar> < 1"
  using pending_motion_conserved [of "[PmPush (7 / 4) (1 / 2), PmPush (3 / 4) 0]"]
  by (simp add: pm_push_def empty_motion_def)

text \<open>
  The measured pointer gain never leaves 0.25..3.0 pixels per count, whatever deltas and
  beacons the capture reports: no jump, warp or idle window can make the shared cursor explode.
\<close>
theorem gain_stays_bounded:
  "1 / 4 \<le> gt_gain (run gain_step evs new_gain) \<and> gt_gain (run gain_step evs new_gain) \<le> 3"
proof -
  have "gain_ok new_gain" by (simp add: gain_ok_def new_gain_def gain_consts)
  then have "gain_ok (run gain_step evs new_gain)"
    using gain.run_inv [of evs new_gain] by (simp add: list_all_iff)
  then show ?thesis by (simp add: gain_ok_def gain_consts)
qed

lemma follower_bounds:
  assumes ok: "follower_ok f" and "fo_bounds f = Some (w, h)" "0 < w" "0 < h"
  shows "0 \<le> fst (fo_command f) \<and> fst (fo_command f) < int (unat w) \<and>
    0 \<le> snd (fo_command f) \<and> snd (fo_command f) < int (unat h) \<and>
    (fst (fo_correct pos f) = Some (ix, iy) \<longrightarrow> \<bar>ix\<bar> \<le> 32 \<and> \<bar>iy\<bar> \<le> 32) \<and>
    (fst (fo_flush pos f) = Some (jx, jy) \<longrightarrow> \<bar>jx\<bar> \<le> 64 \<and> \<bar>jy\<bar> \<le> 64)"
proof -
  have "0 < unat w" "0 < unat h" using assms(3,4) by (simp_all add: word_less_nat_alt)
  then have pos: "1 \<le> int (unat w)" "1 \<le> int (unat h)" by linarith+
  then have li: "last_index w = of_int (int (unat w) - 1)" "last_index h = of_int (int (unat h) - 1)"
    by (simp_all add: last_index_def)
  have inside: "0 \<le> fo_tx f \<and> fo_tx f \<le> last_index w \<and> 0 \<le> fo_ty f \<and> fo_ty f \<le> last_index h"
    using ok assms(2) by (simp add: follower_ok_def)
  have t: "0 \<le> fo_tx f" "fo_tx f \<le> of_int (int (unat w) - 1)" "0 \<le> fo_ty f" "fo_ty f \<le> of_int (int (unat h) - 1)"
    using inside unfolding li by blast+
  have cmd: "0 \<le> sat_i32 (round_away x) \<and> sat_i32 (round_away x) < n"
    if "0 \<le> x" "x \<le> of_int (n - 1)" "1 \<le> n" for x n
    using that by (auto simp: round_away_def sat_i32_def le_floor_iff floor_less_iff min_def max_def)
  have cx: "0 \<le> fst (fo_command f) \<and> fst (fo_command f) < int (unat w)"
    unfolding fo_command_def fst_conv by (rule cmd [OF t(1,2) pos(1)])
  have cy: "0 \<le> snd (fo_command f) \<and> snd (fo_command f) < int (unat h)"
    unfolding fo_command_def snd_conv by (rule cmd [OF t(3,4) pos(2)])
  have carry: "\<bar>real_to_i32 (g + clamp_real v (- FOLLOW_MAX_STEP) FOLLOW_MAX_STEP)\<bar> \<le> 32"
    if "\<bar>g\<bar> < 1" for g v by (rule truncated_step [OF that correction_bound])
  have corr: "\<bar>ix\<bar> \<le> 32 \<and> \<bar>iy\<bar> \<le> 32" if "fst (fo_correct pos f) = Some (ix, iy)"
    using that ok carry
    by (auto simp: fo_correct_def Let_def take_carry_def follower_ok_def split: if_splits)
  have "\<bar>jx\<bar> \<le> 64 \<and> \<bar>jy\<bar> \<le> 64" if "fst (fo_flush pos f) = Some (jx, jy)"
    using that by (auto simp: fo_flush_def Let_def FOLLOW_FLUSH_CAP_def flush_step split: if_splits)
  with cx cy corr show ?thesis by blast
qed



text \<open>
  A wheel speed between 0.5 and 1.5 leaves single notches as they are and a speed below 0.5
  swallows every one of them: each event is rounded by itself and no fraction is carried, so at
  speed 0.5 every notch scrolls a whole line (not every second one), and at 0.25 the wheel is dead.
\<close>
theorem single_notch_not_scaled:
  "\<not> ip_swap_scroll p \<longrightarrow>
    (1 / 2 \<le> ip_wheel_speed p \<and> ip_wheel_speed p < 3 / 2 \<longrightarrow> transform_wheel p 0 1 = (0, 1)) \<and>
    (0 < ip_wheel_speed p \<and> ip_wheel_speed p < 1 / 2 \<longrightarrow> transform_wheel p 0 1 = (0, 0))"
proof -
  have "\<lfloor>s + 1 / 2\<rfloor> = 1" if "1 / 2 \<le> s" "s < 3 / 2" for s :: real
    using that by (intro floor_unique) auto
  moreover have "\<lfloor>s + 1 / 2\<rfloor> = 0" if "0 < s" "s < 1 / 2" for s :: real
    using that by (intro floor_unique) auto
  moreover have "\<lfloor>1 / 2 :: real\<rfloor> = 0" by (rule floor_unique) auto
  ultimately show ?thesis by (simp add: transform_wheel_def Let_def round_away_def sat_i32_def)
qed

theorem single_notch_not_scaled_witness:
  "transform_wheel (clamp_prefs \<lparr>ip_pointer_speed = 1, ip_wheel_speed = 1 / 4, ip_swap_scroll = False\<rparr>) 0 1 = (0, 0)"
  using single_notch_not_scaled [of "clamp_prefs \<lparr>ip_pointer_speed = 1, ip_wheel_speed = 1 / 4, ip_swap_scroll = False\<rparr>"]
  by (simp add: clamp_prefs_def clamp_real_def)

end
