(* ===== verification/Session.thy ===== *)
theory Session
  imports Desktop Actions Motion
begin

text \<open>
  The session of \<open>core/src/session/\<close>: one cursor, one layout, and the rules for moving between
  screens.  \<open>boundary.rs\<close> is the vocabulary of the crossing model, \<open>mod.rs\<close> the state and the
  operations on clients and layouts, \<open>motion.rs\<close> the event handlers.

  A handler returns the actions for the caller and the new state, or \<open>None\<close> where the code
  panics (an \<open>expect\<close>, or \<open>clamp\<close> with an empty range).  A handler reads the clock at most a few
  times within microseconds; the model gives it one reading \<open>now\<close>, in nanoseconds.  The \<open>f64\<close>
  gain is a real number (see \<open>Motion\<close>).
\<close>

section \<open>The boundary model\<close>

definition EDGE_BAND :: int where "EDGE_BAND = 2"
definition EDGE_PUSH_FRESH :: nat where "EDGE_PUSH_FRESH = 40 * 10 ^ 6"
definition EDGE_PUSH_FALLBACK :: nat where "EDGE_PUSH_FALLBACK = 150 * 10 ^ 6"
definition ENTRY_INSET :: int where "ENTRY_INSET = 24"
definition REMOTE_BEACON_FRESH :: nat where "REMOTE_BEACON_FRESH = 120 * 10 ^ 6"

definition BIT_LEFT :: byte where "BIT_LEFT = 1"
definition BIT_RIGHT :: byte where "BIT_RIGHT = 2"
definition BIT_TOP :: byte where "BIT_TOP = 4"
definition BIT_BOTTOM :: byte where "BIT_BOTTOM = 8"

fun dir_bit :: "direction \<Rightarrow> byte" where
  "dir_bit DLeft = BIT_LEFT"
| "dir_bit DRight = BIT_RIGHT"
| "dir_bit DTop = BIT_TOP"
| "dir_bit DBottom = BIT_BOTTOM"

definition DIRS :: "direction list" where
  "DIRS = [DLeft, DRight, DTop, DBottom]"

fun pushes_outward :: "direction \<Rightarrow> int \<Rightarrow> int \<Rightarrow> bool" where
  "pushes_outward DLeft dx dy = (dx < 0)"
| "pushes_outward DRight dx dy = (dx > 0)"
| "pushes_outward DTop dx dy = (dy < 0)"
| "pushes_outward DBottom dx dy = (dy > 0)"

fun pulls_inward :: "direction \<Rightarrow> int \<Rightarrow> int \<Rightarrow> bool" where
  "pulls_inward DLeft dx dy = (dx > 0)"
| "pulls_inward DRight dx dy = (dx < 0)"
| "pulls_inward DTop dx dy = (dy > 0)"
| "pulls_inward DBottom dx dy = (dy < 0)"

definition set_bit_if :: "bool \<Rightarrow> byte \<Rightarrow> byte \<Rightarrow> byte" where
  "set_bit_if c b bits = (if c then or bits b else bits)"

definition wall_bits :: "rect \<Rightarrow> int \<Rightarrow> int \<Rightarrow> byte" where
  "wall_bits r x y =
     (let bits = 0;
          bits = (if rw r > 2 * EDGE_BAND
                  then set_bit_if (x \<ge> sub32 (rw r) EDGE_BAND) BIT_RIGHT (set_bit_if (x < EDGE_BAND) BIT_LEFT bits)
                  else bits) in
      if rh r > 2 * EDGE_BAND
      then set_bit_if (y \<ge> sub32 (rh r) EDGE_BAND) BIT_BOTTOM (set_bit_if (y < EDGE_BAND) BIT_TOP bits)
      else bits)"

definition armed :: "byte \<Rightarrow> direction \<Rightarrow> bool" where
  "armed bits dir \<longleftrightarrow> and bits (dir_bit dir) \<noteq> 0"

definition disarm :: "byte \<Rightarrow> direction \<Rightarrow> byte" where
  "disarm bits dir = and bits (not (dir_bit dir))"

record push =
  pu_dir :: direction
  pu_at :: nat

record pushing =
  pg_dir :: direction
  pg_since :: nat

section \<open>The state\<close>

datatype mode = Local | Remote byte

datatype action = Send message | SwitchTo byte int int | SwitchToLocal int int | Nothing

text \<open>The cursor of the code is the fields \<open>se_x\<close>, \<open>se_y\<close> and \<open>se_mode\<close>.\<close>

record session =
  se_layout :: layout
  se_x :: int
  se_y :: int
  se_mode :: mode
  se_local :: rect
  se_at_wall :: byte
  se_last_out :: "push option"
  se_pushing :: "pushing option"
  se_remote_at_wall :: byte
  se_remote_beacon_at :: "nat option"
  se_remote_last_out :: "push option"
  se_remote_pushing :: "pushing option"
  se_gain :: real
  se_gain_rem :: "real \<times> real"
  se_dynamic :: "screen list"
  se_connected :: "byte set"
  se_actions :: action_engine
  se_walls_locked :: bool
  se_prefs :: input_prefs

type_synonym outcome = "(action list \<times> session) option"

definition new_session :: "layout \<Rightarrow> byte \<Rightarrow> session option" where
  "new_session l local_id =
     (case find_screen l local_id of
        None \<Rightarrow> None
      | Some s \<Rightarrow>
          let (cx, cy) = rect_center (sc_rect s) in
          Some \<lparr>se_layout = l, se_x = cx, se_y = cy, se_mode = Local, se_local = sc_rect s,
            se_at_wall = 0, se_last_out = None, se_pushing = None, se_remote_at_wall = 0,
            se_remote_beacon_at = None, se_remote_last_out = None, se_remote_pushing = None,
            se_gain = 1, se_gain_rem = (0, 0), se_dynamic = [], se_connected = {},
            se_actions = new_engine default_bind_section, se_walls_locked = False,
            se_prefs = default_prefs\<rparr>)"

definition set_gain :: "real \<Rightarrow> session \<Rightarrow> session" where
  "set_gain g s = s\<lparr>se_gain := clamp_real g (1 / 4) 3\<rparr>"

definition set_bindings :: "bind_section \<Rightarrow> session \<Rightarrow> session" where
  "set_bindings c s = s\<lparr>se_actions := set_config c (se_actions s)\<rparr>"

definition set_prefs :: "input_prefs \<Rightarrow> session \<Rightarrow> session" where
  "set_prefs p s = s\<lparr>se_prefs := clamp_prefs p\<rparr>"

definition pack_mods :: "mods \<Rightarrow> byte" where
  "pack_mods m = or (of_bool (m_ctrl m)) (or (push_bit 1 (of_bool (m_alt m)))
     (or (push_bit 2 (of_bool (m_shift m))) (push_bit 3 (of_bool (m_meta m)))))"

definition bound_chords :: "session \<Rightarrow> (byte \<times> u32) list" where
  "bound_chords s =
     (if \<not> bs_enabled (ae_cfg (se_actions s)) then []
      else map (\<lambda>b. (pack_mods (b_mods b), b_key b)) (bs_bindings (ae_cfg (se_actions s))))"

definition assign_screen_id :: "session \<Rightarrow> string \<Rightarrow> byte option" where
  "assign_screen_id s name =
     map_option sc_id (List.find (\<lambda>c. sc_id c \<noteq> 0 \<and> sc_name c = name) (screens (se_layout s)))"

definition clear_boundary_state :: "session \<Rightarrow> session" where
  "clear_boundary_state s = s\<lparr>se_at_wall := 0, se_last_out := None, se_pushing := None,
     se_remote_at_wall := 0, se_remote_beacon_at := None, se_remote_last_out := None,
     se_remote_pushing := None\<rparr>"

section \<open>Clients and layouts\<close>

fun max_of :: "int list \<Rightarrow> int option" where
  "max_of [] = None"
| "max_of (x # xs) = (case max_of xs of None \<Rightarrow> Some x | Some m \<Rightarrow> Some (max x m))"

text \<open>\<open>info.width.max(1) as i32\<close>.\<close>

definition dim_i32 :: "u32 \<Rightarrow> int" where
  "dim_i32 w = wrap_i32 (int (unat (max w 1)))"

definition free_id :: "layout \<Rightarrow> byte option" where
  "free_id l = List.find (\<lambda>c. c \<notin> sc_id ` set (screens l)) (map word_of_nat [1..<256])"

text \<open>The screen of a client the layout has no screen for: right of everything on the desktop.\<close>

definition dynamic_screen :: "session \<Rightarrow> string \<Rightarrow> screen_info \<Rightarrow> byte \<Rightarrow> screen" where
  "dynamic_screen s name info i =
     (let w = dim_i32 (si_width info); h = dim_i32 (si_height info);
          x = (case max_of (map (\<lambda>c. add32 (rx (sc_rect c)) (rw (sc_rect c))) (screens (se_layout s)))
               of None \<Rightarrow> 0 | Some m \<Rightarrow> m) in
      \<lparr>sc_id = i, sc_name = name,
       sc_rect = \<lparr>rx = x, ry = ry (se_local s), rw = max w 1, rh = max h 1\<rparr>\<rparr>)"

definition admit_client :: "string \<Rightarrow> screen_info \<Rightarrow> session \<Rightarrow> (byte \<times> bool) option \<times> session" where
  "admit_client name info s =
     (case assign_screen_id s name of
        Some i \<Rightarrow> (Some (i, False), s)
      | None \<Rightarrow>
          if list_ex (\<lambda>c. sc_id c = 0 \<and> sc_name c = name) (screens (se_layout s)) then (None, s)
          else (case free_id (se_layout s) of
              None \<Rightarrow> (None, s)
            | Some i \<Rightarrow>
                let scr = dynamic_screen s name info i in
                (Some (i, True),
                 s\<lparr>se_dynamic := se_dynamic s @ [scr],
                   se_layout := normalized \<lparr>screens = screens (se_layout s) @ [scr]\<rparr>\<rparr>)))"

fun update_first :: "('a \<Rightarrow> bool) \<Rightarrow> ('a \<Rightarrow> 'a) \<Rightarrow> 'a list \<Rightarrow> 'a list" where
  "update_first P f [] = []"
| "update_first P f (x # xs) = (if P x then f x # xs else x # update_first P f xs)"

definition update_screen_info :: "byte \<Rightarrow> screen_info \<Rightarrow> session \<Rightarrow> session" where
  "update_screen_info i info s =
     s\<lparr>se_layout := \<lparr>screens = update_first (\<lambda>c. sc_id c = i)
        (\<lambda>c. c\<lparr>sc_rect := (sc_rect c)\<lparr>rw := dim_i32 (si_width info), rh := dim_i32 (si_height info)\<rparr>\<rparr>)
        (screens (se_layout s))\<rparr>\<rparr>"

text \<open>The loop of \<open>swap_layout\<close> over the dynamic screens: the layout grows as it goes.\<close>

fun keep_dynamic :: "screen list \<Rightarrow> screen list \<Rightarrow> screen list \<times> screen list" where
  "keep_dynamic ss [] = (ss, [])"
| "keep_dynamic ss (d # ds) =
     (if list_ex (\<lambda>c. sc_name c = sc_name d) ss then keep_dynamic ss ds
      else let (ss', kept) = keep_dynamic (ss @ [d]) ds in (ss', d # kept))"

definition swap_layout :: "layout \<Rightarrow> session \<Rightarrow> action list \<times> session" where
  "swap_layout l s =
     (case find_screen l 0 of
        None \<Rightarrow> ([], s)
      | Some home \<Rightarrow>
          let was_remote = (se_mode s \<noteq> Local);
              (cx, cy) = rect_center (sc_rect home);
              (ss, kept) = keep_dynamic (screens l) (se_dynamic s);
              s' = clear_boundary_state
                (s\<lparr>se_dynamic := kept, se_layout := normalized \<lparr>screens = ss\<rparr>, se_local := sc_rect home,
                   se_x := cx, se_y := cy, se_mode := Local\<rparr>) in
          (if was_remote then [SwitchToLocal cx cy] else [], s'))"

definition on_client_connected :: "byte \<Rightarrow> session \<Rightarrow> session" where
  "on_client_connected i s = s\<lparr>se_connected := insert i (se_connected s)\<rparr>"

section \<open>Entering a screen\<close>

definition enter_screen :: "byte \<Rightarrow> int \<Rightarrow> int \<Rightarrow> session \<Rightarrow> session option" where
  "enter_screen i x y s =
     (case find_screen (se_layout s) i of
        None \<Rightarrow> None
      | Some c \<Rightarrow> Some (clear_boundary_state
          (s\<lparr>se_x := add32 (rx (sc_rect c)) x, se_y := add32 (ry (sc_rect c)) y,
             se_mode := (if i = 0 then Local else Remote i)\<rparr>)))"

definition force_local :: "session \<Rightarrow> (action \<times> session) option" where
  "force_local s =
     (let (x, y) = rect_center (se_local s) in
      map_option (\<lambda>s'. (SwitchToLocal x y, s')) (enter_screen 0 x y s))"

definition on_client_disconnected :: "byte \<Rightarrow> session \<Rightarrow> (action \<times> session) option" where
  "on_client_disconnected i s =
     (let s1 = s\<lparr>se_connected := se_connected s - {i}\<rparr> in
      if se_mode s1 = Remote i then force_local s1 else Some (Nothing, s1))"

definition on_client_removed :: "byte \<Rightarrow> session \<Rightarrow> (action \<times> session) option" where
  "on_client_removed i s =
     (case on_client_disconnected i s of
        None \<Rightarrow> None
      | Some (a, s1) \<Rightarrow>
          if list_ex (\<lambda>c. sc_id c = i) (screens (se_layout s1)) then
            Some (a, clear_boundary_state
              (s1\<lparr>se_layout := normalized \<lparr>screens = filter (\<lambda>c. sc_id c \<noteq> i) (screens (se_layout s1))\<rparr>,
                  se_dynamic := filter (\<lambda>c. sc_id c \<noteq> i) (se_dynamic s1)\<rparr>))
          else Some (a, s1))"

definition reachable :: "session \<Rightarrow> byte \<Rightarrow> bool" where
  "reachable s i \<longleftrightarrow> i = 0 \<or> i \<in> se_connected s"

definition inset_entry :: "session \<Rightarrow> byte \<Rightarrow> direction \<Rightarrow> int \<Rightarrow> int \<Rightarrow> (int \<times> int) option" where
  "inset_entry s i dir x y =
     (case find_screen (se_layout s) i of
        None \<Rightarrow> None
      | Some c \<Rightarrow> Some (case dir of
          DLeft \<Rightarrow> (max (sat_i32 (x - ENTRY_INSET)) 0, y)
        | DRight \<Rightarrow> (min (sat_i32 (x + ENTRY_INSET)) (sub32 (rw (sc_rect c)) 1), y)
        | DTop \<Rightarrow> (x, max (sat_i32 (y - ENTRY_INSET)) 0)
        | DBottom \<Rightarrow> (x, min (sat_i32 (y + ENTRY_INSET)) (sub32 (rh (sc_rect c)) 1))))"

text \<open>\<open>clamp\<close> panics on an empty range.\<close>

definition clamp_to :: "rect \<Rightarrow> session \<Rightarrow> session option" where
  "clamp_to r s =
     (if rect_left r > sub32 (rect_right r) 1 \<or> rect_top r > sub32 (rect_bottom r) 1 then None
      else Some (s\<lparr>se_x := clamp_i32 (se_x s) (rect_left r) (sub32 (rect_right r) 1),
                   se_y := clamp_i32 (se_y s) (rect_top r) (sub32 (rect_bottom r) 1)\<rparr>))"

text \<open>Enter the neighbour \<open>i\<close> at the point the ray cast gave, inset past the seam.\<close>

definition enter_inset :: "byte \<Rightarrow> direction \<Rightarrow> int \<Rightarrow> int \<Rightarrow> session \<Rightarrow> (int \<times> int \<times> session) option" where
  "enter_inset i dir x y s =
     (case inset_entry s i dir x y of
        None \<Rightarrow> None
      | Some (x', y') \<Rightarrow> map_option (\<lambda>s'. (x', y', s')) (enter_screen i x' y' s))"

definition switch_out :: "direction \<Rightarrow> session \<Rightarrow> outcome" where
  "switch_out dir s =
     (if se_walls_locked s then Some ([], s)
      else case neighbor (se_layout s) 0 dir (se_x s) (se_y s) of
        None \<Rightarrow> Some ([], s)
      | Some (i, x, y) \<Rightarrow>
          if reachable s i
          then map_option (\<lambda>(x', y', s'). ([SwitchTo i x' y'], s')) (enter_inset i dir x y s)
          else Some ([], s))"

definition cross_from_remote :: "byte \<Rightarrow> direction \<Rightarrow> session \<Rightarrow> outcome" where
  "cross_from_remote i dir s =
     (if se_walls_locked s then Some ([], s)
      else case neighbor (se_layout s) i dir (se_x s) (se_y s) of
        None \<Rightarrow> Some ([], s)
      | Some (nxt, x, y) \<Rightarrow>
          if reachable s nxt
          then map_option (\<lambda>(x', y', s'). ([if nxt = 0 then SwitchToLocal x' y' else SwitchTo nxt x' y'], s'))
                 (enter_inset nxt dir x y s)
          else Some ([], s))"


section \<open>The local screen\<close>

definition fresh_push :: "push option \<Rightarrow> direction \<Rightarrow> nat \<Rightarrow> bool" where
  "fresh_push p dir now \<longleftrightarrow>
     (case p of None \<Rightarrow> False | Some q \<Rightarrow> pu_dir q = dir \<and> now - pu_at q < EDGE_PUSH_FRESH)"

definition sustained_push :: "pushing option \<Rightarrow> direction \<Rightarrow> nat \<Rightarrow> bool" where
  "sustained_push p dir now \<longleftrightarrow>
     (case p of None \<Rightarrow> False | Some q \<Rightarrow> pg_dir q = dir \<and> now - pg_since q \<ge> EDGE_PUSH_FALLBACK)"

definition keep_pushing :: "pushing option \<Rightarrow> direction \<Rightarrow> nat \<Rightarrow> pushing option" where
  "keep_pushing p dir now =
     (case p of
        Some q \<Rightarrow> if pg_dir q = dir then p else Some \<lparr>pg_dir = dir, pg_since = now\<rparr>
      | None \<Rightarrow> Some \<lparr>pg_dir = dir, pg_since = now\<rparr>)"

text \<open>The loop over \<open>DIRS\<close> in \<open>handle_local_motion\<close>; it returns early exactly when it has actions.\<close>

fun local_pushes :: "direction list \<Rightarrow> nat \<Rightarrow> int \<Rightarrow> int \<Rightarrow> session \<Rightarrow> outcome" where
  "local_pushes [] now dx dy s = Some ([], s)"
| "local_pushes (dir # dirs) now dx dy s =
     (if pushes_outward dir dx dy then
        let s1 = s\<lparr>se_last_out := Some \<lparr>pu_dir = dir, pu_at = now\<rparr>\<rparr> in
        if armed (se_at_wall s1) dir then
          (case switch_out dir s1 of
             None \<Rightarrow> None
           | Some (acts, s2) \<Rightarrow>
               if acts \<noteq> [] then Some (acts, s2)
               else local_pushes dirs now dx dy (s2\<lparr>se_at_wall := disarm (se_at_wall s2) dir\<rparr>))
        else local_pushes dirs now dx dy s1
      else if pulls_inward dir dx dy
        then local_pushes dirs now dx dy (s\<lparr>se_at_wall := disarm (se_at_wall s) dir\<rparr>)
      else local_pushes dirs now dx dy s)"

definition handle_local_motion :: "nat \<Rightarrow> int \<Rightarrow> int \<Rightarrow> session \<Rightarrow> outcome" where
  "handle_local_motion now dx dy s =
     (case local_pushes DIRS now dx dy s of
        None \<Rightarrow> None
      | Some (acts, s1) \<Rightarrow>
          if acts \<noteq> [] then Some (acts, s1)
          else (case exit_direction (se_layout s1) 0 (se_x s1) (se_y s1) of
              None \<Rightarrow> Some ([], s1\<lparr>se_pushing := None\<rparr>)
            | Some dir \<Rightarrow>
                (case clamp_to (se_local s1) s1 of
                   None \<Rightarrow> None
                 | Some s2 \<Rightarrow>
                     if \<not> sustained_push (se_pushing s2) dir now
                     then Some ([], s2\<lparr>se_pushing := keep_pushing (se_pushing s2) dir now\<rparr>)
                     else switch_out dir (s2\<lparr>se_pushing := None\<rparr>))))"

text \<open>The loop over \<open>DIRS\<close> in \<open>on_local_beacon\<close>.\<close>

fun local_parks :: "direction list \<Rightarrow> byte \<Rightarrow> nat \<Rightarrow> session \<Rightarrow> outcome" where
  "local_parks [] newly now s = Some ([], s)"
| "local_parks (dir # dirs) newly now s =
     (if armed newly dir \<and> fresh_push (se_last_out s) dir now then
        (case switch_out dir s of
           None \<Rightarrow> None
         | Some (acts, s1) \<Rightarrow> if acts \<noteq> [] then Some (acts, s1) else local_parks dirs newly now s1)
      else local_parks dirs newly now s)"

definition on_local_beacon :: "nat \<Rightarrow> int \<Rightarrow> int \<Rightarrow> session \<Rightarrow> outcome" where
  "on_local_beacon now x y s =
     (let bits = wall_bits (se_local s) x y;
          newly = and bits (not (se_at_wall s));
          s1 = s\<lparr>se_x := add32 (rx (se_local s)) x, se_y := add32 (ry (se_local s)) y, se_at_wall := bits\<rparr> in
      if bits = 0 then Some ([], s1\<lparr>se_pushing := None\<rparr>)
      else local_parks DIRS newly now s1)"

section \<open>A remote screen\<close>

text \<open>
  The loop over \<open>DIRS\<close> in \<open>handle_remote_motion\<close>: the actions it returns early with, possibly
  none, or no early return.
\<close>

fun remote_pushes :: "direction list \<Rightarrow> bool \<Rightarrow> nat \<Rightarrow> byte \<Rightarrow> int \<Rightarrow> int \<Rightarrow> session
    \<Rightarrow> (action list option \<times> session) option" where
  "remote_pushes [] fresh now i dx dy s = Some (None, s)"
| "remote_pushes (dir # dirs) fresh now i dx dy s =
     (if pushes_outward dir dx dy then
        let s1 = s\<lparr>se_remote_last_out := Some \<lparr>pu_dir = dir, pu_at = now\<rparr>\<rparr> in
        if fresh \<and> armed (se_remote_at_wall s1) dir then
          if neighbor (se_layout s1) i dir (se_x s1) (se_y s1) \<noteq> None
          then map_option (\<lambda>(acts, s2). (Some acts, s2)) (cross_from_remote i dir s1)
          else remote_pushes dirs fresh now i dx dy
                 (s1\<lparr>se_remote_at_wall := disarm (se_remote_at_wall s1) dir\<rparr>)
        else remote_pushes dirs fresh now i dx dy s1
      else if pulls_inward dir dx dy
        then remote_pushes dirs fresh now i dx dy (s\<lparr>se_remote_at_wall := disarm (se_remote_at_wall s) dir\<rparr>)
      else remote_pushes dirs fresh now i dx dy s)"

definition beacon_fresh :: "nat option \<Rightarrow> nat \<Rightarrow> bool" where
  "beacon_fresh t now \<longleftrightarrow> (case t of None \<Rightarrow> False | Some since \<Rightarrow> now - since < REMOTE_BEACON_FRESH)"

definition handle_remote_motion :: "nat \<Rightarrow> byte \<Rightarrow> int \<Rightarrow> int \<Rightarrow> session \<Rightarrow> outcome" where
  "handle_remote_motion now i dx dy s =
     (case find_screen (se_layout s) i of
        None \<Rightarrow> Some ([], s)
      | Some scr \<Rightarrow>
          let fresh = beacon_fresh (se_remote_beacon_at s) now in
          (case remote_pushes DIRS fresh now i dx dy s of
             None \<Rightarrow> None
           | Some (Some acts, s1) \<Rightarrow> Some (acts, s1)
           | Some (None, s1) \<Rightarrow>
               let motion = [Send (MouseMoveRel dx dy)] in
               (case exit_direction (se_layout s1) i (se_x s1) (se_y s1) of
                  None \<Rightarrow> Some (motion, s1\<lparr>se_remote_pushing := None\<rparr>)
                | Some dir \<Rightarrow>
                    (case clamp_to (sc_rect scr) s1 of
                       None \<Rightarrow> None
                     | Some s2 \<Rightarrow>
                         if \<not> (\<not> fresh \<and> sustained_push (se_remote_pushing s2) dir now)
                         then Some (motion, s2\<lparr>se_remote_pushing := keep_pushing (se_remote_pushing s2) dir now\<rparr>)
                         else (case cross_from_remote i dir (s2\<lparr>se_remote_pushing := None\<rparr>) of
                             None \<Rightarrow> None
                           | Some (acts, s3) \<Rightarrow> Some (if acts = [] then motion else acts, s3))))))"

fun remote_parks :: "direction list \<Rightarrow> byte \<Rightarrow> nat \<Rightarrow> byte \<Rightarrow> session \<Rightarrow> outcome" where
  "remote_parks [] newly now i s = Some ([], s)"
| "remote_parks (dir # dirs) newly now i s =
     (if armed newly dir \<and> fresh_push (se_remote_last_out s) dir now then
        (case cross_from_remote i dir s of
           None \<Rightarrow> None
         | Some (acts, s1) \<Rightarrow> if acts \<noteq> [] then Some (acts, s1) else remote_parks dirs newly now i s1)
      else remote_parks dirs newly now i s)"

definition on_remote_beacon :: "nat \<Rightarrow> byte \<Rightarrow> int \<Rightarrow> int \<Rightarrow> session \<Rightarrow> outcome" where
  "on_remote_beacon now i x y s =
     (if se_mode s \<noteq> Remote i then Some ([], s)
      else case find_screen (se_layout s) i of
        None \<Rightarrow> Some ([], s)
      | Some scr \<Rightarrow>
          let x' = clamp_i32 x 0 (last_pixel (rw (sc_rect scr)));
              y' = clamp_i32 y 0 (last_pixel (rh (sc_rect scr)));
              bits = wall_bits (sc_rect scr) x' y';
              newly = and bits (not (se_remote_at_wall s));
              s1 = s\<lparr>se_remote_beacon_at := Some now, se_x := add32 (rx (sc_rect scr)) x',
                     se_y := add32 (ry (sc_rect scr)) y', se_remote_at_wall := bits\<rparr> in
          if bits = 0 then Some ([], s1\<lparr>se_remote_pushing := None\<rparr>)
          else remote_parks DIRS newly now i s1)"

section \<open>Local input events\<close>

definition forward_while_remote :: "message \<Rightarrow> session \<Rightarrow> action list" where
  "forward_while_remote m s = (if se_mode s \<noteq> Local then [Send m] else [])"

text \<open>One axis of the gain scaling: the whole pixels, and the carry.\<close>

definition scale_axis :: "real \<Rightarrow> int \<Rightarrow> real \<Rightarrow> int \<times> real" where
  "scale_axis g d rem = (let r = of_int d * g + rem; i = real_to_i32 r in (i, r - of_int i))"

definition on_local_motion :: "nat \<Rightarrow> int \<Rightarrow> int \<Rightarrow> session \<Rightarrow> outcome" where
  "on_local_motion now dx dy s =
     (case se_mode s of
        Local \<Rightarrow>
          handle_local_motion now dx dy (s\<lparr>se_x := add32 (se_x s) dx, se_y := add32 (se_y s) dy\<rparr>)
      | Remote i \<Rightarrow>
          let g = se_gain s * ip_pointer_speed (se_prefs s);
              (sx, remx) = scale_axis g dx (fst (se_gain_rem s));
              (sy, remy) = scale_axis g dy (snd (se_gain_rem s)) in
          handle_remote_motion now i sx sy
            (s\<lparr>se_gain_rem := (remx, remy), se_x := add32 (se_x s) sx, se_y := add32 (se_y s) sy\<rparr>))"

definition jump_to :: "byte \<Rightarrow> session \<Rightarrow> outcome" where
  "jump_to i s =
     (case find_screen (se_layout s) i of
        None \<Rightarrow> Some ([], s)
      | Some c \<Rightarrow>
          let (cx, cy) = rect_center (sc_rect c) in
          map_option (\<lambda>s'. ([if i = 0 then SwitchToLocal cx cy else SwitchTo i cx cy], s'))
            (enter_screen i cx cy s))"

text \<open>The next reachable screen in layout order after the current one, wrapping.\<close>

definition next_screen :: "session \<Rightarrow> byte option" where
  "next_screen s =
     (let current = (case se_mode s of Local \<Rightarrow> 0 | Remote i \<Rightarrow> i);
          ids = map sc_id (screens (se_layout s));
          start = (case position (\<lambda>i. i = current) ids of Some p \<Rightarrow> p + 1 | None \<Rightarrow> 0) in
      List.find (\<lambda>i. i \<noteq> current \<and> reachable s i)
        (map (\<lambda>k. ids ! ((start + k) mod length ids)) [0..<length ids]))"

fun execute_user_action :: "user_action \<Rightarrow> session \<Rightarrow> outcome" where
  "execute_user_action (SwitchToScreen name) s =
     (case map_option sc_id (List.find (\<lambda>c. sc_name c = name) (screens (se_layout s))) of
        None \<Rightarrow> Some ([], s)
      | Some i \<Rightarrow> if reachable s i then jump_to i s else Some ([], s))"
| "execute_user_action SwitchNext s =
     (case next_screen s of None \<Rightarrow> Some ([], s) | Some i \<Rightarrow> jump_to i s)"
| "execute_user_action ToggleLock s = Some ([], s\<lparr>se_walls_locked := \<not> se_walls_locked s\<rparr>)"
| "execute_user_action GoHome s =
     (if se_mode s \<noteq> Local then map_option (\<lambda>(a, s'). ([a], s')) (force_local s) else Some ([], s))"

definition on_local_key :: "nat \<Rightarrow> key_kind \<Rightarrow> u32 \<Rightarrow> session \<Rightarrow> outcome" where
  "on_local_key now kind key s =
     (case kind of
        KeyDown \<Rightarrow>
          (case key_down now key MODS_NONE (se_mode s = Local) (se_actions s) of
             (Some a, e) \<Rightarrow> execute_user_action a (s\<lparr>se_actions := e\<rparr>)
           | (None, e) \<Rightarrow> Some (forward_while_remote (Key kind key) s, s\<lparr>se_actions := e\<rparr>))
      | KeyUp \<Rightarrow>
          (case key_up key (se_actions s) of
             (Some k, e) \<Rightarrow> Some ([], s\<lparr>se_actions := e\<rparr>)
           | (None, e) \<Rightarrow> Some (forward_while_remote (Key kind key) s, s\<lparr>se_actions := e\<rparr>))
      | KeyRepeat \<Rightarrow> Some (forward_while_remote (Key kind key) s, s))"

fun on_local_event :: "nat \<Rightarrow> message \<Rightarrow> session \<Rightarrow> outcome" where
  "on_local_event now (MouseMoveRel dx dy) s = on_local_motion now dx dy s"
| "on_local_event now (MouseMoveAbs x y) s =
     (if se_mode s = Local then on_local_beacon now x y s else Some ([], s))"
| "on_local_event now (MouseButton b p) s = Some (forward_while_remote (MouseButton b p) s, s)"
| "on_local_event now (MouseWheel dx dy) s =
     (let (dx', dy') = transform_wheel (se_prefs s) dx dy in
      Some (forward_while_remote (MouseWheel dx' dy') s, s))"
| "on_local_event now (Key kind key) s = on_local_key now kind key s"
| "on_local_event now Escape s = map_option (\<lambda>(a, s'). ([a], s')) (force_local s)"
| "on_local_event now _ s = Some ([], s)"

section \<open>The session as a component\<close>

datatype session_event =
  LocalEvent message
| RemoteBeacon byte int int
| AdmitClient string screen_info
| ScreenShape byte screen_info
| SwapLayout layout
| ClientConnected byte
| ClientDisconnected byte
| ClientRemoved byte
| Bindings bind_section
| Prefs input_prefs
| Gain real
| ForceLocal

fun session_step :: "nat \<Rightarrow> session_event \<Rightarrow> session \<Rightarrow> outcome" where
  "session_step now (LocalEvent m) s = on_local_event now m s"
| "session_step now (RemoteBeacon i x y) s = on_remote_beacon now i x y s"
| "session_step now (AdmitClient name info) s = Some ([], snd (admit_client name info s))"
| "session_step now (ScreenShape i info) s = Some ([], update_screen_info i info s)"
| "session_step now (SwapLayout l) s = Some (swap_layout l s)"
| "session_step now (ClientConnected i) s = Some ([], on_client_connected i s)"
| "session_step now (ClientDisconnected i) s = map_option (\<lambda>(a, s'). ([a], s')) (on_client_disconnected i s)"
| "session_step now (ClientRemoved i) s = map_option (\<lambda>(a, s'). ([a], s')) (on_client_removed i s)"
| "session_step now (Bindings c) s = Some ([], set_bindings c s)"
| "session_step now (Prefs p) s = Some ([], set_prefs p s)"
| "session_step now (Gain g) s = Some ([], set_gain g s)"
| "session_step now ForceLocal s = map_option (\<lambda>(a, s'). ([a], s')) (force_local s)"

text \<open>Client screens never have the id of the local screen.\<close>

fun session_event_ok :: "session_event \<Rightarrow> bool" where
  "session_event_ok (ClientConnected i) \<longleftrightarrow> i \<noteq> 0"
| "session_event_ok (ClientDisconnected i) \<longleftrightarrow> i \<noteq> 0"
| "session_event_ok (ClientRemoved i) \<longleftrightarrow> i \<noteq> 0"
| "session_event_ok _ \<longleftrightarrow> True"

text \<open>The states a session can reach from the layout it was created with.\<close>

inductive session_reaches :: "session \<Rightarrow> session \<Rightarrow> bool" where
  start: "session_reaches s s"
| event: "session_reaches s0 s \<Longrightarrow> session_event_ok e \<Longrightarrow> session_step now e s = Some (acts, s') \<Longrightarrow> session_reaches s0 s'"

end
