(* ===== verification/Crossing.thy ===== *)
theory Crossing
  imports Session
begin

text \<open>
  What the session guarantees.  Every handler of the cursor either stays on the screen it was on
  or has entered another one, and then its single action names that screen and the entry point
  the state agrees with (\<open>outcome_ok\<close>).  From this follow the invariant of the reachable states,
  the absence of panics, and the rules of a crossing: when it fires, when it never does, and
  where it lands.
\<close>

section \<open>Staying and entering\<close>

definition screen_ids :: "session \<Rightarrow> byte set" where
  "screen_ids s = sc_id ` set (screens (se_layout s))"

definition stays :: "session \<Rightarrow> session \<Rightarrow> bool" where
  "stays s s' \<longleftrightarrow> se_layout s' = se_layout s \<and> se_connected s' = se_connected s \<and> se_local s' = se_local s \<and>
     se_dynamic s' = se_dynamic s \<and> se_mode s' = se_mode s"

definition mode_of :: "byte \<Rightarrow> mode" where
  "mode_of i = (if i = 0 then Local else Remote i)"

definition entered :: "byte \<Rightarrow> int \<Rightarrow> int \<Rightarrow> session \<Rightarrow> session \<Rightarrow> bool" where
  "entered i x y s s' \<longleftrightarrow> se_layout s' = se_layout s \<and> se_connected s' = se_connected s \<and>
     se_local s' = se_local s \<and> se_dynamic s' = se_dynamic s \<and> se_mode s' = mode_of i \<and>
     reachable s i \<and>
     (\<exists>c. find_screen (se_layout s) i = Some c \<and> se_x s' = add32 (rx (sc_rect c)) x \<and> se_y s' = add32 (ry (sc_rect c)) y) \<and>
     se_at_wall s' = 0 \<and> se_last_out s' = None \<and> se_pushing s' = None \<and> se_remote_at_wall s' = 0 \<and>
     se_remote_beacon_at s' = None \<and> se_remote_last_out s' = None \<and> se_remote_pushing s' = None"

definition switch_action :: "byte \<Rightarrow> int \<Rightarrow> int \<Rightarrow> action" where
  "switch_action i x y = (if i = 0 then SwitchToLocal x y else SwitchTo i x y)"

definition quiet :: "mode \<Rightarrow> action list \<Rightarrow> bool" where
  "quiet m acts \<longleftrightarrow> (\<forall>a \<in> set acts. a = Nothing \<or> (m \<noteq> Local \<and> (\<exists>msg. a = Send msg)))"

definition outcome_ok :: "session \<Rightarrow> action list \<Rightarrow> session \<Rightarrow> bool" where
  "outcome_ok s acts s' \<longleftrightarrow>
     (stays s s' \<and> quiet (se_mode s) acts) \<or> (\<exists>i x y. entered i x y s s' \<and> acts = [switch_action i x y])"

lemma quiet_Nil [simp]: "quiet m []"
  by (simp add: quiet_def)

lemma stays_refl [simp]: "stays s s"
  by (simp add: stays_def)

lemma stays_trans: "stays a b \<Longrightarrow> stays b c \<Longrightarrow> stays a c"
  by (simp add: stays_def)

lemma entered_after_stay: "stays a b \<Longrightarrow> entered i x y b c \<Longrightarrow> entered i x y a c"
  by (simp add: stays_def entered_def reachable_def)

lemma outcome_after_stay: "stays a b \<Longrightarrow> outcome_ok b acts c \<Longrightarrow> outcome_ok a acts c"
  unfolding outcome_ok_def using stays_trans entered_after_stay by (metis stays_def)

lemma outcome_stay: "stays s s' \<Longrightarrow> outcome_ok s [] s'"
  by (simp add: outcome_ok_def)

lemma enter_screen_entered:
  "enter_screen i x y s = Some s' \<Longrightarrow> reachable s i \<Longrightarrow> entered i x y s s'"
  by (auto simp: enter_screen_def entered_def clear_boundary_state_def mode_of_def split: option.splits)

lemma enter_screen_exists: "find_screen (se_layout s) i = Some c \<Longrightarrow> \<exists>s'. enter_screen i x y s = Some s'"
  by (simp add: enter_screen_def)

text \<open>Entering the neighbour a ray cast found.\<close>

lemma enter_inset_total:
  assumes "neighbor (se_layout s) j dir x y = Some (i, lx, ly)"
  shows "\<exists>x' y' s'. enter_inset i dir lx ly s = Some (x', y', s')"
proof -
  obtain src c score where "c \<in> set (screens (se_layout s))" "sc_id c = i"
    using assms by (rule neighbor_cases)
  then obtain d where "find_screen (se_layout s) i = Some d" using find_screen_exists by blast
  then show ?thesis by (cases dir) (simp_all add: enter_inset_def inset_entry_def enter_screen_def)
qed

lemma enter_inset_cases:
  assumes "enter_inset i dir lx ly s = Some (x', y', s')" "reachable s i"
  shows "entered i x' y' s s' \<and> inset_entry s i dir lx ly = Some (x', y')"
  using assms by (auto simp: enter_inset_def dest: enter_screen_entered split: option.splits)

definition crosses :: "byte \<Rightarrow> direction \<Rightarrow> byte \<Rightarrow> int \<Rightarrow> int \<Rightarrow> session \<Rightarrow> session \<Rightarrow> bool" where
  "crosses j dir i x y s s' \<longleftrightarrow> \<not> se_walls_locked s \<and> i \<noteq> j \<and> entered i x y s s' \<and>
     (\<exists>lx ly. neighbor (se_layout s) j dir (se_x s) (se_y s) = Some (i, lx, ly) \<and>
              inset_entry s i dir lx ly = Some (x, y))"

lemma neighbor_other: "neighbor l j dir x y = Some (i, lx, ly) \<Longrightarrow> i \<noteq> j"
  by (erule neighbor_cases) simp

lemma cross_from_remote_cases:
  assumes "cross_from_remote j dir s = Some (acts, s')"
  shows "(acts = [] \<and> s' = s) \<or> (\<exists>i x y. acts = [switch_action i x y] \<and> crosses j dir i x y s s')"
proof (cases "se_walls_locked s \<or> neighbor (se_layout s) j dir (se_x s) (se_y s) = None")
  case True
  then show ?thesis using assms by (auto simp: cross_from_remote_def split: if_splits)
next
  case False
  then obtain i lx ly where n: "neighbor (se_layout s) j dir (se_x s) (se_y s) = Some (i, lx, ly)" by auto
  show ?thesis
  proof (cases "reachable s i")
    case False
    then show ?thesis using n assms \<open>\<not> (_ \<or> _)\<close> by (simp add: cross_from_remote_def)
  next
    case True
    then obtain x y where "enter_inset i dir lx ly s = Some (x, y, s')" "acts = [switch_action i x y]"
      using n assms False by (auto simp: cross_from_remote_def switch_action_def)
    moreover from this have "entered i x y s s' \<and> inset_entry s i dir lx ly = Some (x, y)"
      using enter_inset_cases True by blast
    moreover have "i \<noteq> j" using n by (rule neighbor_other)
    ultimately have "acts = [switch_action i x y] \<and> crosses j dir i x y s s'"
      using n False by (simp add: crosses_def)
    then show ?thesis by blast
  qed
qed

lemma cross_from_remote_total: "cross_from_remote j dir s \<noteq> None"
  using enter_inset_total [of s j dir "se_x s" "se_y s"]
  by (fastforce simp: cross_from_remote_def split: option.splits)

lemma cross_exists [simp]:
  "\<exists>acts s'. cross_from_remote j dir s = Some (acts, s')" "\<exists>s' acts. cross_from_remote j dir s = Some (acts, s')"
  using cross_from_remote_total [of j dir s] by (cases "cross_from_remote j dir s"; auto)+

lemma cross_not_None [simp]: "(cross_from_remote j dir s = None) = False"
  using cross_from_remote_total by blast

text \<open>Leaving the local screen is the same crossing from screen 0, which is never its own neighbour.\<close>

lemma switch_out_cross: "switch_out dir s = cross_from_remote 0 dir s"
proof -
  have "i \<noteq> 0" if "neighbor (se_layout s) 0 dir (se_x s) (se_y s) = Some (i, x, y)" for i x y
    using that by (rule neighbor_other)
  then show ?thesis by (auto simp: switch_out_def cross_from_remote_def split: option.split)
qed

lemma crosses_outcome: "crosses j dir i x y s s' \<Longrightarrow> outcome_ok s [switch_action i x y] s'"
  by (auto simp: crosses_def outcome_ok_def)

lemma cross_outcome: "cross_from_remote j dir s = Some (acts, s') \<Longrightarrow> outcome_ok s acts s'"
  using cross_from_remote_cases crosses_outcome outcome_stay stays_refl by metis

section \<open>The loops over the four edges\<close>

definition same_place :: "session \<Rightarrow> session \<Rightarrow> bool" where
  "same_place s t \<longleftrightarrow> stays s t \<and> se_x t = se_x s \<and> se_y t = se_y s \<and> se_walls_locked t = se_walls_locked s"

lemma same_place_trans: "same_place a b \<Longrightarrow> same_place b c \<Longrightarrow> same_place a c"
  by (simp add: same_place_def stays_def)

definition fires :: "byte \<Rightarrow> direction \<Rightarrow> session \<Rightarrow> action list \<Rightarrow> session \<Rightarrow> bool" where
  "fires j dir s acts s' \<longleftrightarrow>
     (\<exists>i x y t. same_place s t \<and> crosses j dir i x y t s' \<and> acts = [switch_action i x y])"

lemma fires_after: "same_place s t \<Longrightarrow> fires j dir t acts s' \<Longrightarrow> fires j dir s acts s'"
  unfolding fires_def using same_place_trans by blast

lemma fires_outcome:
  assumes "fires j dir s acts s'" shows "outcome_ok s acts s'"
proof -
  obtain i x y t where f: "same_place s t" "crosses j dir i x y t s'" "acts = [switch_action i x y]"
    using assms unfolding fires_def by blast
  have "stays s t" using f(1) by (simp add: same_place_def)
  then show ?thesis using crosses_outcome [OF f(2)] f(3) outcome_after_stay by simp
qed

lemma armed_disarm: "armed (disarm w d) e \<Longrightarrow> armed w e"
  by (cases d; cases e) (auto simp: armed_def disarm_def BIT_LEFT_def BIT_RIGHT_def BIT_TOP_def
      BIT_BOTTOM_def and.assoc)

lemma local_pushes_cases:
  "local_pushes dirs now dx dy s = Some (acts, s') \<Longrightarrow>
   (acts = [] \<and> same_place s s' \<and> se_pushing s' = se_pushing s) \<or>
   (\<exists>dir \<in> set dirs. pushes_outward dir dx dy \<and> armed (se_at_wall s) dir \<and> fires 0 dir s acts s')"
proof (induction dirs arbitrary: s)
  case Nil then show ?case by (simp add: same_place_def)
next
  case (Cons dir dirs)
  let ?s1 = "s\<lparr>se_last_out := Some \<lparr>pu_dir = dir, pu_at = now\<rparr>\<rparr>"
  have rec: "?case" if r: "local_pushes dirs now dx dy t = Some (acts, s')" "same_place s t"
    "se_pushing t = se_pushing s" "\<And>d. armed (se_at_wall t) d \<Longrightarrow> armed (se_at_wall s) d" for t
    using Cons.IH [OF r(1)]
  proof
    assume "acts = [] \<and> same_place t s' \<and> se_pushing s' = se_pushing t"
    then show ?thesis using r same_place_trans by auto
  next
    assume "\<exists>dir \<in> set dirs. pushes_outward dir dx dy \<and> armed (se_at_wall t) dir \<and> fires 0 dir t acts s'"
    then obtain d where "d \<in> set dirs" "pushes_outward d dx dy" "armed (se_at_wall t) d" "fires 0 d t acts s'"
      by blast
    then show ?thesis using r(4) fires_after [OF r(2)] by (intro disjI2 bexI [of _ d]) auto
  qed
  show ?case
  proof (cases "pushes_outward dir dx dy")
    case False
    show ?thesis
    proof (cases "pulls_inward dir dx dy")
      case True
      then have "local_pushes dirs now dx dy (s\<lparr>se_at_wall := disarm (se_at_wall s) dir\<rparr>) = Some (acts, s')"
        using Cons.prems False by simp
      then show ?thesis by (rule rec) (auto simp: same_place_def stays_def dest: armed_disarm)
    next
      case no_pull: False
      then have "local_pushes dirs now dx dy s = Some (acts, s')" using Cons.prems False by simp
      then show ?thesis by (rule rec) (auto simp: same_place_def)
    qed
  next
    case True
    show ?thesis
    proof (cases "armed (se_at_wall s) dir")
      case False
      then have "local_pushes dirs now dx dy ?s1 = Some (acts, s')" using Cons.prems True by simp
      then show ?thesis by (rule rec) (auto simp: same_place_def stays_def)
    next
      case armed: True
      obtain as s2 where sw: "switch_out dir ?s1 = Some (as, s2)"
        using Cons.prems True armed by (auto split: option.splits)
      show ?thesis
        using cross_from_remote_cases [OF sw [unfolded switch_out_cross]]
      proof
        assume "as = [] \<and> s2 = ?s1"
        then have "local_pushes dirs now dx dy (?s1\<lparr>se_at_wall := disarm (se_at_wall ?s1) dir\<rparr>) = Some (acts, s')"
          using Cons.prems True armed sw by simp
        then show ?thesis by (rule rec) (auto simp: same_place_def stays_def dest: armed_disarm)
      next
        assume "\<exists>i x y. as = [switch_action i x y] \<and> crosses 0 dir i x y ?s1 s2"
        then obtain i x y where c: "as = [switch_action i x y]" "crosses 0 dir i x y ?s1 s2" by blast
        then have "acts = as" "s' = s2" using Cons.prems True armed sw by auto
        moreover have "same_place s ?s1" by (simp add: same_place_def stays_def)
        ultimately have "fires 0 dir s acts s'" using c unfolding fires_def by blast
        then show ?thesis using True armed by (intro disjI2 bexI [of _ dir]) auto
      qed
    qed
  qed
qed

lemma local_pushes_total: "local_pushes dirs now dx dy s \<noteq> None"
proof (induction dirs arbitrary: s)
  case Nil then show ?case by simp
next
  case (Cons dir dirs)
  then show ?case by (auto simp: Let_def switch_out_cross split: option.split)
qed

lemma local_parks_cases:
  "local_parks dirs newly now s = Some (acts, s') \<Longrightarrow>
   (acts = [] \<and> s' = s) \<or>
   (\<exists>dir \<in> set dirs. armed newly dir \<and> fresh_push (se_last_out s) dir now \<and> fires 0 dir s acts s')"
proof (induction dirs)
  case Nil then show ?case by simp
next
  case (Cons dir dirs)
  show ?case
  proof (cases "armed newly dir \<and> fresh_push (se_last_out s) dir now")
    case False then show ?thesis using Cons by auto
  next
    case True
    then obtain as s1 where sw: "switch_out dir s = Some (as, s1)"
      using Cons.prems by (auto split: option.splits)
    show ?thesis
      using cross_from_remote_cases [OF sw [unfolded switch_out_cross]]
    proof
      assume "as = [] \<and> s1 = s"
      then show ?thesis using Cons True sw by auto
    next
      assume "\<exists>i x y. as = [switch_action i x y] \<and> crosses 0 dir i x y s s1"
      then obtain i x y where c: "as = [switch_action i x y]" "crosses 0 dir i x y s s1" by blast
      then have "acts = as" "s' = s1" using Cons.prems True sw by auto
      moreover have "same_place s s" by (simp add: same_place_def)
      ultimately have "fires 0 dir s acts s'" using c unfolding fires_def by blast
      then show ?thesis using True by (intro disjI2 bexI [of _ dir]) auto
    qed
  qed
qed

lemma local_parks_total: "local_parks dirs newly now s \<noteq> None"
  by (induction dirs arbitrary: s) (auto simp: switch_out_cross split: option.split)


lemma remote_parks_cases:
  "remote_parks dirs newly now j s = Some (acts, s') \<Longrightarrow>
   (acts = [] \<and> s' = s) \<or>
   (\<exists>dir \<in> set dirs. armed newly dir \<and> fresh_push (se_remote_last_out s) dir now \<and> fires j dir s acts s')"
proof (induction dirs)
  case Nil then show ?case by simp
next
  case (Cons dir dirs)
  show ?case
  proof (cases "armed newly dir \<and> fresh_push (se_remote_last_out s) dir now")
    case False then show ?thesis using Cons by auto
  next
    case True
    then obtain as s1 where sw: "cross_from_remote j dir s = Some (as, s1)"
      using Cons.prems by (auto split: option.splits)
    show ?thesis
      using cross_from_remote_cases [OF sw]
    proof
      assume "as = [] \<and> s1 = s"
      then show ?thesis using Cons True sw by auto
    next
      assume "\<exists>i x y. as = [switch_action i x y] \<and> crosses j dir i x y s s1"
      then obtain i x y where c: "as = [switch_action i x y]" "crosses j dir i x y s s1" by blast
      then have "acts = as" "s' = s1" using Cons.prems True sw by auto
      moreover have "same_place s s" by (simp add: same_place_def)
      ultimately have "fires j dir s acts s'" using c unfolding fires_def by blast
      then show ?thesis using True by (intro disjI2 bexI [of _ dir]) auto
    qed
  qed
qed

lemma remote_parks_total: "remote_parks dirs newly now j s \<noteq> None"
  by (induction dirs arbitrary: s) (auto split: option.split)

text \<open>
  The loop of a remote push: no early return, an early return with a crossing, or an early return
  with nothing (the neighbour is offline, or the walls are locked).
\<close>

lemma remote_pushes_cases:
  "remote_pushes dirs fresh now j dx dy s = Some (r, s') \<Longrightarrow>
   (r \<in> {None, Some []} \<and> same_place s s' \<and> se_remote_pushing s' = se_remote_pushing s) \<or>
   (\<exists>dir \<in> set dirs. \<exists>acts. r = Some acts \<and> fresh \<and> pushes_outward dir dx dy \<and>
      armed (se_remote_at_wall s) dir \<and> fires j dir s acts s')"
proof (induction dirs arbitrary: s)
  case Nil then show ?case by (simp add: same_place_def)
next
  case (Cons dir dirs)
  let ?s1 = "s\<lparr>se_remote_last_out := Some \<lparr>pu_dir = dir, pu_at = now\<rparr>\<rparr>"
  have s1: "same_place s ?s1" by (simp add: same_place_def stays_def)
  have rec: "?case" if q: "remote_pushes dirs fresh now j dx dy t = Some (r, s')" "same_place s t"
    "se_remote_pushing t = se_remote_pushing s"
    "\<And>d. armed (se_remote_at_wall t) d \<Longrightarrow> armed (se_remote_at_wall s) d" for t
    using Cons.IH [OF q(1)]
  proof
    assume "r \<in> {None, Some []} \<and> same_place t s' \<and> se_remote_pushing s' = se_remote_pushing t"
    then show ?thesis using q same_place_trans by auto
  next
    assume "\<exists>dir \<in> set dirs. \<exists>acts. r = Some acts \<and> fresh \<and> pushes_outward dir dx dy \<and>
      armed (se_remote_at_wall t) dir \<and> fires j dir t acts s'"
    then obtain d acts where "d \<in> set dirs" "r = Some acts" "fresh" "pushes_outward d dx dy"
      "armed (se_remote_at_wall t) d" "fires j d t acts s'" by blast
    then show ?thesis using q(4) fires_after [OF q(2)]
      by (intro disjI2 bexI [of _ d] exI [of _ acts]) auto
  qed
  show ?case
  proof (cases "pushes_outward dir dx dy")
    case False
    show ?thesis
    proof (cases "pulls_inward dir dx dy")
      case True
      then have "remote_pushes dirs fresh now j dx dy
          (s\<lparr>se_remote_at_wall := disarm (se_remote_at_wall s) dir\<rparr>) = Some (r, s')"
        using Cons.prems False by simp
      then show ?thesis by (rule rec) (auto simp: same_place_def stays_def dest: armed_disarm)
    next
      case no_pull: False
      then have "remote_pushes dirs fresh now j dx dy s = Some (r, s')" using Cons.prems False by simp
      then show ?thesis by (rule rec) (auto simp: same_place_def)
    qed
  next
    case True
    show ?thesis
    proof (cases "fresh \<and> armed (se_remote_at_wall s) dir")
      case False
      then have "remote_pushes dirs fresh now j dx dy ?s1 = Some (r, s')"
        using Cons.prems True by (auto simp: Let_def split: if_splits)
      then show ?thesis by (rule rec) (use s1 in auto)
    next
      case armed: True
      show ?thesis
      proof (cases "neighbor (se_layout s) j dir (se_x s) (se_y s) = None")
        case True
        then have "remote_pushes dirs fresh now j dx dy
            (?s1\<lparr>se_remote_at_wall := disarm (se_remote_at_wall ?s1) dir\<rparr>) = Some (r, s')"
          using Cons.prems \<open>pushes_outward dir dx dy\<close> armed by simp
        then show ?thesis by (rule rec) (auto simp: same_place_def stays_def dest: armed_disarm)
      next
        case False
        then obtain acts where x: "r = Some acts" "cross_from_remote j dir ?s1 = Some (acts, s')"
          using Cons.prems True armed by auto
        from cross_from_remote_cases [OF x(2)] show ?thesis
        proof
          assume "acts = [] \<and> s' = ?s1"
          then show ?thesis using x(1) s1 by simp
        next
          assume "\<exists>i x y. acts = [switch_action i x y] \<and> crosses j dir i x y ?s1 s'"
          then have "fires j dir s acts s'" using s1 unfolding fires_def by blast
          then show ?thesis using x(1) True armed by auto
        qed
      qed
    qed
  qed
qed

lemma remote_pushes_total: "remote_pushes dirs fresh now j dx dy s \<noteq> None"
  by (induction dirs arbitrary: s) (auto simp: Let_def)

section \<open>The handlers\<close>

lemma in_DIRS [simp]: "d \<in> set DIRS"
  by (cases d) (simp_all add: DIRS_def)

lemma clamp_to_stays: "clamp_to r s = Some t \<Longrightarrow>
    stays s t \<and> se_walls_locked t = se_walls_locked s \<and> se_pushing t = se_pushing s \<and>
    se_remote_pushing t = se_remote_pushing s"
  by (auto simp: clamp_to_def stays_def split: if_splits)

lemma clamp_to_total: "rect_sane r \<Longrightarrow> clamp_to r s \<noteq> None"
proof -
  assume r: "rect_sane r"
  then have "sub32 (rx r + rw r) 1 = rx r + rw r - 1" "sub32 (ry r + rh r) 1 = ry r + rh r - 1"
    by (auto simp: rect_sane_def in_i32_def intro!: sub32_id)
  then show ?thesis using r by (simp add: clamp_to_def) (simp add: rect_sane_def)
qed

text \<open>Why the cursor left the local screen: an armed wall and a push through it, or a sustained push.\<close>

lemma handle_local_motion_cases:
  assumes "handle_local_motion now dx dy s = Some (acts, s')"
  shows "(acts = [] \<and> stays s s') \<or>
    (\<exists>dir. pushes_outward dir dx dy \<and> armed (se_at_wall s) dir \<and> fires 0 dir s acts s') \<or>
    (\<exists>dir t i x y. stays s t \<and> se_walls_locked t = se_walls_locked s \<and> sustained_push (se_pushing s) dir now \<and>
       exit_direction (se_layout s) 0 (se_x s) (se_y s) = Some dir \<and>
       crosses 0 dir i x y t s' \<and> acts = [switch_action i x y])"
proof -
  obtain as s1 where l: "local_pushes DIRS now dx dy s = Some (as, s1)"
    using assms by (auto simp: handle_local_motion_def split: option.splits)
  from local_pushes_cases [OF l] show ?thesis
  proof
    assume "\<exists>dir \<in> set DIRS. pushes_outward dir dx dy \<and> armed (se_at_wall s) dir \<and> fires 0 dir s as s1"
    then obtain dir where d: "pushes_outward dir dx dy" "armed (se_at_wall s) dir" "fires 0 dir s as s1" by blast
    then have "as \<noteq> []" unfolding fires_def by blast
    then have "acts = as \<and> s' = s1" using assms l by (simp add: handle_local_motion_def)
    then show ?thesis using d by blast
  next
    assume q: "as = [] \<and> same_place s s1 \<and> se_pushing s1 = se_pushing s"
    then have place: "stays s s1" "se_x s1 = se_x s" "se_y s1 = se_y s" "se_walls_locked s1 = se_walls_locked s"
      "se_layout s1 = se_layout s" by (auto simp: same_place_def stays_def)
    show ?thesis
    proof (cases "exit_direction (se_layout s1) 0 (se_x s1) (se_y s1)")
      case None
      then have "acts = []" "s' = s1\<lparr>se_pushing := None\<rparr>"
        using assms l q by (simp_all add: handle_local_motion_def)
      then show ?thesis using place by (simp add: stays_def)
    next
      case (Some dir)
      then obtain s2 where c: "clamp_to (se_local s1) s1 = Some s2"
        using assms l q by (auto simp: handle_local_motion_def split: option.splits)
      note s2 = clamp_to_stays [OF c]
      show ?thesis
      proof (cases "sustained_push (se_pushing s2) dir now")
        case False
        then have "acts = []" "s' = s2\<lparr>se_pushing := keep_pushing (se_pushing s2) dir now\<rparr>"
          using assms l q Some c by (simp_all add: handle_local_motion_def)
        then show ?thesis using place s2 by (simp add: stays_def)
      next
        case True
        let ?t = "s2\<lparr>se_pushing := None\<rparr>"
        have t: "stays s ?t" "se_walls_locked ?t = se_walls_locked s"
          using place s2 by (auto simp: stays_def)
        have "cross_from_remote 0 dir ?t = Some (acts, s')"
          using True assms l q Some c by (simp add: handle_local_motion_def switch_out_cross)
        then have "(acts = [] \<and> s' = ?t) \<or> (\<exists>i x y. acts = [switch_action i x y] \<and> crosses 0 dir i x y ?t s')"
          by (rule cross_from_remote_cases)
        then show ?thesis using t True Some place q s2 by metis
      qed
    qed
  qed
qed

lemma crosses_from_stay: "stays s t \<Longrightarrow> crosses j dir i x y t s' \<Longrightarrow> outcome_ok s [switch_action i x y] s'"
  using crosses_outcome outcome_after_stay by blast

lemma handle_local_motion_outcome:
  "handle_local_motion now dx dy s = Some (acts, s') \<Longrightarrow> outcome_ok s acts s'"
  using handle_local_motion_cases crosses_from_stay fires_outcome outcome_stay by metis

lemma handle_local_motion_total: "rect_sane (se_local s) \<Longrightarrow> handle_local_motion now dx dy s \<noteq> None"
proof -
  assume r: "rect_sane (se_local s)"
  obtain as s1 where l: "local_pushes DIRS now dx dy s = Some (as, s1)"
    using local_pushes_total by fastforce
  show ?thesis
  proof (cases "as = []")
    case True
    then have "se_local s1 = se_local s"
      using local_pushes_cases [OF l] by (auto simp: same_place_def stays_def fires_def)
    then have "clamp_to (se_local s1) s1 \<noteq> None" using r clamp_to_total by simp
    then show ?thesis using l True
      by (auto simp: handle_local_motion_def switch_out_cross split: option.split)
  next
    case False then show ?thesis using l by (simp add: handle_local_motion_def)
  qed
qed

lemma on_local_beacon_cases:
  assumes "on_local_beacon now x y s = Some (acts, s')"
  shows "(acts = [] \<and> stays s s') \<or>
    (\<exists>dir t. stays s t \<and> se_walls_locked t = se_walls_locked s \<and>
       armed (and (wall_bits (se_local s) x y) (not (se_at_wall s))) dir \<and>
       fresh_push (se_last_out s) dir now \<and> fires 0 dir t acts s')"
proof -
  let ?bits = "wall_bits (se_local s) x y"
  let ?t = "s\<lparr>se_x := add32 (rx (se_local s)) x, se_y := add32 (ry (se_local s)) y, se_at_wall := ?bits\<rparr>"
  have t: "stays s ?t" "se_walls_locked ?t = se_walls_locked s" "se_last_out ?t = se_last_out s"
    by (simp_all add: stays_def)
  show ?thesis
  proof (cases "?bits = 0")
    case True
    then have "acts = []" "s' = ?t\<lparr>se_pushing := None\<rparr>" using assms by (simp_all add: on_local_beacon_def Let_def)
    then show ?thesis by (simp add: stays_def)
  next
    case False
    then have "local_parks DIRS (and ?bits (not (se_at_wall s))) now ?t = Some (acts, s')"
      using assms by (simp add: on_local_beacon_def Let_def)
    then show ?thesis using local_parks_cases t by metis
  qed
qed

lemma on_local_beacon_outcome: "on_local_beacon now x y s = Some (acts, s') \<Longrightarrow> outcome_ok s acts s'"
  using on_local_beacon_cases fires_outcome outcome_after_stay outcome_stay by metis

lemma on_local_beacon_total: "on_local_beacon now x y s \<noteq> None"
  using local_parks_total by (simp add: on_local_beacon_def Let_def del: not_None_eq)

lemma handle_remote_motion_outcome:
  assumes "handle_remote_motion now j dx dy s = Some (acts, s')" "se_mode s = Remote j"
  shows "outcome_ok s acts s'"
proof (cases "find_screen (se_layout s) j")
  case None
  then show ?thesis using assms by (simp add: handle_remote_motion_def outcome_stay)
next
  case (Some scr)
  let ?fresh = "beacon_fresh (se_remote_beacon_at s) now"
  obtain r s1 where l: "remote_pushes DIRS ?fresh now j dx dy s = Some (r, s1)"
    using assms Some by (auto simp: handle_remote_motion_def Let_def split: option.splits)
  have sends: "outcome_ok s [Send (MouseMoveRel dx dy)] t" if "stays s t" for t
    using that assms(2) by (simp add: outcome_ok_def quiet_def)
  from remote_pushes_cases [OF l] show ?thesis
  proof
    assume "\<exists>dir \<in> set DIRS. \<exists>as. r = Some as \<and> ?fresh \<and> pushes_outward dir dx dy \<and>
      armed (se_remote_at_wall s) dir \<and> fires j dir s as s1"
    then obtain dir as where "r = Some as" "fires j dir s as s1" by blast
    then show ?thesis using assms l Some fires_outcome by (simp add: handle_remote_motion_def Let_def)
  next
    assume q: "r \<in> {None, Some []} \<and> same_place s s1 \<and> se_remote_pushing s1 = se_remote_pushing s"
    then have s1: "stays s s1" by (simp add: same_place_def)
    show ?thesis
    proof (cases r)
      case (Some as)
      then show ?thesis using q s1 assms l \<open>find_screen (se_layout s) j = Some scr\<close>
        by (auto simp: handle_remote_motion_def Let_def outcome_stay)
    next
      case None
      show ?thesis
      proof (cases "exit_direction (se_layout s1) j (se_x s1) (se_y s1)")
        case e: None
        then have "acts = [Send (MouseMoveRel dx dy)]" "s' = s1\<lparr>se_remote_pushing := None\<rparr>"
          using assms l Some None by (simp_all add: handle_remote_motion_def Let_def)
        then show ?thesis using sends s1 by (simp add: stays_def)
      next
        case e: (Some dir)
        then obtain s2 where c: "clamp_to (sc_rect scr) s1 = Some s2"
          using assms l Some None by (auto simp: handle_remote_motion_def Let_def split: option.splits)
        have s2: "stays s s2" using clamp_to_stays [OF c] s1 stays_trans by blast
        show ?thesis
        proof (cases "\<not> ?fresh \<and> sustained_push (se_remote_pushing s2) dir now")
          case False
          then have "acts = [Send (MouseMoveRel dx dy)]"
            "s' = s2\<lparr>se_remote_pushing := keep_pushing (se_remote_pushing s2) dir now\<rparr>"
            using assms l Some None e c by (auto simp: handle_remote_motion_def Let_def)
          then show ?thesis using sends s2 by (simp add: stays_def)
        next
          case True
          let ?t = "s2\<lparr>se_remote_pushing := None\<rparr>"
          have t: "stays s ?t" using s2 by (simp add: stays_def)
          obtain as where x: "cross_from_remote j dir ?t = Some (as, s')"
            "acts = (if as = [] then [Send (MouseMoveRel dx dy)] else as)"
            using True assms l Some None e c by (auto simp: handle_remote_motion_def Let_def split: option.splits)
          from cross_from_remote_cases [OF x(1)] show ?thesis
            using x(2) t sends crosses_from_stay by auto
        qed
      qed
    qed
  qed
qed


lemma exists_sane: "layout_sane (se_layout s) \<Longrightarrow> find_screen (se_layout s) i = Some c \<Longrightarrow> clamp_to (sc_rect c) t \<noteq> None"
  using find_screen_sane clamp_to_total by blast

lemma handle_remote_motion_total:
  assumes "layout_sane (se_layout s)"
  shows "handle_remote_motion now j dx dy s \<noteq> None"
proof (cases "find_screen (se_layout s) j")
  case None then show ?thesis by (simp add: handle_remote_motion_def)
next
  case (Some scr)
  then have c: "\<And>t. clamp_to (sc_rect scr) t \<noteq> None" using exists_sane assms by blast
  obtain r s1 where "remote_pushes DIRS (beacon_fresh (se_remote_beacon_at s) now) now j dx dy s = Some (r, s1)"
    using remote_pushes_total by fastforce
  then show ?thesis using Some c [of s1]
    by (auto simp: handle_remote_motion_def Let_def split: option.split)
qed

lemma on_remote_beacon_cases:
  assumes "on_remote_beacon now j x y s = Some (acts, s')"
  shows "(acts = [] \<and> stays s s') \<or>
    (\<exists>dir t scr. se_mode s = Remote j \<and> stays s t \<and> find_screen (se_layout s) j = Some scr \<and>
       se_walls_locked t = se_walls_locked s \<and> fresh_push (se_remote_last_out s) dir now \<and> fires j dir t acts s')"
proof (cases "se_mode s = Remote j")
  case False then show ?thesis using assms by (simp add: on_remote_beacon_def)
next
  case True
  show ?thesis
  proof (cases "find_screen (se_layout s) j")
    case None then show ?thesis using assms True by (simp add: on_remote_beacon_def)
  next
    case (Some scr)
    define x' where "x' = clamp_i32 x 0 (last_pixel (rw (sc_rect scr)))"
    define y' where "y' = clamp_i32 y 0 (last_pixel (rh (sc_rect scr)))"
    define bits where "bits = wall_bits (sc_rect scr) x' y'"
    define t where "t = s\<lparr>se_remote_beacon_at := Some now, se_x := add32 (rx (sc_rect scr)) x',
                     se_y := add32 (ry (sc_rect scr)) y', se_remote_at_wall := bits\<rparr>"
    have st: "stays s t" "se_walls_locked t = se_walls_locked s" "se_remote_last_out t = se_remote_last_out s"
      by (simp_all add: t_def stays_def)
    show ?thesis
    proof (cases "bits = 0")
      case z: True
      then have "acts = []" "s' = t\<lparr>se_remote_pushing := None\<rparr>"
        using assms True Some by (simp_all add: on_remote_beacon_def Let_def t_def bits_def x'_def y'_def)
      then show ?thesis using st by (simp add: stays_def)
    next
      case False
      then have "remote_parks DIRS (and bits (not (se_remote_at_wall s))) now j t = Some (acts, s')"
        using assms True Some by (simp add: on_remote_beacon_def Let_def t_def bits_def x'_def y'_def)
      from remote_parks_cases [OF this] show ?thesis using st True Some by metis
    qed
  qed
qed

lemma on_remote_beacon_outcome: "on_remote_beacon now j x y s = Some (acts, s') \<Longrightarrow> outcome_ok s acts s'"
  using on_remote_beacon_cases fires_outcome outcome_after_stay outcome_stay by metis

lemma on_remote_beacon_total: "on_remote_beacon now j x y s \<noteq> None"
  using remote_parks_total
  by (simp add: on_remote_beacon_def Let_def del: not_None_eq split: option.split)

section \<open>Jumps, keys and events\<close>

lemma jump_to_outcome: "jump_to i s = Some (acts, s') \<Longrightarrow> reachable s i \<Longrightarrow> outcome_ok s acts s'"
  by (auto simp: jump_to_def Let_def outcome_stay outcome_ok_def switch_action_def
      dest!: enter_screen_entered split: option.splits prod.splits if_splits)

lemma jump_to_total: "jump_to i s \<noteq> None"
  by (auto simp: jump_to_def Let_def enter_screen_def split: option.split prod.split)

lemma force_local_outcome:
  "force_local s = Some (a, s') \<Longrightarrow> outcome_ok s [a] s' \<and> se_mode s' = Local \<and> (\<exists>x y. a = SwitchToLocal x y)"
  using enter_screen_entered [of 0 _ _ s]
  by (fastforce simp: force_local_def Let_def outcome_ok_def switch_action_def entered_def mode_of_def
      reachable_def split: prod.splits)

lemma force_local_total: "0 \<in> screen_ids s \<Longrightarrow> force_local s \<noteq> None"
  using find_screen_exists [of 0 "se_layout s"]
  by (auto simp: force_local_def Let_def enter_screen_def screen_ids_def split: prod.split)

lemma next_screen_reachable: "next_screen s = Some i \<Longrightarrow> reachable s i"
  by (auto simp: next_screen_def Let_def dest: find_SomeD)

lemma execute_user_action_outcome:
  "execute_user_action a s = Some (acts, s') \<Longrightarrow> outcome_ok s acts s'"
proof (cases a)
  case (SwitchToScreen name)
  assume "execute_user_action a s = Some (acts, s')"
  then show ?thesis using SwitchToScreen jump_to_outcome outcome_stay
    by (fastforce split: option.splits if_splits)
next
  case SwitchNext
  assume "execute_user_action a s = Some (acts, s')"
  then show ?thesis using SwitchNext jump_to_outcome outcome_stay next_screen_reachable
    by (fastforce split: option.splits)
next
  case ToggleLock
  assume "execute_user_action a s = Some (acts, s')"
  then show ?thesis using ToggleLock by (auto simp: stays_def intro: outcome_stay)
next
  case GoHome
  assume "execute_user_action a s = Some (acts, s')"
  then show ?thesis using GoHome force_local_outcome
    by (auto intro: outcome_stay split: if_splits)
qed

lemma execute_user_action_total: "0 \<in> screen_ids s \<Longrightarrow> execute_user_action a s \<noteq> None"
  using jump_to_total force_local_total by (cases a) (auto split: option.split simp del: not_None_eq)

lemma forward_quiet: "quiet (se_mode s) (forward_while_remote m s)"
  by (simp add: forward_while_remote_def quiet_def)

lemma outcome_forward: "stays s s' \<Longrightarrow> outcome_ok s (forward_while_remote m s) s'"
  by (simp add: outcome_ok_def forward_quiet)

lemma actions_stay [simp]: "stays s (s\<lparr>se_actions := e\<rparr>)"
  by (simp add: stays_def)

lemma on_local_key_outcome: "on_local_key now kind key s = Some (acts, s') \<Longrightarrow> outcome_ok s acts s'"
  by (auto simp: on_local_key_def intro: outcome_forward outcome_stay
        outcome_after_stay [OF actions_stay execute_user_action_outcome]
      split: key_kind.splits option.splits prod.splits)

lemma on_local_key_total: "0 \<in> screen_ids s \<Longrightarrow> on_local_key now kind key s \<noteq> None"
  using execute_user_action_total
  by (auto simp: on_local_key_def screen_ids_def simp del: not_None_eq
      split: key_kind.split option.split prod.split)

lemma on_local_motion_outcome:
  assumes "on_local_motion now dx dy s = Some (acts, s')" shows "outcome_ok s acts s'"
proof (cases "se_mode s")
  case Local
  let ?t = "s\<lparr>se_x := add32 (se_x s) dx, se_y := add32 (se_y s) dy\<rparr>"
  have "stays s ?t" by (simp add: stays_def)
  then show ?thesis using assms Local handle_local_motion_outcome outcome_after_stay
    by (auto simp: on_local_motion_def)
next
  case (Remote j)
  obtain sx remx sy remy where g: "scale_axis (se_gain s * ip_pointer_speed (se_prefs s)) dx (fst (se_gain_rem s)) = (sx, remx)"
    "scale_axis (se_gain s * ip_pointer_speed (se_prefs s)) dy (snd (se_gain_rem s)) = (sy, remy)"
    by fastforce
  let ?t = "s\<lparr>se_gain_rem := (remx, remy), se_x := add32 (se_x s) sx, se_y := add32 (se_y s) sy\<rparr>"
  have "stays s ?t" "se_mode ?t = Remote j" using Remote by (simp_all add: stays_def)
  moreover have "handle_remote_motion now j sx sy ?t = Some (acts, s')"
    using assms Remote g by (simp add: on_local_motion_def Let_def)
  ultimately show ?thesis using handle_remote_motion_outcome outcome_after_stay by blast
qed

lemma on_local_event_outcome: "on_local_event now m s = Some (acts, s') \<Longrightarrow> outcome_ok s acts s'"
  using on_local_motion_outcome on_local_beacon_outcome on_local_key_outcome force_local_outcome
  by (cases m) (auto intro: outcome_stay outcome_forward split: if_splits prod.splits)

lemma on_local_event_total:
  assumes "0 \<in> screen_ids s" "layout_sane (se_layout s)" "rect_sane (se_local s)"
  shows "on_local_event now m s \<noteq> None"
  using assms on_local_beacon_total on_local_key_total force_local_total handle_local_motion_total
    handle_remote_motion_total
  by (cases m) (auto simp: on_local_motion_def Let_def simp del: not_None_eq split: mode.split prod.split)

end
