(* ===== verification/Crossing_Rules.thy ===== *)
theory Crossing_Rules
  imports Crossing
begin

text \<open>
  The invariant of the session, and the properties that follow from \<open>Crossing\<close>: the reachable
  states never point the cursor at a dead screen, no handler panics, a crossing needs both an
  armed wall and a push, and an entry point is never on the wall it entered through.  Three
  theorems show where the code departs from its own comments: the jump to a screen, the press of
  a chord key, and motion against a wall that cannot be crossed.
\<close>

section \<open>The invariant\<close>

definition session_ok :: "session \<Rightarrow> bool" where
  "session_ok s \<longleftrightarrow> 0 \<in> screen_ids s \<and>
     (\<forall>i. se_mode s = Remote i \<longrightarrow> i \<noteq> 0 \<and> i \<in> se_connected s \<and> i \<in> screen_ids s)"

lemma screen_ids_found: "find_screen (se_layout s) i = Some c \<Longrightarrow> i \<in> screen_ids s"
  using find_screen_in by (force simp: screen_ids_def)

lemma outcome_keeps_ok: "session_ok s \<Longrightarrow> outcome_ok s acts s' \<Longrightarrow> session_ok s'"
  by (auto simp: outcome_ok_def session_ok_def stays_def entered_def mode_of_def screen_ids_def
      reachable_def dest: screen_ids_found split: if_splits)

lemma normalized_ids: "sc_id ` set (screens (normalized l)) = sc_id ` set (screens l)"
proof -
  have "same_shapes (screens l) (screens (normalized l))"
    by (simp add: normalized_def normalize_loop_shapes)
  then have "map sc_id (screens l) = map sc_id (screens (normalized l))"
    by (intro nth_equalityI) (auto simp: same_shapes_nth)
  then show ?thesis by (metis list.set_map)
qed

lemma ok_more_screens:
  "session_ok s \<Longrightarrow> screen_ids s \<subseteq> screen_ids s' \<Longrightarrow> se_connected s \<subseteq> se_connected s' \<Longrightarrow>
   se_mode s' = se_mode s \<Longrightarrow> session_ok s'"
  by (auto simp: session_ok_def)

lemma ok_local: "0 \<in> screen_ids s \<Longrightarrow> se_mode s = Local \<Longrightarrow> session_ok s"
  by (simp add: session_ok_def)

lemma admit_ids: "screen_ids (snd (admit_client name info s)) \<supseteq> screen_ids s"
  by (auto simp: admit_client_def Let_def screen_ids_def normalized_ids split: option.split)

lemma admit_keeps [simp]:
  "se_connected (snd (admit_client name info s)) = se_connected s"
  "se_mode (snd (admit_client name info s)) = se_mode s"
  by (auto simp: admit_client_def Let_def split: option.split)

lemma update_first_ids: "(\<And>c. sc_id (f c) = sc_id c) \<Longrightarrow> sc_id ` set (update_first P f ss) = sc_id ` set ss"
  by (induction ss) auto

lemma update_ids: "screen_ids (update_screen_info i info s) = screen_ids s"
  by (simp add: screen_ids_def update_screen_info_def update_first_ids)

lemma keep_dynamic_superset: "keep_dynamic ss ds = (ss', kept) \<Longrightarrow> set ss \<subseteq> set ss'"
  by (induction ss ds arbitrary: ss' kept rule: keep_dynamic.induct)
    (auto split: if_splits prod.splits)

lemma swap_ok: "session_ok s \<Longrightarrow> session_ok (snd (swap_layout l s))"
proof (cases "find_screen l 0")
  case None
  assume "session_ok s"
  then show ?thesis using None by (simp add: swap_layout_def)
next
  case (Some home)
  obtain ss kept where k: "keep_dynamic (screens l) (se_dynamic s) = (ss, kept)" by fastforce
  have "home \<in> set ss" "sc_id home = 0"
    using keep_dynamic_superset [OF k] find_screen_in [OF Some] by auto
  then have "0 \<in> sc_id ` set ss" by force
  then show ?thesis using Some k
    by (intro ok_local) (auto simp: swap_layout_def Let_def clear_boundary_state_def screen_ids_def
        normalized_ids split: prod.split)
qed

lemma disconnected_cases:
  assumes "on_client_disconnected i s = Some (a, s')"
  shows "(se_mode s = Remote i \<and> se_mode s' = Local \<and> (\<exists>x y. a = SwitchToLocal x y) \<or>
          se_mode s \<noteq> Remote i \<and> se_mode s' = se_mode s \<and> a = Nothing) \<and>
    se_connected s' = se_connected s - {i} \<and> se_layout s' = se_layout s"
  using assms enter_screen_entered [of 0]
  by (auto simp: on_client_disconnected_def force_local_def Let_def entered_def mode_of_def reachable_def
      split: if_splits prod.splits)

lemma disconnected_ok:
  assumes "session_ok s" "on_client_disconnected i s = Some (a, s')" shows "session_ok s'"
  using assms(1) disconnected_cases [OF assms(2)] by (auto simp: session_ok_def screen_ids_def)

lemma screen_ids_of_append [simp]:
  "screen_ids (t\<lparr>se_layout := normalized \<lparr>screens = screens (se_layout s) @ [c]\<rparr>\<rparr>) = insert (sc_id c) (screen_ids s)"
  by (simp add: screen_ids_def normalized_ids)

lemma dynamic_screen_id [simp]: "sc_id (dynamic_screen s name info i) = i"
  by (simp add: dynamic_screen_def Let_def)

lemma filtered_ids:
  "sc_id ` set (screens (normalized \<lparr>screens = filter (\<lambda>c. sc_id c \<noteq> i) ss\<rparr>)) = sc_id ` set ss - {i}"
  unfolding normalized_ids by auto

lemma removed_cases:
  assumes "on_client_removed i s = Some (a, s')"
  obtains s1 where "on_client_disconnected i s = Some (a, s1)" "se_mode s' = se_mode s1"
    "se_connected s' = se_connected s1" "screen_ids s' = screen_ids s1 - {i}"
proof -
  obtain a1 s1 where d: "on_client_disconnected i s = Some (a1, s1)"
    using assms by (auto simp: on_client_removed_def split: option.splits)
  have "a1 = a \<and> se_mode s' = se_mode s1 \<and> se_connected s' = se_connected s1 \<and> screen_ids s' = screen_ids s1 - {i}"
  proof (cases "list_ex (\<lambda>c. sc_id c = i) (screens (se_layout s1))")
    case True
    then have "a1 = a" "s' = clear_boundary_state
        (s1\<lparr>se_layout := normalized \<lparr>screens = filter (\<lambda>c. sc_id c \<noteq> i) (screens (se_layout s1))\<rparr>,
            se_dynamic := filter (\<lambda>c. sc_id c \<noteq> i) (se_dynamic s1)\<rparr>)"
      using assms d by (simp_all add: on_client_removed_def)
    then show ?thesis by (simp add: clear_boundary_state_def screen_ids_def filtered_ids)
  next
    case False
    then show ?thesis using assms d by (auto simp: on_client_removed_def list_ex_iff screen_ids_def)
  qed
  then show ?thesis using that d by blast
qed

lemma removed_ok:
  assumes "session_ok s" "i \<noteq> 0" "on_client_removed i s = Some (a, s')" shows "session_ok s'"
  using assms(3)
proof (rule removed_cases)
  fix s1 assume r: "on_client_disconnected i s = Some (a, s1)" "se_mode s' = se_mode s1"
    "se_connected s' = se_connected s1" "screen_ids s' = screen_ids s1 - {i}"
  have "session_ok s1" by (rule disconnected_ok [OF assms(1) r(1)])
  moreover have "i \<notin> se_connected s1" using disconnected_cases [OF r(1)] by simp
  ultimately show ?thesis using r assms(2) by (auto simp: session_ok_def)
qed

lemma step_keeps_ok:
  assumes "session_ok s" "session_event_ok e" "session_step now e s = Some (acts, s')"
  shows "session_ok s'"
proof (cases e)
  case (AdmitClient name info)
  then show ?thesis using assms ok_more_screens [OF assms(1) admit_ids] by auto
next
  case (ScreenShape i info)
  then show ?thesis using assms update_ids [of i info s]
    by (auto simp: session_ok_def) (simp_all add: update_screen_info_def)
next
  case (SwapLayout l)
  then show ?thesis using assms swap_ok [OF assms(1), of l] by (metis option.inject session_step.simps(5) snd_conv)
next
  case (ClientRemoved i)
  then show ?thesis using assms removed_ok by auto
next
  case (ClientDisconnected i)
  then show ?thesis using assms disconnected_ok by auto
next
  case ForceLocal
  then show ?thesis using assms force_local_outcome outcome_keeps_ok by fastforce
next
  case (LocalEvent m)
  then show ?thesis using assms outcome_keeps_ok on_local_event_outcome by simp blast
next
  case (RemoteBeacon i x y)
  then show ?thesis using assms outcome_keeps_ok on_remote_beacon_outcome by simp blast
qed (use assms(1,3) in \<open>auto simp: session_ok_def screen_ids_def on_client_connected_def
      set_bindings_def set_prefs_def set_gain_def\<close>)

lemma new_session_ok: "new_session l 0 = Some s \<Longrightarrow> session_ok s"
  using find_screen_in [of l 0]
  by (force simp: new_session_def Let_def session_ok_def screen_ids_def split: option.splits prod.splits)

inductive_cases session_reachesE: "session_reaches s0 s"

lemma reaches_ok: "session_reaches s0 s \<Longrightarrow> session_ok s0 \<Longrightarrow> session_ok s"
  by (induction rule: session_reaches.induct) (auto intro: step_keeps_ok)

section \<open>Properties\<close>

text \<open>
  C1. In every state the session can reach from its configured layout, whatever input, beacons,
  clients, hot reloads and disconnections arrive, the local screen exists, and a cursor that is
  away is on a screen of the layout whose client is connected right now: the machine is never
  input-locked on a dead screen.
\<close>
theorem cursor_never_on_dead_screen:
  assumes "new_session l 0 = Some s0" "session_reaches s0 s"
  shows "0 \<in> screen_ids s \<and>
    (\<forall>i. se_mode s = Remote i \<longrightarrow> i \<noteq> 0 \<and> i \<in> se_connected s \<and> i \<in> screen_ids s)"
  using reaches_ok [OF assms(2) new_session_ok [OF assms(1)]] by (simp add: session_ok_def)

definition two_session :: session where
  "two_session = (case new_session two_screens 0 of Some s \<Rightarrow> on_client_connected 1 s | None \<Rightarrow> undefined)"

lemmas session_eval =
  new_session_def two_screens_def find_screen_def rect_center_def add32_def wrap_i32_def
  on_client_connected_def

lemma two_session_new: "\<exists>s. new_session two_screens 0 = Some s \<and> session_reaches s two_session"
proof -
  obtain s where s: "new_session two_screens 0 = Some s" by (simp add: session_eval)
  have "session_step 0 (ClientConnected 1) s = Some ([], two_session)"
    using s by (simp add: two_session_def)
  then have "session_reaches s two_session"
    by (intro session_reaches.event [OF session_reaches.start, of "ClientConnected 1"]) auto
  then show ?thesis using s by blast
qed

theorem cursor_never_on_dead_screen_witness: "0 \<in> screen_ids two_session"
  using two_session_new cursor_never_on_dead_screen by blast

lemma two_session_ok: "session_ok two_session"
  using two_session_new reaches_ok new_session_ok by blast

text \<open>
  C11. No event makes the session panic while its rectangles have sizes and positions in range:
  every \<open>expect\<close> finds its screen, and no \<open>clamp\<close> is given an empty range.
\<close>
theorem session_never_panics:
  assumes "session_ok s" "layout_sane (se_layout s)" "rect_sane (se_local s)"
  shows "session_step now e s \<noteq> None"
proof -
  have home: "0 \<in> screen_ids s" using assms(1) by (simp add: session_ok_def)
  have gone: "on_client_disconnected i s \<noteq> None" for i
    using home force_local_total [of "s\<lparr>se_connected := se_connected s - {i}\<rparr>"]
    by (auto simp: on_client_disconnected_def Let_def screen_ids_def)
  then have "on_client_removed i s \<noteq> None" for i
    by (fastforce simp: on_client_removed_def split: option.split)
  then show ?thesis
    using gone home assms on_local_event_total on_remote_beacon_total force_local_total
    by (cases e) (auto simp del: not_None_eq)
qed

theorem session_never_panics_witness:
  "session_step 7 (LocalEvent (MouseMoveRel (- 5000) 3)) two_session \<noteq> None"
  by (rule session_never_panics [OF two_session_ok])
    (simp_all add: two_session_def session_eval layout_sane_def rect_sane_def)

text \<open>
  C10. The actions and the state always agree: an input event either leaves the cursor on its
  screen, and then the only actions are messages for the client it is on, or it moves the cursor
  to one reachable screen, and then its single action names that screen and an entry point that
  is exactly where the virtual cursor now is, with every boundary latch reset.
\<close>
theorem actions_match_state:
  assumes "on_local_event now m s = Some (acts, s') \<or> on_remote_beacon now i x y s = Some (acts, s')"
  shows "(se_mode s' = se_mode s \<and> quiet (se_mode s) acts) \<or>
    (\<exists>j ex ey c. acts = [switch_action j ex ey] \<and> se_mode s' = mode_of j \<and> reachable s j \<and>
       find_screen (se_layout s) j = Some c \<and> se_x s' = add32 (rx (sc_rect c)) ex \<and>
       se_y s' = add32 (ry (sc_rect c)) ey \<and>
       se_at_wall s' = 0 \<and> se_remote_at_wall s' = 0 \<and> se_last_out s' = None \<and> se_remote_last_out s' = None \<and>
       se_pushing s' = None \<and> se_remote_pushing s' = None)"
proof -
  have "outcome_ok s acts s'"
    using assms on_local_event_outcome on_remote_beacon_outcome by blast
  then show ?thesis unfolding outcome_ok_def stays_def entered_def by blast
qed

theorem actions_match_state_witness:
  "on_local_event 0 (MouseButton 0 True) two_session = Some ([], two_session) \<and> quiet (se_mode two_session) []"
proof -
  have m: "se_mode two_session = Local" by (simp add: two_session_def session_eval)
  then have e: "on_local_event 0 (MouseButton 0 True) two_session = Some ([], two_session)"
    by (simp add: forward_while_remote_def)
  have "quiet (se_mode two_session) []"
    using actions_match_state [of 0 "MouseButton 0 True" two_session "[]" two_session 0 0 0] e by simp
  then show ?thesis using e by simp
qed



lemma two_session_facts:
  "se_mode two_session = Local" "se_layout two_session = two_screens" "se_walls_locked two_session = False"
  "se_local two_session = \<lparr>rx = 0, ry = 0, rw = 1920, rh = 1080\<rparr>" "se_connected two_session = {1}"
  by (simp_all add: two_session_def session_eval)

definition at_left_wall :: session where
  "at_left_wall = two_session\<lparr>se_x := - 3, se_y := 500, se_at_wall := BIT_LEFT\<rparr>"

lemma at_left_wall_crosses:
  "\<exists>s'. on_local_event 0 (MouseMoveRel (- 3) 0) (at_left_wall\<lparr>se_x := 0\<rparr>) = Some ([SwitchTo 1 1895 496], s') \<and>
     se_mode s' = Remote 1"
  by (simp add: at_left_wall_def two_session_facts on_local_motion_def handle_local_motion_def DIRS_def
      armed_def BIT_LEFT_def switch_out_def two_screens_def layout_eval reachable_def enter_inset_def
      inset_entry_def enter_screen_def clear_boundary_state_def ENTRY_INSET_def sat_i32_def)


fun opposite :: "direction \<Rightarrow> direction" where
  "opposite DLeft = DRight"
| "opposite DRight = DLeft"
| "opposite DTop = DBottom"
| "opposite DBottom = DTop"

lemma armed_wall_bits:
  assumes "rect_sane r"
  shows "armed (wall_bits r x y) DLeft \<longleftrightarrow> 4 < rw r \<and> x < 2"
    "armed (wall_bits r x y) DRight \<longleftrightarrow> 4 < rw r \<and> rw r - 2 \<le> x"
    "armed (wall_bits r x y) DTop \<longleftrightarrow> 4 < rh r \<and> y < 2"
    "armed (wall_bits r x y) DBottom \<longleftrightarrow> 4 < rh r \<and> rh r - 2 \<le> y"
proof -
  have "sub32 (rw r) EDGE_BAND = rw r - 2" "sub32 (rh r) EDGE_BAND = rh r - 2"
    using assms by (auto simp: EDGE_BAND_def rect_sane_def in_i32_def intro!: sub32_id)
  then show "armed (wall_bits r x y) DLeft \<longleftrightarrow> 4 < rw r \<and> x < 2"
    "armed (wall_bits r x y) DRight \<longleftrightarrow> 4 < rw r \<and> rw r - 2 \<le> x"
    "armed (wall_bits r x y) DTop \<longleftrightarrow> 4 < rh r \<and> y < 2"
    "armed (wall_bits r x y) DBottom \<longleftrightarrow> 4 < rh r \<and> rh r - 2 \<le> y"
    by (auto simp: armed_def wall_bits_def set_bit_if_def Let_def EDGE_BAND_def BIT_LEFT_def BIT_RIGHT_def
        BIT_TOP_def BIT_BOTTOM_def)
qed

lemma inset_entry_inside:
  assumes "rect_sane (sc_rect c)" "find_screen (se_layout s) i = Some c"
    "entry_point dir (sc_rect c) px py = (lx, ly)" "inset_entry s i dir lx ly = Some (x, y)"
  shows "0 \<le> x \<and> x < rw (sc_rect c) \<and> 0 \<le> y \<and> y < rh (sc_rect c) \<and>
    \<not> armed (wall_bits (sc_rect c) x y) (opposite dir)"
proof -
  let ?r = "sc_rect c"
  have b: "0 \<le> lx" "lx < rw ?r" "0 \<le> ly" "ly < rh ?r"
    using entry_point_inside [OF assms(1,3)] by auto
  have r: "0 < rw ?r" "rw ?r \<le> 2 ^ 28" "0 < rh ?r" "rh ?r \<le> 2 ^ 28" using assms(1) by (auto simp: rect_sane_def)
  have w: "sub32 (rw ?r) 1 = rw ?r - 1" "sub32 (rh ?r) 1 = rh ?r - 1"
    using r by (auto simp: in_i32_def intro!: sub32_id)
  have sat: "sat_i32 (lx - 24) = lx - 24" "sat_i32 (lx + 24) = lx + 24"
    "sat_i32 (ly - 24) = ly - 24" "sat_i32 (ly + 24) = ly + 24"
    using b r by (auto simp: sat_i32_def)
  note walls = armed_wall_bits [OF assms(1)]
  show ?thesis
  proof (cases dir)
    case DLeft
    then have "lx = rw ?r - 1" "x = max (lx - 24) 0" "y = ly"
      using assms sat by (auto simp: inset_entry_def ENTRY_INSET_def)
    then show ?thesis using DLeft b r(1) walls by (auto simp: max_def)
  next
    case DRight
    then have "lx = 0" "x = min (lx + 24) (rw ?r - 1)" "y = ly"
      using assms(2-4) sat w by (auto simp: inset_entry_def ENTRY_INSET_def)
    then show ?thesis using DRight b r(1) walls by (auto simp: min_def)
  next
    case DTop
    then have "ly = rh ?r - 1" "y = max (ly - 24) 0" "x = lx"
      using assms sat by (auto simp: inset_entry_def ENTRY_INSET_def)
    then show ?thesis using DTop b r(3) walls by (auto simp: max_def)
  next
    case DBottom
    then have "ly = 0" "y = min (ly + 24) (rh ?r - 1)" "x = lx"
      using assms(2-4) sat w by (auto simp: inset_entry_def ENTRY_INSET_def)
    then show ?thesis using DBottom b r(3) walls by (auto simp: min_def)
  qed
qed

lemma find_screen_distinct:
  assumes "distinct (map sc_id (screens l))" "c \<in> set (screens l)"
  shows "find_screen l (sc_id c) = Some c"
proof -
  obtain d where d: "find_screen l (sc_id c) = Some d" using find_screen_exists assms(2) by blast
  then have "d \<in> set (screens l) \<and> sc_id d = sc_id c" by (rule find_screen_in)
  then have "d = c" using assms by (metis distinct_map inj_on_def)
  then show ?thesis using d by simp
qed

text \<open>
  C5. A crossing lands inside the destination and never on the wall it came through: the beacon
  that reports the entry point leaves the wall towards the screen just left unarmed, so a crossing
  cannot bounce back on the push that made it, however small the destination is.
\<close>
theorem entry_never_bounces:
  assumes "layout_sane (se_layout s)" "distinct (map sc_id (screens (se_layout s)))"
    "cross_from_remote j dir s = Some ([a], s')"
  shows "\<exists>i x y c. a = switch_action i x y \<and> i \<noteq> j \<and> find_screen (se_layout s) i = Some c \<and>
    0 \<le> x \<and> x < rw (sc_rect c) \<and> 0 \<le> y \<and> y < rh (sc_rect c) \<and>
    \<not> armed (wall_bits (sc_rect c) x y) (opposite dir)"
proof -
  obtain i x y where c: "a = switch_action i x y" "crosses j dir i x y s s'"
    using cross_from_remote_cases [OF assms(3)] by auto
  then obtain lx ly where n: "neighbor (se_layout s) j dir (se_x s) (se_y s) = Some (i, lx, ly)"
    "inset_entry s i dir lx ly = Some (x, y)" "i \<noteq> j" by (auto simp: crosses_def)
  obtain src c score where e: "c \<in> set (screens (se_layout s))" "sc_id c = i"
    "entry_point dir (sc_rect c) (se_x s) (se_y s) = (lx, ly)"
    using n(1) by (rule neighbor_cases)
  have f: "find_screen (se_layout s) i = Some c" using find_screen_distinct assms(2) e(1,2) by blast
  have "rect_sane (sc_rect c)" using assms(1) e(1) by (simp add: layout_sane_def)
  from inset_entry_inside [OF this f e(3) n(2)] show ?thesis using c(1) n(3) f by blast
qed

lemma two_session_left: "\<exists>s'. cross_from_remote 0 DLeft (two_session\<lparr>se_x := 0, se_y := 500\<rparr>) = Some ([SwitchTo 1 1895 496], s')"
  by (simp add: two_session_facts cross_from_remote_def two_screens_def layout_eval reachable_def
      enter_inset_def inset_entry_def enter_screen_def clear_boundary_state_def ENTRY_INSET_def sat_i32_def)

theorem entry_never_bounces_witness:
  "\<exists>x y c. SwitchTo 1 1895 496 = switch_action 1 x y \<and> find_screen two_screens 1 = Some c \<and>
     \<not> armed (wall_bits (sc_rect c) x y) DRight"
proof -
  obtain s' where "cross_from_remote 0 DLeft (two_session\<lparr>se_x := 0, se_y := 500\<rparr>) = Some ([SwitchTo 1 1895 496], s')"
    using two_session_left by blast
  from entry_never_bounces [OF _ _ this] two_screens_sane show ?thesis
    by (fastforce simp: two_session_facts switch_action_def two_screens_def split: if_splits)
qed

text \<open>
  When a client goes away its screen becomes a dead edge, the cursor comes home if it was
  there, and no later input brings it back to that screen until the client has connected again.
\<close>
theorem gone_client_is_unreachable:
  assumes "i \<noteq> 0" "on_client_disconnected i s = Some (a, s1)" "on_local_event now m s1 = Some (acts, s2)"
  shows "(se_mode s = Remote i \<longrightarrow> se_mode s1 = Local \<and> (\<exists>x y. a = SwitchToLocal x y)) \<and>
    se_mode s1 \<noteq> Remote i \<and> se_mode s2 \<noteq> Remote i \<and> i \<notin> se_connected s2"
proof -
  have con: "se_connected s1 = se_connected s - {i}" using disconnected_cases [OF assms(2)] by blast
  have d: "se_mode s = Remote i \<longrightarrow> se_mode s1 = Local \<and> (\<exists>x y. a = SwitchToLocal x y)"
    "se_mode s1 \<noteq> Remote i" "i \<notin> se_connected s1"
    subgoal using disconnected_cases [OF assms(2)] by blast
    subgoal using disconnected_cases [OF assms(2)] by (metis mode.distinct(1))
    subgoal unfolding con by blast
    done
  have "outcome_ok s1 acts s2" using assms(3) by (rule on_local_event_outcome)
  then have "se_mode s2 \<noteq> Remote i \<and> i \<notin> se_connected s2"
  proof -
    consider "stays s1 s2" | j x y where "entered j x y s1 s2"
      using \<open>outcome_ok s1 acts s2\<close> unfolding outcome_ok_def by blast
    then show ?thesis
    proof cases
      case 1 then show ?thesis using d(2,3) by (simp add: stays_def)
    next
      case 2
      then have "se_mode s2 = mode_of j" "reachable s1 j" "se_connected s2 = se_connected s1"
        by (simp_all add: entered_def)
      then show ?thesis using d(3) assms(1) by (auto simp: mode_of_def reachable_def)
    qed
  qed
  then show ?thesis using d by blast
qed

theorem gone_client_is_unreachable_witness:
  "\<exists>s1 acts s2. on_client_disconnected 1 two_session = Some (Nothing, s1) \<and>
     on_local_event 0 (MouseButton 0 True) s1 = Some (acts, s2) \<and> 1 \<notin> se_connected s2"
proof -
  let ?s1 = "two_session\<lparr>se_connected := {}\<rparr>"
  have d: "on_client_disconnected 1 two_session = Some (Nothing, ?s1)"
    by (simp add: on_client_disconnected_def two_session_facts)
  have e: "on_local_event 0 (MouseButton 0 True) ?s1 = Some ([], ?s1)"
    by (simp add: forward_while_remote_def two_session_facts)
  have "1 \<notin> se_connected ?s1" using gone_client_is_unreachable [OF _ d e] by simp
  then show ?thesis using d e by (intro exI conjI)
qed

text \<open>
  The escape key always brings the cursor home: in every reachable state, with the walls
  locked, the shortcuts disabled or the client dead, it yields one switch to the local screen.
\<close>
theorem escape_always_comes_home:
  assumes "session_ok s"
  shows "\<exists>x y s'. on_local_event now Escape s = Some ([SwitchToLocal x y], s') \<and> se_mode s' = Local"
proof -
  obtain a s' where f: "force_local s = Some (a, s')"
    using assms force_local_total by (fastforce simp: session_ok_def)
  then show ?thesis using force_local_outcome [OF f] by auto
qed

theorem escape_always_comes_home_witness:
  "\<exists>x y s'. on_local_event 9 Escape (two_session\<lparr>se_walls_locked := True\<rparr>) = Some ([SwitchToLocal x y], s')"
proof -
  have "session_ok (two_session\<lparr>se_walls_locked := True\<rparr>)"
    using two_session_ok by (simp add: session_ok_def screen_ids_def)
  then show ?thesis using escape_always_comes_home by blast
qed

text \<open>
  Admission gives a machine the layout does not know a screen of its own, kept as a dynamic
  screen: its id is one that no screen used and never the local screen's, and every other screen
  stays.  It is refused exactly when it bears the server's own name or no id is free,
  and a known name keeps the screen it has.
\<close>
theorem admit_client_fresh:
  "(\<forall>i. admit_client name info s = (Some (i, True), s') \<longrightarrow>
      i \<noteq> 0 \<and> i \<notin> screen_ids s \<and> screen_ids s' = insert i (screen_ids s) \<and>
      assign_screen_id s name = None \<and>
      se_dynamic s' = se_dynamic s @ [dynamic_screen s name info i]) \<and>
   (\<forall>i. admit_client name info s = (Some (i, False), s') \<longrightarrow> s' = s \<and> assign_screen_id s name = Some i) \<and>
   (admit_client name info s = (None, s') \<longrightarrow> s' = s \<and>
      ((\<exists>c \<in> set (screens (se_layout s)). sc_id c = 0 \<and> sc_name c = name) \<or>
       (\<forall>i. i \<noteq> 0 \<longrightarrow> i \<in> screen_ids s)))"
proof -
  have free: "i \<noteq> 0 \<and> i \<notin> sc_id ` set (screens (se_layout s))" if "free_id (se_layout s) = Some i" for i
  proof -
    have "i \<in> set (map word_of_nat [1..<256]) \<and> i \<notin> sc_id ` set (screens (se_layout s))"
      using that unfolding free_id_def by (rule find_SomeD)
    moreover have "(word_of_nat k :: byte) \<noteq> 0" if "1 \<le> k" "k < 256" for k
    proof -
      have "unat (word_of_nat k :: byte) = k" using that by (simp add: unat_of_nat take_bit_eq_mod)
      then show ?thesis using that by (metis not_one_le_zero unat_0)
    qed
    ultimately show ?thesis by auto
  qed
  have full: "i \<in> sc_id ` set (screens (se_layout s))" if "free_id (se_layout s) = None" "i \<noteq> 0" for i
  proof -
    have "i = word_of_nat (unat i)" "0 < unat i" "unat i < 256"
      using that(2) byte_less [of i] by (simp_all add: unat_gt_0)
    then have "i \<in> set (map word_of_nat [1..<256])" by (metis One_nat_def Suc_leI atLeastLessThan_iff image_eqI list.set_map set_upt)
    then show ?thesis using that(1) find_NoneD unfolding free_id_def by fastforce
  qed
  show ?thesis
  proof (cases "assign_screen_id s name")
    case (Some i)
    then show ?thesis by (auto simp: admit_client_def)
  next
    case unknown: None
    show ?thesis
    proof (cases "list_ex (\<lambda>c. sc_id c = 0 \<and> sc_name c = name) (screens (se_layout s))")
      case True
      then have "\<exists>c \<in> set (screens (se_layout s)). sc_id c = 0 \<and> sc_name c = name" by (simp add: list_ex_iff)
      then show ?thesis using unknown True by (auto simp: admit_client_def)
    next
      case not_self: False
      show ?thesis
      proof (cases "free_id (se_layout s)")
        case None
        then have "\<forall>i. i \<noteq> 0 \<longrightarrow> i \<in> screen_ids s" using full by (simp add: screen_ids_def)
        then show ?thesis using unknown not_self None by (auto simp: admit_client_def)
      next
        case (Some i)
        then have "i \<noteq> 0" "i \<notin> screen_ids s" using free by (simp_all add: screen_ids_def)
        then show ?thesis using unknown not_self Some
          by (auto simp: admit_client_def Let_def screen_ids_of_append)
      qed
    qed
  qed
qed

lemma ids_from_one: "[Suc 0..<256] = Suc 0 # 2 # [3..<256]"
  by (simp add: upt_conv_Cons numeral_2_eq_2 numeral_3_eq_3)

theorem admit_client_fresh_witness:
  "fst (admit_client ''tv'' default_screen_info two_session) = Some (2, True) \<and> (2 :: byte) \<notin> screen_ids two_session"
proof -
  have "fst (admit_client ''tv'' default_screen_info two_session) = Some (2, True)"
    using ids_from_one
    by (simp add: admit_client_def assign_screen_id_def two_session_facts two_screens_def free_id_def Let_def)
  then show ?thesis
    using admit_client_fresh [of "''tv''" default_screen_info two_session "snd (admit_client ''tv'' default_screen_info two_session)"]
    by (metis prod.collapse)
qed


text \<open>
  Jumping to a screen (a shortcut, or the next-screen cycle) enters it at its centre in
  virtual coordinates, but the entry point is taken as local to the screen: on a screen whose
  position is at least its own width away from the origin, to the right or to the left, the
  cursor is sent outside the screen, and the virtual cursor is outside it too.
\<close>
theorem jump_enters_outside:
  assumes "find_screen (se_layout s) i = Some c" "rect_sane (sc_rect c)" "i \<noteq> 0"
    "rw (sc_rect c) \<le> rx (sc_rect c) \<or> rx (sc_rect c) < - rw (sc_rect c)"
  shows "\<exists>x y s'. jump_to i s = Some ([SwitchTo i x y], s') \<and> \<not> (0 \<le> x \<and> x < rw (sc_rect c)) \<and>
    \<not> rect_contains (sc_rect c) (se_x s') (se_y s')"
proof -
  let ?r = "sc_rect c"
  have b: "\<bar>rx ?r\<bar> \<le> 268435456" "0 < rw ?r" "rw ?r \<le> 268435456" using assms(2) by (simp_all add: rect_sane_def)
  define x where "x = rx ?r + rw ?r div 2"
  have h: "0 \<le> rw ?r div 2" "rw ?r div 2 < rw ?r" using b(2) by auto
  have "add32 (rx ?r) (rw ?r div 2) = x"
    unfolding x_def using b h by (intro add32_id) (auto simp: in_i32_def)
  then obtain y where "rect_center ?r = (x, y)" using b(2) by (simp add: rect_center_def)
  then obtain s' where j: "jump_to i s = Some ([SwitchTo i x y], s')" "se_x s' = add32 (rx ?r) x"
    using assms(1,3) by (auto simp: jump_to_def enter_screen_def clear_boundary_state_def)
  have sx: "se_x s' = rx ?r + x"
    unfolding j(2) x_def using b h by (intro add32_id) (auto simp: in_i32_def)
  have "\<not> (0 \<le> x \<and> x < rw ?r)" using assms(4) h b by (auto simp: x_def)
  moreover from this have "\<not> rect_contains ?r (se_x s') (se_y s')"
    using rect_contains_sane [OF assms(2)] sx by auto
  ultimately show ?thesis using j(1) by blast
qed

definition far_screen :: screen where
  "far_screen = \<lparr>sc_id = 1, sc_name = ''hp'', sc_rect = \<lparr>rx = 1920, ry = 0, rw = 1920, rh = 1080\<rparr>\<rparr>"

theorem jump_enters_outside_witness:
  "\<exists>x y s'. jump_to 1 (two_session\<lparr>se_layout := \<lparr>screens = [far_screen]\<rparr>\<rparr>) = Some ([SwitchTo 1 x y], s') \<and>
     \<not> (0 \<le> x \<and> x < 1920)"
  using jump_enters_outside [of "two_session\<lparr>se_layout := \<lparr>screens = [far_screen]\<rparr>\<rparr>" 1 far_screen]
  by (auto simp: find_screen_def far_screen_def rect_sane_def)

text \<open>
  While the cursor is on a client, the press of a key that only starts a chord (the binding's
  modifiers are not held) is sent to the client, but its release is kept: the client is left with
  a key that stays down, where the engine means to swallow both.
\<close>
theorem chord_key_sticks_on_client:
  assumes "se_mode s \<noteq> Local" "bs_enabled (ae_cfg (se_actions s))" "\<not> is_modifier key"
    "starts_chord (se_actions s) key"
    "find_binding (se_actions s) key (effective_mods (se_actions s) MODS_NONE) = None"
  shows "\<exists>s1 s2. on_local_key now KeyDown key s = Some ([Send (Key KeyDown key)], s1) \<and>
    on_local_key later KeyUp key s1 = Some ([], s2)"
proof -
  obtain e where e: "key_down now key MODS_NONE (se_mode s = Local) (se_actions s) = (None, e)"
    "key \<in> set (ae_owned e)"
    using assms(2-5) by (auto simp: key_down_def Let_def)
  then have "on_local_key now KeyDown key s = Some ([Send (Key KeyDown key)], s\<lparr>se_actions := e\<rparr>)"
    using assms(1) by (simp add: on_local_key_def forward_while_remote_def)
  moreover have "fst (key_up key e) = Some key" using e(2) assms(3) by (rule key_up_of_owned)
  then obtain e' where "key_up key e = (Some key, e')" by (cases "key_up key e") auto
  then have "on_local_key later KeyUp key (s\<lparr>se_actions := e\<rparr>) = Some ([], s\<lparr>se_actions := e'\<rparr>)"
    by (simp add: on_local_key_def)
  ultimately show ?thesis by blast
qed

theorem chord_key_sticks_on_client_witness:
  "\<exists>s1. on_local_key 5 KeyDown 0x2B (two_session\<lparr>se_mode := Remote 1, se_actions := new_engine ctrl_tab\<rparr>)
     = Some ([Send (Key KeyDown 0x2B)], s1)"
  using chord_key_sticks_on_client [of "two_session\<lparr>se_mode := Remote 1, se_actions := new_engine ctrl_tab\<rparr>" "0x2B" 5 6]
  by (auto simp: ctrl_tab_def engine_eval)

lemma armed_disarm_other: "d \<noteq> e \<Longrightarrow> armed (disarm w d) e = armed w e"
  by (cases d; cases e) (auto simp: armed_def disarm_def BIT_LEFT_def BIT_RIGHT_def BIT_TOP_def
      BIT_BOTTOM_def and.assoc)

lemma locked_push_returns_nothing:
  assumes "dir \<in> set dirs" "pushes_outward dir dx dy" "armed (se_remote_at_wall s) dir" "se_walls_locked s"
    "neighbor (se_layout s) j dir (se_x s) (se_y s) \<noteq> None"
  shows "\<exists>s'. remote_pushes dirs True now j dx dy s = Some (Some [], s')"
  using assms
proof (induction dirs arbitrary: s)
  case Nil then show ?case by simp
next
  case (Cons d dirs)
  show ?case
  proof (cases "pushes_outward d dx dy \<and> armed (se_remote_at_wall s) d \<and>
      neighbor (se_layout s) j d (se_x s) (se_y s) \<noteq> None")
    case True
    then show ?thesis using Cons.prems(4) by (auto simp: cross_from_remote_def)
  next
    case False
    then have other: "d \<noteq> dir" using Cons.prems by auto
    then have "dir \<in> set dirs" using Cons.prems(1) by auto
    then show ?thesis using False Cons.prems(2-5) other
      by (auto simp: Let_def armed_disarm_other intro!: Cons.IH)
  qed
qed

text \<open>
  With the walls locked, motion against a wall of a client's screen that has a neighbour
  behind it is lost: as long as the beacons are fresh the handler returns no action at all, so
  the client gets neither the push nor the movement along the wall, and the wall stays armed.
  (Where there is no neighbour, and when the beacons are old, the motion is forwarded.)
\<close>
theorem locked_wall_swallows_motion:
  assumes "find_screen (se_layout s) j = Some scr" "beacon_fresh (se_remote_beacon_at s) now"
    "pushes_outward dir dx dy" "armed (se_remote_at_wall s) dir" "se_walls_locked s"
    "neighbor (se_layout s) j dir (se_x s) (se_y s) \<noteq> None"
  shows "\<exists>s'. handle_remote_motion now j dx dy s = Some ([], s')"
  using locked_push_returns_nothing [OF in_DIRS assms(3-6), of now] assms(1,2)
  by (auto simp: handle_remote_motion_def Let_def)

definition on_hp :: session where
  "on_hp = two_session\<lparr>se_mode := Remote 1, se_x := - 11, se_y := 500, se_remote_at_wall := BIT_RIGHT,
     se_remote_beacon_at := Some 5, se_walls_locked := True\<rparr>"

theorem locked_wall_swallows_motion_witness: "\<exists>s'. handle_remote_motion 9 1 4 30 on_hp = Some ([], s')"
  by (rule locked_wall_swallows_motion [of _ _ "screens two_screens ! 1" _ DRight])
    (simp_all add: on_hp_def two_session_facts beacon_fresh_def REMOTE_BEACON_FRESH_def armed_def
      BIT_RIGHT_def two_screens_def layout_eval)

section \<open>Scaled motion\<close>

interpretation scaled_motion:
  conserving "\<lambda>d rem. snd (scale_axis g d rem)" "\<lambda>rem. rem" "\<lambda>d rem. of_int d * g" "\<lambda>d rem. fst (scale_axis g d rem)" for g
  by unfold_locales (simp add: scale_axis_def Let_def)

text \<open>
  The motion forwarded to a client is the device motion scaled by the gain, with nothing lost:
  over any run of deltas the pixels sent plus the carry are exactly the gain times the counts,
  and the carry stays below a pixel, so slow motion is neither truncated away nor rounded up.
\<close>
theorem scaled_motion_conserved:
  assumes "\<bar>g\<bar> \<le> 9" "\<bar>rem\<bar> < 1" "\<forall>d \<in> set ds. \<bar>d\<bar> \<le> 2 ^ 27"
  shows "run (\<lambda>d r. snd (scale_axis g d r)) ds rem
      + of_int (total (\<lambda>d r. snd (scale_axis g d r)) (\<lambda>d r. fst (scale_axis g d r)) ds rem)
    = rem + g * of_int (sum_list ds) \<and>
    \<bar>run (\<lambda>d r. snd (scale_axis g d r)) ds rem\<bar> < 1"
proof
  have "total (\<lambda>d r. snd (scale_axis g d r)) (\<lambda>d r. of_int d * g) ds rem = g * of_int (sum_list ds)"
    by (induction ds arbitrary: rem) (simp_all add: algebra_simps)
  then show "run (\<lambda>d r. snd (scale_axis g d r)) ds rem
      + of_int (total (\<lambda>d r. snd (scale_axis g d r)) (\<lambda>d r. fst (scale_axis g d r)) ds rem)
    = rem + g * of_int (sum_list ds)"
    using scaled_motion.run_balance [of g ds rem] by simp
  show "\<bar>run (\<lambda>d r. snd (scale_axis g d r)) ds rem\<bar> < 1"
    using assms(2,3)
  proof (induction ds arbitrary: rem)
    case Nil then show ?case by simp
  next
    case (Cons d ds)
    have "\<bar>real_of_int d * g\<bar> \<le> 2 ^ 27 * 9"
      unfolding abs_mult using Cons.prems(2) assms(1) by (intro mult_mono) (auto simp flip: of_int_abs)
    then have "\<bar>of_int d * g + rem\<bar> < 2147483647" using Cons.prems(1) by simp
    then have "\<bar>snd (scale_axis g d rem)\<bar> < 1"
      using real_to_i32_error(1) by (simp add: scale_axis_def Let_def)
    then show ?case using Cons by simp
  qed
qed

theorem scaled_motion_conserved_witness:
  "\<bar>run (\<lambda>d r. snd (scale_axis (1 / 2) d r)) [1, 1, -1] 0\<bar> < 1"
  using scaled_motion_conserved [of "1 / 2" 0 "[1, 1, -1]"] by simp

end
