(* ===== verification/Admission.thy ===== *)
theory Admission
  imports Transport Session "HOL-Library.Sublist"
begin

text \<open>
  Who may connect: the \<open>Policy\<close> of \<open>core/src/server/mod.rs\<close> and the handshake \<open>exchange_hello\<close> of
  \<open>core/src/server/client.rs\<close>.  A refusal is a value that names the branch of the code it comes
  from; the error code the client is sent is \<open>refusal_code\<close>, the human-readable text is left out.
\<close>

section \<open>The policy\<close>

record policy =
  po_allowlist :: bool
  po_local_only :: bool
  po_trusted_ids :: "string list"
  po_revoked_ids :: "string list"

definition default_policy :: policy where
  "default_policy = \<lparr>po_allowlist = True, po_local_only = True, po_trusted_ids = [], po_revoked_ids = []\<rparr>"

definition id_matches :: "string \<Rightarrow> string \<Rightarrow> bool" where
  "id_matches i entry =
     (if entry = [] \<or> length entry < 4 then False else i = entry \<or> prefix entry i)"

definition is_revoked :: "policy \<Rightarrow> string \<Rightarrow> bool" where
  "is_revoked p i = list_ex (\<lambda>r. id_matches i r) (po_revoked_ids p)"

definition is_trusted :: "policy \<Rightarrow> string \<Rightarrow> bool" where
  "is_trusted p i = list_ex (\<lambda>t. id_matches i t) (po_trusted_ids p)"

text \<open>An address of the standard library; \<open>V6\<close> carries the sixteen octets.\<close>

datatype ip = V4 byte byte byte byte | V6 "byte list"

definition v4_is_private :: "byte \<Rightarrow> byte \<Rightarrow> bool" where
  "v4_is_private a b \<longleftrightarrow> a = 10 \<or> (a = 172 \<and> 16 \<le> b \<and> b \<le> 31) \<or> (a = 192 \<and> b = 168)"

fun is_local_ip :: "ip \<Rightarrow> bool" where
  "is_local_ip (V4 a b c d) = (v4_is_private a b \<or> a = 127 \<or> (a = 169 \<and> b = 254))"
| "is_local_ip (V6 o6) =
     (o6 = replicate 15 0 @ [1] \<or> and (o6 ! 0) 0xfe = 0xfc \<or> (o6 ! 0 = 0xfe \<and> and (o6 ! 1) 0xc0 = 0x80))"

section \<open>The handshake\<close>

datatype refusal =
  LinkError io_error | VersionMismatch u16 | ExpectedHello | ClosedBeforeHello
| Revoked | NotLocal | NotAllowed | NameConflict

text \<open>The code of the \<open>Error\<close> message that is sent, where one is.\<close>

fun refusal_code :: "refusal \<Rightarrow> byte option" where
  "refusal_code (VersionMismatch v) = Some ERR_VERSION_MISMATCH"
| "refusal_code Revoked = Some ERR_REVOKED"
| "refusal_code NotLocal = Some ERR_NOT_LOCAL"
| "refusal_code NotAllowed = Some ERR_NOT_ALLOWED"
| "refusal_code NameConflict = Some ERR_NAME_CONFLICT"
| "refusal_code _ = None"

record admitted =
  ad_id :: byte
  ad_machine :: string
  ad_name :: string
  ad_info :: screen_info
  ad_dynamic :: bool

text \<open>The first message of the peer.\<close>

fun expect_hello :: "io_error + recv_result \<Rightarrow> refusal + (string \<times> string \<times> screen_info)" where
  "expect_hello (Inl e) = Inl (LinkError e)"
| "expect_hello (Inr (Msg (Hello v i name info))) =
     (if \<not> compatible v then Inl (VersionMismatch v) else Inr (i, name, info))"
| "expect_hello (Inr (Msg _)) = Inl ExpectedHello"
| "expect_hello (Inr EndOfStream) = Inl ClosedBeforeHello"
| "expect_hello (Inr NoData) = Inl ClosedBeforeHello"

definition exchange_hello ::
  "policy \<Rightarrow> ip \<Rightarrow> io_error + recv_result \<Rightarrow> session \<Rightarrow> (refusal + admitted) \<times> session" where
  "exchange_hello p peer first s =
     (case expect_hello first of
        Inl r \<Rightarrow> (Inl r, s)
      | Inr (machine, name, info) \<Rightarrow>
          if is_revoked p machine then (Inl Revoked, s)
          else if po_local_only p \<and> \<not> is_local_ip peer then (Inl NotLocal, s)
          else if po_allowlist p \<and> assign_screen_id s name = None \<and> \<not> is_trusted p machine
            then (Inl NotAllowed, s)
          else (case admit_client name info s of
              (Some (i, dyn), s') \<Rightarrow>
                (Inr \<lparr>ad_id = i, ad_machine = machine, ad_name = name, ad_info = info, ad_dynamic = dyn\<rparr>, s')
            | (None, s') \<Rightarrow> (Inl NameConflict, s')))"

section \<open>Matching ids\<close>

lemma id_matches_iff: "id_matches i entry \<longleftrightarrow> 4 \<le> length entry \<and> prefix entry i"
  by (auto simp: id_matches_def)

lemma id_matches_refl: "4 \<le> length i \<Longrightarrow> id_matches i i"
  by (simp add: id_matches_iff)

lemma longer_id_matches: "id_matches i entry \<Longrightarrow> id_matches (i @ rest) entry"
  by (auto simp: id_matches_iff)

lemma is_revoked_iff: "is_revoked p i \<longleftrightarrow> (\<exists>r \<in> set (po_revoked_ids p). 4 \<le> length r \<and> prefix r i)"
  by (auto simp: is_revoked_def list_ex_iff id_matches_iff)

lemma expect_hello_ok:
  "expect_hello first = Inr (machine, name, info) \<longleftrightarrow>
     (\<exists>v. first = Inr (Msg (Hello v machine name info)) \<and> compatible v)"
  by (induction first rule: expect_hello.induct) auto

lemma admit_id_nonzero: "admit_client name info s = (Some (i, dyn), s') \<Longrightarrow> i \<noteq> 0"
proof (cases "assign_screen_id s name")
  case (Some j)
  assume a: "admit_client name info s = (Some (i, dyn), s')"
  have "j \<noteq> 0" using Some by (auto simp: assign_screen_id_def dest: find_SomeD)
  then show ?thesis using a Some by (simp add: admit_client_def)
next
  case None
  assume a: "admit_client name info s = (Some (i, dyn), s')"
  then have "free_id (se_layout s) = Some i"
    using None by (auto simp: admit_client_def Let_def split: if_splits option.splits)
  then have "i \<in> word_of_nat ` {1..<256}"
    unfolding free_id_def by (auto dest: find_SomeD)
  then obtain k where "i = word_of_nat k" "1 \<le> k" "k < 256" by auto
  then have "unat i = k" by (simp add: unat_of_nat take_bit_eq_mod)
  then show ?thesis using \<open>1 \<le> k\<close> by auto
qed

lemma exchange_hello_keeps:
  assumes "exchange_hello p peer first s = (r, s')"
  shows "s' = s \<or> (\<exists>name info. s' = snd (admit_client name info s))"
  using assms by (auto simp: exchange_hello_def split: sum.splits prod.splits if_splits option.splits)
    (metis snd_conv)+

section \<open>Properties\<close>



text \<open>
  A refused handshake leaves the session as it was: no screen is added for a machine that
  is turned away, whatever it claims.  (What it may already have changed is nothing: admission is
  the last check.)
\<close>
theorem refusal_changes_nothing:
  assumes "exchange_hello p peer first s = (Inl r, s')"
  shows "s' = s"
proof -
  have "admit_client name info s = (None, s'') \<Longrightarrow> s'' = s" for name info s''
    by (auto simp: admit_client_def Let_def split: option.splits if_splits)
  then show ?thesis
    using assms by (auto simp: exchange_hello_def split: sum.splits prod.splits if_splits option.splits)
qed

text \<open>
  Revocation is not what its comment says: the match goes one way only.  The full id in the
  list does not refuse a machine that presents the short form of it (while the short form in the
  list refuses the full id), and neither does any entry of less than four characters.
\<close>
theorem revoking_full_id_misses_short:
  assumes "length short < length full" "po_revoked_ids p = [full]"
  shows "\<not> is_revoked p short"
  using assms by (auto simp: is_revoked_iff dest: prefix_length_le)

theorem revoking_full_id_misses_short_witness:
  "\<not> is_revoked (default_policy\<lparr>po_revoked_ids := [''0011223344556677'']\<rparr>) ''00112233''"
  by (rule revoking_full_id_misses_short) simp_all

end
