(* ===== verification/Server.thy ===== *)
theory Server
  imports Admission
begin

text \<open>
  The server of \<open>core/src/server/\<close>: the connected clients and their outbound queues, the executor
  of session actions, the disconnect paths, the two links, and the watchdogs.

  The shared state of the threads is one record.  A connection (\<open>Arc<Client>\<close>) lives at an address
  of the store \<open>sv_conns\<close>, so a stale connection and the one that replaced it are different objects
  with the same client id, and \<open>Arc::ptr_eq\<close> is equality of addresses.  A handler is one step, taken
  with the locks it holds in turn; \<open>None\<close> is a panic of the session.  The hash maps are functions, and a
  loop over the clients goes by ascending id (the code's order is unspecified, and no two of its
  iterations touch the same client).  The local engine is a trait with platform
  implementations: its state is the list of calls made on it.  The clock \<open>now\<close> is in nanoseconds.
\<close>

section \<open>Connections and their queues\<close>

definition OUT_QUEUE_CAP :: nat where "OUT_QUEUE_CAP = 1024"
definition CLIENT_SILENT_TIMEOUT :: nat where "CLIENT_SILENT_TIMEOUT = 10 * 10 ^ 9"
definition ACTIVE_BEACON_TIMEOUT :: nat where "ACTIVE_BEACON_TIMEOUT = 5000"

definition now_ms :: "nat \<Rightarrow> nat" where "now_ms now = now div 10 ^ 6"

datatype outbound = OutTcp message | OutUdp message

fun route :: "message \<Rightarrow> outbound" where
  "route (MouseMoveRel dx dy) = OutUdp (MouseMoveRel dx dy)"
| "route m = OutTcp m"

text \<open>
  A connection with its writer thread: \<open>cn_open\<close> says that the writer still receives, \<open>cn_seq\<close> is
  its sequence counter, and the last two fields are what it has sent on the two links.
\<close>

record connection =
  cn_id :: byte
  cn_name :: string
  cn_machine :: string
  cn_since :: nat
  cn_out :: "outbound list"
  cn_open :: bool
  cn_seq :: u32
  cn_tcp_sent :: "message list"
  cn_udp_sent :: "byte list list"

definition try_send :: "outbound \<Rightarrow> connection \<Rightarrow> connection" where
  "try_send item c =
     (if cn_open c \<and> length (cn_out c) < OUT_QUEUE_CAP then c\<lparr>cn_out := cn_out c @ [item]\<rparr> else c)"

interpretation out_queue: bounded_queue try_send cn_out OUT_QUEUE_CAP
  by unfold_locales (simp add: try_send_def)

text \<open>One turn of the writer loop; a send that fails ends the writer.\<close>

definition writer_turn :: "bool \<Rightarrow> (ip \<times> u16) option \<Rightarrow> connection \<Rightarrow> connection" where
  "writer_turn sent addr c =
     (case cn_out c of
        [] \<Rightarrow> c
      | item # rest \<Rightarrow>
          if \<not> cn_open c then c
          else let c' = c\<lparr>cn_out := rest\<rparr> in
            (case item of
               OutTcp m \<Rightarrow> if sent then c'\<lparr>cn_tcp_sent := cn_tcp_sent c @ [m]\<rparr> else c'\<lparr>cn_open := False\<rparr>
             | OutUdp m \<Rightarrow>
                 (case addr of
                    None \<Rightarrow> c'
                  | Some a \<Rightarrow>
                      let c'' = c'\<lparr>cn_seq := cn_seq c + 1\<rparr> in
                      if sent then c''\<lparr>cn_udp_sent := cn_udp_sent c @ [pack (cn_id c) (cn_seq c) m]\<rparr>
                      else c''\<lparr>cn_open := False\<rparr>)))"

section \<open>The state\<close>

datatype engine_call =
  WarpLocal int int | GrabInput bool | IsolateInput bool | ShowLocalCursor bool
| SetBoundChords "(byte \<times> u32) list"

datatype server_event =
  ClientJoined string string ip u16 nat screen_info | ClientLeft string | ControlChanged bool

record server =
  sv_session :: session
  sv_conns :: "nat \<Rightarrow> connection option"
  sv_clients :: "byte \<Rightarrow> nat option"
  sv_active :: "byte option"
  sv_addrs :: "byte \<Rightarrow> (ip \<times> u16) option"
  sv_seqs :: "byte \<Rightarrow> u32 option"
  sv_heard :: "byte \<Rightarrow> nat option"
  sv_ips :: "byte \<Rightarrow> ip option"
  sv_policy :: policy
  sv_gain :: gain_tracker
  sv_id :: string
  sv_calls :: "engine_call list"
  sv_events :: "server_event list"
  sv_clipboard :: "(string \<times> byte list) list"

definition new_server :: "session \<Rightarrow> policy \<Rightarrow> string \<Rightarrow> server" where
  "new_server s p i = \<lparr>sv_session = s, sv_conns = (\<lambda>_. None), sv_clients = (\<lambda>_. None), sv_active = None,
     sv_addrs = (\<lambda>_. None), sv_seqs = (\<lambda>_. None), sv_heard = (\<lambda>_. None), sv_ips = (\<lambda>_. None),
     sv_policy = p, sv_gain = new_gain, sv_id = i, sv_calls = [], sv_events = [], sv_clipboard = []\<rparr>"

definition client_of :: "server \<Rightarrow> byte \<Rightarrow> connection option" where
  "client_of sv i = (case sv_clients sv i of None \<Rightarrow> None | Some t \<Rightarrow> sv_conns sv t)"

definition registered :: "server \<Rightarrow> byte list" where
  "registered sv = filter (\<lambda>i. client_of sv i \<noteq> None) (map word_of_nat [0..<256])"

definition send_to :: "nat \<Rightarrow> message \<Rightarrow> server \<Rightarrow> server" where
  "send_to t m sv =
     (case sv_conns sv t of
        None \<Rightarrow> sv
      | Some c \<Rightarrow> sv\<lparr>sv_conns := (sv_conns sv)(t \<mapsto> try_send (route m) c)\<rparr>)"

definition enqueue :: "byte \<Rightarrow> message \<Rightarrow> server \<Rightarrow> server" where
  "enqueue i m sv = (case sv_clients sv i of None \<Rightarrow> sv | Some t \<Rightarrow> send_to t m sv)"

definition broadcast :: "message \<Rightarrow> server \<Rightarrow> server" where
  "broadcast m sv = fold (\<lambda>i. enqueue i m) (registered sv) sv"

definition engine_do :: "engine_call list \<Rightarrow> server \<Rightarrow> server" where
  "engine_do cs sv = sv\<lparr>sv_calls := sv_calls sv @ cs\<rparr>"

definition emit :: "server_event \<Rightarrow> server \<Rightarrow> server" where
  "emit e sv = sv\<lparr>sv_events := sv_events sv @ [e]\<rparr>"

definition layout_snapshot :: "server \<Rightarrow> layout" where
  "layout_snapshot sv = \<lparr>screens = screens (se_layout (sv_session sv))\<rparr>"

section \<open>Executing a session action\<close>

text \<open>\<open>active.take()\<close>, and a \<open>Leave\<close> for the client that had the cursor.\<close>

definition leave_active :: "server \<Rightarrow> server" where
  "leave_active sv =
     (case sv_active sv of
        None \<Rightarrow> sv
      | Some old \<Rightarrow> enqueue old (Leave old) (sv\<lparr>sv_active := None\<rparr>))"

fun apply_action :: "nat \<Rightarrow> action \<Rightarrow> server \<Rightarrow> server" where
  "apply_action now Nothing sv = sv"
| "apply_action now (Send m) sv = (case sv_active sv of None \<Rightarrow> sv | Some i \<Rightarrow> enqueue i m sv)"
| "apply_action now (SwitchTo i x y) sv =
     (let sv1 = leave_active sv;
          sv2 = sv1\<lparr>sv_active := Some i, sv_heard := (sv_heard sv1)(i \<mapsto> now_ms now)\<rparr>;
          sv3 = enqueue i (Enter i x y) sv2 in
      emit (ControlChanged True) (engine_do [GrabInput True, IsolateInput True, ShowLocalCursor False] sv3))"
| "apply_action now (SwitchToLocal x y) sv =
     emit (ControlChanged False)
       (engine_do [IsolateInput False, GrabInput False, WarpLocal x y, ShowLocalCursor True] (leave_active sv))"

definition apply_actions :: "nat \<Rightarrow> action list \<Rightarrow> server \<Rightarrow> server" where
  "apply_actions now acts sv = fold (apply_action now) acts sv"

text \<open>An action of a disconnect: only the switch home is executed.\<close>

definition come_home :: "nat \<Rightarrow> action \<Rightarrow> server \<Rightarrow> server" where
  "come_home now a sv = (case a of SwitchToLocal x y \<Rightarrow> apply_action now a sv | _ \<Rightarrow> sv)"

section \<open>Local input\<close>

definition feed_gain :: "message \<Rightarrow> server \<Rightarrow> server" where
  "feed_gain m sv =
     (case m of
        MouseMoveRel dx dy \<Rightarrow> sv\<lparr>sv_gain := on_delta dx dy (sv_gain sv)\<rparr>
      | MouseMoveAbs x y \<Rightarrow>
          (let (g, gain) = on_beacon x y (sv_gain sv) in
           sv\<lparr>sv_gain := gain, sv_session := set_gain g (sv_session sv)\<rparr>)
      | _ \<Rightarrow> sv)"

definition handle_local_input :: "nat \<Rightarrow> message \<Rightarrow> server \<Rightarrow> server option" where
  "handle_local_input now m sv =
     (let sv1 = feed_gain m sv in
      case on_local_event now m (sv_session sv1) of
        None \<Rightarrow> None
      | Some (acts, s') \<Rightarrow> Some (apply_actions now acts (sv1\<lparr>sv_session := s'\<rparr>)))"

section \<open>Disconnecting\<close>

definition unregister :: "byte \<Rightarrow> server \<Rightarrow> server" where
  "unregister i sv = sv\<lparr>sv_clients := (sv_clients sv)(i := None), sv_addrs := (sv_addrs sv)(i := None),
     sv_seqs := (sv_seqs sv)(i := None), sv_heard := (sv_heard sv)(i := None), sv_ips := (sv_ips sv)(i := None)\<rparr>"

definition clear_active :: "byte \<Rightarrow> server \<Rightarrow> server" where
  "clear_active i sv = (if sv_active sv = Some i then sv\<lparr>sv_active := None\<rparr> else sv)"

text \<open>The session forgets the client; the cursor comes home if it was there.\<close>

definition session_forgets ::
  "(byte \<Rightarrow> session \<Rightarrow> (action \<times> session) option) \<Rightarrow> nat \<Rightarrow> byte \<Rightarrow> server \<Rightarrow> server option" where
  "session_forgets f now i sv =
     (case f i (sv_session sv) of
        None \<Rightarrow> None
      | Some (a, s') \<Rightarrow> Some (come_home now a (clear_active i (sv\<lparr>sv_session := s'\<rparr>))))"

definition disconnect_client_inner :: "nat \<Rightarrow> bool \<Rightarrow> byte \<Rightarrow> server \<Rightarrow> server option" where
  "disconnect_client_inner now remove_screen i sv =
     (case client_of sv i of
        None \<Rightarrow> Some sv
      | Some c \<Rightarrow>
          let sv1 = unregister i (enqueue i (Control CTRL_DISCONNECT) (enqueue i (Leave i) sv)) in
          map_option (emit (ClientLeft (cn_name c)))
            (session_forgets (if remove_screen then on_client_removed else on_client_disconnected) now i sv1))"

fun disconnect_all :: "nat \<Rightarrow> bool \<Rightarrow> byte list \<Rightarrow> server \<Rightarrow> server option" where
  "disconnect_all now remove_screen [] sv = Some sv"
| "disconnect_all now remove_screen (i # ids) sv =
     Option.bind (disconnect_client_inner now remove_screen i sv) (disconnect_all now remove_screen ids)"

text \<open>The end of a connection's reader thread.\<close>

definition teardown :: "nat \<Rightarrow> nat \<Rightarrow> server \<Rightarrow> server option" where
  "teardown now t sv =
     (case sv_conns sv t of
        None \<Rightarrow> Some sv
      | Some c \<Rightarrow>
          if sv_clients sv (cn_id c) \<noteq> Some t then Some sv
          else
            let i = cn_id c;
                sv1 = unregister i (send_to t (Control CTRL_RECONNECT) (send_to t (Leave i) sv)) in
            session_forgets on_client_disconnected now i (emit (ClientLeft (cn_name c)) sv1))"

section \<open>The accept path\<close>

text \<open>The handshake, up to the Welcome that is sent on the new link.\<close>

definition handshake :: "ip \<Rightarrow> io_error + recv_result \<Rightarrow> server \<Rightarrow> (refusal + admitted \<times> message) \<times> server" where
  "handshake peer first sv =
     (case exchange_hello (sv_policy sv) peer first (sv_session sv) of
        (Inl r, s') \<Rightarrow> (Inl r, sv\<lparr>sv_session := s'\<rparr>)
      | (Inr a, s') \<Rightarrow>
          let sv' = sv\<lparr>sv_session := update_screen_info (ad_id a) (ad_info a) s'\<rparr> in
          (Inr (a, Welcome VERSION (sv_id sv) (layout_snapshot sv') (ad_id a)), sv'))"

definition new_connection :: "nat \<Rightarrow> admitted \<Rightarrow> connection" where
  "new_connection now a = \<lparr>cn_id = ad_id a, cn_name = ad_name a, cn_machine = ad_machine a,
     cn_since = now_ms now, cn_out = [], cn_open = True, cn_seq = 1, cn_tcp_sent = [], cn_udp_sent = []\<rparr>"

text \<open>The registration under the new address \<open>t\<close>; a connection with the same id is replaced.\<close>

definition register :: "nat \<Rightarrow> nat \<Rightarrow> ip \<Rightarrow> admitted \<Rightarrow> server \<Rightarrow> server" where
  "register now t peer a sv =
     (let i = ad_id a;
          sv1 = sv\<lparr>sv_conns := (sv_conns sv)(t \<mapsto> new_connection now a), sv_ips := (sv_ips sv)(i \<mapsto> peer),
                   sv_clients := (sv_clients sv)(i \<mapsto> t)\<rparr> in
      case sv_clients sv i of
        None \<Rightarrow> sv1
      | Some old \<Rightarrow> send_to old (Control CTRL_DISCONNECT) (send_to old (Leave i) sv1))"

text \<open>The client may be entered from here on.\<close>

definition announce :: "connection \<Rightarrow> ip \<Rightarrow> u16 \<Rightarrow> admitted \<Rightarrow> server \<Rightarrow> server" where
  "announce c peer port a sv =
     (let sv1 = emit (ClientJoined (ad_name a) (ad_machine a) peer port (cn_since c) (ad_info a))
            (sv\<lparr>sv_session := on_client_connected (ad_id a) (sv_session sv)\<rparr>) in
      if ad_dynamic a then broadcast (LayoutMsg (layout_snapshot sv1)) sv1 else sv1)"

section \<open>Control messages of the app layer\<close>

definition apply_policy :: "nat \<Rightarrow> policy \<Rightarrow> server \<Rightarrow> server option" where
  "apply_policy now p sv =
     (let sv1 = sv\<lparr>sv_policy := p\<rparr>;
          revoked = filter (\<lambda>i. case client_of sv1 i of None \<Rightarrow> False | Some c \<Rightarrow> is_revoked p (cn_machine c))
            (registered sv1) in
      disconnect_all now True revoked sv1)"

definition stale_clients :: "server \<Rightarrow> byte list" where
  "stale_clients sv = filter (\<lambda>i. case client_of sv i of
       None \<Rightarrow> False
     | Some c \<Rightarrow> \<not> list_ex (\<lambda>s. sc_id s = cn_id c \<and> sc_name s = cn_name c) (screens (se_layout (sv_session sv))))
     (registered sv)"

definition drop_stale_clients :: "nat \<Rightarrow> server \<Rightarrow> server option" where
  "drop_stale_clients now sv = disconnect_all now False (stale_clients sv) sv"

definition apply_client_command :: "nat \<Rightarrow> string \<Rightarrow> byte \<Rightarrow> server \<Rightarrow> server option" where
  "apply_client_command now name command sv =
     (case List.find (\<lambda>i. map_option cn_name (client_of sv i) = Some name) (registered sv) of
        None \<Rightarrow> Some sv
      | Some i \<Rightarrow>
          if command = CTRL_DISCONNECT then disconnect_client_inner now False i sv
          else Some (enqueue i (Control command) sv))"

definition reload :: "nat \<Rightarrow> layout \<Rightarrow> bind_section \<Rightarrow> input_prefs \<Rightarrow> server \<Rightarrow> server option" where
  "reload now l b p sv =
     (let s1 = set_prefs p (set_bindings b (sv_session sv));
          sv1 = engine_do [SetBoundChords (bound_chords s1)] (sv\<lparr>sv_session := s1\<rparr>);
          (acts, s2) = swap_layout l s1;
          sv2 = apply_actions now acts (sv1\<lparr>sv_session := s2\<rparr>) in
      map_option (\<lambda>sv3. broadcast (LayoutMsg (layout_snapshot sv3)) sv3) (drop_stale_clients now sv2))"

datatype control = Reload layout bind_section input_prefs | SetPolicy policy | ClientCommand string byte

fun apply_control :: "nat \<Rightarrow> control \<Rightarrow> server \<Rightarrow> server option" where
  "apply_control now (Reload l b p) sv = reload now l b p sv"
| "apply_control now (SetPolicy p) sv = apply_policy now p sv"
| "apply_control now (ClientCommand name command) sv = apply_client_command now name command sv"

section \<open>The control link of a client\<close>

definition handle_client_message :: "nat \<Rightarrow> connection \<Rightarrow> message \<Rightarrow> server \<Rightarrow> server option" where
  "handle_client_message now c m sv =
     (case m of
        ScreenInfoMsg info \<Rightarrow>
          let sv1 = sv\<lparr>sv_session := update_screen_info (cn_id c) info (sv_session sv)\<rparr> in
          Some (enqueue (cn_id c) (LayoutMsg (layout_snapshot sv1)) sv1)
      | ClipboardMsg mime data \<Rightarrow> Some (sv\<lparr>sv_clipboard := sv_clipboard sv @ [(mime, data)]\<rparr>)
      | CursorPos x y \<Rightarrow>
          map_option (\<lambda>(acts, s'). sv\<lparr>sv_session := s'\<rparr>) (on_remote_beacon now (cn_id c) x y (sv_session sv))
      | _ \<Rightarrow> Some sv)"

text \<open>
  One turn of the reader loop of the connection at \<open>t\<close>, with what its transport returned; the
  result says whether the loop goes on.
\<close>

definition reader_turn ::
  "nat \<Rightarrow> nat \<Rightarrow> nat \<Rightarrow> io_error + recv_result \<Rightarrow> server \<Rightarrow> (bool \<times> nat \<times> server) option" where
  "reader_turn now last_seen t res sv =
     (case sv_conns sv t of
        None \<Rightarrow> Some (False, last_seen, sv)
      | Some c \<Rightarrow>
          (case res of
             Inr (Msg m) \<Rightarrow> map_option (\<lambda>sv'. (True, now, sv')) (handle_client_message now c m sv)
           | Inr NoData \<Rightarrow>
               if now - last_seen > CLIENT_SILENT_TIMEOUT
               then map_option (\<lambda>sv'. (False, last_seen, sv')) (teardown now t sv)
               else Some (True, last_seen, sv)
           | _ \<Rightarrow> map_option (\<lambda>sv'. (False, last_seen, sv')) (teardown now t sv)))"

section \<open>The cursor stream\<close>

definition learn_addr :: "byte \<Rightarrow> ip \<times> u16 \<Rightarrow> server \<Rightarrow> server" where
  "learn_addr i src sv =
     (case sv_addrs sv i of
        None \<Rightarrow> sv\<lparr>sv_addrs := (sv_addrs sv)(i \<mapsto> src)\<rparr>
      | Some a \<Rightarrow>
          if a \<noteq> src then sv\<lparr>sv_seqs := (sv_seqs sv)(i := None), sv_addrs := (sv_addrs sv)(i \<mapsto> src)\<rparr> else sv)"

definition on_beacon_datagram :: "nat \<Rightarrow> byte \<Rightarrow> u32 \<Rightarrow> int \<Rightarrow> int \<Rightarrow> server \<Rightarrow> server option" where
  "on_beacon_datagram now i seq x y sv =
     (let last_seq = (case sv_seqs sv i of None \<Rightarrow> 0 | Some q \<Rightarrow> q) in
      if \<not> is_newer seq last_seq then Some (sv\<lparr>sv_seqs := (sv_seqs sv)(i \<mapsto> last_seq)\<rparr>)
      else let sv1 = sv\<lparr>sv_seqs := (sv_seqs sv)(i \<mapsto> seq)\<rparr> in
        (case on_remote_beacon now i x y (sv_session sv1) of
           None \<Rightarrow> None
         | Some (acts, s') \<Rightarrow> Some (apply_actions now acts (sv1\<lparr>sv_session := s'\<rparr>))))"

definition on_datagram :: "nat \<Rightarrow> ip \<times> u16 \<Rightarrow> byte list \<Rightarrow> server \<Rightarrow> server option" where
  "on_datagram now src bytes sv =
     (case unpack bytes of
        None \<Rightarrow> Some sv
      | Some d \<Rightarrow>
          if sv_ips sv (dg_id d) \<noteq> Some (fst src) then Some sv
          else
            let sv1 = learn_addr (dg_id d) src (sv\<lparr>sv_heard := (sv_heard sv)(dg_id d \<mapsto> now_ms now)\<rparr>) in
            (case dg_msg d of
               CursorPos x y \<Rightarrow> on_beacon_datagram now (dg_id d) (dg_seq d) x y sv1
             | _ \<Rightarrow> Some sv1))"

text \<open>The watchdog of the active client's stream, run when the stream is idle.\<close>

definition check_active_beacon_staleness :: "nat \<Rightarrow> server \<Rightarrow> server option" where
  "check_active_beacon_staleness now sv =
     (case sv_active sv of
        None \<Rightarrow> Some sv
      | Some i \<Rightarrow>
          (case sv_heard sv i of
             None \<Rightarrow> Some sv
           | Some heard \<Rightarrow>
               if now_ms now - heard \<le> ACTIVE_BEACON_TIMEOUT then Some sv
               else (case sv_clients sv i of
                   Some t \<Rightarrow> teardown now t sv
                 | None \<Rightarrow> session_forgets on_client_disconnected now i sv)))"

section \<open>The supervisor\<close>

definition SUPERVISOR_STALL_MS :: nat where "SUPERVISOR_STALL_MS = 3000"

text \<open>
  One wake of the supervisor: does it exit the process?  \<open>active\<close> is \<open>None\<close> when the lock is held
  by another thread.
\<close>

definition supervisor_exits :: "nat \<Rightarrow> nat \<Rightarrow> nat \<Rightarrow> byte option option \<Rightarrow> bool" where
  "supervisor_exits ms loop_tick capture_tick active \<longleftrightarrow>
     capture_tick \<noteq> 0 \<and>
     (case active of Some a \<Rightarrow> a \<noteq> None | None \<Rightarrow> True) \<and>
     (ms - loop_tick > SUPERVISOR_STALL_MS \<or> ms - capture_tick > SUPERVISOR_STALL_MS)"

section \<open>The server as a component\<close>

text \<open>
  What the threads do, one handler at a time.  The accept path takes three steps: the handshake
  with its checks, the registration at a new address, and the announcement to the session, which are
  three separate lock scopes of \<open>Client::spawn\<close>.
\<close>

datatype step =
  SvInput message
| SvControl control
| SvHandshake ip "io_error + recv_result"
| SvRegister nat ip admitted
| SvAnnounce nat ip u16 admitted
| SvRead nat nat "io_error + recv_result"
| SvDatagram "ip \<times> u16" "byte list"
| SvIdle
| SvWrite nat bool

fun server_step :: "nat \<Rightarrow> step \<Rightarrow> server \<Rightarrow> server option" where
  "server_step now (SvInput m) sv = handle_local_input now m sv"
| "server_step now (SvControl c) sv = apply_control now c sv"
| "server_step now (SvHandshake peer first) sv = Some (snd (handshake peer first sv))"
| "server_step now (SvRegister t peer a) sv = Some (register now t peer a sv)"
| "server_step now (SvAnnounce t peer port a) sv =
     Some (case sv_conns sv t of None \<Rightarrow> sv | Some c \<Rightarrow> announce c peer port a sv)"
| "server_step now (SvRead last_seen t res) sv = map_option (\<lambda>(go, seen, sv'). sv') (reader_turn now last_seen t res sv)"
| "server_step now (SvDatagram src bytes) sv = on_datagram now src bytes sv"
| "server_step now SvIdle sv = check_active_beacon_staleness now sv"
| "server_step now (SvWrite t sent) sv =
     Some (case sv_conns sv t of
        None \<Rightarrow> sv
      | Some c \<Rightarrow> sv\<lparr>sv_conns := (sv_conns sv)(t \<mapsto> writer_turn sent (sv_addrs sv (cn_id c)) c)\<rparr>)"

text \<open>
  A connection is new at its registration, and its id is a client's.  A beacon on the control link
  (\<open>CursorPos\<close>, which current clients never send there) is excluded: see \<open>tcp_beacon_loses_actions\<close>.
\<close>

fun step_ok :: "step \<Rightarrow> server \<Rightarrow> bool" where
  "step_ok (SvRegister t peer a) sv \<longleftrightarrow> sv_conns sv t = None \<and> ad_id a \<noteq> 0"
| "step_ok (SvAnnounce t peer port a) sv \<longleftrightarrow> ad_id a \<noteq> 0"
| "step_ok (SvRead last_seen t res) sv \<longleftrightarrow> (\<forall>x y. res \<noteq> Inr (Msg (CursorPos x y)))"
| "step_ok _ sv \<longleftrightarrow> True"

inductive server_reaches :: "server \<Rightarrow> server \<Rightarrow> bool" where
  boot: "server_reaches sv sv"
| step: "server_reaches sv0 sv \<Longrightarrow> step_ok e sv \<Longrightarrow> server_step now e sv = Some sv' \<Longrightarrow> server_reaches sv0 sv'"

end
