(* ===== verification/Server_Rules.thy ===== *)
theory Server_Rules
  imports Server Crossing_Rules
begin

text \<open>
  What the server guarantees: the active latch and the local input always follow the session, the
  registration maps agree, queues stay bounded, a refused machine leaves, and a silent stream
  brings the cursor home.  Three theorems show orders of events in which it does not.
\<close>

section \<open>Local input held away\<close>

text \<open>The last grab, isolation and cursor visibility the engine was told.\<close>

fun engine_after :: "engine_call \<Rightarrow> bool \<times> bool \<times> bool \<Rightarrow> bool \<times> bool \<times> bool" where
  "engine_after (GrabInput g) (a, b, c) = (g, b, c)"
| "engine_after (IsolateInput i) (a, b, c) = (a, i, c)"
| "engine_after (ShowLocalCursor v) (a, b, c) = (a, b, \<not> v)"
| "engine_after _ abc = abc"

definition hands :: "server \<Rightarrow> bool \<times> bool \<times> bool" where
  "hands sv = fold engine_after (sv_calls sv) (False, False, False)"

text \<open>The latch and the engine mirror the session.\<close>

definition latch_of :: "mode \<Rightarrow> byte option" where
  "latch_of m = (case m of Local \<Rightarrow> None | Remote i \<Rightarrow> Some i)"

definition mirrors :: "server \<Rightarrow> bool" where
  "mirrors sv \<longleftrightarrow> sv_active sv = latch_of (se_mode (sv_session sv)) \<and>
     (let away = (se_mode (sv_session sv) \<noteq> Local) in hands sv = (away, away, away))"

lemma latch_simps [simp]: "latch_of Local = None" "latch_of (Remote i) = Some i"
  by (simp_all add: latch_of_def)

section \<open>What each operation leaves alone\<close>

lemma send_to_fields [simp]:
  "sv_session (send_to t m sv) = sv_session sv" "sv_clients (send_to t m sv) = sv_clients sv"
  "sv_active (send_to t m sv) = sv_active sv" "sv_addrs (send_to t m sv) = sv_addrs sv"
  "sv_seqs (send_to t m sv) = sv_seqs sv" "sv_heard (send_to t m sv) = sv_heard sv"
  "sv_ips (send_to t m sv) = sv_ips sv" "sv_policy (send_to t m sv) = sv_policy sv"
  "sv_calls (send_to t m sv) = sv_calls sv" "sv_events (send_to t m sv) = sv_events sv"
  by (simp_all add: send_to_def split: option.split)

lemma enqueue_fields [simp]:
  "sv_session (enqueue i m sv) = sv_session sv" "sv_clients (enqueue i m sv) = sv_clients sv"
  "sv_active (enqueue i m sv) = sv_active sv" "sv_addrs (enqueue i m sv) = sv_addrs sv"
  "sv_seqs (enqueue i m sv) = sv_seqs sv" "sv_heard (enqueue i m sv) = sv_heard sv"
  "sv_ips (enqueue i m sv) = sv_ips sv" "sv_policy (enqueue i m sv) = sv_policy sv"
  "sv_calls (enqueue i m sv) = sv_calls sv" "sv_events (enqueue i m sv) = sv_events sv"
  by (simp_all add: enqueue_def split: option.split)

lemma engine_do_fields [simp]:
  "sv_session (engine_do cs sv) = sv_session sv" "sv_clients (engine_do cs sv) = sv_clients sv"
  "sv_active (engine_do cs sv) = sv_active sv" "sv_heard (engine_do cs sv) = sv_heard sv"
  "sv_ips (engine_do cs sv) = sv_ips sv" "sv_policy (engine_do cs sv) = sv_policy sv"
  "sv_calls (engine_do cs sv) = sv_calls sv @ cs" "sv_conns (engine_do cs sv) = sv_conns sv"
  "sv_events (engine_do cs sv) = sv_events sv"
  by (simp_all add: engine_do_def)

lemma emit_fields [simp]:
  "sv_session (emit e sv) = sv_session sv" "sv_clients (emit e sv) = sv_clients sv"
  "sv_active (emit e sv) = sv_active sv" "sv_heard (emit e sv) = sv_heard sv"
  "sv_ips (emit e sv) = sv_ips sv" "sv_policy (emit e sv) = sv_policy sv"
  "sv_calls (emit e sv) = sv_calls sv" "sv_conns (emit e sv) = sv_conns sv"
  by (simp_all add: emit_def)

lemma unregister_fields [simp]:
  "sv_session (unregister i sv) = sv_session sv" "sv_active (unregister i sv) = sv_active sv"
  "sv_calls (unregister i sv) = sv_calls sv" "sv_conns (unregister i sv) = sv_conns sv"
  "sv_policy (unregister i sv) = sv_policy sv" "sv_clients (unregister i sv) = (sv_clients sv)(i := None)"
  "sv_ips (unregister i sv) = (sv_ips sv)(i := None)"
  by (simp_all add: unregister_def)

lemma leave_active_fields [simp]:
  "sv_session (leave_active sv) = sv_session sv" "sv_active (leave_active sv) = None"
  "sv_calls (leave_active sv) = sv_calls sv" "sv_clients (leave_active sv) = sv_clients sv"
  "sv_ips (leave_active sv) = sv_ips sv" "sv_policy (leave_active sv) = sv_policy sv"
  by (auto simp: leave_active_def split: option.split)

lemma broadcast_fields [simp]:
  "sv_session (broadcast m sv) = sv_session sv" "sv_clients (broadcast m sv) = sv_clients sv"
  "sv_active (broadcast m sv) = sv_active sv" "sv_calls (broadcast m sv) = sv_calls sv"
  "sv_ips (broadcast m sv) = sv_ips sv" "sv_policy (broadcast m sv) = sv_policy sv"
proof -
  have "sv_session (fold (\<lambda>i. enqueue i m) is sv) = sv_session sv \<and>
      sv_clients (fold (\<lambda>i. enqueue i m) is sv) = sv_clients sv \<and>
      sv_active (fold (\<lambda>i. enqueue i m) is sv) = sv_active sv \<and>
      sv_calls (fold (\<lambda>i. enqueue i m) is sv) = sv_calls sv \<and>
      sv_ips (fold (\<lambda>i. enqueue i m) is sv) = sv_ips sv \<and>
      sv_policy (fold (\<lambda>i. enqueue i m) is sv) = sv_policy sv" for "is"
    by (induction "is" arbitrary: sv) auto
  then show "sv_session (broadcast m sv) = sv_session sv" "sv_clients (broadcast m sv) = sv_clients sv"
    "sv_active (broadcast m sv) = sv_active sv" "sv_calls (broadcast m sv) = sv_calls sv"
    "sv_ips (broadcast m sv) = sv_ips sv" "sv_policy (broadcast m sv) = sv_policy sv"
    by (simp_all add: broadcast_def)
qed

lemma apply_action_fields [simp]:
  "sv_session (apply_action now a sv) = sv_session sv" "sv_clients (apply_action now a sv) = sv_clients sv"
  "sv_ips (apply_action now a sv) = sv_ips sv" "sv_policy (apply_action now a sv) = sv_policy sv"
  by (cases a; simp add: Let_def split: option.split)+

lemma apply_actions_fields [simp]:
  "sv_session (apply_actions now acts sv) = sv_session sv"
  "sv_clients (apply_actions now acts sv) = sv_clients sv"
  "sv_ips (apply_actions now acts sv) = sv_ips sv" "sv_policy (apply_actions now acts sv) = sv_policy sv"
proof -
  have "sv_session (fold (apply_action now) acts sv) = sv_session sv \<and>
      sv_clients (fold (apply_action now) acts sv) = sv_clients sv \<and>
      sv_ips (fold (apply_action now) acts sv) = sv_ips sv \<and>
      sv_policy (fold (apply_action now) acts sv) = sv_policy sv"
    by (induction acts arbitrary: sv) auto
  then show "sv_session (apply_actions now acts sv) = sv_session sv"
    "sv_clients (apply_actions now acts sv) = sv_clients sv"
    "sv_ips (apply_actions now acts sv) = sv_ips sv" "sv_policy (apply_actions now acts sv) = sv_policy sv"
    by (simp_all add: apply_actions_def)
qed

lemma feed_gain_fields [simp]:
  "sv_clients (feed_gain m sv) = sv_clients sv" "sv_active (feed_gain m sv) = sv_active sv"
  "sv_calls (feed_gain m sv) = sv_calls sv" "sv_ips (feed_gain m sv) = sv_ips sv"
  "sv_conns (feed_gain m sv) = sv_conns sv"
  "sv_session (feed_gain m sv) = sv_session sv \<or> (\<exists>g. sv_session (feed_gain m sv) = set_gain g (sv_session sv))"
  by (auto simp: feed_gain_def split: message.split prod.split)

section \<open>Mirroring the session\<close>

lemma hands_append [simp]: "hands (engine_do cs sv) = fold engine_after cs (hands sv)"
  by (simp add: hands_def)

lemma hands_cong: "sv_calls sv' = sv_calls sv \<Longrightarrow> hands sv' = hands sv"
  by (simp add: hands_def)

lemma hands_fields [simp]:
  "hands (emit e sv) = hands sv" "hands (enqueue i m sv) = hands sv" "hands (send_to t m sv) = hands sv"
  "hands (unregister i sv) = hands sv" "hands (leave_active sv) = hands sv" "hands (broadcast m sv) = hands sv"
  "hands (feed_gain m sv) = hands sv" "hands (sv\<lparr>sv_session := s\<rparr>) = hands sv"
  "hands (sv\<lparr>sv_active := a\<rparr>) = hands sv" "hands (sv\<lparr>sv_heard := h\<rparr>) = hands sv"
  "hands (sv\<lparr>sv_policy := p\<rparr>) = hands sv" "hands (sv\<lparr>sv_seqs := q\<rparr>) = hands sv"
  "hands (sv\<lparr>sv_conns := cs\<rparr>) = hands sv" "hands (sv\<lparr>sv_clipboard := cb\<rparr>) = hands sv"
  "hands (sv\<lparr>sv_active := a, sv_heard := h\<rparr>) = hands sv"
  by (intro hands_cong; simp)+

lemma mirrors_cong:
  "mirrors sv \<Longrightarrow> se_mode (sv_session sv') = se_mode (sv_session sv) \<Longrightarrow> sv_active sv' = sv_active sv \<Longrightarrow>
   hands sv' = hands sv \<Longrightarrow> mirrors sv'"
  by (simp add: mirrors_def)

lemma apply_switch:
  "sv_active (apply_action now (switch_action i x y) sv) = latch_of (mode_of i)"
  "hands (apply_action now (switch_action i x y) sv) =
     (mode_of i \<noteq> Local, mode_of i \<noteq> Local, mode_of i \<noteq> Local)"
  by (cases "hands sv"; auto simp: switch_action_def mode_of_def Let_def)+

lemma apply_quiet:
  assumes "quiet m acts"
  shows "sv_active (apply_actions now acts sv) = sv_active sv" "hands (apply_actions now acts sv) = hands sv"
proof -
  have "sv_active (fold (apply_action now) acts sv) = sv_active sv \<and> hands (fold (apply_action now) acts sv) = hands sv"
    using assms
  proof (induction acts arbitrary: sv)
    case Nil then show ?case by simp
  next
    case (Cons a acts)
    have a: "a = Nothing \<or> (\<exists>msg. a = Send msg)" using Cons.prems by (auto simp: quiet_def)
    have "sv_active (apply_action now a sv) = sv_active sv \<and> hands (apply_action now a sv) = hands sv"
      using a by (auto split: option.split)
    moreover have "quiet m acts" using Cons.prems by (simp add: quiet_def)
    ultimately show ?case using Cons.IH [of "apply_action now a sv"] by simp
  qed
  then show "sv_active (apply_actions now acts sv) = sv_active sv" "hands (apply_actions now acts sv) = hands sv"
    by (simp_all add: apply_actions_def)
qed

lemma mirrors_outcome:
  assumes "mirrors sv" "outcome_ok (sv_session sv) acts s'"
  shows "mirrors (apply_actions now acts (sv\<lparr>sv_session := s'\<rparr>))"
  using assms(2) unfolding outcome_ok_def
proof (elim disjE conjE exE)
  assume "stays (sv_session sv) s'" and q: "quiet (se_mode (sv_session sv)) acts"
  then show ?thesis using assms(1) apply_quiet [OF q]
    by (simp add: mirrors_def stays_def)
next
  fix i x y assume "entered i x y (sv_session sv) s'" "acts = [switch_action i x y]"
  then show ?thesis
    by (simp add: mirrors_def apply_actions_def apply_switch entered_def Let_def)
qed

lemma come_home_fields [simp]:
  "sv_session (come_home now a sv) = sv_session sv" "sv_clients (come_home now a sv) = sv_clients sv"
  "sv_ips (come_home now a sv) = sv_ips sv" "sv_policy (come_home now a sv) = sv_policy sv"
  by (auto simp: come_home_def simp del: apply_action.simps split: action.split)

lemma clear_active_fields [simp]:
  "sv_session (clear_active i sv) = sv_session sv" "sv_clients (clear_active i sv) = sv_clients sv"
  "sv_ips (clear_active i sv) = sv_ips sv" "sv_policy (clear_active i sv) = sv_policy sv"
  "sv_conns (clear_active i sv) = sv_conns sv" "hands (clear_active i sv) = hands sv"
  "sv_active (clear_active i sv) = (if sv_active sv = Some i then None else sv_active sv)"
  by (simp_all add: clear_active_def)

text \<open>What forgetting a client does to the session, whether or not its screen goes too.\<close>

definition forgets :: "(byte \<Rightarrow> session \<Rightarrow> (action \<times> session) option) \<Rightarrow> bool" where
  "forgets f \<longleftrightarrow> (\<forall>i s a s'. f i s = Some (a, s') \<longrightarrow>
     (se_mode s = Remote i \<and> se_mode s' = Local \<and> (\<exists>x y. a = SwitchToLocal x y) \<or>
      se_mode s \<noteq> Remote i \<and> se_mode s' = se_mode s \<and> a = Nothing) \<and>
     se_connected s' = se_connected s - {i} \<and> (i \<noteq> 0 \<longrightarrow> session_ok s \<longrightarrow> session_ok s'))"

lemma forgets_disconnected: "forgets on_client_disconnected"
  unfolding forgets_def using disconnected_cases disconnected_ok by blast

lemma forgets_removed: "forgets on_client_removed"
  unfolding forgets_def
proof (intro allI impI)
  fix i s a s' assume r: "on_client_removed i s = Some (a, s')"
  from r obtain s1 where s1: "on_client_disconnected i s = Some (a, s1)" "se_mode s' = se_mode s1"
    "se_connected s' = se_connected s1" "screen_ids s' = screen_ids s1 - {i}"
    by (rule removed_cases)
  show "(se_mode s = Remote i \<and> se_mode s' = Local \<and> (\<exists>x y. a = SwitchToLocal x y) \<or>
      se_mode s \<noteq> Remote i \<and> se_mode s' = se_mode s \<and> a = Nothing) \<and>
     se_connected s' = se_connected s - {i} \<and> (i \<noteq> 0 \<longrightarrow> session_ok s \<longrightarrow> session_ok s')"
    using disconnected_cases [OF s1(1)] s1 removed_ok [OF _ _ r] by auto
qed

lemma session_forgets_fields:
  assumes "session_forgets f now i sv = Some sv'"
  shows "sv_clients sv' = sv_clients sv" "sv_ips sv' = sv_ips sv" "sv_policy sv' = sv_policy sv"
  using assms by (auto simp: session_forgets_def split: option.splits)

lemma session_forgets_mirrors:
  assumes "forgets f" "session_forgets f now i sv = Some sv'" "mirrors sv" "session_ok (sv_session sv)" "i \<noteq> 0"
  shows "mirrors sv' \<and> session_ok (sv_session sv') \<and> se_mode (sv_session sv') \<noteq> Remote i \<and>
    (se_mode (sv_session sv') = Local \<or> se_mode (sv_session sv') = se_mode (sv_session sv))"
proof -
  obtain a s' where f: "f i (sv_session sv) = Some (a, s')"
    and sv': "sv' = come_home now a (clear_active i (sv\<lparr>sv_session := s'\<rparr>))"
    using assms(2) by (auto simp: session_forgets_def split: option.splits)
  have ok: "session_ok s'" using assms(1,4,5) f by (auto simp: forgets_def)
  from assms(1) f consider
      (home) x y where "se_mode (sv_session sv) = Remote i" "se_mode s' = Local" "a = SwitchToLocal x y"
    | (other) "se_mode (sv_session sv) \<noteq> Remote i" "se_mode s' = se_mode (sv_session sv)" "a = Nothing"
    unfolding forgets_def by metis
  then show ?thesis
  proof cases
    case home
    have "mirrors sv'"
      using apply_switch [of now 0 x y "clear_active i (sv\<lparr>sv_session := s'\<rparr>)"] home
      by (simp add: sv' come_home_def switch_action_def mode_of_def mirrors_def del: apply_action.simps)
    then show ?thesis using home ok by (simp add: sv')
  next
    case other
    then have "sv_active sv \<noteq> Some i"
      using assms(3) by (cases "se_mode (sv_session sv)") (auto simp: mirrors_def)
    then show ?thesis using other ok assms(3)
      by (simp add: sv' come_home_def mirrors_def)
  qed
qed

section \<open>The store of connections\<close>

text \<open>
  The queue stays within its bound, motion goes to the cursor stream and everything else to the
  control link, and the datagrams sent are numbered from one on.
\<close>

fun is_motion :: "message \<Rightarrow> bool" where
  "is_motion (MouseMoveRel dx dy) = True"
| "is_motion _ = False"

fun well_routed :: "outbound \<Rightarrow> bool" where
  "well_routed (OutUdp m) = is_motion m"
| "well_routed (OutTcp m) = (\<not> is_motion m)"

definition conn_ok :: "connection \<Rightarrow> bool" where
  "conn_ok c \<longleftrightarrow> length (cn_out c) \<le> OUT_QUEUE_CAP \<and> list_all well_routed (cn_out c) \<and>
     (\<forall>m \<in> set (cn_tcp_sent c). \<not> is_motion m) \<and>
     (\<forall>k < length (cn_udp_sent c). \<exists>m. is_motion m \<and> cn_udp_sent c ! k = pack (cn_id c) (word_of_nat (k + 1)) m) \<and>
     (cn_open c \<longrightarrow> cn_seq c = word_of_nat (length (cn_udp_sent c) + 1))"

lemma well_routed_route [simp]: "well_routed (route m)"
  by (cases m) auto

text \<open>A connection keeps its identity.\<close>

definition conn_evolves :: "connection \<Rightarrow> connection \<Rightarrow> bool" where
  "conn_evolves c c' \<longleftrightarrow> cn_id c' = cn_id c \<and> cn_name c' = cn_name c \<and> cn_machine c' = cn_machine c \<and>
     (conn_ok c \<longrightarrow> conn_ok c')"

definition store_evolves :: "server \<Rightarrow> server \<Rightarrow> bool" where
  "store_evolves sv sv' \<longleftrightarrow> (\<forall>t. rel_option conn_evolves (sv_conns sv t) (sv_conns sv' t))"

lemma conn_evolves_refl [simp]: "conn_evolves c c"
  by (simp add: conn_evolves_def)

lemma store_same: "sv_conns sv' = sv_conns sv \<Longrightarrow> store_evolves sv sv'"
  by (simp add: store_evolves_def option.rel_refl)

lemma store_trans: "store_evolves a b \<Longrightarrow> store_evolves b c \<Longrightarrow> store_evolves a c"
proof -
  have "conn_evolves x y \<Longrightarrow> conn_evolves y z \<Longrightarrow> conn_evolves x z" for x y z
    by (simp add: conn_evolves_def)
  then show "store_evolves a b \<Longrightarrow> store_evolves b c \<Longrightarrow> store_evolves a c"
    unfolding store_evolves_def by (smt (verit) option.rel_cases option.rel_inject(2) option.rel_sel)
qed

lemma try_send_evolves: "conn_evolves c (try_send (route m) c)"
  using out_queue.offer_bounded [of c "route m"] by (auto simp: conn_evolves_def conn_ok_def try_send_def)

lemma writer_turn_evolves: "conn_evolves c (writer_turn sent addr c)"
proof (cases "cn_out c")
  case (Cons item rest)
  have "conn_ok (writer_turn sent addr c)" if ok: "conn_ok c" and op: "cn_open c"
  proof (cases item)
    case (OutTcp m)
    then show ?thesis using ok op Cons by (auto simp: writer_turn_def conn_ok_def Let_def)
  next
    case (OutUdp m)
    have m: "is_motion m" using ok Cons OutUdp by (simp add: conn_ok_def)
    show ?thesis
    proof (cases "addr = None \<or> \<not> sent")
      case True
      then show ?thesis using ok op Cons OutUdp
        by (auto simp: writer_turn_def conn_ok_def Let_def split: option.split)
    next
      case False
      let ?sent = "cn_udp_sent c @ [pack (cn_id c) (cn_seq c) m]"
      have "\<exists>m. is_motion m \<and> ?sent ! k = pack (cn_id c) (word_of_nat (k + 1)) m" if "k < length ?sent" for k
        using ok op m that by (auto simp: conn_ok_def nth_append less_Suc_eq)
      then show ?thesis using False ok op Cons OutUdp
        by (auto simp: writer_turn_def conn_ok_def Let_def)
    qed
  qed
  then show ?thesis
    by (auto simp: conn_evolves_def) (auto simp: writer_turn_def Let_def split: list.split outbound.split option.split)
qed (simp add: writer_turn_def)

lemma store_send_to: "store_evolves sv (send_to t m sv)"
  by (auto simp: store_evolves_def send_to_def try_send_evolves option.rel_refl split: option.split)

lemma store_enqueue: "store_evolves sv (enqueue i m sv)"
  by (simp add: enqueue_def store_send_to store_same split: option.split)

lemma store_broadcast: "store_evolves sv (broadcast m sv)"
proof -
  have "store_evolves sv (fold (\<lambda>i. enqueue i m) is sv)" for "is"
  proof (induction "is" arbitrary: sv)
    case Nil then show ?case by (simp add: store_same)
  next
    case (Cons i "is")
    show ?case using store_trans [OF store_enqueue Cons.IH] by simp
  qed
  then show ?thesis by (simp add: broadcast_def)
qed

lemma store_via: "store_evolves sv (f sv') \<Longrightarrow> sv_conns sv'' = sv_conns (f sv') \<Longrightarrow> store_evolves sv sv''"
  by (simp add: store_evolves_def)

lemma store_leave_active: "store_evolves sv (leave_active sv)"
  using store_trans [OF store_same store_enqueue, of "sv\<lparr>sv_active := None\<rparr>" sv]
  by (simp add: leave_active_def store_same split: option.split)

lemma store_apply_action: "store_evolves sv (apply_action now a sv)"
proof (cases a)
  case (Send m)
  then show ?thesis by (simp add: store_enqueue store_same split: option.split)
next
  case (SwitchTo i x y)
  let ?sv2 = "(leave_active sv)\<lparr>sv_active := Some i, sv_heard := (sv_heard (leave_active sv))(i \<mapsto> now_ms now)\<rparr>"
  have "store_evolves sv ?sv2" using store_leave_active [of sv] by (simp add: store_evolves_def)
  then have "store_evolves sv (enqueue i (Enter i x y) ?sv2)" by (rule store_trans) (rule store_enqueue)
  then show ?thesis using SwitchTo by (simp add: Let_def store_evolves_def)
next
  case (SwitchToLocal x y)
  then show ?thesis using store_leave_active [of sv] by (simp add: store_evolves_def)
qed (simp add: store_same)

lemma store_apply_actions: "store_evolves sv (apply_actions now acts sv)"
proof -
  have "store_evolves sv (fold (apply_action now) acts sv)"
  proof (induction acts arbitrary: sv)
    case Nil then show ?case by (simp add: store_same)
  next
    case (Cons a acts)
    show ?case using store_trans [OF store_apply_action Cons.IH] by simp
  qed
  then show ?thesis by (simp add: apply_actions_def)
qed

lemma store_session_forgets: "session_forgets f now i sv = Some sv' \<Longrightarrow> store_evolves sv sv'"
  using store_apply_action [of "clear_active i (sv\<lparr>sv_session := s\<rparr>)" for s]
  by (fastforce simp: session_forgets_def come_home_def store_evolves_def option.rel_refl
      simp del: apply_action.simps split: option.splits action.splits)

section \<open>The invariant\<close>

definition maps_ok :: "server \<Rightarrow> bool" where
  "maps_ok sv \<longleftrightarrow>
     (\<forall>i t. sv_clients sv i = Some t \<longrightarrow> i \<noteq> 0 \<and> (\<exists>c. sv_conns sv t = Some c \<and> cn_id c = i)) \<and>
     (\<forall>i. sv_ips sv i = None \<longleftrightarrow> sv_clients sv i = None) \<and>
     (\<forall>t c. sv_conns sv t = Some c \<longrightarrow> conn_ok c)"

definition server_ok :: "server \<Rightarrow> bool" where
  "server_ok sv \<longleftrightarrow> session_ok (sv_session sv) \<and> mirrors sv \<and> maps_ok sv"

lemma maps_ok_store:
  assumes "maps_ok sv" "store_evolves sv sv'" "sv_clients sv' = sv_clients sv" "sv_ips sv' = sv_ips sv"
  shows "maps_ok sv'"
proof -
  have fwd: "\<exists>c'. sv_conns sv' t = Some c' \<and> conn_evolves c c'" if "sv_conns sv t = Some c" for t c
    using assms(2) that unfolding store_evolves_def by (metis option.rel_cases option.inject option.discI)
  have bwd: "\<exists>c. sv_conns sv t = Some c \<and> conn_evolves c c'" if "sv_conns sv' t = Some c'" for t c'
    using assms(2) that unfolding store_evolves_def by (metis option.rel_cases option.inject option.discI)
  show ?thesis
    using assms(1) fwd bwd unfolding maps_ok_def assms(3,4) conn_evolves_def by metis
qed

lemma maps_ok_unregister: "maps_ok sv \<Longrightarrow> maps_ok (unregister i sv)"
  by (auto simp: maps_ok_def)

lemma maps_ok_session_forgets: "maps_ok sv \<Longrightarrow> session_forgets f now i sv = Some sv' \<Longrightarrow> maps_ok sv'"
  using maps_ok_store store_session_forgets session_forgets_fields by metis

lemma server_ok_forgets:
  assumes "server_ok sv" "forgets f" "session_forgets f now i sv = Some sv'" "i \<noteq> 0"
  shows "server_ok sv' \<and> se_mode (sv_session sv') \<noteq> Remote i \<and>
    (se_mode (sv_session sv') = Local \<or> se_mode (sv_session sv') = se_mode (sv_session sv))"
  using session_forgets_mirrors [OF assms(2,3)] maps_ok_session_forgets [OF _ assms(3)] assms(1,4)
  by (simp add: server_ok_def)

text \<open>A step that leaves the session's mode, the latch and the engine alone.\<close>

lemma server_ok_quietly:
  assumes "server_ok sv" "store_evolves sv sv'" "sv_clients sv' = sv_clients sv" "sv_ips sv' = sv_ips sv"
    "se_mode (sv_session sv') = se_mode (sv_session sv)" "sv_active sv' = sv_active sv" "hands sv' = hands sv"
    "session_ok (sv_session sv')"
  shows "server_ok sv'"
  using assms maps_ok_store mirrors_cong unfolding server_ok_def by metis

lemma server_ok_outcome:
  assumes "server_ok sv" "outcome_ok (sv_session sv) acts s'"
  shows "server_ok (apply_actions now acts (sv\<lparr>sv_session := s'\<rparr>))"
proof -
  let ?sv = "sv\<lparr>sv_session := s'\<rparr>"
  have "maps_ok ?sv" using assms(1) by (simp add: server_ok_def maps_ok_def)
  then have "maps_ok (apply_actions now acts ?sv)"
    by (rule maps_ok_store [OF _ store_apply_actions]) simp_all
  then show ?thesis
    using assms mirrors_outcome outcome_keeps_ok [OF _ assms(2)] by (simp add: server_ok_def)
qed

lemma server_ok_disconnect:
  assumes "server_ok sv" "disconnect_client_inner now r i sv = Some sv'"
  shows "server_ok sv' \<and> sv_policy sv' = sv_policy sv \<and>
    (\<forall>j. j \<noteq> i \<longrightarrow> sv_clients sv' j = sv_clients sv j) \<and> client_of sv' i = None \<and> store_evolves sv sv' \<and>
    (client_of sv i \<noteq> None \<longrightarrow> se_mode (sv_session sv') \<noteq> Remote i) \<and>
    (se_mode (sv_session sv') = Local \<or> se_mode (sv_session sv') = se_mode (sv_session sv))"
proof (cases "client_of sv i")
  case None
  then show ?thesis using assms by (auto simp: disconnect_client_inner_def store_same)
next
  case (Some c)
  let ?f = "if r then on_client_removed else on_client_disconnected"
  let ?sv0 = "enqueue i (Control CTRL_DISCONNECT) (enqueue i (Leave i) sv)"
  let ?sv1 = "unregister i ?sv0"
  obtain sv2 where sf: "session_forgets ?f now i ?sv1 = Some sv2" and sv': "sv' = emit (ClientLeft (cn_name c)) sv2"
    using assms(2) Some by (auto simp: disconnect_client_inner_def Let_def)
  have i: "i \<noteq> 0" using Some assms(1)
    by (auto simp: client_of_def server_ok_def maps_ok_def split: option.splits)
  have st: "store_evolves sv ?sv0" using store_trans [OF store_enqueue store_enqueue] by simp
  have "server_ok ?sv0"
    by (rule server_ok_quietly [OF assms(1) st]) (use assms(1) in \<open>auto simp: server_ok_def\<close>)
  then have ok1: "server_ok ?sv1"
    using maps_ok_unregister mirrors_cong [of ?sv0 ?sv1] by (simp add: server_ok_def)
  have f: "forgets ?f" by (simp add: forgets_disconnected forgets_removed)
  have ok2: "server_ok sv2" "se_mode (sv_session sv2) \<noteq> Remote i"
    "se_mode (sv_session sv2) = Local \<or> se_mode (sv_session sv2) = se_mode (sv_session sv)"
    using server_ok_forgets [OF ok1 f sf i] by auto
  have cl: "sv_clients sv2 = (sv_clients sv)(i := None)" "sv_policy sv2 = sv_policy sv"
    using session_forgets_fields [OF sf] by simp_all
  have st2: "store_evolves sv sv2"
    using st store_session_forgets [OF sf] by (simp add: store_evolves_def) (metis store_evolves_def store_trans)
  have "server_ok sv'" unfolding sv'
    by (rule server_ok_quietly [OF ok2(1) store_same]) (use ok2(1) in \<open>auto simp: server_ok_def\<close>)
  then show ?thesis using cl ok2 st2 by (auto simp: sv' client_of_def store_evolves_def)
qed

lemma server_ok_disconnect_all:
  assumes "server_ok sv" "disconnect_all now r ids sv = Some sv'"
  shows "server_ok sv' \<and> sv_policy sv' = sv_policy sv \<and> store_evolves sv sv' \<and>
    (\<forall>j. j \<notin> set ids \<longrightarrow> sv_clients sv' j = sv_clients sv j) \<and>
    (\<forall>j. client_of sv j = None \<longrightarrow> client_of sv' j = None) \<and> (\<forall>j \<in> set ids. client_of sv' j = None) \<and>
    (\<forall>j \<in> set ids. client_of sv j \<noteq> None \<longrightarrow> se_mode (sv_session sv') \<noteq> Remote j) \<and>
    (se_mode (sv_session sv') = Local \<or> se_mode (sv_session sv') = se_mode (sv_session sv))"
  using assms
proof (induction ids arbitrary: sv)
  case Nil then show ?case by (simp add: store_same)
next
  case (Cons i ids)
  obtain sv1 where d: "disconnect_client_inner now r i sv = Some sv1" "disconnect_all now r ids sv1 = Some sv'"
    using Cons.prems(2) by (auto simp: bind_eq_Some_conv)
  note one = server_ok_disconnect [OF Cons.prems(1) d(1)]
  then have rest: "server_ok sv'" "sv_policy sv' = sv_policy sv1" "store_evolves sv1 sv'"
    "\<forall>j. j \<notin> set ids \<longrightarrow> sv_clients sv' j = sv_clients sv1 j"
    "\<forall>j. client_of sv1 j = None \<longrightarrow> client_of sv' j = None" "\<forall>j \<in> set ids. client_of sv' j = None"
    "\<forall>j \<in> set ids. client_of sv1 j \<noteq> None \<longrightarrow> se_mode (sv_session sv') \<noteq> Remote j"
    "se_mode (sv_session sv') = Local \<or> se_mode (sv_session sv') = se_mode (sv_session sv1)"
    using Cons.IH [OF _ d(2)] by blast+
  have gone: "client_of sv1 j = None" if "client_of sv j = None" for j
  proof (cases "j = i")
    case True then show ?thesis using one by simp
  next
    case False
    then have "sv_clients sv1 j = sv_clients sv j" using one by blast
    moreover have "sv_conns sv1 t = None" if "sv_conns sv t = None" for t
      using one that unfolding store_evolves_def by (metis rel_option_None1)
    ultimately show ?thesis using \<open>client_of sv j = None\<close> by (auto simp: client_of_def split: option.splits)
  qed
  have still: "client_of sv1 j \<noteq> None" if "j \<noteq> i" "client_of sv j \<noteq> None" for j
  proof -
    have "sv_clients sv1 j = sv_clients sv j" using one that(1) by blast
    moreover have "sv_conns sv1 t \<noteq> None" if "sv_conns sv t \<noteq> None" for t
      using one that unfolding store_evolves_def by (metis rel_option_None2)
    ultimately show ?thesis using that(2) by (auto simp: client_of_def split: option.splits)
  qed
  have away: "se_mode (sv_session sv') \<noteq> Remote j" if "j \<in> set (i # ids)" "client_of sv j \<noteq> None" for j
  proof (cases "j = i")
    case True
    then have "se_mode (sv_session sv1) \<noteq> Remote j" using one that(2) by blast
    then show ?thesis using rest(8) by auto
  next
    case False
    then show ?thesis using rest(7) still that by auto
  qed
  have "se_mode (sv_session sv') = Local \<or> se_mode (sv_session sv') = se_mode (sv_session sv)"
    using rest(8) one by auto
  moreover have "store_evolves sv sv'" "sv_policy sv' = sv_policy sv"
    using one rest(2) store_trans [OF _ rest(3)] by auto
  moreover have "sv_clients sv' j = sv_clients sv j" if "j \<notin> set (i # ids)" for j
    using one rest(4) that by simp
  moreover have "client_of sv' j = None" if "j \<in> set (i # ids)" for j
    using one rest(5,6) that by auto
  ultimately show ?case
    using rest(1,5) gone away by blast
qed

lemma server_ok_teardown:
  assumes "server_ok sv" "teardown now t sv = Some sv'"
  shows "server_ok sv' \<and>
    (se_mode (sv_session sv') = Local \<or> se_mode (sv_session sv') = se_mode (sv_session sv)) \<and>
    (\<forall>c. sv_conns sv t = Some c \<longrightarrow> sv_clients sv (cn_id c) = Some t \<longrightarrow> se_mode (sv_session sv') \<noteq> Remote (cn_id c))"
proof (cases "\<exists>c. sv_conns sv t = Some c \<and> sv_clients sv (cn_id c) = Some t")
  case False
  then show ?thesis using assms by (auto simp: teardown_def split: option.splits if_splits)
next
  case True
  then obtain c where c: "sv_conns sv t = Some c" "sv_clients sv (cn_id c) = Some t" by blast
  let ?i = "cn_id c"
  let ?sv0 = "send_to t (Control CTRL_RECONNECT) (send_to t (Leave ?i) sv)"
  let ?sv1 = "emit (ClientLeft (cn_name c)) (unregister ?i ?sv0)"
  have sf: "session_forgets on_client_disconnected now ?i ?sv1 = Some sv'"
    using assms(2) c by (simp add: teardown_def Let_def)
  have i: "?i \<noteq> 0" using c assms(1) by (auto simp: server_ok_def maps_ok_def)
  have "store_evolves sv ?sv0" using store_trans [OF store_send_to store_send_to] by simp
  then have ok0: "server_ok ?sv0"
    by (rule server_ok_quietly [OF assms(1)]) (use assms(1) in \<open>auto simp: server_ok_def\<close>)
  then have "maps_ok (unregister ?i ?sv0)" using maps_ok_unregister by (simp add: server_ok_def)
  then have "maps_ok ?sv1" by (simp add: maps_ok_def)
  moreover have "mirrors ?sv1" using ok0 mirrors_cong [of ?sv0 ?sv1] by (simp add: server_ok_def)
  ultimately have "server_ok ?sv1" using ok0 by (simp add: server_ok_def)
  then show ?thesis
    using server_ok_forgets [OF _ forgets_disconnected sf i] c(1) by simp
qed

lemma update_screen_info_fields [simp]:
  "se_mode (update_screen_info i info s) = se_mode s" "se_connected (update_screen_info i info s) = se_connected s"
  by (simp_all add: update_screen_info_def)

lemma session_ok_update: "session_ok s \<Longrightarrow> session_ok (update_screen_info i info s)"
  using update_ids by (simp add: session_ok_def)

lemma session_ok_admit: "session_ok s \<Longrightarrow> session_ok (snd (admit_client name info s))"
  by (rule ok_more_screens [OF _ admit_ids]) simp_all

lemma session_ok_hello: "exchange_hello p peer first s = (r, s') \<Longrightarrow> session_ok s \<Longrightarrow> session_ok s' \<and> se_mode s' = se_mode s"
  using exchange_hello_keeps session_ok_admit by (metis admit_keeps(2))

lemma server_ok_session:
  assumes "server_ok sv" "session_ok s'" "se_mode s' = se_mode (sv_session sv)"
  shows "server_ok (sv\<lparr>sv_session := s'\<rparr>)"
  by (rule server_ok_quietly [OF assms(1)]) (use assms in \<open>auto simp: store_same\<close>)

lemma server_ok_handshake:
  assumes "server_ok sv" shows "server_ok (snd (handshake peer first sv))"
proof -
  obtain r s' where e: "exchange_hello (sv_policy sv) peer first (sv_session sv) = (r, s')" by fastforce
  have s: "session_ok s'" "se_mode s' = se_mode (sv_session sv)"
    using session_ok_hello [OF e] assms by (simp_all add: server_ok_def)
  show ?thesis
  proof (cases r)
    case (Inl x)
    then show ?thesis using e server_ok_session [OF assms s] by (simp add: handshake_def)
  next
    case (Inr a)
    have "server_ok (sv\<lparr>sv_session := update_screen_info (ad_id a) (ad_info a) s'\<rparr>)"
      using s by (intro server_ok_session [OF assms]) (simp_all add: session_ok_update)
    then show ?thesis using e Inr by (simp add: handshake_def Let_def)
  qed
qed

lemma server_ok_register:
  assumes "server_ok sv" "sv_conns sv t = None" "ad_id a \<noteq> 0"
  shows "server_ok (register now t peer a sv)"
proof -
  let ?sv1 = "sv\<lparr>sv_conns := (sv_conns sv)(t \<mapsto> new_connection now a), sv_ips := (sv_ips sv)(ad_id a \<mapsto> peer),
     sv_clients := (sv_clients sv)(ad_id a \<mapsto> t)\<rparr>"
  have unused: "sv_clients sv i \<noteq> Some t" for i
    using assms(1,2) unfolding server_ok_def maps_ok_def by (metis option.discI)
  have "maps_ok ?sv1"
    using assms unused by (auto simp: server_ok_def maps_ok_def new_connection_def conn_ok_def)
  then have ok1: "server_ok ?sv1"
    using assms(1) mirrors_cong [of sv ?sv1] hands_cong [of ?sv1 sv] by (simp add: server_ok_def)
  have "server_ok (send_to old (Control CTRL_DISCONNECT) (send_to old (Leave (ad_id a)) ?sv1))" for old
    by (rule server_ok_quietly [OF ok1 store_trans [OF store_send_to store_send_to]])
      (use ok1 in \<open>auto simp: server_ok_def\<close>)
  then show ?thesis using ok1 by (simp add: register_def Let_def split: option.split)
qed

lemma server_ok_announce: 
  assumes "server_ok sv" "ad_id a \<noteq> 0" shows "server_ok (announce c peer port a sv)"
proof -
  let ?sv1 = "emit (ClientJoined (ad_name a) (ad_machine a) peer port (cn_since c) (ad_info a))
       (sv\<lparr>sv_session := on_client_connected (ad_id a) (sv_session sv)\<rparr>)"
  have s: "session_ok (on_client_connected (ad_id a) (sv_session sv))"
    using assms(1) by (auto simp: server_ok_def session_ok_def on_client_connected_def screen_ids_def)
  have ok1: "server_ok ?sv1"
    by (rule server_ok_quietly [OF assms(1)]) (use s in \<open>auto simp: store_same on_client_connected_def\<close>)
  have "server_ok (broadcast m ?sv1)" for m
    by (rule server_ok_quietly [OF ok1 store_broadcast]) (use ok1 in \<open>auto simp: server_ok_def\<close>)
  then show ?thesis using ok1 by (simp add: announce_def Let_def)
qed

lemma feed_gain_ok: "server_ok sv \<Longrightarrow> server_ok (feed_gain m sv)"
proof -
  assume ok: "server_ok sv"
  have g: "session_ok (set_gain g s)" if "session_ok s" for g s
    using that by (simp add: session_ok_def set_gain_def screen_ids_def)
  have "se_mode (sv_session (feed_gain m sv)) = se_mode (sv_session sv)" "session_ok (sv_session (feed_gain m sv))"
    using feed_gain_fields(6) [of m sv] ok g by (auto simp: server_ok_def set_gain_def)
  then show ?thesis by (intro server_ok_quietly [OF ok]) (simp_all add: store_same)
qed

lemma server_ok_input: "server_ok sv \<Longrightarrow> handle_local_input now m sv = Some sv' \<Longrightarrow> server_ok sv'"
  using server_ok_outcome [OF feed_gain_ok on_local_event_outcome]
  by (auto simp: handle_local_input_def Let_def split: option.splits)

lemma server_ok_reload:
  assumes "server_ok sv" "reload now l b p sv = Some sv'" shows "server_ok sv'"
proof -
  let ?s1 = "set_prefs p (set_bindings b (sv_session sv))"
  let ?sv1 = "engine_do [SetBoundChords (bound_chords ?s1)] (sv\<lparr>sv_session := ?s1\<rparr>)"
  obtain acts s2 where sw: "swap_layout l ?s1 = (acts, s2)" by fastforce
  let ?sv2 = "apply_actions now acts (?sv1\<lparr>sv_session := s2\<rparr>)"
  obtain sv3 where d: "disconnect_all now False (stale_clients ?sv2) ?sv2 = Some sv3"
    and sv': "sv' = broadcast (LayoutMsg (layout_snapshot sv3)) sv3"
    using assms(2) sw by (auto simp: reload_def Let_def drop_stale_clients_def)
  have s1: "session_ok ?s1" "se_mode ?s1 = se_mode (sv_session sv)"
    using assms(1) by (auto simp: server_ok_def session_ok_def screen_ids_def set_prefs_def set_bindings_def)
  have h1: "hands ?sv1 = hands sv" by (cases "hands sv") simp
  have ok1: "server_ok ?sv1"
    by (rule server_ok_quietly [OF assms(1)]) (use s1 h1 in \<open>auto simp: store_same\<close>)
  have s2: "session_ok s2" using swap_ok [OF s1(1), of l] sw by simp
  have m2: "(se_mode s2 = Local \<and> se_mode ?s1 = Local \<and> acts = []) \<or> (s2 = ?s1 \<and> acts = []) \<or>
      (se_mode s2 = Local \<and> (\<exists>x y. acts = [SwitchToLocal x y]))"
    using sw by (auto simp: swap_layout_def Let_def clear_boundary_state_def split: option.splits prod.splits if_splits)
  have "mirrors ?sv2"
    using m2
  proof (elim disjE conjE exE)
    fix x y assume "se_mode s2 = Local" "acts = [SwitchToLocal x y]"
    then show ?thesis using apply_switch [of now 0 x y "?sv1\<lparr>sv_session := s2\<rparr>"]
      by (simp add: mirrors_def apply_actions_def switch_action_def mode_of_def del: apply_action.simps)
  next
    assume "se_mode s2 = Local" "se_mode ?s1 = Local" "acts = []"
    then show ?thesis using ok1 by (simp add: server_ok_def mirrors_def apply_actions_def)
  next
    assume "s2 = ?s1" "acts = []"
    then show ?thesis using ok1 by (simp add: server_ok_def mirrors_def apply_actions_def)
  qed
  moreover have "maps_ok ?sv2"
    by (rule maps_ok_store [OF _ store_apply_actions])
      (use assms(1) in \<open>simp_all add: server_ok_def maps_ok_def\<close>)
  ultimately have ok2: "server_ok ?sv2" using s2 by (simp add: server_ok_def)
  have ok3: "server_ok sv3" using server_ok_disconnect_all [OF ok2 d] by simp
  show ?thesis unfolding sv'
    by (rule server_ok_quietly [OF ok3 store_broadcast]) (use ok3 in \<open>auto simp: server_ok_def\<close>)
qed

lemma server_ok_enqueue: "server_ok sv \<Longrightarrow> server_ok (enqueue i m sv)"
  by (rule server_ok_quietly [OF _ store_enqueue]) (auto simp: server_ok_def)

lemma server_ok_policy:
  assumes "server_ok sv" shows "server_ok (sv\<lparr>sv_policy := p\<rparr>)"
  by (rule server_ok_quietly [OF assms]) (use assms in \<open>auto simp: server_ok_def store_same\<close>)

lemma server_ok_control: "server_ok sv \<Longrightarrow> apply_control now c sv = Some sv' \<Longrightarrow> server_ok sv'"
proof (cases c)
  case (SetPolicy p)
  assume "server_ok sv" "apply_control now c sv = Some sv'"
  then show ?thesis using SetPolicy server_ok_disconnect_all [OF server_ok_policy]
    by (auto simp: apply_policy_def Let_def)
next
  case (ClientCommand name command)
  assume "server_ok sv" "apply_control now c sv = Some sv'"
  then show ?thesis using ClientCommand server_ok_disconnect server_ok_enqueue
    by (auto simp: apply_client_command_def split: option.splits if_splits)
qed (use server_ok_reload in auto)

lemma server_ok_read:
  assumes "server_ok sv" "\<forall>x y. res \<noteq> Inr (Msg (CursorPos x y))" "reader_turn now last_seen t res sv = Some (go, seen, sv')"
  shows "server_ok sv'"
proof -
  have msg: "server_ok sv1" if h: "handle_client_message now c m sv = Some sv1" and m: "\<forall>x y. m \<noteq> CursorPos x y"
    for c m sv1
  proof (cases m)
    case (ScreenInfoMsg info)
    have "server_ok (sv\<lparr>sv_session := update_screen_info (cn_id c) info (sv_session sv)\<rparr>)"
      using assms(1) by (intro server_ok_session [OF assms(1)]) (simp_all add: server_ok_def session_ok_update)
    then show ?thesis using h ScreenInfoMsg server_ok_enqueue by (auto simp: handle_client_message_def Let_def)
  next
    case (ClipboardMsg mime data)
    have "server_ok (sv\<lparr>sv_clipboard := cb\<rparr>)" for cb
      by (rule server_ok_quietly [OF assms(1)]) (use assms(1) in \<open>auto simp: server_ok_def store_same\<close>)
    then show ?thesis using h ClipboardMsg by (auto simp: handle_client_message_def)
  qed (use h m assms(1) in \<open>auto simp: handle_client_message_def\<close>)
  show ?thesis
    using assms msg server_ok_teardown [OF assms(1)]
    by (auto simp: reader_turn_def split: option.splits sum.splits recv_result.splits if_splits)
qed

lemma learn_addr_fields [simp]:
  "sv_session (learn_addr i src sv) = sv_session sv" "sv_clients (learn_addr i src sv) = sv_clients sv"
  "sv_active (learn_addr i src sv) = sv_active sv" "sv_calls (learn_addr i src sv) = sv_calls sv"
  "sv_ips (learn_addr i src sv) = sv_ips sv" "sv_conns (learn_addr i src sv) = sv_conns sv"
  "sv_policy (learn_addr i src sv) = sv_policy sv"
  by (auto simp: learn_addr_def split: option.split)

lemma server_ok_beacon: "server_ok sv \<Longrightarrow> on_beacon_datagram now i seq x y sv = Some sv' \<Longrightarrow> server_ok sv'"
proof -
  assume ok: "server_ok sv" and e: "on_beacon_datagram now i seq x y sv = Some sv'"
  have seqs: "server_ok (sv\<lparr>sv_seqs := q\<rparr>)" for q
    by (rule server_ok_quietly [OF ok]) (use ok in \<open>auto simp: server_ok_def store_same\<close>)
  show ?thesis
    using e seqs server_ok_outcome [OF seqs on_remote_beacon_outcome]
    by (auto simp: on_beacon_datagram_def Let_def split: option.splits if_splits)
qed

lemma server_ok_datagram: "server_ok sv \<Longrightarrow> on_datagram now src bytes sv = Some sv' \<Longrightarrow> server_ok sv'"
proof -
  assume ok: "server_ok sv" and e: "on_datagram now src bytes sv = Some sv'"
  have l: "server_ok (learn_addr i src (sv\<lparr>sv_heard := h\<rparr>))" for i h
    by (rule server_ok_quietly [OF ok]) (use ok in \<open>auto simp: server_ok_def store_same hands_def\<close>)
  then show ?thesis using e ok server_ok_beacon [OF l]
    by (auto simp: on_datagram_def Let_def split: option.splits if_splits message.splits)
qed

lemma server_ok_idle: "server_ok sv \<Longrightarrow> check_active_beacon_staleness now sv = Some sv' \<Longrightarrow> server_ok sv'"
proof -
  assume ok: "server_ok sv" and e: "check_active_beacon_staleness now sv = Some sv'"
  have "i \<noteq> 0" if "sv_active sv = Some i" for i
    using that ok by (cases "se_mode (sv_session sv)") (auto simp: server_ok_def mirrors_def session_ok_def)
  then show ?thesis using e ok server_ok_teardown server_ok_forgets [OF ok forgets_disconnected]
    by (auto simp: check_active_beacon_staleness_def split: option.splits if_splits)
qed

lemma server_ok_write: "server_ok sv \<Longrightarrow> server_step now (SvWrite t sent) sv = Some sv' \<Longrightarrow> server_ok sv'"
proof -
  assume ok: "server_ok sv" and e: "server_step now (SvWrite t sent) sv = Some sv'"
  have "store_evolves sv sv'"
    using e writer_turn_evolves by (auto simp: store_evolves_def option.rel_refl split: option.splits)
  moreover have "sv' = sv\<lparr>sv_conns := sv_conns sv'\<rparr>" using e by (auto split: option.splits)
  ultimately show ?thesis using ok by (metis (no_types, lifting) server_ok_def server_ok_quietly hands_fields(13)
        server.ext_inject server.surjective server.update_convs(2))
qed

lemma step_keeps_server_ok:
  assumes "server_ok sv" "step_ok e sv" "server_step now e sv = Some sv'" shows "server_ok sv'"
proof (cases e)
  case (SvInput m)
  then show ?thesis using assms server_ok_input by simp
next
  case (SvControl c)
  then show ?thesis using assms server_ok_control by simp
next
  case (SvHandshake peer first)
  then show ?thesis using assms server_ok_handshake by auto
next
  case (SvRegister t peer a)
  then show ?thesis using assms server_ok_register by auto
next
  case (SvAnnounce t peer port a)
  then show ?thesis using assms server_ok_announce by (auto split: option.splits)
next
  case (SvRead last_seen t res)
  then show ?thesis using assms server_ok_read by fastforce
next
  case (SvDatagram src bytes)
  then show ?thesis using assms server_ok_datagram by simp
next
  case SvIdle
  then show ?thesis using assms server_ok_idle by simp
next
  case (SvWrite t sent)
  then show ?thesis using assms server_ok_write by blast
qed

inductive_cases server_reachesE: "server_reaches sv0 sv"

lemma reaches_server_ok: "server_reaches sv0 sv \<Longrightarrow> server_ok sv0 \<Longrightarrow> server_ok sv"
  by (induction rule: server_reaches.induct) (auto intro: step_keeps_server_ok)

lemma new_server_ok: "new_session l 0 = Some s \<Longrightarrow> server_ok (new_server s p i)"
proof -
  assume n: "new_session l 0 = Some s"
  then have "se_mode s = Local" by (auto simp: new_session_def Let_def split: option.splits prod.splits)
  then show ?thesis using new_session_ok [OF n]
    by (simp add: server_ok_def new_server_def mirrors_def hands_def maps_ok_def)
qed

end
