(* ===== verification/Server_Properties.thy ===== *)
theory Server_Properties
  imports Server_Rules
begin

text \<open>
  The properties of the server, over the invariant of \<open>Server_Rules\<close>: what holds in every
  reachable state, what the disconnect paths and the watchdog achieve, which datagrams count, and
  four orders of events that leave the server in a state its comments rule out.
\<close>

section \<open>Lemmas\<close>

lemma byte_in_range: "(i :: byte) \<in> set (map word_of_nat [0..<256])"
proof -
  have "i = word_of_nat (unat i)" "unat i < 256" using byte_less [of i] by simp_all
  then show ?thesis by (metis atLeastLessThan_iff image_eqI list.set_map set_upt zero_le)
qed

lemma registered_iff: "i \<in> set (registered sv) \<longleftrightarrow> client_of sv i \<noteq> None"
  using byte_in_range [of i] by (auto simp: registered_def)

lemma client_of_cong:
  "sv_clients sv' i = sv_clients sv i \<Longrightarrow> store_evolves sv sv' \<Longrightarrow> client_of sv' i = Some c' \<Longrightarrow>
   \<exists>c. client_of sv i = Some c \<and> conn_evolves c c'"
  unfolding client_of_def store_evolves_def
  by (auto split: option.splits) (metis option.rel_cases option.discI option.inject)+

lemma client_of_kept:
  assumes "sv_clients sv' i = sv_clients sv i" "store_evolves sv sv'" "client_of sv i = Some c"
  shows "\<exists>c'. client_of sv' i = Some c' \<and> conn_evolves c c'"
proof -
  obtain t where t: "sv_clients sv i = Some t" "sv_conns sv t = Some c"
    using assms(3) by (auto simp: client_of_def split: option.splits)
  have "rel_option conn_evolves (sv_conns sv t) (sv_conns sv' t)"
    using assms(2) by (simp add: store_evolves_def)
  then obtain c' where "sv_conns sv' t = Some c'" "conn_evolves c c'"
    using t(2) by (cases "sv_conns sv' t") auto
  then show ?thesis using t(1) assms(1) by (simp add: client_of_def)
qed

lemma registered_conn:
  assumes "server_ok sv" "sv_clients sv i = Some t"
  obtains c where "sv_conns sv t = Some c" "cn_id c = i" "client_of sv i = Some c" "i \<noteq> 0" "conn_ok c"
  using assms unfolding server_ok_def maps_ok_def client_of_def by (metis option.simps(5))

lemma on_client_disconnected_total: "session_ok s \<Longrightarrow> on_client_disconnected i s \<noteq> None"
  using force_local_total [of "s\<lparr>se_connected := se_connected s - {i}\<rparr>"]
  by (auto simp: on_client_disconnected_def Let_def screen_ids_def session_ok_def)

lemma session_forgets_total:
  assumes "session_ok (sv_session sv)"
  shows "\<exists>sv'. session_forgets on_client_disconnected now i sv = Some sv'"
proof -
  obtain a s' where "on_client_disconnected i (sv_session sv) = Some (a, s')"
    using on_client_disconnected_total [OF assms, of i] by auto
  then show ?thesis by (simp add: session_forgets_def)
qed

lemma teardown_total: "session_ok (sv_session sv) \<Longrightarrow> \<exists>sv'. teardown now t sv = Some sv'"
  using session_forgets_total by (auto simp: teardown_def Let_def split: option.split)

lemma on_client_removed_total: "session_ok s \<Longrightarrow> on_client_removed i s \<noteq> None"
  using on_client_disconnected_total [of s i] by (auto simp: on_client_removed_def split: option.split)

lemma disconnect_client_total:
  assumes "server_ok sv" shows "\<exists>sv'. disconnect_client_inner now r i sv = Some sv'"
proof (cases "client_of sv i")
  case (Some c)
  let ?f = "if r then on_client_removed else on_client_disconnected"
  have "?f i (sv_session sv) \<noteq> None"
    using assms on_client_disconnected_total on_client_removed_total by (simp add: server_ok_def)
  then show ?thesis using Some by (auto simp: disconnect_client_inner_def Let_def session_forgets_def)
qed (simp add: disconnect_client_inner_def)

lemma disconnect_all_total: "server_ok sv \<Longrightarrow> \<exists>sv'. disconnect_all now r ids sv = Some sv'"
proof (induction ids arbitrary: sv)
  case (Cons i ids)
  obtain sv' where d: "disconnect_client_inner now r i sv = Some sv'"
    using disconnect_client_total [OF Cons.prems] by blast
  then show ?case using Cons.IH server_ok_disconnect [OF Cons.prems d] by simp
qed simp

lemma apply_policy_total: "server_ok sv \<Longrightarrow> \<exists>sv'. apply_policy now p sv = Some sv'"
  using disconnect_all_total [OF server_ok_policy] by (simp add: apply_policy_def Let_def)

lemma mirrors_home: "mirrors sv \<Longrightarrow> sv_active sv = None \<Longrightarrow> hands sv = (False, False, False) \<and> se_mode (sv_session sv) = Local"
  by (cases "se_mode (sv_session sv)") (auto simp: mirrors_def)

lemma mirrors_away: "mirrors sv \<Longrightarrow> sv_active sv = Some i \<Longrightarrow> hands sv = (True, True, True) \<and> se_mode (sv_session sv) = Remote i"
  by (cases "se_mode (sv_session sv)") (auto simp: mirrors_def)

lemma teardown_unregisters:
  assumes "sv_conns sv t = Some c" "sv_clients sv (cn_id c) = Some t" "teardown now t sv = Some sv'"
  shows "client_of sv' (cn_id c) = None" "sv_clients sv' = (sv_clients sv)(cn_id c := None)"
  using assms by (auto simp: teardown_def Let_def client_of_def dest!: session_forgets_fields(1))

lemma two_server_ok: "server_ok (new_server two_session default_policy ''id'')"
  using two_session_ok two_session_facts(1)
  by (simp add: server_ok_def new_server_def mirrors_def hands_def maps_ok_def)

section \<open>Every reachable state\<close>


text \<open>
  C6. The two links carry what they should: whatever happens, no queue ever holds more than 1024
  items, motion never travels on the control link, and the datagrams a connection has sent are
  motion frames with its id, numbered 1, 2, 3 and so on without a gap or a repetition, as the
  receiver's check of the sequence number needs.
\<close>
theorem links_carry_what_they_should:
  assumes "new_session l 0 = Some s" "server_reaches (new_server s p name) sv" "sv_conns sv t = Some c"
  shows "length (cn_out c) \<le> OUT_QUEUE_CAP \<and> (\<forall>m \<in> set (cn_tcp_sent c). \<not> is_motion m) \<and>
    (\<forall>k < length (cn_udp_sent c). \<exists>dx dy. cn_udp_sent c ! k = pack (cn_id c) (word_of_nat (k + 1)) (MouseMoveRel dx dy))"
proof -
  have "conn_ok c"
    using reaches_server_ok [OF assms(2) new_server_ok [OF assms(1)]] assms(3)
    by (simp add: server_ok_def maps_ok_def)
  moreover have "\<exists>dx dy. m = MouseMoveRel dx dy" if "is_motion m" for m
    using that by (cases m) auto
  ultimately show ?thesis unfolding conn_ok_def by metis
qed

text \<open>A client that has just registered.\<close>

definition hp_client :: admitted where
  "hp_client = \<lparr>ad_id = 1, ad_machine = ''cafe0123'', ad_name = ''hp'', ad_info = default_screen_info, ad_dynamic = False\<rparr>"

definition hp_server :: server where
  "hp_server = register 0 7 (V4 10 0 0 7) hp_client (new_server two_session default_policy ''id'')"

lemma hp_server_ok: "server_ok hp_server"
  unfolding hp_server_def
  by (rule server_ok_register [OF two_server_ok]) (simp_all add: new_server_def hp_client_def)

lemma hp_server_facts:
  "sv_clients hp_server 1 = Some 7" "sv_conns hp_server 7 = Some (new_connection 0 hp_client)"
  "sv_session hp_server = two_session" "sv_ips hp_server 1 = Some (V4 10 0 0 7)"
  "sv_policy hp_server = default_policy" "sv_active hp_server = None" "sv_conns hp_server 8 = None"
  "sv_addrs hp_server 1 = None" "sv_seqs hp_server 1 = None" "sv_calls hp_server = []"
  by (simp_all add: hp_server_def register_def new_server_def hp_client_def)

text \<open>A run that takes the cursor to a client: it registers, the pointer reaches the wall and pushes.\<close>

lemma two_session_walls: "se_last_out two_session = None" "se_at_wall two_session = 0" "se_pushing two_session = None"
  by (simp_all add: two_session_def session_eval)

lemma at_left_wall_beacon:
  "on_local_event 0 (MouseMoveAbs 0 500) two_session = Some ([], at_left_wall\<lparr>se_x := 0\<rparr>)"
  by (simp add: on_local_beacon_def two_session_facts two_session_walls at_left_wall_def wall_bits_def set_bit_if_def
      EDGE_BAND_def BIT_LEFT_def BIT_RIGHT_def BIT_TOP_def BIT_BOTTOM_def DIRS_def armed_def fresh_push_def
      sub32_def add32_def wrap_i32_def Let_def)

lemma away_run:
  "\<exists>s sv. new_session two_screens 0 = Some s \<and> server_reaches (new_server s default_policy ''id'') sv \<and>
     se_mode (sv_session sv) = Remote 1"
proof -
  obtain s where s: "new_session two_screens 0 = Some s" "two_session = on_client_connected 1 s"
    by (simp add: two_session_def session_eval)
  have hp_id: "ad_id hp_client = 1" by (simp add: hp_client_def)
  let ?sv0 = "new_server s default_policy ''id''"
  let ?sv1 = "register 0 7 (V4 10 0 0 7) hp_client ?sv0"
  obtain c where c: "sv_conns ?sv1 7 = Some c" "cn_id c = 1"
    by (simp add: register_def new_server_def Let_def new_connection_def hp_client_def)
  let ?sv2 = "announce c (V4 10 0 0 7) 2401 hp_client ?sv1"
  have 1: "server_reaches ?sv0 ?sv1"
    by (rule server_reaches.step [OF server_reaches.boot, of "SvRegister 7 (V4 10 0 0 7) hp_client" _ 0])
      (simp_all add: new_server_def hp_client_def)
  have 2: "server_reaches ?sv0 ?sv2"
    by (rule server_reaches.step [OF 1, of "SvAnnounce 7 (V4 10 0 0 7) 2401 hp_client" 0])
      (simp_all add: c(1) hp_id)
  have ses2: "sv_session ?sv2 = two_session"
    by (simp add: announce_def register_def new_server_def Let_def s hp_client_def c)
  have "sv_gain ?sv2 = new_gain"
    by (simp add: announce_def register_def new_server_def Let_def hp_client_def emit_def)
  moreover have "fst (on_beacon 0 500 new_gain) = 1" "set_gain 1 two_session = two_session"
    by (simp_all add: on_beacon_def new_gain_def Let_def set_gain_def two_session_def session_eval clamp_real_def)
  ultimately have "sv_session (feed_gain (MouseMoveAbs 0 500) ?sv2) = two_session"
    using ses2 by (auto simp: feed_gain_def split: prod.split)
  then obtain sv3 where sv3: "handle_local_input 0 (MouseMoveAbs 0 500) ?sv2 = Some sv3"
    "sv_session sv3 = at_left_wall\<lparr>se_x := 0\<rparr>"
    using at_left_wall_beacon by (simp add: handle_local_input_def Let_def del: on_local_event.simps)
  have 3: "server_reaches ?sv0 sv3"
    by (rule server_reaches.step [OF 2, of "SvInput (MouseMoveAbs 0 500)" 0]) (simp_all add: sv3)
  obtain sv4 where sv4: "handle_local_input 0 (MouseMoveRel (- 3) 0) sv3 = Some sv4" "se_mode (sv_session sv4) = Remote 1"
    using at_left_wall_crosses sv3(2) by (auto simp: handle_local_input_def feed_gain_def simp del: on_local_event.simps)
  have "server_reaches ?sv0 sv4"
    by (rule server_reaches.step [OF 3, of "SvInput (MouseMoveRel (- 3) 0)" 0]) (simp_all add: sv4)
  then show ?thesis using s(1) sv4(2) by blast
qed


theorem links_carry_what_they_should_witness:
  "\<exists>s sv. new_session two_screens 0 = Some s \<and> server_reaches (new_server s default_policy ''id'') sv \<and>
     sv_conns sv 7 = Some (new_connection 0 hp_client) \<and> length (cn_out (new_connection 0 hp_client)) \<le> OUT_QUEUE_CAP"
proof -
  obtain s where s: "new_session two_screens 0 = Some s" using two_session_new by blast
  let ?sv = "register 0 7 (V4 10 0 0 7) hp_client (new_server s default_policy ''id'')"
  have r: "server_reaches (new_server s default_policy ''id'') ?sv"
    by (rule server_reaches.step [OF server_reaches.boot, of "SvRegister 7 (V4 10 0 0 7) hp_client" _ 0])
      (simp_all add: new_server_def hp_client_def)
  have c: "sv_conns ?sv 7 = Some (new_connection 0 hp_client)"
    by (simp add: register_def new_server_def Let_def)
  show ?thesis using links_carry_what_they_should [OF s r c] s r c by blast
qed

section \<open>Policy\<close>

text \<open>
  C12. A hot policy change takes effect at once: after it no registered client bears a revoked
  machine id, the cursor is not on the screen of one, and every client that is not revoked is
  still registered under its address.
\<close>
theorem hot_revocation_is_immediate:
  assumes "server_ok sv"
  shows "\<exists>sv'. apply_policy now p sv = Some sv' \<and> sv_policy sv' = p \<and>
    (\<forall>i c. client_of sv' i = Some c \<longrightarrow> \<not> is_revoked p (cn_machine c)) \<and>
    (\<forall>i c. client_of sv i = Some c \<and> is_revoked p (cn_machine c) \<longrightarrow>
       client_of sv' i = None \<and> se_mode (sv_session sv') \<noteq> Remote i) \<and>
    (\<forall>i c. client_of sv i = Some c \<and> \<not> is_revoked p (cn_machine c) \<longrightarrow>
       sv_clients sv' i = sv_clients sv i \<and> client_of sv' i \<noteq> None)"
proof -
  let ?sv1 = "sv\<lparr>sv_policy := p\<rparr>"
  let ?ids = "filter (\<lambda>i. case client_of ?sv1 i of None \<Rightarrow> False | Some c \<Rightarrow> is_revoked p (cn_machine c)) (registered ?sv1)"
  obtain sv' where ap: "apply_policy now p sv = Some sv'" using apply_policy_total [OF assms] by blast
  then have d: "disconnect_all now True ?ids ?sv1 = Some sv'" by (simp add: apply_policy_def Let_def)
  have same: "client_of ?sv1 = client_of sv" by (simp add: client_of_def fun_eq_iff split: option.split)
  note all = server_ok_disconnect_all [OF server_ok_policy [OF assms] d]
  have st: "store_evolves sv sv'" using all by (simp add: store_evolves_def)
  have ids: "i \<in> set ?ids \<longleftrightarrow> (\<exists>c. client_of sv i = Some c \<and> is_revoked p (cn_machine c))" for i
    unfolding same by (auto simp: registered_iff same split: option.splits)
  have kept: "sv_clients sv' i = sv_clients sv i" if "i \<notin> set ?ids" for i
    using all that by simp
  have gone: "\<not> is_revoked p (cn_machine c)" if c: "client_of sv' i = Some c" for i c
  proof
    assume r: "is_revoked p (cn_machine c)"
    have "i \<notin> set ?ids" using all c by (metis option.discI)
    then obtain c0 where "client_of sv i = Some c0" "conn_evolves c0 c"
      using client_of_cong [OF kept st c] by blast
    then show False using r ids \<open>i \<notin> set ?ids\<close> by (auto simp: conn_evolves_def)
  qed
  have away: "client_of sv' i = None \<and> se_mode (sv_session sv') \<noteq> Remote i" if "client_of sv i = Some c" "is_revoked p (cn_machine c)" for i c
  proof -
    have "i \<in> set ?ids" "client_of ?sv1 i \<noteq> None" using ids that same by auto
    then show ?thesis using all by blast
  qed
  have stay: "sv_clients sv' i = sv_clients sv i \<and> client_of sv' i \<noteq> None"
    if "client_of sv i = Some c" "\<not> is_revoked p (cn_machine c)" for i c
  proof -
    have "i \<notin> set ?ids" using ids that by auto
    then show ?thesis using kept client_of_kept [OF _ st that(1)] by auto
  qed
  have "sv_policy sv' = p" using all by simp
  then show ?thesis using ap gone away stay by blast
qed

definition no_more_hp :: policy where
  "no_more_hp = default_policy\<lparr>po_revoked_ids := [''cafe'']\<rparr>"

lemma hp_server_client [simp]: "client_of hp_server 1 = Some (new_connection 0 hp_client)"
  by (simp add: client_of_def hp_server_facts)

theorem hot_revocation_is_immediate_witness:
  "\<exists>sv'. apply_policy 5 no_more_hp hp_server = Some sv' \<and> client_of sv' 1 = None"
proof -
  have "is_revoked no_more_hp (cn_machine (new_connection 0 hp_client))"
    by (simp add: is_revoked_def no_more_hp_def id_matches_def new_connection_def hp_client_def)
  then show ?thesis
    using hot_revocation_is_immediate [OF hp_server_ok, of 5 no_more_hp] hp_server_client by blast
qed

text \<open>
  The policy is checked once, at the handshake, and not again at the registration: a machine
  revoked between the two (they are separate lock scopes of the accept thread) is registered
  all the same, under the policy that revokes it, and its screen can be entered.
\<close>
theorem revocation_races_handshake:
  assumes "handshake peer first sv = (Inr (a, welcome), sv1)" "server_ok sv1"
    "apply_policy now p sv1 = Some sv2" "is_revoked p (ad_machine a)" "sv_conns sv2 t = None"
  shows "\<exists>c. client_of (register later t peer a sv2) (ad_id a) = Some c \<and>
    is_revoked (sv_policy (register later t peer a sv2)) (cn_machine c) \<and>
    reachable (sv_session (announce c peer port a (register later t peer a sv2))) (ad_id a)"
proof -
  let ?sv3 = "register later t peer a sv2"
  have "sv_policy sv2 = p"
    using assms(3) server_ok_disconnect_all [OF server_ok_policy [OF assms(2)]]
    by (fastforce simp: apply_policy_def Let_def)
  then have p: "sv_policy ?sv3 = p" by (simp add: register_def Let_def split: option.split)
  have old: "old \<noteq> t \<or> sv_conns sv2 old = None" for old using assms(5) by auto
  have "sv_clients ?sv3 (ad_id a) = Some t" by (simp add: register_def Let_def split: option.split)
  moreover have "\<exists>c. sv_conns ?sv3 t = Some c \<and> cn_machine c = ad_machine a"
    by (auto simp: register_def Let_def send_to_def new_connection_def try_send_def split: option.split)
  ultimately obtain c where c: "client_of ?sv3 (ad_id a) = Some c" "cn_machine c = ad_machine a"
    by (auto simp: client_of_def)
  have "reachable (sv_session (announce c peer port a ?sv3)) (ad_id a)"
    by (simp add: announce_def Let_def reachable_def on_client_connected_def)
  then show ?thesis using c p assms(4) by auto
qed

definition hello_hp :: message where
  "hello_hp = Hello VERSION ''cafe0123'' ''hp'' default_screen_info"

lemma apply_policy_store:
  assumes "server_ok sv" "apply_policy now p sv = Some sv'" "sv_conns sv t = None"
  shows "sv_conns sv' t = None"
proof -
  have "store_evolves (sv\<lparr>sv_policy := p\<rparr>) sv'"
    using assms(2) server_ok_disconnect_all [OF server_ok_policy [OF assms(1)]]
    by (fastforce simp: apply_policy_def Let_def)
  then have "rel_option conn_evolves (sv_conns sv t) (sv_conns sv' t)" by (simp add: store_evolves_def)
  then show ?thesis using assms(3) by simp
qed

lemma hello_hp_admitted:
  "exchange_hello default_policy (V4 10 0 0 7) (Inr (Msg hello_hp)) two_session = (Inr hp_client, two_session)"
proof -
  have "assign_screen_id two_session ''hp'' = Some 1"
    by (simp add: assign_screen_id_def two_session_facts two_screens_def)
  moreover from this have "admit_client ''hp'' default_screen_info two_session = (Some (1, False), two_session)"
    by (simp add: admit_client_def)
  moreover have "compatible VERSION" by (simp add: compatible_def VERSION_def MIN_PROTOCOL_def MAX_PROTOCOL_def)
  ultimately show ?thesis
    by (simp add: exchange_hello_def hello_hp_def default_policy_def is_revoked_def v4_is_private_def hp_client_def)
qed

theorem revocation_races_handshake_witness:
  "\<exists>w sv1 sv2 c. handshake (V4 10 0 0 7) (Inr (Msg hello_hp)) (new_server two_session default_policy ''id'')
       = (Inr (hp_client, w), sv1) \<and>
     apply_policy 5 no_more_hp sv1 = Some sv2 \<and> client_of (register 6 7 (V4 10 0 0 7) hp_client sv2) 1 = Some c"
proof -
  let ?sv = "new_server two_session default_policy ''id''"
  obtain w sv1 where h: "handshake (V4 10 0 0 7) (Inr (Msg hello_hp)) ?sv = (Inr (hp_client, w), sv1)"
    using hello_hp_admitted by (simp add: handshake_def new_server_def Let_def)
  have ok: "server_ok sv1" using server_ok_handshake [OF two_server_ok] h by (metis snd_conv)
  have "sv_conns sv1 7 = None"
    using h hello_hp_admitted by (auto simp: handshake_def new_server_def Let_def)
  moreover obtain sv2 where p: "apply_policy 5 no_more_hp sv1 = Some sv2"
    using apply_policy_total [OF ok] by blast
  ultimately have free: "sv_conns sv2 7 = None" using apply_policy_store [OF ok] by blast
  have "is_revoked no_more_hp (ad_machine hp_client)"
    by (simp add: is_revoked_def no_more_hp_def id_matches_def hp_client_def)
  then show ?thesis
    using revocation_races_handshake [where later = 6, OF h ok p _ free] h p
    by (auto simp: hp_client_def)
qed

section \<open>The watchdog\<close>

lemma watchdog_fires:
  assumes "server_ok sv" "sv_active sv = Some i" "sv_heard sv i = Some heard"
    "now_ms now - heard > ACTIVE_BEACON_TIMEOUT"
  shows "\<exists>sv'. check_active_beacon_staleness now sv = Some sv' \<and> server_ok sv' \<and> client_of sv' i = None \<and>
      sv_active sv' = None \<and> se_mode (sv_session sv') = Local \<and> hands sv' = (False, False, False)"
proof -
  have away: "se_mode (sv_session sv) = Remote i" and ses: "session_ok (sv_session sv)" and m: "mirrors sv"
    using assms mirrors_away by (auto simp: server_ok_def)
  have "\<exists>sv'. check_active_beacon_staleness now sv = Some sv'"
    using assms teardown_total [OF ses] session_forgets_total [OF ses]
    by (auto simp: check_active_beacon_staleness_def split: option.split)
  then obtain sv' where sv': "check_active_beacon_staleness now sv = Some sv'" by blast
  have ok: "server_ok sv'" using server_ok_idle [OF assms(1) sv'] .
  have "se_mode (sv_session sv') \<noteq> Remote i \<and> client_of sv' i = None \<and>
      (se_mode (sv_session sv') = Local \<or> se_mode (sv_session sv') = se_mode (sv_session sv))"
  proof (cases "sv_clients sv i")
    case None
    then have f: "session_forgets on_client_disconnected now i sv = Some sv'"
      using sv' assms by (simp add: check_active_beacon_staleness_def)
    have "i \<noteq> 0" using away ses by (simp add: session_ok_def)
    then show ?thesis using server_ok_forgets [OF assms(1) forgets_disconnected f] None session_forgets_fields(1) [OF f]
      by (simp add: client_of_def)
  next
    case (Some t)
    then have t: "teardown now t sv = Some sv'"
      using sv' assms by (simp add: check_active_beacon_staleness_def)
    obtain c where c: "sv_conns sv t = Some c" "cn_id c = i"
      using registered_conn [OF assms(1) Some] by metis
    have "client_of sv' i = None" using teardown_unregisters(1) [OF c(1) _ t] Some c(2) by simp
    then show ?thesis
      using server_ok_teardown [OF assms(1) t] Some c by blast
  qed
  moreover from this have "se_mode (sv_session sv') = Local" using away by auto
  moreover from this have "sv_active sv' = None" "hands sv' = (False, False, False)"
    using ok by (simp_all add: server_ok_def mirrors_def)
  ultimately show ?thesis using sv' ok by auto
qed

text \<open>
  C15. A client whose cursor stream has been silent for more than five seconds while it has the
  cursor loses it: the watchdog's next wake, which cannot panic, unregisters the client, clears
  the latch, moves the session home and gives local input back.  A stream heard within five
  seconds is left alone.
\<close>
theorem silent_stream_comes_home:
  assumes "server_ok sv" "sv_active sv = Some i" "sv_heard sv i = Some heard"
  shows "if now_ms now - heard \<le> ACTIVE_BEACON_TIMEOUT then check_active_beacon_staleness now sv = Some sv
    else \<exists>sv'. check_active_beacon_staleness now sv = Some sv' \<and> server_ok sv' \<and> client_of sv' i = None \<and>
      sv_active sv' = None \<and> se_mode (sv_session sv') = Local \<and> hands sv' = (False, False, False)"
  using watchdog_fires [OF assms, of now] assms by (auto simp: check_active_beacon_staleness_def)

definition away_server :: server where
  "away_server = apply_actions 0 [SwitchTo 1 1895 500]
     (hp_server\<lparr>sv_session := two_session\<lparr>se_mode := Remote 1, se_x := - 25, se_y := 500\<rparr>\<rparr>)"

lemma away_server_facts:
  "sv_active away_server = Some 1" "sv_heard away_server 1 = Some 0" "sv_clients away_server = sv_clients hp_server"
  "sv_session away_server = two_session\<lparr>se_mode := Remote 1, se_x := - 25, se_y := 500\<rparr>"
  "sv_calls away_server = [GrabInput True, IsolateInput True, ShowLocalCursor False]"
  "sv_ips away_server = sv_ips hp_server" "sv_addrs away_server = sv_addrs hp_server"
  "sv_seqs away_server = sv_seqs hp_server"
  by (simp_all add: away_server_def apply_actions_def Let_def leave_active_def hp_server_facts now_ms_def
      emit_def engine_do_def)

lemma away_server_ok: "server_ok away_server"
proof -
  have "1 \<in> screen_ids two_session" "0 \<in> screen_ids two_session"
    by (simp_all add: screen_ids_def two_session_facts two_screens_def)
  then have s: "session_ok (sv_session away_server)"
    by (simp add: session_ok_def away_server_facts screen_ids_def two_session_facts)
  have "maps_ok (hp_server\<lparr>sv_session := s'\<rparr>)" for s'
    using hp_server_ok by (simp add: server_ok_def maps_ok_def)
  then have "maps_ok away_server"
    unfolding away_server_def by (rule maps_ok_store [OF _ store_apply_actions]) simp_all
  moreover have "mirrors away_server" by (simp add: mirrors_def hands_def away_server_facts)
  ultimately show ?thesis using s by (simp add: server_ok_def)
qed

theorem silent_stream_comes_home_witness:
  "\<exists>sv'. check_active_beacon_staleness (6 * 10 ^ 9) away_server = Some sv' \<and> sv_active sv' = None"
  using silent_stream_comes_home [OF away_server_ok away_server_facts(1,2), of "6 * 10 ^ 9"]
  by (auto simp: now_ms_def ACTIVE_BEACON_TIMEOUT_def)

section \<open>The cursor stream\<close>

lemma seqs_fields [simp]:
  "sv_seqs (leave_active sv) = sv_seqs sv" "sv_seqs (emit e sv) = sv_seqs sv" "sv_seqs (engine_do cs sv) = sv_seqs sv"
  by (simp_all add: leave_active_def emit_def engine_do_def split: option.split)

lemma apply_actions_seqs [simp]: "sv_seqs (apply_actions now acts sv) = sv_seqs sv"
proof -
  have "sv_seqs (apply_action now a sv) = sv_seqs sv" for a sv
    by (cases a) (simp_all add: Let_def split: option.split)
  then have "sv_seqs (fold (apply_action now) acts sv) = sv_seqs sv"
    by (induction acts arbitrary: sv) simp_all
  then show ?thesis by (simp add: apply_actions_def)
qed

text \<open>
  C14. A datagram moves the session only when everything about it checks out: it is a well-formed
  beacon, it comes from the address the client's handshake came from, the cursor is on that
  client, and its number is newer than the last one applied from that source (a new source port
  starts a new numbering); and then that number is the last one applied, so no beacon is ever
  applied twice.
\<close>
theorem only_verified_fresh_beacons_count:
  assumes "on_datagram now src bytes sv = Some sv'" "sv_session sv' \<noteq> sv_session sv"
  shows "\<exists>d x y. unpack bytes = Some d \<and> dg_msg d = CursorPos x y \<and>
    sv_ips sv (dg_id d) = Some (fst src) \<and> se_mode (sv_session sv) = Remote (dg_id d) \<and>
    is_newer (dg_seq d) (if sv_addrs sv (dg_id d) = Some src \<or> sv_addrs sv (dg_id d) = None
      then case sv_seqs sv (dg_id d) of None \<Rightarrow> 0 | Some q \<Rightarrow> q else 0) \<and>
    sv_seqs sv' (dg_id d) = Some (dg_seq d)"
proof -
  obtain d where d: "unpack bytes = Some d" "sv_ips sv (dg_id d) = Some (fst src)"
    using assms by (auto simp: on_datagram_def split: option.splits if_splits)
  let ?i = "dg_id d"
  let ?sv1 = "learn_addr ?i src (sv\<lparr>sv_heard := (sv_heard sv)(?i \<mapsto> now_ms now)\<rparr>)"
  obtain x y where b: "dg_msg d = CursorPos x y" "on_beacon_datagram now ?i (dg_seq d) x y ?sv1 = Some sv'"
    using assms d by (auto simp: on_datagram_def Let_def split: message.splits if_splits)
  have q: "sv_seqs ?sv1 ?i = (if sv_addrs sv ?i = Some src \<or> sv_addrs sv ?i = None then sv_seqs sv ?i else None)"
    by (auto simp: learn_addr_def split: option.split)
  have newer: "is_newer (dg_seq d) (case sv_seqs ?sv1 ?i of None \<Rightarrow> 0 | Some q \<Rightarrow> q)"
    using b(2) assms(2) by (auto simp: on_beacon_datagram_def Let_def split: if_splits)
  then obtain acts s' where r: "on_remote_beacon now ?i x y (sv_session sv) = Some (acts, s')"
    and sv': "sv' = apply_actions now acts (?sv1\<lparr>sv_seqs := (sv_seqs ?sv1)(?i \<mapsto> dg_seq d), sv_session := s'\<rparr>)"
    using b(2) by (auto simp: on_beacon_datagram_def Let_def split: option.splits)
  have "se_mode (sv_session sv) = Remote ?i"
    using r sv' assms(2) by (auto simp: on_remote_beacon_def split: if_splits)
  moreover have "sv_seqs sv' ?i = Some (dg_seq d)" by (simp add: sv')
  ultimately show ?thesis
    using d b(1) newer q by (intro exI [of _ d]) (auto split: if_splits)
qed

lemma beacon_moves_away_server:
  assumes "unpack bytes = Some \<lparr>dg_id = 1, dg_seq = 1, dg_msg = CursorPos 900 500\<rparr>"
  shows "\<exists>sv'. on_datagram 9 (V4 10 0 0 7, 5000) bytes away_server = Some sv' \<and> sv_session sv' \<noteq> sv_session away_server"
proof -
  let ?s = "sv_session away_server"
  let ?sv1 = "learn_addr 1 (V4 10 0 0 7, 5000) (away_server\<lparr>sv_heard := (sv_heard away_server)(1 \<mapsto> now_ms 9)\<rparr>)"
  obtain acts s' where r: "on_remote_beacon 9 1 900 500 ?s = Some (acts, s')"
    using on_remote_beacon_total [of 9 1 900 500 ?s] by auto
  have "find_screen (se_layout ?s) 1 = Some (screens two_screens ! 1)"
    by (simp add: away_server_facts two_session_facts two_screens_def find_screen_def)
  then have "se_remote_beacon_at s' = Some 9"
    using r by (simp add: on_remote_beacon_def away_server_facts two_screens_def Let_def wall_bits_def
        clamp_i32_def last_pixel_def sub32_def wrap_i32_def EDGE_BAND_def set_bit_if_def) auto
  moreover have "se_remote_beacon_at ?s = None" by (simp add: away_server_facts two_session_def session_eval)
  ultimately have "s' \<noteq> ?s" by auto
  moreover have "sv_seqs ?sv1 1 = None" "is_newer 1 0"
    by (simp_all add: learn_addr_def is_newer_def away_server_facts hp_server_facts)
  ultimately show ?thesis
    using assms r by (auto simp: on_datagram_def on_beacon_datagram_def Let_def away_server_facts(6) hp_server_facts)
qed

theorem only_verified_fresh_beacons_count_witness:
  "\<exists>sv'. on_datagram 9 (V4 10 0 0 7, 5000) (pack 1 1 (CursorPos 900 500)) away_server = Some sv' \<and> sv_seqs sv' 1 = Some 1"
proof -
  have u: "unpack (pack 1 1 (CursorPos 900 500)) = Some \<lparr>dg_id = 1, dg_seq = 1, dg_msg = CursorPos 900 500\<rparr>"
    by (rule unpack_pack) (simp add: sendable_def in_i32_def put_i32_def MAX_PAYLOAD_def)
  obtain sv' where sv': "on_datagram 9 (V4 10 0 0 7, 5000) (pack 1 1 (CursorPos 900 500)) away_server = Some sv'"
    "sv_session sv' \<noteq> sv_session away_server" using beacon_moves_away_server [OF u] by blast
  show ?thesis using only_verified_fresh_beacons_count [OF sv'] u sv'(1) by auto
qed

section \<open>Orders of events the code does not expect\<close>

text \<open>
  A beacon that arrives on the control link loses its actions: when it fires a crossing, the
  session moves, but the latch, the engine and the clients are not told, so the invariant of
  \<open>local_input_follows_cursor\<close> is broken: local input goes on being held, or goes on acting
  locally, for a screen the cursor is not on.
\<close>
theorem tcp_beacon_loses_actions:
  assumes "server_ok sv" "on_remote_beacon now (cn_id c) x y (sv_session sv) = Some (acts, s')"
    "se_mode s' \<noteq> se_mode (sv_session sv)"
  shows "\<exists>sv'. handle_client_message now c (CursorPos x y) sv = Some sv' \<and>
    sv_active sv' \<noteq> latch_of (se_mode (sv_session sv')) \<and> sv_calls sv' = sv_calls sv \<and> sv_conns sv' = sv_conns sv"
proof -
  have "sv_active sv = latch_of (se_mode (sv_session sv))" using assms(1) by (simp add: server_ok_def mirrors_def)
  moreover have "latch_of m \<noteq> latch_of n" if "m \<noteq> n" for m n using that by (cases m; cases n) auto
  ultimately show ?thesis using assms by (auto simp: handle_client_message_def)
qed

text \<open>A session whose cursor has just been pushed against the wall towards the local screen.\<close>

definition pushed_server :: server where
  "pushed_server = away_server\<lparr>sv_session := (sv_session away_server)\<lparr>se_remote_last_out := Some \<lparr>pu_dir = DRight, pu_at = 5\<rparr>\<rparr>\<rparr>"

lemma pushed_server_ok: "server_ok pushed_server"
proof -
  have "session_ok (sv_session pushed_server)" "se_mode (sv_session pushed_server) = se_mode (sv_session away_server)"
    using away_server_ok by (simp_all add: server_ok_def pushed_server_def session_ok_def screen_ids_def)
  then show ?thesis unfolding pushed_server_def by (intro server_ok_session [OF away_server_ok]) simp_all
qed

lemma pushed_beacon_crosses:
  "\<exists>acts s'. on_remote_beacon 9 1 1919 500 (sv_session pushed_server) = Some (acts, s') \<and> se_mode s' = Local"
proof -
  have "se_remote_at_wall two_session = 0" by (simp add: two_session_def session_eval)
  then show ?thesis by (simp add: pushed_server_def away_server_facts on_remote_beacon_def two_session_facts two_screens_def layout_eval
      wall_bits_def EDGE_BAND_def set_bit_if_def BIT_RIGHT_def BIT_LEFT_def BIT_TOP_def BIT_BOTTOM_def DIRS_def armed_def
      fresh_push_def EDGE_PUSH_FRESH_def cross_from_remote_def reachable_def enter_inset_def inset_entry_def
      enter_screen_def clear_boundary_state_def ENTRY_INSET_def sat_i32_def Let_def)
qed

theorem tcp_beacon_loses_actions_witness:
  "\<exists>sv'. handle_client_message 9 (new_connection 0 hp_client) (CursorPos 1919 500) pushed_server = Some sv' \<and>
     sv_active sv' \<noteq> latch_of (se_mode (sv_session sv'))"
proof -
  obtain acts s' where r: "on_remote_beacon 9 1 1919 500 (sv_session pushed_server) = Some (acts, s')" "se_mode s' = Local"
    using pushed_beacon_crosses by blast
  show ?thesis
    using tcp_beacon_loses_actions [OF pushed_server_ok, of 9 "new_connection 0 hp_client" 1919 500 acts s'] r
    by (auto simp: new_connection_def hp_client_def pushed_server_def away_server_facts)
qed

text \<open>
  An action is decided under the session lock and executed under the engine lock, and another
  thread may come in between.  If the session decides to cross to a client and that client's
  connection ends before the crossing is executed, the switch is executed all the same: the
  session is at home, but the latch names a client that is gone and local input is held; and the
  watchdog that clears the latch five seconds later does not give the input back.
\<close>
theorem late_switch_traps_input:
  assumes "server_ok sv" "se_mode (sv_session sv) = Local"
    "on_local_event now m (sv_session sv) = Some ([SwitchTo i x y], s')" "se_mode s' = Remote i"
    "sv_conns sv t = Some c" "cn_id c = i" "sv_clients sv i = Some t"
    "teardown now t (sv\<lparr>sv_session := s'\<rparr>) = Some sv1"
    "now_ms later - now_ms now > ACTIVE_BEACON_TIMEOUT"
  defines "sv2 \<equiv> apply_actions now [SwitchTo i x y] sv1"
  shows "se_mode (sv_session sv2) = Local \<and> sv_active sv2 = Some i \<and> hands sv2 = (True, True, True) \<and> client_of sv2 i = None \<and>
    (\<exists>sv3. check_active_beacon_staleness later sv2 = Some sv3 \<and> sv_active sv3 = None \<and>
       se_mode (sv_session sv3) = Local \<and> hands sv3 = (True, True, True))"
proof -
  let ?sv = "sv\<lparr>sv_session := s'\<rparr>"
  let ?u = "emit (ClientLeft (cn_name c)) (unregister i (send_to t (Control CTRL_RECONNECT) (send_to t (Leave i) ?sv)))"
  have s': "session_ok s'"
    using outcome_keeps_ok [OF _ on_local_event_outcome [OF assms(3)]] assms(1) by (simp add: server_ok_def)
  have f: "session_forgets on_client_disconnected now i ?u = Some sv1"
    using assms(5-8) by (simp add: teardown_def Let_def)
  then obtain a s1 where d: "on_client_disconnected i s' = Some (a, s1)" "sv_session sv1 = s1"
    by (auto simp: session_forgets_def split: option.splits)
  have home: "se_mode s1 = Local" "session_ok s1"
    using disconnected_cases [OF d(1)] disconnected_ok [OF s' d(1)] assms(4) by auto
  have gone: "sv_clients sv1 i = None" using session_forgets_fields(1) [OF f] by simp
  have s2: "se_mode (sv_session sv2) = Local" "session_ok (sv_session sv2)" "sv_clients sv2 i = None"
    using home gone d(2) by (simp_all add: sv2_def)
  have "i \<noteq> 0" using assms(4) s' by (simp add: session_ok_def)
  then have sw: "SwitchTo i x y = switch_action i x y" by (simp add: switch_action_def)
  have held: "sv_active sv2 = Some i" "hands sv2 = (True, True, True)"
    using apply_switch [of now i x y sv1] \<open>i \<noteq> 0\<close>
    by (simp_all add: sv2_def apply_actions_def sw mode_of_def del: apply_action.simps)
  have heard: "sv_heard sv2 i = Some (now_ms now)"
    by (simp add: sv2_def apply_actions_def Let_def)
  obtain a' s3 where d3: "on_client_disconnected i (sv_session sv2) = Some (a', s3)"
    using on_client_disconnected_total [OF s2(2), of i] by auto
  then have n: "a' = Nothing" "se_mode s3 = Local" using disconnected_cases [OF d3] s2(1) by auto
  have "check_active_beacon_staleness later sv2 = Some (clear_active i (sv2\<lparr>sv_session := s3\<rparr>))"
    using held(1) heard s2(3) d3 n assms(9)
    by (simp add: check_active_beacon_staleness_def session_forgets_def come_home_def)
  then show ?thesis using s2 held n by (simp add: client_of_def)
qed

definition edge_server :: server where
  "edge_server = hp_server\<lparr>sv_session := at_left_wall\<lparr>se_x := 0\<rparr>\<rparr>"

lemma edge_server_ok: "server_ok edge_server"
  unfolding edge_server_def
  by (rule server_ok_session [OF hp_server_ok])
    (use two_session_ok in \<open>simp_all add: at_left_wall_def session_ok_def screen_ids_def hp_server_facts\<close>)

theorem late_switch_traps_input_witness:
  "\<exists>sv2. sv_active sv2 = Some 1 \<and> se_mode (sv_session sv2) = Local \<and> hands sv2 = (True, True, True)"
proof -
  obtain s' where s': "on_local_event 0 (MouseMoveRel (- 3) 0) (sv_session edge_server) = Some ([SwitchTo 1 1895 496], s')"
    "se_mode s' = Remote 1" using at_left_wall_crosses by (auto simp: edge_server_def)
  have "session_ok s'"
    using outcome_keeps_ok [OF _ on_local_event_outcome [OF s'(1)]] edge_server_ok by (simp add: server_ok_def)
  then obtain sv1 where t: "teardown 0 7 (edge_server\<lparr>sv_session := s'\<rparr>) = Some sv1"
    using teardown_total by fastforce
  show ?thesis
    using late_switch_traps_input [OF edge_server_ok _ s' _ _ _ t, of "new_connection 0 hp_client" "6 * 10 ^ 9"]
    by (auto simp: edge_server_def hp_server_facts at_left_wall_def two_session_facts new_connection_def
        hp_client_def now_ms_def ACTIVE_BEACON_TIMEOUT_def)
qed

definition no_enter :: "server \<Rightarrow> nat \<Rightarrow> bool" where
  "no_enter sv t \<longleftrightarrow> (\<forall>c. sv_conns sv t = Some c \<longrightarrow> (\<forall>i x y. OutTcp (Enter i x y) \<notin> set (cn_out c)))"

lemma no_enter_send: "no_enter sv t \<Longrightarrow> \<forall>i x y. m \<noteq> Enter i x y \<Longrightarrow> no_enter (send_to u m sv) t"
  by (cases m) (auto simp: no_enter_def send_to_def try_send_def split: option.split)

lemma no_enter_broadcast: "no_enter sv t \<Longrightarrow> no_enter (broadcast (LayoutMsg l) sv) t"
proof -
  have "no_enter (fold (\<lambda>i. enqueue i (LayoutMsg l)) is sv) t" if "no_enter sv t" for "is"
    using that by (induction "is" arbitrary: sv) (auto simp: enqueue_def no_enter_send split: option.split)
  then show "no_enter sv t \<Longrightarrow> no_enter (broadcast (LayoutMsg l) sv) t" by (simp add: broadcast_def)
qed

lemma broadcast_heard [simp]: "sv_heard (broadcast m sv) = sv_heard sv"
proof -
  have "sv_heard (fold (\<lambda>i. enqueue i m) is sv) = sv_heard sv" for "is"
    by (induction "is" arbitrary: sv) simp_all
  then show ?thesis by (simp add: broadcast_def)
qed

lemma register_keeps:
  "sv_active (register now t peer a sv) = sv_active sv" "sv_heard (register now t peer a sv) = sv_heard sv"
  "sv_session (register now t peer a sv) = sv_session sv"
  "sv_clients (register now t peer a sv) = (sv_clients sv)(ad_id a \<mapsto> t)"
  by (simp_all add: register_def Let_def split: option.split)

lemma announce_keeps:
  "sv_active (announce c peer port a sv) = sv_active sv" "sv_heard (announce c peer port a sv) = sv_heard sv"
  "se_mode (sv_session (announce c peer port a sv)) = se_mode (sv_session sv)"
  "sv_clients (announce c peer port a sv) = sv_clients sv"
  by (simp_all add: announce_def Let_def on_client_connected_def)

text \<open>
  A machine that reconnects while it has the cursor is left without it: the registration replaces
  the old connection, but the latch and the session stay on the client, the new connection is
  never sent an \<open>Enter\<close> (so it does not steer and sends no beacons), and when nothing is heard
  of it for five seconds the watchdog drops the new connection too.
\<close>
theorem takeover_strands_cursor:
  assumes "server_ok sv" "sv_active sv = Some (ad_id a)" "sv_clients sv (ad_id a) = Some old" "sv_conns sv t = None"
    "server_step now (SvRegister t peer a) sv = Some sv1" "server_step now (SvAnnounce t peer port a) sv1 = Some sv2"
    "sv_heard sv (ad_id a) = Some heard" "now_ms later - heard > ACTIVE_BEACON_TIMEOUT"
  shows "sv_active sv2 = Some (ad_id a) \<and> se_mode (sv_session sv2) = Remote (ad_id a) \<and>
    (\<exists>c. client_of sv2 (ad_id a) = Some c \<and> (\<forall>i x y. OutTcp (Enter i x y) \<notin> set (cn_out c))) \<and>
    (\<exists>sv3. check_active_beacon_staleness later sv2 = Some sv3 \<and> client_of sv3 (ad_id a) = None)"
proof -
  have i: "ad_id a \<noteq> 0" using assms(1,3) by (simp add: server_ok_def maps_ok_def)
  have sv1: "sv1 = register now t peer a sv" using assms(5) by simp
  have ok1: "server_ok sv1" unfolding sv1 by (rule server_ok_register [OF assms(1,4) i])
  have "sv_clients sv1 (ad_id a) = Some t" by (simp add: sv1 register_keeps)
  then obtain c where c: "sv_conns sv1 t = Some c" using registered_conn [OF ok1] by metis
  have sv2: "sv2 = announce c peer port a sv1" using assms(6) c by simp
  have ok2: "server_ok sv2" unfolding sv2 by (rule server_ok_announce [OF ok1 i])
  have act: "sv_active sv2 = Some (ad_id a)" "sv_heard sv2 (ad_id a) = Some heard" "sv_clients sv2 (ad_id a) = Some t"
    using assms(2,7) by (simp_all add: sv2 sv1 register_keeps announce_keeps)
  have mode: "se_mode (sv_session sv2) = Remote (ad_id a)"
    using ok2 act(1) mirrors_away by (simp add: server_ok_def)
  have "no_enter (sv\<lparr>sv_conns := (sv_conns sv)(t \<mapsto> new_connection now a), sv_ips := p, sv_clients := q\<rparr>) t" for p q
    by (simp add: no_enter_def new_connection_def)
  then have "no_enter sv1 t"
    by (simp add: sv1 register_def Let_def no_enter_send split: option.split)
  then have "no_enter (emit e (sv1\<lparr>sv_session := s\<rparr>)) t" for e s by (simp add: no_enter_def)
  then have "no_enter sv2 t" by (simp add: sv2 announce_def Let_def no_enter_broadcast)
  moreover obtain c2 where "client_of sv2 (ad_id a) = Some c2" "sv_conns sv2 t = Some c2"
    using registered_conn [OF ok2 act(3)] by metis
  ultimately show ?thesis
    using act(1) mode watchdog_fires [OF ok2 act(1,2) assms(8)] by (auto simp: no_enter_def)
qed

theorem takeover_strands_cursor_witness:
  "\<exists>sv2. sv_active sv2 = Some 1 \<and> (\<exists>c. client_of sv2 1 = Some c \<and> (\<forall>i x y. OutTcp (Enter i x y) \<notin> set (cn_out c)))"
proof -
  obtain sv1 where r: "server_step 5 (SvRegister 8 (V4 10 0 0 7) hp_client) away_server = Some sv1" by simp
  obtain sv2 where n: "server_step 5 (SvAnnounce 8 (V4 10 0 0 7) 5000 hp_client) sv1 = Some sv2" by simp
  have "sv_conns away_server 8 = None"
    using store_apply_actions [of "hp_server\<lparr>sv_session := two_session\<lparr>se_mode := Remote 1, se_x := - 25, se_y := 500\<rparr>\<rparr>" 0 "[SwitchTo 1 1895 500]"]
    by (simp add: away_server_def store_evolves_def hp_server_facts) (metis rel_option_None1 hp_server_facts(7))
  then show ?thesis
    using takeover_strands_cursor [OF away_server_ok _ _ _ r n, of 7 0 "6 * 10 ^ 9"]
    by (auto simp: away_server_facts hp_server_facts hp_client_def now_ms_def ACTIVE_BEACON_TIMEOUT_def)
qed

end
