(* ===== verification/Client.thy ===== *)
theory Client
  imports Transport Motion
begin

text \<open>
  The client of \<open>core/src/client/\<close>: the dispatch of the server's messages, the steering state and
  its telemetry, the worker loops and the watchdog.

  The state the threads share (\<open>Shared\<close>) is one record; a loop is modelled by one turn of it.  The
  platform \<open>Injector\<close> is a trait: its state is the list of calls made on it, and what it answers
  (the real cursor position, whether it places absolutely, the screen) is an argument of the
  operation that asks.  The clock \<open>now\<close> is in nanoseconds.
\<close>

section \<open>Constants\<close>

definition PIN_WINDOWS_TO_TRIP :: u32 where "PIN_WINDOWS_TO_TRIP = 6"
definition PIN_MIN_COMMANDED_PX :: int where "PIN_MIN_COMMANDED_PX = 60"
definition PIN_MAX_TRAVEL_PX :: int where "PIN_MAX_TRAVEL_PX = 6"
definition EVENT_QUEUE_CAP :: nat where "EVENT_QUEUE_CAP = 512"
definition CURSOR_BEACON_INTERVAL :: nat where "CURSOR_BEACON_INTERVAL = 8 * 10 ^ 6"
definition KEEPALIVE_INTERVAL :: nat where "KEEPALIVE_INTERVAL = 2 * 10 ^ 9"
definition PROBE_INTERVAL :: nat where "PROBE_INTERVAL = 100 * 10 ^ 6"

section \<open>The shared state\<close>

datatype inject_event = InjButton byte bool | InjWheel int int | InjKey key_kind u32

datatype injector_call =
  MoveCursor int int | MoveRelative int int | Inject inject_event | InjectorEnter | InjectorLeave
| SteerHeartbeat | EmergencyRelease

record motion_state =
  ms_follower :: follower
  ms_probe :: motion_probe
  ms_frames_win :: u32
  ms_ticks_win :: u32
  ms_win_cmd_px :: int
  ms_win_real_start :: "int \<times> int"
  ms_pin_windows :: u32

record client =
  cl_motion :: motion_state
  cl_active :: bool
  cl_stop :: bool
  cl_events :: "inject_event list"
  cl_udp_seq :: u32
  cl_motion_seq :: u32
  cl_motion_tick :: nat
  cl_tcp_tick :: nat
  cl_last_beacon :: nat
  cl_last_keepalive :: nat
  cl_layout :: layout
  cl_calls :: "injector_call list"
  cl_datagrams :: "byte list list"
  cl_observed :: "bool list"
  cl_clipboard :: "(string \<times> byte list) list"

definition new_client :: "nat \<Rightarrow> screen_info \<Rightarrow> layout \<Rightarrow> client" where
  "new_client now scr l =
     \<lparr>cl_motion = \<lparr>ms_follower = set_bounds (si_width scr) (si_height scr) default_follower,
        ms_probe = new_probe PROBE_INTERVAL now, ms_frames_win = 0, ms_ticks_win = 0, ms_win_cmd_px = 0,
        ms_win_real_start = (0, 0), ms_pin_windows = 0\<rparr>,
      cl_active = False, cl_stop = False, cl_events = [], cl_udp_seq = 1, cl_motion_seq = 0,
      cl_motion_tick = 0, cl_tcp_tick = 0, cl_last_beacon = now, cl_last_keepalive = now, cl_layout = l,
      cl_calls = [], cl_datagrams = [], cl_observed = [], cl_clipboard = []\<rparr>"

definition inject :: "injector_call list \<Rightarrow> client \<Rightarrow> client" where
  "inject cs c = c\<lparr>cl_calls := cl_calls c @ cs\<rparr>"

definition on_motion :: "(motion_state \<Rightarrow> motion_state) \<Rightarrow> client \<Rightarrow> client" where
  "on_motion f c = c\<lparr>cl_motion := f (cl_motion c)\<rparr>"

section \<open>The injection queue\<close>

definition enqueue_event :: "inject_event \<Rightarrow> client \<Rightarrow> client" where
  "enqueue_event e c = (if length (cl_events c) < EVENT_QUEUE_CAP then c\<lparr>cl_events := cl_events c @ [e]\<rparr> else c)"

interpretation event_queue: bounded_queue enqueue_event cl_events EVENT_QUEUE_CAP
  by unfold_locales (simp add: enqueue_event_def)

definition drain_events :: "client \<Rightarrow> client" where
  "drain_events c = inject (map Inject (cl_events c)) (c\<lparr>cl_events := []\<rparr>)"

section \<open>The telemetry window\<close>

definition pin_window :: "int \<Rightarrow> int \<Rightarrow> motion_state \<Rightarrow> bool" where
  "pin_window x y m \<longleftrightarrow>
     PIN_MIN_COMMANDED_PX < ms_win_cmd_px m \<and>
     add32 (abs32 (sub32 x (fst (ms_win_real_start m)))) (abs32 (sub32 y (snd (ms_win_real_start m)))) < PIN_MAX_TRAVEL_PX"

definition at_screen_edge :: "int \<Rightarrow> int \<Rightarrow> screen_info \<Rightarrow> bool" where
  "at_screen_edge x y scr \<longleftrightarrow> x \<le> 1 \<or> y \<le> 1 \<or> x \<ge> int (unat (si_width scr)) - 2 \<or> y \<ge> int (unat (si_height scr)) - 2"

text \<open>
  \<open>MotionState::probe_window\<close>: is the cursor pinned, and the state after the window.  The line it
  may log is left out.
\<close>

definition probe_window :: "nat \<Rightarrow> int \<Rightarrow> int \<Rightarrow> screen_info \<Rightarrow> motion_state \<Rightarrow> bool \<times> motion_state" where
  "probe_window now x y scr m =
     (if \<not> probe_due now (ms_probe m) then (False, m)
      else
        let pins = (if pin_window x y m then ms_pin_windows m + 1 else 0);
            pinned = (pins \<ge> PIN_WINDOWS_TO_TRIP \<and> \<not> at_screen_edge x y scr);
            (line, probe) = sample now (x, y) (ms_probe m) in
        (pinned, m\<lparr>ms_frames_win := 0, ms_ticks_win := 0, ms_pin_windows := pins, ms_win_cmd_px := 0,
                   ms_win_real_start := (x, y), ms_probe := probe\<rparr>))"

section \<open>The cursor stream\<close>

text \<open>\<open>absolute\<close> is the answer of \<open>Injector::absolute_motion\<close>.\<close>

definition apply_motion_frame :: "bool \<Rightarrow> int \<Rightarrow> int \<Rightarrow> client \<Rightarrow> client" where
  "apply_motion_frame absolute dx dy c =
     (let c1 = on_motion (\<lambda>m. m\<lparr>ms_frames_win := ms_frames_win m + 1,
             ms_win_cmd_px := ms_win_cmd_px m + abs32 dx + abs32 dy\<rparr>) c;
          c2 = (if absolute then on_motion (\<lambda>m. m\<lparr>ms_follower := fo_advance dx dy (ms_follower m)\<rparr>) c1
                else let ((px, py), f) = fo_push dx dy (ms_follower (cl_motion c1)) in
                  inject [MoveRelative px py] (on_motion (\<lambda>m. m\<lparr>ms_follower := f\<rparr>) c1)) in
      on_motion (\<lambda>m. m\<lparr>ms_probe := requested dx dy (ms_probe m)\<rparr>) c2)"

definition send_beacon :: "byte \<Rightarrow> int \<times> int \<Rightarrow> client \<Rightarrow> client" where
  "send_beacon own pos c =
     c\<lparr>cl_udp_seq := cl_udp_seq c + 1,
       cl_datagrams := cl_datagrams c @ [pack own (cl_udp_seq c) (CursorPos (fst pos) (snd pos))]\<rparr>"

text \<open>One datagram in the UDP loop.\<close>

definition on_motion_datagram :: "byte \<Rightarrow> bool \<Rightarrow> byte list \<Rightarrow> client \<Rightarrow> client" where
  "on_motion_datagram own absolute bytes c =
     (case unpack bytes of
        None \<Rightarrow> c
      | Some d \<Rightarrow>
          if dg_id d \<noteq> own \<or> \<not> is_newer (dg_seq d) (cl_motion_seq c) then c
          else
            let c1 = c\<lparr>cl_motion_seq := dg_seq d\<rparr> in
            (case dg_msg d of
               MouseMoveRel dx dy \<Rightarrow> if cl_active c1 then apply_motion_frame absolute dx dy c1 else c1
             | _ \<Rightarrow> c1))"

section \<open>The motion loop\<close>

text \<open>The placement of a tick: exactly on the command, or a bounded correction toward it.\<close>

definition steer :: "bool \<Rightarrow> int \<times> int \<Rightarrow> client \<Rightarrow> client" where
  "steer absolute pos c =
     (if absolute then
        (let cmd = fo_command (ms_follower (cl_motion c)) in
         if cmd \<noteq> pos then inject [MoveCursor (fst cmd) (snd cmd)] c else c)
      else
        (case fo_correct pos (ms_follower (cl_motion c)) of
           (None, f) \<Rightarrow> on_motion (\<lambda>m. m\<lparr>ms_follower := f\<rparr>) c
         | (Some (dx, dy), f) \<Rightarrow> inject [MoveRelative dx dy] (on_motion (\<lambda>m. m\<lparr>ms_follower := f\<rparr>) c)))"

text \<open>One tick while this machine is controlled; \<open>pos\<close> is the real cursor position.\<close>

definition motion_tick :: "nat \<Rightarrow> byte \<Rightarrow> bool \<Rightarrow> int \<times> int \<Rightarrow> screen_info \<Rightarrow> client \<Rightarrow> client" where
  "motion_tick now own absolute pos scr c =
     (if \<not> cl_active c \<or> cl_stop c then c
      else
        let c1 = c\<lparr>cl_motion_tick := now div 10 ^ 6\<rparr>;
            c2 = inject [SteerHeartbeat] (on_motion (\<lambda>m. m\<lparr>ms_ticks_win := ms_ticks_win m + 1\<rparr>) c1);
            c3 = drain_events (steer absolute pos c2);
            (pinned, m) = probe_window now (fst pos) (snd pos) scr (cl_motion c3);
            c4 = c3\<lparr>cl_motion := m\<rparr>;
            c5 = (if pinned then (inject [EmergencyRelease] c4)\<lparr>cl_stop := True\<rparr> else c4) in
        if now - cl_last_beacon c5 \<ge> CURSOR_BEACON_INTERVAL
        then send_beacon own pos (c5\<lparr>cl_last_beacon := now\<rparr>) else c5)"

definition place_at_command :: "bool \<Rightarrow> client \<Rightarrow> client" where
  "place_at_command absolute c =
     (if absolute then (let cmd = fo_command (ms_follower (cl_motion c)) in inject [MoveCursor (fst cmd) (snd cmd)] c) else c)"

section \<open>Dispatch\<close>

text \<open>
  \<open>pos\<close> and \<open>pos'\<close> are the two readings of the real cursor position while control enters.
\<close>

definition enter_control :: "nat \<Rightarrow> byte \<Rightarrow> int \<times> int \<Rightarrow> int \<times> int \<Rightarrow> int \<Rightarrow> int \<Rightarrow> client \<Rightarrow> client" where
  "enter_control now own pos pos' x y c =
     (let c1 = inject [InjectorEnter, MoveCursor x y] (on_motion (\<lambda>m. m\<lparr>ms_follower := fo_enter x y (ms_follower m)\<rparr>) c);
          c2 = on_motion (\<lambda>m. m\<lparr>ms_follower := fo_reanchor (fst pos) (snd pos) (ms_follower m),
                                 ms_probe := probe_enter now pos (ms_probe m)\<rparr>) c1 in
      send_beacon own pos' (c2\<lparr>cl_active := True, cl_observed := cl_observed c2 @ [True]\<rparr>))"

definition leave_control :: "client \<Rightarrow> client" where
  "leave_control c =
     (let c1 = on_motion (\<lambda>m. m\<lparr>ms_follower := fo_leave (ms_follower m), ms_probe := probe_leave (ms_probe m)\<rparr>)
            (c\<lparr>cl_active := False\<rparr>) in
      (inject [InjectorLeave] c1)\<lparr>cl_observed := cl_observed c1 @ [False]\<rparr>)"

fun dispatch :: "nat \<Rightarrow> byte \<Rightarrow> bool \<Rightarrow> int \<times> int \<Rightarrow> int \<times> int \<Rightarrow> message \<Rightarrow> client \<Rightarrow> client" where
  "dispatch now own absolute pos pos' (MouseMoveRel dx dy) c = apply_motion_frame absolute dx dy c"
| "dispatch now own absolute pos pos' (MouseMoveAbs x y) c =
     on_motion (\<lambda>m. m\<lparr>ms_follower := fo_reanchor x y (ms_follower m)\<rparr>) (inject [MoveCursor x y] c)"
| "dispatch now own absolute pos pos' (Enter i x y) c = enter_control now own pos pos' x y c"
| "dispatch now own absolute pos pos' (Leave i) c = leave_control c"
| "dispatch now own absolute pos pos' (MouseButton b p) c = enqueue_event (InjButton b p) c"
| "dispatch now own absolute pos pos' (MouseWheel dx dy) c = enqueue_event (InjWheel dx dy) c"
| "dispatch now own absolute pos pos' (Key kind key) c = enqueue_event (InjKey kind key) c"
| "dispatch now own absolute pos pos' (ClipboardMsg mime data) c = c\<lparr>cl_clipboard := cl_clipboard c @ [(mime, data)]\<rparr>"
| "dispatch now own absolute pos pos' (LayoutMsg l) c = c\<lparr>cl_layout := l\<rparr>"
| "dispatch now own absolute pos pos' _ c = c"

section \<open>The control loop\<close>

datatype session_end = LinkClosed | Disconnected | Reconnect

text \<open>What a control command means for the session, if it is known.\<close>

definition session_end_of :: "byte \<Rightarrow> session_end option" where
  "session_end_of command =
     (if command = CTRL_DISCONNECT then Some Disconnected
      else if command = CTRL_RECONNECT \<or> command = CTRL_RESTART then Some Reconnect
      else None)"

datatype turn = GoOn client "message list" | Ended session_end client | LinkFailed io_error client

text \<open>
  One turn of the loop of \<open>Client::run\<close>: \<open>resumed\<close> and \<open>secure\<close> are the injector's answers on sleep
  and on the secure desktop, \<open>outgoing\<close> what the app and the sync thread have queued, and
  \<open>send_err\<close> the error of the first send of the turn, if it fails.  A turn that goes on gives the
  messages it has sent.  A link error returns from \<open>run\<close> at once (the \<open>?\<close> of the code), without
  the \<open>stop\<close> that the other ends set.
\<close>

definition control_turn ::
  "nat \<Rightarrow> byte \<Rightarrow> bool \<Rightarrow> int \<times> int \<Rightarrow> int \<times> int \<Rightarrow> bool \<Rightarrow> bool \<Rightarrow> message list \<Rightarrow> io_error option
    \<Rightarrow> io_error + recv_result \<Rightarrow> client \<Rightarrow> turn" where
  "control_turn now own absolute pos pos' resumed secure outgoing send_err res c =
     (if cl_stop c \<or> resumed \<or> secure then Ended LinkClosed (c\<lparr>cl_stop := True\<rparr>)
      else
        let c1 = c\<lparr>cl_tcp_tick := now div 10 ^ 6\<rparr> in
        (case res of
           Inl e \<Rightarrow> LinkFailed e c
         | Inr (Msg (Control command)) \<Rightarrow>
             (case session_end_of command of
                None \<Rightarrow> GoOn c1 []
              | Some e \<Rightarrow> Ended e (c1\<lparr>cl_stop := True\<rparr>))
         | Inr (Msg m) \<Rightarrow> GoOn (dispatch now own absolute pos pos' m c1) []
         | Inr EndOfStream \<Rightarrow> Ended LinkClosed (c\<lparr>cl_stop := True\<rparr>)
         | Inr NoData \<Rightarrow>
             let due = (now - cl_last_keepalive c1 \<ge> KEEPALIVE_INTERVAL);
                 sends = (if due then outgoing @ [KeepAlive] else outgoing) in
             (case send_err of
                Some e \<Rightarrow> if sends = [] then GoOn c1 [] else LinkFailed e c1
              | None \<Rightarrow> GoOn (if due then c1\<lparr>cl_last_keepalive := now\<rparr> else c1) sends)))"

section \<open>The supervisor and the sync thread\<close>

text \<open>One wake of the watchdog; \<open>injector_free\<close> says that the injector lock could be taken.\<close>

definition supervisor_wake :: "nat \<Rightarrow> bool \<Rightarrow> client \<Rightarrow> client" where
  "supervisor_wake ms injector_free c =
     (if cl_stop c \<or> \<not> cl_active c then c
      else if ms - cl_motion_tick c > 3000
      then (if injector_free then inject [EmergencyRelease] c else c)\<lparr>cl_stop := True\<rparr>
      else c)"

text \<open>The geometry check: the message for the server when the screen has changed.\<close>

definition sync_screen :: "screen_info \<Rightarrow> screen_info \<Rightarrow> client \<Rightarrow> message list \<times> client" where
  "sync_screen last_info info c =
     (if info \<noteq> last_info
      then ([ScreenInfoMsg info],
        on_motion (\<lambda>m. m\<lparr>ms_follower := set_bounds (si_width info) (si_height info) (ms_follower m)\<rparr>) c)
      else ([], c))"

text \<open>
  The clipboard check: \<open>seen\<close> is what was sent last, \<open>injected\<close> what was last applied from the
  server, \<open>cur\<close> what the clipboard holds.
\<close>

definition sync_clipboard ::
  "(string \<times> byte list) option \<Rightarrow> (string \<times> byte list) option \<Rightarrow> (string \<times> byte list) option
    \<Rightarrow> message list \<times> (string \<times> byte list) option" where
  "sync_clipboard seen injected cur =
     (case cur of
        None \<Rightarrow> ([], seen)
      | Some (mime, data) \<Rightarrow>
          if seen \<noteq> cur \<and> injected \<noteq> cur then ([ClipboardMsg mime data], cur) else ([], seen))"

section \<open>The welcome\<close>

datatype connect_error = ConnectIo io_error | IncompatibleServer u16 | Refused byte string | UnexpectedFirst message | NoWelcome

text \<open>What the client makes of the server's first answer.\<close>

fun on_welcome :: "io_error + recv_result \<Rightarrow> connect_error + (byte \<times> layout \<times> string)" where
  "on_welcome (Inl e) = Inl (ConnectIo e)"
| "on_welcome (Inr (Msg (Welcome v i l own))) =
     (if \<not> compatible v then Inl (IncompatibleServer v) else Inr (own, l, i))"
| "on_welcome (Inr (Msg (ErrorMsg code text))) = Inl (Refused code text)"
| "on_welcome (Inr (Msg m)) = Inl (UnexpectedFirst m)"
| "on_welcome (Inr _) = Inl NoWelcome"

section \<open>The client as a component\<close>

datatype client_event =
  CeTick nat bool "int \<times> int" screen_info
| CeDatagram bool "byte list"
| CeMessage nat bool "int \<times> int" "int \<times> int" message
| CeSupervisor nat bool
| CeScreen screen_info screen_info

fun client_step :: "byte \<Rightarrow> client_event \<Rightarrow> client \<Rightarrow> client" where
  "client_step own (CeTick now absolute pos scr) c = motion_tick now own absolute pos scr c"
| "client_step own (CeDatagram absolute bytes) c = on_motion_datagram own absolute bytes c"
| "client_step own (CeMessage now absolute pos pos' m) c = dispatch now own absolute pos pos' m c"
| "client_step own (CeSupervisor ms injector_free) c = supervisor_wake ms injector_free c"
| "client_step own (CeScreen last_info info) c = snd (sync_screen last_info info c)"

end
