(* ===== verification/Client_Rules.thy ===== *)
theory Client_Rules
  imports Client
begin

text \<open>
  What the client guarantees: where it places the cursor, in which order input is injected, which
  datagrams steer, when it takes the cursor for pinned; and one theorem on what a link error
  leaves behind.
\<close>

section \<open>Fields\<close>

lemma inject_fields [simp]:
  "cl_motion (inject cs c) = cl_motion c" "cl_events (inject cs c) = cl_events c"
  "cl_active (inject cs c) = cl_active c" "cl_stop (inject cs c) = cl_stop c"
  "cl_calls (inject cs c) = cl_calls c @ cs" "cl_motion_seq (inject cs c) = cl_motion_seq c"
  "cl_last_beacon (inject cs c) = cl_last_beacon c"
  by (simp_all add: inject_def)

lemma on_motion_fields [simp]:
  "cl_motion (on_motion f c) = f (cl_motion c)" "cl_events (on_motion f c) = cl_events c"
  "cl_active (on_motion f c) = cl_active c" "cl_stop (on_motion f c) = cl_stop c"
  "cl_calls (on_motion f c) = cl_calls c" "cl_motion_seq (on_motion f c) = cl_motion_seq c"
  "cl_last_beacon (on_motion f c) = cl_last_beacon c"
  by (simp_all add: on_motion_def)

lemma send_beacon_fields [simp]:
  "cl_motion (send_beacon own pos c) = cl_motion c" "cl_events (send_beacon own pos c) = cl_events c"
  "cl_active (send_beacon own pos c) = cl_active c" "cl_stop (send_beacon own pos c) = cl_stop c"
  "cl_calls (send_beacon own pos c) = cl_calls c" "cl_motion_seq (send_beacon own pos c) = cl_motion_seq c"
  by (simp_all add: send_beacon_def)

lemma drain_fields [simp]:
  "cl_motion (drain_events c) = cl_motion c" "cl_events (drain_events c) = []"
  "cl_calls (drain_events c) = cl_calls c @ map Inject (cl_events c)"
  "cl_active (drain_events c) = cl_active c" "cl_stop (drain_events c) = cl_stop c"
  by (simp_all add: drain_events_def)

definition placement :: "bool \<Rightarrow> int \<times> int \<Rightarrow> client \<Rightarrow> injector_call list" where
  "placement absolute pos c =
     (if absolute then
        (if fo_command (ms_follower (cl_motion c)) \<noteq> pos
         then [MoveCursor (fst (fo_command (ms_follower (cl_motion c)))) (snd (fo_command (ms_follower (cl_motion c))))]
         else [])
      else case fst (fo_correct pos (ms_follower (cl_motion c))) of None \<Rightarrow> [] | Some (dx, dy) \<Rightarrow> [MoveRelative dx dy])"

lemma steer_fields [simp]:
  "cl_calls (steer absolute pos c) = cl_calls c @ placement absolute pos c"
  "cl_events (steer absolute pos c) = cl_events c" "cl_active (steer absolute pos c) = cl_active c"
  "cl_stop (steer absolute pos c) = cl_stop c"
  by (auto simp: steer_def placement_def Let_def split: option.split prod.split)

lemma steer_motion:
  "cl_motion (steer absolute pos c) =
     (if absolute then cl_motion c else (cl_motion c)\<lparr>ms_follower := snd (fo_correct pos (ms_follower (cl_motion c)))\<rparr>)"
  by (auto simp: steer_def Let_def split: option.split prod.split)

text \<open>The calls of one tick, and the state it leaves.\<close>

lemma motion_tick_calls:
  assumes "cl_active c" "\<not> cl_stop c"
  shows "\<exists>tail. cl_calls (motion_tick now own absolute pos scr c) =
      cl_calls c @ [SteerHeartbeat] @ placement absolute pos c @ map Inject (cl_events c) @ tail \<and>
    (tail = [] \<or> tail = [EmergencyRelease]) \<and> cl_events (motion_tick now own absolute pos scr c) = []"
proof -
  have p: "placement absolute pos (inject cs (on_motion (\<lambda>m. m\<lparr>ms_ticks_win := t m\<rparr>) (c\<lparr>cl_motion_tick := k\<rparr>)))
      = placement absolute pos c" for cs t k
    by (simp add: placement_def)
  show ?thesis
    using assms by (auto simp: motion_tick_def Let_def p split: prod.split)
qed

fun input_event :: "message \<Rightarrow> inject_event option" where
  "input_event (MouseButton b p) = Some (InjButton b p)"
| "input_event (MouseWheel dx dy) = Some (InjWheel dx dy)"
| "input_event (Key kind key) = Some (InjKey kind key)"
| "input_event _ = None"

lemma dispatch_input:
  "input_event m = Some e \<Longrightarrow> dispatch now own absolute pos pos' m c = enqueue_event e c"
  by (cases m) auto

lemma dispatch_inputs:
  assumes "list_all2 (\<lambda>m e. input_event m = Some e) ms es" "length (cl_events c) + length ms \<le> EVENT_QUEUE_CAP"
  shows "fold (dispatch now own absolute pos pos') ms c = c\<lparr>cl_events := cl_events c @ es\<rparr>"
  using assms
proof (induction ms es arbitrary: c rule: list_all2_induct)
  case Nil then show ?case by simp
next
  case (Cons m ms e es)
  have "dispatch now own absolute pos pos' m c = c\<lparr>cl_events := cl_events c @ [e]\<rparr>"
    using dispatch_input [OF Cons.hyps(1)] Cons.prems by (simp add: enqueue_event_def)
  then show ?case using Cons.IH [of "c\<lparr>cl_events := cl_events c @ [e]\<rparr>"] Cons.prems by simp
qed

section \<open>Where the cursor is placed\<close>

definition bounded_follower :: "follower \<Rightarrow> bool" where
  "bounded_follower f \<longleftrightarrow> follower_ok f \<and> fo_bounds f \<noteq> None"

definition client_ok :: "client \<Rightarrow> bool" where
  "client_ok c \<longleftrightarrow> bounded_follower (ms_follower (cl_motion c))"

lemma follower_ok_step: "follow_event_ok e \<Longrightarrow> follower_ok f \<Longrightarrow> follower_ok (follow_step e f)"
  by (rule follower.step_inv)

lemma bounds_kept_ops [simp]:
  "fo_bounds (fo_enter x y f) = fo_bounds f" "fo_bounds (fo_leave f) = fo_bounds f"
  "fo_bounds (fo_advance x y f) = fo_bounds f" "fo_bounds (fo_reanchor x y f) = fo_bounds f"
  "fo_bounds (snd (fo_correct pos f)) = fo_bounds f" "fo_bounds (set_bounds w h f) = Some (w, h)"
  "fo_bounds (snd (fo_push x y f)) = fo_bounds f"
  by (simp_all add: fo_enter_def fo_leave_def fo_advance_def fo_reanchor_def fo_correct_def set_bounds_def
      fo_push_eq Let_def)

lemma set_bounds_bounded: "follower_ok f \<Longrightarrow> bounded_follower (set_bounds w h f)"
  using follower_ok_step [of "FoBounds w h" f] by (simp add: bounded_follower_def)

lemma bounded_ops:
  assumes "bounded_follower f"
  shows "bounded_follower (set_bounds w h f)" "bounded_follower (fo_enter x y f)" "bounded_follower (fo_leave f)"
    "bounded_follower (fo_advance x y f)" "bounded_follower (fo_reanchor x y f)" "bounded_follower (snd (fo_correct pos f))"
    "in_i32 x \<Longrightarrow> in_i32 y \<Longrightarrow> bounded_follower (snd (fo_push x y f))"
proof -
  have ok: "follower_ok f" using assms by (simp add: bounded_follower_def)
  show "bounded_follower (set_bounds w h f)" "bounded_follower (fo_enter x y f)" "bounded_follower (fo_leave f)"
    "bounded_follower (fo_advance x y f)" "bounded_follower (fo_reanchor x y f)" "bounded_follower (snd (fo_correct pos f))"
    using assms follower_ok_step [OF _ ok, of "FoBounds w h"] follower_ok_step [OF _ ok, of "FoEnter x y"]
      follower_ok_step [OF _ ok, of FoLeave] follower_ok_step [OF _ ok, of "FoAdvance x y"]
      follower_ok_step [OF _ ok, of "FoReanchor x y"] follower_ok_step [OF _ ok, of "FoCorrect pos"]
    by (simp_all add: bounded_follower_def)
  show "in_i32 x \<Longrightarrow> in_i32 y \<Longrightarrow> bounded_follower (snd (fo_push x y f))"
    using assms follower_ok_step [OF _ ok, of "FoPush x y"] by (simp add: bounded_follower_def)
qed

lemma apply_motion_ok: "in_i32 dx \<Longrightarrow> in_i32 dy \<Longrightarrow> client_ok c \<Longrightarrow> client_ok (apply_motion_frame absolute dx dy c)"
proof -
  assume i: "in_i32 dx" "in_i32 dy" and ok: "client_ok c"
  obtain p f where f: "fo_push dx dy (ms_follower (cl_motion c)) = (p, f)" by fastforce
  have "bounded_follower f" using bounded_ops(7) [OF ok [unfolded client_ok_def] i] f by simp
  then show ?thesis using ok f
    by (auto simp: client_ok_def apply_motion_frame_def Let_def bounded_ops split: prod.split)
qed

lemma unpack_message_ok: "unpack bs = Some d \<Longrightarrow> message_ok (dg_msg d)"
  by (auto simp: unpack_def split: if_splits sum.splits elim!: decode_msg_ok dest: from_frame_sound)

lemma datagram_ok: "client_ok c \<Longrightarrow> client_ok (on_motion_datagram own absolute bytes c)"
  using unpack_message_ok [of bytes]
  by (auto simp: on_motion_datagram_def Let_def client_ok_def apply_motion_ok [unfolded client_ok_def]
      split: option.split message.split)

lemma dispatch_ok: "message_ok m \<Longrightarrow> client_ok c \<Longrightarrow> client_ok (dispatch now own absolute pos pos' m c)"
proof (cases m)
  case (MouseMoveRel dx dy)
  assume "message_ok m" "client_ok c"
  then show ?thesis using MouseMoveRel apply_motion_ok by simp
qed (auto simp: client_ok_def enter_control_def leave_control_def Let_def bounded_ops enqueue_event_def)

lemma probe_window_follower [simp]: "ms_follower (snd (probe_window now x y scr m)) = ms_follower m"
  by (simp add: probe_window_def Let_def split: prod.split)

lemma motion_tick_ok: "client_ok c \<Longrightarrow> client_ok (motion_tick now own absolute pos scr c)"
proof -
  assume ok: "client_ok c"
  let ?c3 = "drain_events (steer absolute pos (inject [SteerHeartbeat]
      (on_motion (\<lambda>m. m\<lparr>ms_ticks_win := ms_ticks_win m + 1\<rparr>) (c\<lparr>cl_motion_tick := now div 10 ^ 6\<rparr>))))"
  have "bounded_follower (ms_follower (cl_motion ?c3))"
    using ok bounded_ops(6) by (simp add: client_ok_def steer_motion)
  moreover obtain pinned m where pw: "probe_window now (fst pos) (snd pos) scr (cl_motion ?c3) = (pinned, m)"
    by fastforce
  then have "ms_follower m = ms_follower (cl_motion ?c3)"
    using probe_window_follower [of now "fst pos" "snd pos" scr "cl_motion ?c3"] by simp
  ultimately have "bounded_follower (ms_follower m)" by simp
  then show ?thesis using ok pw by (simp add: motion_tick_def Let_def client_ok_def)
qed

fun client_event_ok :: "client_event \<Rightarrow> bool" where
  "client_event_ok (CeMessage now absolute pos pos' m) \<longleftrightarrow> message_ok m"
| "client_event_ok _ \<longleftrightarrow> True"

interpretation client: keeps_invariant "client_step own" client_event_ok client_ok for own
proof unfold_locales
  fix e c assume e: "client_event_ok e" and ok: "client_ok c"
  show "client_ok (client_step own e c)"
  proof (cases e)
    case (CeSupervisor ms free)
    then show ?thesis using ok by (simp add: supervisor_wake_def client_ok_def)
  next
    case (CeScreen l i)
    then show ?thesis using ok by (simp add: sync_screen_def client_ok_def bounded_ops)
  qed (use e ok in \<open>simp_all add: motion_tick_ok datagram_ok dispatch_ok\<close>)
qed

lemma new_client_ok: "client_ok (new_client now scr l)"
  by (simp add: client_ok_def new_client_def set_bounds_bounded default_follower_ok)

section \<open>Properties\<close>


definition hd_screen :: screen_info where
  "hd_screen = \<lparr>si_width = 1920, si_height = 1080, si_scale = F32_ONE\<rparr>"


text \<open>
  C20. Input reaches this machine in the order it was sent, each event once, and only after the
  cursor has been placed: up to the capacity of the queue, whatever buttons, keys and wheel
  messages arrive are exactly what the next tick injects after its placement, behind what was
  already queued, and the queue is then empty.
\<close>
theorem input_injected_in_order:
  assumes "list_all2 (\<lambda>m e. input_event m = Some e) ms es" "length (cl_events c) + length ms \<le> EVENT_QUEUE_CAP"
    "cl_active c" "\<not> cl_stop c"
  shows "\<exists>tail. cl_calls (motion_tick later own absolute rpos scr (fold (dispatch now own absolute pos pos') ms c)) =
      cl_calls c @ SteerHeartbeat # placement absolute rpos c @ map Inject (cl_events c @ es) @ tail \<and>
    (tail = [] \<or> tail = [EmergencyRelease]) \<and>
    cl_events (motion_tick later own absolute rpos scr (fold (dispatch now own absolute pos pos') ms c)) = []"
proof -
  have p: "placement absolute rpos (c\<lparr>cl_events := ev\<rparr>) = placement absolute rpos c" for ev
    by (simp add: placement_def)
  show ?thesis
    using motion_tick_calls [of "c\<lparr>cl_events := cl_events c @ es\<rparr>" later own absolute rpos scr] assms(3,4)
    unfolding dispatch_inputs [OF assms(1,2)] p by simp
qed

theorem input_injected_in_order_witness:
  "\<exists>place tail. cl_calls (motion_tick 4 1 True (0, 0) hd_screen (fold (dispatch 0 1 True (0, 0) (0, 0))
     [MouseButton 1 True, Key KeyDown 4, MouseButton 1 False] ((new_client 0 hd_screen \<lparr>screens = []\<rparr>)\<lparr>cl_active := True\<rparr>)))
   = SteerHeartbeat # place @ [Inject (InjButton 1 True), Inject (InjKey KeyDown 4), Inject (InjButton 1 False)] @ tail"
  using input_injected_in_order [of "[MouseButton 1 True, Key KeyDown 4, MouseButton 1 False]"
      "[InjButton 1 True, InjKey KeyDown 4, InjButton 1 False]" "(new_client 0 hd_screen \<lparr>screens = []\<rparr>)\<lparr>cl_active := True\<rparr>" 4 1 True "(0, 0)" hd_screen 0 "(0, 0)" "(0, 0)"]
  by (auto simp: new_client_def EVENT_QUEUE_CAP_def)

text \<open>
  A datagram steers the client only when it is well formed, bears this client's id, is newer
  than every datagram counted before it and control is on this machine; and the number it
  bore is then the last one counted, so a repetition never moves the cursor twice.
\<close>
theorem only_fresh_motion_steers:
  assumes "cl_motion (on_motion_datagram own absolute bytes c) \<noteq> cl_motion c"
  shows "\<exists>d dx dy. unpack bytes = Some d \<and> dg_id d = own \<and> dg_msg d = MouseMoveRel dx dy \<and> cl_active c \<and>
    is_newer (dg_seq d) (cl_motion_seq c) \<and> cl_motion_seq (on_motion_datagram own absolute bytes c) = dg_seq d \<and>
    on_motion_datagram own absolute bytes (on_motion_datagram own absolute bytes c) = on_motion_datagram own absolute bytes c"
proof -
  have seq: "cl_motion_seq (apply_motion_frame absolute dx dy b) = cl_motion_seq b" for dx dy b
    by (simp add: apply_motion_frame_def Let_def split: prod.split)
  obtain d where d: "unpack bytes = Some d" "dg_id d = own" "is_newer (dg_seq d) (cl_motion_seq c)"
    using assms by (auto simp: on_motion_datagram_def split: option.splits if_splits)
  have m: "\<exists>dx dy. dg_msg d = MouseMoveRel dx dy" "cl_active c"
    using assms d by (auto simp: on_motion_datagram_def Let_def split: message.splits if_splits)
  then have s: "cl_motion_seq (on_motion_datagram own absolute bytes c) = dg_seq d"
    using d by (auto simp: on_motion_datagram_def Let_def seq)
  have "\<not> is_newer (dg_seq d) (dg_seq d)" by (simp add: is_newer_def)
  then have "on_motion_datagram own absolute bytes (on_motion_datagram own absolute bytes c) = on_motion_datagram own absolute bytes c"
    unfolding on_motion_datagram_def [of own absolute bytes "on_motion_datagram own absolute bytes c"] using d s by simp
  then show ?thesis using d m s by blast
qed

definition steering_client :: client where
  "steering_client = (new_client 0 hd_screen \<lparr>screens = []\<rparr>)\<lparr>cl_active := True\<rparr>"

theorem only_fresh_motion_steers_witness:
  "is_newer 1 (cl_motion_seq steering_client) \<and>
     cl_motion_seq (on_motion_datagram 1 True (pack 1 1 (MouseMoveRel 3 4)) steering_client) = 1"
proof -
  have u: "unpack (pack 1 1 (MouseMoveRel 3 4)) = Some \<lparr>dg_id = 1, dg_seq = 1, dg_msg = MouseMoveRel 3 4\<rparr>"
    by (rule unpack_pack) (simp add: sendable_def in_i32_def put_i32_def MAX_PAYLOAD_def)
  have "ms_frames_win (cl_motion (on_motion_datagram 1 True (pack 1 1 (MouseMoveRel 3 4)) steering_client)) = 1"
    "ms_frames_win (cl_motion steering_client) = 0"
    by (simp_all add: on_motion_datagram_def u steering_client_def new_client_def is_newer_def apply_motion_frame_def Let_def)
  then have "cl_motion (on_motion_datagram 1 True (pack 1 1 (MouseMoveRel 3 4)) steering_client) \<noteq> cl_motion steering_client"
    by auto
  from only_fresh_motion_steers [OF this] show ?thesis using u by auto
qed

text \<open>
  A link error ends \<open>run\<close> without stopping the workers (it returns before the \<open>stop\<close> that every
  other end sets): a client that had control keeps it after its session has failed, the motion
  loop goes on placing the cursor on the old command, and as it goes on ticking the supervisor
  never releases the machine.
\<close>
theorem link_error_leaves_workers_steering:
  assumes "cl_active c" "\<not> cl_stop c" "\<not> resumed" "\<not> secure"
    "fo_command (ms_follower (cl_motion c)) = (x, y)" "rpos \<noteq> (x, y)"
  shows "\<exists>c'. control_turn now own True pos pos' resumed secure outgoing send_err (Inl e) c = LinkFailed e c' \<and>
    cl_active c' \<and> \<not> cl_stop c' \<and>
    MoveCursor x y \<in> set (drop (length (cl_calls c')) (cl_calls (motion_tick later own True rpos scr c'))) \<and>
    (\<not> cl_stop (motion_tick later own True rpos scr c') \<longrightarrow>
       supervisor_wake (later div 10 ^ 6) free (motion_tick later own True rpos scr c') = motion_tick later own True rpos scr c')"
proof -
  have tick: "cl_motion_tick (motion_tick later own True rpos scr c) = later div 10 ^ 6"
    using assms(1,2) by (simp add: motion_tick_def Let_def steer_def drain_events_def inject_def on_motion_def
        send_beacon_def split: prod.split)
  have "placement True rpos c = [MoveCursor x y]" using assms(5,6) by (simp add: placement_def)
  then show ?thesis
    using assms motion_tick_calls [OF assms(1,2), of later own True rpos scr] tick
    by (auto simp: control_turn_def supervisor_wake_def)
qed

lemma steering_now: "cl_active steering_client" "\<not> cl_stop steering_client"
  by (simp_all add: steering_client_def new_client_def)

theorem link_error_leaves_workers_steering_witness:
  "\<exists>c'. control_turn 1 1 True (0, 0) (0, 0) False False [] None (Inl (IoError OtherError ''broken pipe'')) steering_client
     = LinkFailed (IoError OtherError ''broken pipe'') c' \<and> cl_active c' \<and> \<not> cl_stop c'"
proof -
  obtain x y where "fo_command (ms_follower (cl_motion steering_client)) = (x, y)" by fastforce
  moreover have "(x + 1, y) \<noteq> (x, y)" by simp
  ultimately show ?thesis
    using link_error_leaves_workers_steering [where c = steering_client and resumed = False and secure = False
        and x = x and y = y and rpos = "(x + 1, y)"] steering_now by blast
qed

section \<open>The pinned cursor\<close>

text \<open>
  The windows of a run: before each probe some motion is commanded.  Of every window that is due
  the run gives whether it was a pinned one, and whether the cursor is reported as pinned.
\<close>

record probe_call =
  pc_now :: nat
  pc_x :: int
  pc_y :: int
  pc_screen :: screen_info
  pc_commanded :: int

fun pin_run :: "probe_call list \<Rightarrow> motion_state \<Rightarrow> (bool \<times> bool) list" where
  "pin_run [] m = []"
| "pin_run (p # ps) m =
     (let m1 = m\<lparr>ms_win_cmd_px := ms_win_cmd_px m + pc_commanded p\<rparr>;
          (pinned, m2) = probe_window (pc_now p) (pc_x p) (pc_y p) (pc_screen p) m1 in
      if probe_due (pc_now p) (ms_probe m1) then (pin_window (pc_x p) (pc_y p) m1, pinned) # pin_run ps m2
      else pin_run ps m2)"

definition trailing :: "bool list \<Rightarrow> nat" where
  "trailing bs = length (takeWhile (\<lambda>b. b) (rev bs))"

lemma trailing_simps [simp]: "trailing [] = 0" "trailing (bs @ [b]) = (if b then trailing bs + 1 else 0)"
  by (simp_all add: trailing_def)

lemma trailing_le: "trailing bs \<le> length bs"
  unfolding trailing_def by (metis length_rev length_takeWhile_le)

lemma trailing_last: "k < trailing bs \<Longrightarrow> bs ! (length bs - 1 - k)"
proof (induction bs arbitrary: k rule: rev_induct)
  case (snoc b bs)
  then show ?case
  proof (cases k)
    case (Suc j)
    then have j: "j < trailing bs" using snoc.prems by (auto split: if_splits)
    then have "j < length bs" using trailing_le [of bs] by simp
    then have idx: "length bs - Suc j < length bs" by simp
    have "(bs @ [b]) ! (length bs - Suc j) = bs ! (length bs - Suc j)" unfolding nth_append using idx by (rule if_P)
    then show ?thesis using snoc.IH [OF j] Suc by simp
  qed (auto split: if_splits)
qed simp

lemma pin_run_trailing:
  assumes "length pre + length ps < 2 ^ 32" "unat (ms_pin_windows m) = trailing pre" "i < length (pin_run ps m)"
    "snd (pin_run ps m ! i)"
  shows "6 \<le> trailing (pre @ map fst (take (i + 1) (pin_run ps m)))"
  using assms
proof (induction ps arbitrary: pre m i)
  case (Cons p ps)
  let ?m1 = "m\<lparr>ms_win_cmd_px := ms_win_cmd_px m + pc_commanded p\<rparr>"
  obtain pinned m2 where w: "probe_window (pc_now p) (pc_x p) (pc_y p) (pc_screen p) ?m1 = (pinned, m2)" by fastforce
  show ?case
  proof (cases "probe_due (pc_now p) (ms_probe ?m1)")
    case False
    then have "m2 = ?m1" using w by (simp add: probe_window_def)
    then show ?thesis using Cons False w by simp
  next
    case True
    let ?b = "pin_window (pc_x p) (pc_y p) ?m1"
    have run: "pin_run (p # ps) m = (?b, pinned) # pin_run ps m2" using w True by simp
    have pins: "ms_pin_windows m2 = (if ?b then ms_pin_windows m + 1 else 0)"
      "pinned \<longrightarrow> PIN_WINDOWS_TO_TRIP \<le> ms_pin_windows m2"
      using w True by (auto simp: probe_window_def Let_def split: prod.splits)
    have "trailing pre + 1 < 2 ^ 32" using Cons.prems(1) trailing_le [of pre] by simp
    then have count: "unat (ms_pin_windows m2) = trailing (pre @ [?b])"
      using pins(1) Cons.prems(2) by (simp add: unat_word_ariths)
    show ?thesis
    proof (cases i)
      case 0
      then have "PIN_WINDOWS_TO_TRIP \<le> ms_pin_windows m2" using Cons.prems(4) run pins(2) by simp
      then have "6 \<le> unat (ms_pin_windows m2)" by (simp add: PIN_WINDOWS_TO_TRIP_def word_le_nat_alt)
      then show ?thesis using 0 run count by simp
    next
      case (Suc j)
      have "6 \<le> trailing ((pre @ [?b]) @ map fst (take (j + 1) (pin_run ps m2)))"
        using Cons.prems run Suc by (intro Cons.IH) (simp_all add: count)
      then show ?thesis using run Suc by simp
    qed
  qed
qed simp

text \<open>
  The client takes its cursor for pinned, and gives the machine back, only after six
  windows in a row in each of which more than 60 pixels were commanded and fewer than six
  travelled: one window in which the cursor follows, or is not commanded, starts the count again.
\<close>
theorem pinned_needs_six_windows:
  assumes "length ps < 2 ^ 32" "ms_pin_windows m = 0" "i < length (pin_run ps m)" "snd (pin_run ps m ! i)" "k < 6"
  shows "5 \<le> i \<and> fst (pin_run ps m ! (i - k))"
proof -
  let ?bs = "map fst (take (i + 1) (pin_run ps m))"
  have t: "6 \<le> trailing ?bs" using pin_run_trailing [of "[]" ps m i] assms(1-4) by simp
  have len: "length ?bs = i + 1" using assms(3) by simp
  then have "5 \<le> i" using t trailing_le [of ?bs] by simp
  moreover have "?bs ! (length ?bs - 1 - k)" using t assms(5) by (intro trailing_last) simp
  ultimately show ?thesis using len assms(3,5) by simp
qed

definition stuck :: "nat \<Rightarrow> probe_call" where
  "stuck k = \<lparr>pc_now = k * 10 ^ 8, pc_x = 500, pc_y = 500, pc_screen = hd_screen, pc_commanded = 80\<rparr>"

lemma stuck_run:
  "pin_run (map stuck [1, 2, 3, 4, 5, 6, 7]) (cl_motion (new_client 0 hd_screen \<lparr>screens = []\<rparr>)) =
     [(False, False), (True, False), (True, False), (True, False), (True, False), (True, False), (True, True)]"
  by (simp add: stuck_def new_client_def probe_window_def probe_due_def new_probe_def PROBE_INTERVAL_def sample_def
      pin_window_def PIN_MIN_COMMANDED_PX_def PIN_MAX_TRAVEL_PX_def PIN_WINDOWS_TO_TRIP_def add32_def sub32_def
      abs32_def wrap_i32_def at_screen_edge_def hd_screen_def Let_def word_le_nat_alt)

theorem pinned_needs_six_windows_witness:
  "fst (pin_run (map stuck [1, 2, 3, 4, 5, 6, 7]) (cl_motion (new_client 0 hd_screen \<lparr>screens = []\<rparr>)) ! 1)"
  using pinned_needs_six_windows [of "map stuck [1, 2, 3, 4, 5, 6, 7]" "cl_motion (new_client 0 hd_screen \<lparr>screens = []\<rparr>)" 6 5]
    stuck_run by (simp add: new_client_def)

end
