(* ===== verification/Keys.thy ===== *)
theory Keys
  imports Prelude
begin

text \<open>
  The canonical identity of a key, \<open>platform/src/keys.rs\<close>: USB HID usages on the wire, and the
  tables that convert them to the evdev codes of Linux and the set-1 scan codes of Windows.
\<close>

section \<open>The tables\<close>

definition ESCAPE_KEY_HID :: u32 where "ESCAPE_KEY_HID = 0x47"

text \<open>\<open>(HID usage, evdev code)\<close>.\<close>

definition HID_TO_EVDEV :: "(u32 \<times> u16) list" where
  "HID_TO_EVDEV =
    [(0x04, 30), (0x05, 48), (0x06, 46), (0x07, 32), (0x08, 18), (0x09, 33),
     (0x0a, 34), (0x0b, 35), (0x0c, 23), (0x0d, 36), (0x0e, 37), (0x0f, 38),
     (0x10, 50), (0x11, 49), (0x12, 24), (0x13, 25), (0x14, 16), (0x15, 19),
     (0x16, 31), (0x17, 20), (0x18, 22), (0x19, 47), (0x1a, 17), (0x1b, 45),
     (0x1c, 21), (0x1d, 44), (0x1e, 2), (0x1f, 3), (0x20, 4), (0x21, 5),
     (0x22, 6), (0x23, 7), (0x24, 8), (0x25, 9), (0x26, 10), (0x27, 11),
     (0x28, 28), (0x29, 1), (0x2a, 14), (0x2b, 15), (0x2c, 57), (0x2d, 12),
     (0x2e, 13), (0x2f, 26), (0x30, 27), (0x31, 43), (0x32, 86), (0x33, 39),
     (0x34, 40), (0x35, 41), (0x36, 51), (0x37, 52), (0x38, 53), (0x39, 58),
     (0x3a, 59), (0x3b, 60), (0x3c, 61), (0x3d, 62), (0x3e, 63), (0x3f, 64),
     (0x40, 65), (0x41, 66), (0x42, 67), (0x43, 68), (0x44, 87), (0x45, 88),
     (0x46, 99), (0x47, 70), (0x48, 119), (0x49, 110), (0x4a, 102), (0x4b, 104),
     (0x4c, 111), (0x4d, 107), (0x4e, 109), (0x4f, 106), (0x50, 105), (0x51, 108),
     (0x52, 103), (0x53, 69), (0x54, 98), (0x55, 55), (0x56, 74), (0x57, 78),
     (0x58, 96), (0x59, 79), (0x5a, 80), (0x5b, 81), (0x5c, 75), (0x5d, 76),
     (0x5e, 77), (0x5f, 71), (0x60, 72), (0x61, 73), (0x62, 82), (0x63, 83),
     (0x67, 117), (0x85, 85), (0x87, 89), (0x88, 93), (0x89, 124), (0x8a, 94),
     (0x8b, 95), (0xb0, 207), (0xb1, 201), (0xb3, 208), (0xb4, 168), (0xb5, 163),
     (0xb6, 165), (0xb7, 166), (0xb8, 161), (0xb9, 398), (0xcd, 164), (0x194, 150),
     (0x221, 217), (0x223, 172), (0x224, 158), (0x225, 159), (0x226, 156), (0x227, 173),
     (0x228, 128), (0xe0, 29), (0xe1, 42), (0xe2, 56), (0xe3, 125), (0xe4, 97),
     (0xe5, 54), (0xe6, 100), (0xe7, 126), (0xe8, 113), (0xe9, 115), (0xea, 114)]"

text \<open>\<open>(evdev code, HID usage)\<close>.\<close>

definition EVDEV_TO_HID :: "(u16 \<times> u32) list" where
  "EVDEV_TO_HID =
    [(1, 0x29), (2, 0x1e), (3, 0x1f), (4, 0x20), (5, 0x21), (6, 0x22),
     (7, 0x23), (8, 0x24), (9, 0x25), (10, 0x26), (11, 0x27), (12, 0x2d),
     (13, 0x2e), (14, 0x2a), (15, 0x2b), (16, 0x14), (17, 0x1a), (18, 0x08),
     (19, 0x15), (20, 0x17), (21, 0x1c), (22, 0x18), (23, 0x0c), (24, 0x12),
     (25, 0x13), (26, 0x2f), (27, 0x30), (28, 0x28), (29, 0xe0), (30, 0x04),
     (31, 0x16), (32, 0x07), (33, 0x09), (34, 0x0a), (35, 0x0b), (36, 0x0d),
     (37, 0x0e), (38, 0x0f), (39, 0x33), (40, 0x34), (41, 0x35), (42, 0xe1),
     (43, 0x31), (44, 0x1d), (45, 0x1b), (46, 0x06), (47, 0x19), (48, 0x05),
     (49, 0x11), (50, 0x10), (51, 0x36), (52, 0x37), (53, 0x38), (54, 0xe5),
     (55, 0x55), (56, 0xe2), (57, 0x2c), (58, 0x39), (59, 0x3a), (60, 0x3b),
     (61, 0x3c), (62, 0x3d), (63, 0x3e), (64, 0x3f), (65, 0x40), (66, 0x41),
     (67, 0x42), (68, 0x43), (69, 0x53), (70, 0x47), (71, 0x5f), (72, 0x60),
     (73, 0x61), (74, 0x56), (75, 0x5c), (76, 0x5d), (77, 0x5e), (78, 0x57),
     (79, 0x59), (80, 0x5a), (81, 0x5b), (82, 0x62), (83, 0x63), (85, 0x85),
     (86, 0x32), (87, 0x44), (88, 0x45), (89, 0x87), (93, 0x88), (94, 0x8a),
     (95, 0x8b), (96, 0x58), (97, 0xe4), (98, 0x54), (99, 0x46), (100, 0xe6),
     (102, 0x4a), (103, 0x52), (104, 0x4b), (105, 0x50), (106, 0x4f), (107, 0x4d),
     (108, 0x51), (109, 0x4e), (110, 0x49), (111, 0x4c), (113, 0xe8), (114, 0xea),
     (115, 0xe9), (117, 0x67), (119, 0x48), (124, 0x89), (125, 0xe3), (126, 0xe7),
     (128, 0x228), (150, 0x194), (156, 0x226), (158, 0x224), (159, 0x225), (161, 0xb8),
     (163, 0xb5), (164, 0xcd), (165, 0xb6), (166, 0xb7), (168, 0xb4), (172, 0x223),
     (173, 0x227), (201, 0xb1), (207, 0xb0), (208, 0xb3), (217, 0x221), (398, 0xb9)]"

text \<open>\<open>(HID usage, set-1 make code, extended)\<close>.\<close>

definition HID_TO_SCAN :: "(u32 \<times> u16 \<times> bool) list" where
  "HID_TO_SCAN =
    [(0x04, 0x1e, False), (0x05, 0x30, False), (0x06, 0x2e, False), (0x07, 0x20, False), (0x08, 0x12, False),
     (0x09, 0x21, False), (0x0a, 0x22, False), (0x0b, 0x23, False), (0x0c, 0x17, False), (0x0d, 0x24, False),
     (0x0e, 0x25, False), (0x0f, 0x26, False), (0x10, 0x32, False), (0x11, 0x31, False), (0x12, 0x18, False),
     (0x13, 0x19, False), (0x14, 0x10, False), (0x15, 0x13, False), (0x16, 0x1f, False), (0x17, 0x14, False),
     (0x18, 0x16, False), (0x19, 0x2f, False), (0x1a, 0x11, False), (0x1b, 0x2d, False), (0x1c, 0x15, False),
     (0x1d, 0x2c, False), (0x1e, 0x02, False), (0x1f, 0x03, False), (0x20, 0x04, False), (0x21, 0x05, False),
     (0x22, 0x06, False), (0x23, 0x07, False), (0x24, 0x08, False), (0x25, 0x09, False), (0x26, 0x0a, False),
     (0x27, 0x0b, False), (0x28, 0x1c, False), (0x29, 0x01, False), (0x2a, 0x0e, False), (0x2b, 0x0f, False),
     (0x2c, 0x39, False), (0x2d, 0x0c, False), (0x2e, 0x0d, False), (0x2f, 0x1a, False), (0x30, 0x1b, False),
     (0x31, 0x2b, False), (0x32, 0x56, False), (0x33, 0x27, False), (0x34, 0x28, False), (0x35, 0x29, False),
     (0x36, 0x33, False), (0x37, 0x34, False), (0x38, 0x35, False), (0x39, 0x3a, False), (0x3a, 0x3b, False),
     (0x3b, 0x3c, False), (0x3c, 0x3d, False), (0x3d, 0x3e, False), (0x3e, 0x3f, False), (0x3f, 0x40, False),
     (0x40, 0x41, False), (0x41, 0x42, False), (0x42, 0x43, False), (0x43, 0x44, False), (0x44, 0x57, False),
     (0x45, 0x58, False), (0x46, 0x37, True), (0x47, 0x46, False), (0x49, 0x52, True), (0x4a, 0x47, True),
     (0x4b, 0x49, True), (0x4c, 0x53, True), (0x4d, 0x4f, True), (0x4e, 0x51, True), (0x4f, 0x4d, True),
     (0x50, 0x4b, True), (0x51, 0x50, True), (0x52, 0x48, True), (0x53, 0x45, False), (0x54, 0x35, True),
     (0x55, 0x37, False), (0x56, 0x4a, False), (0x57, 0x4e, False), (0x58, 0x1c, True), (0x59, 0x4f, False),
     (0x5a, 0x50, False), (0x5b, 0x51, False), (0x5c, 0x4b, False), (0x5d, 0x4c, False), (0x5e, 0x4d, False),
     (0x5f, 0x47, False), (0x60, 0x48, False), (0x61, 0x49, False), (0x62, 0x52, False), (0x63, 0x53, False),
     (0x67, 0x59, False), (0xb5, 0x19, True), (0xb6, 0x10, True), (0xb7, 0x24, True), (0xcd, 0x22, True),
     (0x87, 0x73, False), (0x88, 0x70, False), (0x89, 0x7d, False), (0x8a, 0x79, False), (0x8b, 0x7b, False),
     (0xe0, 0x1d, False), (0xe1, 0x2a, False), (0xe2, 0x38, False), (0xe3, 0x5b, True), (0xe4, 0x1d, True),
     (0xe5, 0x36, False), (0xe6, 0x38, True), (0xe7, 0x5c, True), (0xe8, 0x20, True), (0xe9, 0x30, True),
     (0xea, 0x2e, True), (0x194, 0x32, True), (0x221, 0x65, True), (0x223, 0x32, True), (0x224, 0x6a, True),
     (0x225, 0x69, True), (0x226, 0x67, True), (0x227, 0x66, True), (0x228, 0x68, True)]"

section \<open>The lookups\<close>

definition lookup :: "('a \<times> 'b) list \<Rightarrow> 'a \<Rightarrow> 'b option" where
  "lookup table needle = map_option snd (List.find (\<lambda>(a, b). a = needle) table)"

definition evdev_from_hid :: "u32 \<Rightarrow> u16 option" where
  "evdev_from_hid hid = lookup HID_TO_EVDEV hid"

definition hid_from_evdev :: "u16 \<Rightarrow> u32 option" where
  "hid_from_evdev evdev = lookup EVDEV_TO_HID evdev"

definition scancode_from_hid :: "u32 \<Rightarrow> (u16 \<times> bool) option" where
  "scancode_from_hid hid = map_option (\<lambda>(h, s, e). (s, e)) (List.find (\<lambda>(h, s, e). h = hid) HID_TO_SCAN)"

definition hid_from_scancode :: "u16 \<Rightarrow> bool \<Rightarrow> u32 option" where
  "hid_from_scancode scan extended =
     map_option (\<lambda>(h, s, e). h) (List.find (\<lambda>(h, s, e). s = scan \<and> e = extended) HID_TO_SCAN)"

section \<open>Lookups as membership\<close>

text \<open>
  The tables are compared as integers: \<open>key_int\<close> and \<open>pair_int\<close> are injective, and the facts about
  the two concrete tables then compute.
\<close>

definition pair_int :: "'a::len word \<times> 'b::len word \<Rightarrow> int \<times> int" where
  "pair_int p = (uint (fst p), uint (snd p))"

definition scan_int :: "u32 \<times> u16 \<times> bool \<Rightarrow> int" where
  "scan_int p = 2 * uint (fst (snd p)) + (if snd (snd p) then 1 else 0)"

lemma pair_int_inj: "inj pair_int"
  by (auto simp: inj_def pair_int_def word_uint_eq_iff)

lemma scan_int_eq: "scan_int p = scan_int q \<longleftrightarrow> snd p = snd q"
  by (auto simp: scan_int_def prod_eq_iff word_uint_eq_iff split: if_splits) presburger+

lemma find_unique:
  assumes "distinct (map f t)" "\<And>x y. x \<in> set t \<Longrightarrow> y \<in> set t \<Longrightarrow> P x \<Longrightarrow> P y \<Longrightarrow> f x = f y"
  shows "List.find P t = Some x \<longleftrightarrow> x \<in> set t \<and> P x"
proof -
  have "List.find P t = Some x" if "x \<in> set t" "P x"
  proof -
    have "List.find P t \<noteq> None" using that by (auto simp: find_None_iff)
    then obtain y where y: "List.find P t = Some y" by blast
    then have in_t: "y \<in> set t" "P y" using find_SomeD by fast+
    have "f y = f x" by (rule assms(2) [OF in_t(1) that(1) in_t(2) that(2)])
    then have "y = x" using assms(1) in_t(1) that(1) unfolding distinct_map by (simp add: inj_on_def)
    then show ?thesis using y by simp
  qed
  then show ?thesis using find_SomeD by fast
qed

lemma lookup_iff: "distinct (map (\<lambda>p. uint (fst p)) t) \<Longrightarrow> lookup t (k :: 'a::len word) = Some v \<longleftrightarrow> (k, v) \<in> set t"
  using find_unique [of "\<lambda>p. uint (fst p)" t "\<lambda>(a, b). a = k" "(k, v)"]
  by (auto simp: lookup_def dest: find_SomeD)

lemmas table_ints = pair_int_def scan_int_def list.map fst_conv snd_conv uint_numeral uint_0_eq uint_1

lemma hid_keys_distinct: "distinct (map (\<lambda>p. uint (fst p)) HID_TO_EVDEV)"
  unfolding HID_TO_EVDEV_def table_ints by simp

lemma evdev_keys_distinct: "distinct (map (\<lambda>p. uint (fst p)) EVDEV_TO_HID)"
  unfolding EVDEV_TO_HID_def table_ints by simp

lemma scan_hids_distinct: "distinct (map (\<lambda>p. uint (fst p)) HID_TO_SCAN)"
  unfolding HID_TO_SCAN_def table_ints by simp

lemma evdev_back: "set (map (\<lambda>p. (uint (snd p), uint (fst p))) HID_TO_EVDEV) \<subseteq> set (map pair_int EVDEV_TO_HID)"
  unfolding HID_TO_EVDEV_def EVDEV_TO_HID_def table_ints by simp

lemma scans_distinct: "distinct (map scan_int (filter (\<lambda>p. uint (fst p) \<noteq> 0x223) HID_TO_SCAN))"
  unfolding HID_TO_SCAN_def table_ints by (simp add: table_ints)

lemma evdev_from_hid_iff: "evdev_from_hid h = Some e \<longleftrightarrow> (h, e) \<in> set HID_TO_EVDEV"
  unfolding evdev_from_hid_def by (rule lookup_iff [OF hid_keys_distinct])

lemma hid_from_evdev_iff: "hid_from_evdev e = Some h \<longleftrightarrow> (e, h) \<in> set EVDEV_TO_HID"
  unfolding hid_from_evdev_def by (rule lookup_iff [OF evdev_keys_distinct])

lemma in_evdev_table: "(h, e) \<in> set HID_TO_EVDEV \<Longrightarrow> (e, h) \<in> set EVDEV_TO_HID"
proof -
  assume "(h, e) \<in> set HID_TO_EVDEV"
  then have "pair_int (e, h) \<in> set (map pair_int EVDEV_TO_HID)" using evdev_back by (force simp: pair_int_def)
  then show ?thesis using inj_image_mem_iff [OF pair_int_inj] by force
qed

lemma evdev_tables_same_size: "length EVDEV_TO_HID = length HID_TO_EVDEV"
  by (simp add: EVDEV_TO_HID_def HID_TO_EVDEV_def)

lemma distinct_fst: "distinct (map (\<lambda>p. uint (fst p)) t) \<Longrightarrow> card (set t) = length t"
  by (metis distinct_card distinct_map)

lemma tables_reversed: "(e, h) \<in> set EVDEV_TO_HID \<longleftrightarrow> (h, e) \<in> set HID_TO_EVDEV"
proof -
  have "prod.swap ` set HID_TO_EVDEV \<subseteq> set EVDEV_TO_HID" using in_evdev_table by auto
  moreover have "card (prod.swap ` set HID_TO_EVDEV) = card (set EVDEV_TO_HID)"
    using distinct_fst [OF hid_keys_distinct] distinct_fst [OF evdev_keys_distinct] evdev_tables_same_size
    by (simp add: card_image)
  ultimately have "prod.swap ` set HID_TO_EVDEV = set EVDEV_TO_HID" by (intro card_subset_eq) auto
  then show ?thesis by force
qed

lemma evdev_round_trip: "evdev_from_hid h = Some e \<longleftrightarrow> hid_from_evdev e = Some h"
  by (simp add: evdev_from_hid_iff hid_from_evdev_iff tables_reversed)

lemma scancode_from_hid_iff: "scancode_from_hid h = Some (s, e) \<longleftrightarrow> (h, s, e) \<in> set HID_TO_SCAN"
  using find_unique [OF scan_hids_distinct, of "\<lambda>(a, b, c). a = h" "(h, s, e)"]
  by (auto simp: scancode_from_hid_def dest: find_SomeD)

lemma hid_from_scancode_in: "hid_from_scancode s e = Some h \<Longrightarrow> (h, s, e) \<in> set HID_TO_SCAN"
  by (auto simp: hid_from_scancode_def dest: find_SomeD)

lemma www_scancode: "hid_from_scancode 0x32 True = Some 0x194"
  by (simp add: hid_from_scancode_def HID_TO_SCAN_def)

lemma home_scancode: "(0x223, s, e) \<in> set HID_TO_SCAN \<Longrightarrow> s = 0x32 \<and> e"
  by (simp add: HID_TO_SCAN_def)

lemma scancode_forward:
  assumes "(h, s, e) \<in> set HID_TO_SCAN" "h \<noteq> 0x223"
  shows "hid_from_scancode s e = Some h"
proof -
  have "List.find (\<lambda>(h, a, b). a = s \<and> b = e) HID_TO_SCAN \<noteq> None"
    using assms(1) by (auto simp: find_None_iff)
  then obtain g where g: "hid_from_scancode s e = Some g" by (auto simp: hid_from_scancode_def)
  have m: "(g, s, e) \<in> set HID_TO_SCAN" by (rule hid_from_scancode_in [OF g])
  show ?thesis
  proof (cases "g = 0x223")
    case True
    then have "s = 0x32" "e" using home_scancode m by auto
    then have "g = 0x194" using g www_scancode by simp
    then show ?thesis using True by simp
  next
    case False
    let ?t = "filter (\<lambda>p. uint (fst p) \<noteq> 0x223) HID_TO_SCAN"
    have u: "uint x \<noteq> 0x223" if "x \<noteq> (0x223 :: u32)" for x using that by (auto simp: word_uint_eq_iff)
    have "(g, s, e) \<in> set ?t" "(h, s, e) \<in> set ?t" using m assms u False by auto
    moreover have "scan_int (g, s, e) = scan_int (h, s, e)" by (simp add: scan_int_eq)
    ultimately have "(g, s, e) = (h, s, e)" using scans_distinct by (auto simp only: distinct_map inj_on_def)
    then show ?thesis using g by simp
  qed
qed

section \<open>The two backends\<close>

text \<open>
  What a backend relies on: a key that capture names has a native code again, and it is the one
  that was pressed.
\<close>

locale key_codes =
  fixes capture :: "'c \<Rightarrow> u32 option" and inject :: "u32 \<Rightarrow> 'c option"
  assumes same_code: "capture c = Some h \<Longrightarrow> inject h = Some c"
begin

lemma capture_inj: "capture c = Some h \<Longrightarrow> capture d = Some h \<Longrightarrow> c = d"
  using same_code [of c h] same_code [of d h] by simp

end

interpretation evdev: key_codes hid_from_evdev evdev_from_hid
  by unfold_locales (simp add: evdev_round_trip)

interpretation scan: key_codes "\<lambda>(s, e). hid_from_scancode s e" scancode_from_hid
  by unfold_locales (auto simp: scancode_from_hid_iff dest: hid_from_scancode_in)

section \<open>Properties\<close>

text \<open>
  A key keeps its identity on every path: from Linux to Linux and from Windows to Windows
  the machine that injects it presses the very key that was pressed; and a key that goes to the
  native code of the other system and back is the same usage, for every usage but 0x223.
\<close>
theorem key_keeps_identity:
  "(hid_from_evdev c = Some h \<longrightarrow> evdev_from_hid h = Some c) \<and>
   (evdev_from_hid h = Some c \<longrightarrow> hid_from_evdev c = Some h) \<and>
   (hid_from_scancode s e = Some h \<longrightarrow> scancode_from_hid h = Some (s, e)) \<and>
   (scancode_from_hid h = Some (s, e) \<and> h \<noteq> 0x223 \<longrightarrow> hid_from_scancode s e = Some h)"
  using evdev.same_code [of c h] scan.same_code [of "(s, e)" h] scancode_forward [of h s e]
  by (auto simp: evdev_round_trip scancode_from_hid_iff)

theorem key_keeps_identity_witness:
  "hid_from_evdev 30 = Some 0x04 \<and> evdev_from_hid 0x04 = Some 30 \<and>
   hid_from_scancode 0x1e False = Some 0x04 \<and> scancode_from_hid 0x04 = Some (0x1e, False)"
proof -
  have "evdev_from_hid 0x04 = Some 30" "scancode_from_hid 0x04 = Some (0x1e, False)"
    by (simp_all add: evdev_from_hid_def lookup_def HID_TO_EVDEV_def scancode_from_hid_def HID_TO_SCAN_def)
  then show ?thesis using key_keeps_identity [of 30 "0x04" "0x1e" False] by simp
qed

text \<open>
  The exception: the Home key of a browser (usage 0x223) has the scan code of the WWW key, so a
  Windows server captures it as WWW (usage 0x194), and a Linux client opens the browser instead.
\<close>
theorem home_key_becomes_www:
  "scancode_from_hid 0x223 = Some (0x32, True) \<and> hid_from_scancode 0x32 True = Some 0x194 \<and>
   evdev_from_hid 0x194 \<noteq> evdev_from_hid 0x223"
  by (simp add: www_scancode scancode_from_hid_def HID_TO_SCAN_def evdev_from_hid_def lookup_def HID_TO_EVDEV_def)

end
