(* ===== verification/Evdev.thy ===== *)
theory Evdev
  imports Keys Messages Motion
begin

text \<open>
  The kernel capture of Linux, \<open>platform/src/evdev\<close>: the translation of kernel events into wire
  messages (\<open>device.rs\<close>), the reader with its grab and release life cycle (\<open>reader.rs\<close>), and the
  hot-plug scan with its inotify parser (\<open>hotplug.rs\<close>).

  The device nodes, \<open>EVIOCGRAB\<close> and \<open>poll\<close> are the kernel's: a pass is given what each device
  reported, and a transition is given the devices on which the ioctl succeeds.  The reader thread,
  the capture thread that steers it and their shared flag interleave in \<open>reader_step\<close>, where the
  two accesses the loop makes to the flag are two steps.  A fresh list is one the enumerator opened
  with any earlier snapshot of the known paths.
\<close>

unbundle bit_operations_syntax

section \<open>Kernel events\<close>

text \<open>The numbers of the kernel's \<open>input-event-codes.h\<close>, which the evdev crate names.\<close>

definition EV_KEY :: u16 where "EV_KEY = 1"
definition EV_REL :: u16 where "EV_REL = 2"
definition REL_X :: u16 where "REL_X = 0"
definition REL_Y :: u16 where "REL_Y = 1"
definition REL_HWHEEL :: u16 where "REL_HWHEEL = 6"
definition REL_WHEEL :: u16 where "REL_WHEEL = 8"
definition KEY_A :: u16 where "KEY_A = 30"
definition KEY_ENTER :: u16 where "KEY_ENTER = 28"
definition KEY_SPACE :: u16 where "KEY_SPACE = 57"
definition BTN_LEFT :: u16 where "BTN_LEFT = 0x110"
definition BTN_RIGHT :: u16 where "BTN_RIGHT = 0x111"
definition BTN_MIDDLE :: u16 where "BTN_MIDDLE = 0x112"
definition BTN_SIDE :: u16 where "BTN_SIDE = 0x113"
definition BTN_EXTRA :: u16 where "BTN_EXTRA = 0x114"

lemmas kernel_codes = EV_KEY_def EV_REL_def REL_X_def REL_Y_def REL_HWHEEL_def REL_WHEEL_def
  BTN_LEFT_def BTN_RIGHT_def BTN_MIDDLE_def BTN_SIDE_def BTN_EXTRA_def

text \<open>The canonical button ids of \<open>protocol/src/id.rs\<close>.\<close>

definition BUTTON_LEFT :: byte where "BUTTON_LEFT = 0"
definition BUTTON_MIDDLE :: byte where "BUTTON_MIDDLE = 1"
definition BUTTON_RIGHT :: byte where "BUTTON_RIGHT = 2"
definition BUTTON_EXTRA_1 :: byte where "BUTTON_EXTRA_1 = 3"
definition BUTTON_EXTRA_2 :: byte where "BUTTON_EXTRA_2 = 4"

lemmas button_ids = BUTTON_LEFT_def BUTTON_MIDDLE_def BUTTON_RIGHT_def BUTTON_EXTRA_1_def BUTTON_EXTRA_2_def

record input_event =
  ev_type :: u16
  ev_code :: u16
  ev_value :: int

section \<open>Translation\<close>

text \<open>\<open>PressState\<close>: the presses this reader forwarded a Down for, keys and buttons in one set.\<close>

type_synonym press_state = "u32 set"

definition key_action :: "u32 \<Rightarrow> int \<Rightarrow> press_state \<Rightarrow> key_kind option \<times> press_state" where
  "key_action hid value pressed =
     (if value = 1 then (Some KeyDown, insert hid pressed)
      else if value = 0 then (if hid \<in> pressed then Some KeyUp else None, pressed - {hid})
      else (if hid \<in> pressed then Some KeyRepeat else None, pressed))"

definition press_button :: "byte \<Rightarrow> bool \<Rightarrow> press_state \<Rightarrow> bool \<times> press_state" where
  "press_button i down pressed =
     (if down then (True, insert (ucast i) pressed)
      else (ucast i \<in> pressed, pressed - {ucast i}))"

definition button_of_code :: "u16 \<Rightarrow> byte option" where
  "button_of_code code =
     (if code = BTN_LEFT then Some BUTTON_LEFT
      else if code = BTN_RIGHT then Some BUTTON_RIGHT
      else if code = BTN_MIDDLE then Some BUTTON_MIDDLE
      else if code = BTN_SIDE then Some BUTTON_EXTRA_1
      else if code = BTN_EXTRA then Some BUTTON_EXTRA_2
      else None)"

definition rel_event :: "u16 \<Rightarrow> int \<Rightarrow> pending_motion \<Rightarrow> message list \<times> pending_motion" where
  "rel_event code value motion =
     (if code = REL_X then ([], pm_push (of_int value) 0 motion)
      else if code = REL_Y then ([], pm_push 0 (of_int value) motion)
      else if code = REL_WHEEL then ([MouseWheel 0 value], motion)
      else if code = REL_HWHEEL then ([MouseWheel value 0], motion)
      else ([], motion))"

definition key_event :: "u16 \<Rightarrow> int \<Rightarrow> press_state \<Rightarrow> message list \<times> press_state" where
  "key_event code value press =
     (case button_of_code code of
        Some i \<Rightarrow>
          (case press_button i (value \<noteq> 0) press of
             (forward, press') \<Rightarrow> (if forward then [MouseButton i (value \<noteq> 0)] else [], press'))
      | None \<Rightarrow>
          (case hid_from_evdev code of
             None \<Rightarrow> ([], press)
           | Some hid \<Rightarrow>
               if hid = ESCAPE_KEY_HID then (if value = 1 then [Escape] else [], press)
               else (case key_action hid value press of
                       (Some kind, press') \<Rightarrow> ([Key kind hid], press')
                     | (None, press') \<Rightarrow> ([], press'))))"

definition handle_event ::
  "input_event \<Rightarrow> pending_motion \<times> press_state \<Rightarrow> message list \<times> pending_motion \<times> press_state" where
  "handle_event ev s =
     (case s of (motion, press) \<Rightarrow>
        if ev_type ev = EV_REL then
          (case rel_event (ev_code ev) (ev_value ev) motion of (out, motion') \<Rightarrow> (out, motion', press))
        else if ev_type ev = EV_KEY then
          (case key_event (ev_code ev) (ev_value ev) press of (out, press') \<Rightarrow> (out, motion, press'))
        else ([], motion, press))"

fun handle_events ::
  "input_event list \<Rightarrow> pending_motion \<times> press_state \<Rightarrow> message list \<times> pending_motion \<times> press_state" where
  "handle_events [] s = ([], s)"
| "handle_events (ev # evs) s =
     (case handle_event ev s of (out, s') \<Rightarrow>
        case handle_events evs s' of (outs, s'') \<Rightarrow> (out @ outs, s''))"

section \<open>Devices\<close>

record device =
  dev_path :: string
  dev_name :: string
  dev_grabbed :: bool

text \<open>What opening an entry of \<open>/dev/input\<close> gives, and the capabilities of what opened.\<close>

record capabilities =
  relative_axes :: "u16 list option"
  key_codes_of :: "u16 list option"
  own_name :: "string option"

datatype open_result = PermissionDenied | OpenFailed | NotADevice | Device capabilities

record dir_entry =
  file_name :: string
  open_it :: open_result

definition classify :: "capabilities \<Rightarrow> bool" where
  "classify c =
     ((case relative_axes c of None \<Rightarrow> False | Some a \<Rightarrow> REL_X \<in> set a) \<or>
      (case key_codes_of c of None \<Rightarrow> False | Some k \<Rightarrow> KEY_A \<in> set k \<or> KEY_ENTER \<in> set k \<or> KEY_SPACE \<in> set k))"

definition entry_path :: "dir_entry \<Rightarrow> string" where
  "entry_path e = ''/dev/input/'' @ file_name e"

fun open_devices :: "string set \<Rightarrow> dir_entry list \<Rightarrow> device list \<times> bool" where
  "open_devices known [] = ([], False)"
| "open_devices known (e # es) =
     (case open_devices known es of (out, denied) \<Rightarrow>
        if take 5 (file_name e) \<noteq> ''event'' \<or> entry_path e \<in> known then (out, denied)
        else case open_it e of
               PermissionDenied \<Rightarrow> (out, True)
             | OpenFailed \<Rightarrow> (out, denied)
             | NotADevice \<Rightarrow> (out, denied)
             | Device c \<Rightarrow>
                 if classify c
                 then (\<lparr>dev_path = entry_path e,
                        dev_name = (case own_name c of Some n \<Rightarrow> n | None \<Rightarrow> file_name e),
                        dev_grabbed = False\<rparr> # out, denied)
                 else (out, denied))"

text \<open>\<open>ok\<close> names the devices on which the ioctl succeeds.\<close>

definition grab_device :: "(string \<Rightarrow> bool) \<Rightarrow> bool \<Rightarrow> device \<Rightarrow> device" where
  "grab_device ok grab d = (if ok (dev_path d) then d\<lparr>dev_grabbed := grab\<rparr> else d)"

fun absorb :: "bool \<Rightarrow> (string \<Rightarrow> bool) \<Rightarrow> device list \<Rightarrow> device list \<times> string set \<Rightarrow> device list \<times> string set" where
  "absorb remote ok [] s = s"
| "absorb remote ok (d # fresh) (devices, known) =
     (if dev_path d \<in> dev_path ` set devices then absorb remote ok fresh (devices, known)
      else absorb remote ok fresh
             (devices @ [if remote then grab_device ok True d else d], insert (dev_path d) known))"

text \<open>Whether a line is logged, and the state remembered.\<close>

definition log_presence :: "device list \<Rightarrow> bool \<Rightarrow> byte \<Rightarrow> bool \<times> byte" where
  "log_presence devices denied logged =
     (let state = (if devices \<noteq> [] then 1 else if denied then 2 else 3) in (logged \<noteq> state, state))"

section \<open>The reader\<close>

text \<open>
  What \<open>poll\<close> and \<open>fetch_events\<close> report of one device: nothing; a hang-up without input; the
  buffered events; a spurious wake-up; an error of the fetch.
\<close>

datatype poll_result = NotReady | Vanished | Events "input_event list" | WouldBlock | FetchError

text \<open>One pass over the devices: the messages, and the positions of the dead devices.\<close>

fun drain_devices ::
  "bool \<Rightarrow> nat \<Rightarrow> poll_result list \<Rightarrow> pending_motion \<times> press_state \<Rightarrow>
   message list \<times> nat list \<times> pending_motion \<times> press_state" where
  "drain_devices remote i [] s = ([], [], s)"
| "drain_devices remote i (Events evs # rs) s =
     (case (if remote then handle_events evs s else ([], s)) of (out, s') \<Rightarrow>
        case drain_devices remote (i + 1) rs s' of (outs, dead, s'') \<Rightarrow> (out @ outs, dead, s''))"
| "drain_devices remote i (r # rs) s =
     (case drain_devices remote (i + 1) rs s of (outs, dead, s') \<Rightarrow>
        (outs, if r = Vanished \<or> r = FetchError then i # dead else dead, s'))"

definition remove_at :: "nat \<Rightarrow> 'a list \<Rightarrow> 'a list" where
  "remove_at i xs = take i xs @ drop (i + 1) xs"

text \<open>\<open>devices.remove(i)\<close> panics past the end, and \<open>i\<close> comes from the devices themselves.\<close>

fun remove_dead :: "nat list \<Rightarrow> device list \<times> string set \<Rightarrow> device list \<times> string set" where
  "remove_dead [] s = s"
| "remove_dead (i # dead) (devices, known) =
     remove_dead dead (remove_at i devices, if i < length devices then known - {dev_path (devices ! i)} else known)"

text \<open>
  Where the loop is: applying fresh lists, holding the flag it loaded, or in \<open>poll\<close> and the pass
  after it.  \<open>rd_waiting\<close> is the capture thread inside \<open>release_and_wait\<close>, with the counter it saw.
\<close>

datatype reader_pc = AtTop | Loaded bool | Polling

record reader =
  rd_flag :: bool
  rd_ack :: nat
  rd_devices :: "device list"
  rd_known :: "string set"
  rd_was_remote :: bool
  rd_press :: press_state
  rd_motion :: pending_motion
  rd_logged :: byte
  rd_pc :: reader_pc
  rd_waiting :: "nat option"

definition start_reader :: "dir_entry list \<Rightarrow> reader" where
  "start_reader entries =
     (case open_devices {} entries of (devices, denied) \<Rightarrow>
        \<lparr>rd_flag = False, rd_ack = 0, rd_devices = devices, rd_known = dev_path ` set devices,
         rd_was_remote = False, rd_press = {}, rd_motion = empty_motion,
         rd_logged = snd (log_presence devices denied (- 1)), rd_pc = AtTop, rd_waiting = None\<rparr>)"

definition apply_fresh :: "(string \<Rightarrow> bool) \<Rightarrow> device list \<Rightarrow> bool \<Rightarrow> reader \<Rightarrow> reader" where
  "apply_fresh ok fresh denied r =
     (case absorb (rd_flag r) ok fresh (rd_devices r, rd_known r) of (devices, known) \<Rightarrow>
        r\<lparr>rd_devices := devices, rd_known := known, rd_logged := snd (log_presence devices denied (rd_logged r))\<rparr>)"

text \<open>The transition, when the loaded flag differs.  The purge empties the kernel's buffers.\<close>

definition apply_flag :: "(string \<Rightarrow> bool) \<Rightarrow> bool \<Rightarrow> reader \<Rightarrow> reader" where
  "apply_flag ok is_remote r =
     (if is_remote = rd_was_remote r then r\<lparr>rd_pc := Polling\<rparr>
      else r\<lparr>rd_devices := map (grab_device ok is_remote) (rd_devices r), rd_ack := rd_ack r + 1,
             rd_press := (if is_remote then rd_press r else {}), rd_was_remote := is_remote, rd_pc := Polling\<rparr>)"

definition drain_pass :: "poll_result list \<Rightarrow> reader \<Rightarrow> message list \<times> reader" where
  "drain_pass results r =
     (case drain_devices (rd_was_remote r) 0 results (rd_motion r, rd_press r) of (out, dead, motion, press) \<Rightarrow>
        case remove_dead (rev dead) (rd_devices r, rd_known r) of (devices, known) \<Rightarrow>
        case (if rd_was_remote r then pm_flush motion else ([], motion)) of (moves, motion') \<Rightarrow>
          (out @ map (\<lambda>(dx, dy). MouseMoveRel dx dy) moves,
           r\<lparr>rd_devices := devices, rd_known := known, rd_motion := motion', rd_press := press, rd_pc := AtTop\<rparr>))"

definition set_remote :: "bool \<Rightarrow> reader \<Rightarrow> reader" where
  "set_remote remote r = r\<lparr>rd_flag := remote\<rparr>"

definition release_start :: "reader \<Rightarrow> reader" where
  "release_start r = r\<lparr>rd_waiting := Some (rd_ack r), rd_flag := False\<rparr>"

text \<open>\<open>release_and_wait\<close> returns on the counter, or when its time is up.\<close>

definition release_acked :: "reader \<Rightarrow> bool" where
  "release_acked r = (case rd_waiting r of None \<Rightarrow> False | Some before \<Rightarrow> rd_ack r \<noteq> before)"

inductive reader_step :: "(string \<Rightarrow> bool) \<Rightarrow> reader \<Rightarrow> message list \<Rightarrow> reader \<Rightarrow> bool" for ok where
  fresh: "rd_pc r = AtTop \<Longrightarrow> open_devices known es = (devices, denied) \<Longrightarrow> reader_step ok r [] (apply_fresh ok devices denied r)"
| load: "rd_pc r = AtTop \<Longrightarrow> reader_step ok r [] (r\<lparr>rd_pc := Loaded (rd_flag r)\<rparr>)"
| flag: "rd_pc r = Loaded b \<Longrightarrow> reader_step ok r [] (apply_flag ok b r)"
| woken: "rd_pc r = Polling \<Longrightarrow> reader_step ok r [] (r\<lparr>rd_pc := AtTop\<rparr>)"
| drain: "rd_pc r = Polling \<Longrightarrow> length results = length (rd_devices r) \<Longrightarrow> drain_pass results r = (out, r') \<Longrightarrow>
    reader_step ok r out r'"
| remote: "rd_waiting r = None \<Longrightarrow> reader_step ok r [] (set_remote b r)"
| release: "rd_waiting r = None \<Longrightarrow> reader_step ok r [] (release_start r)"
| released: "rd_waiting r \<noteq> None \<Longrightarrow> reader_step ok r [] (r\<lparr>rd_waiting := None\<rparr>)"

inductive_cases reader_stepE: "reader_step ok r out r'"

text \<open>
  A run, with what the reader has sent since its last transition: what the client has seen of
  this visit.
\<close>

inductive visit :: "dir_entry list \<Rightarrow> reader \<Rightarrow> message list \<Rightarrow> bool" for entries where
  first: "visit entries (start_reader entries) []"
| step: "visit entries r sent \<Longrightarrow> reader_step ok r out r' \<Longrightarrow>
    visit entries r' (if rd_was_remote r' = rd_was_remote r then sent @ out else [])"

section \<open>Hot-plug\<close>

text \<open>The flags of the kernel's \<open>inotify.h\<close>: create, delete, moved from, moved to; queue overflow.\<close>

definition WATCH_MASK :: u32 where "WATCH_MASK = 0x100 OR 0x200 OR 0x40 OR 0x80"
definition IN_Q_OVERFLOW :: u32 where "IN_Q_OVERFLOW = 0x4000"

text \<open>\<open>from_ne_bytes\<close> of the four bytes at an offset, on a little-endian machine.\<close>

definition u32_at :: "byte list \<Rightarrow> nat \<Rightarrow> u32" where
  "u32_at buf off = word_of_nat (be_val (rev (take 4 (drop off buf))))"

text \<open>
  The loop of \<open>parse_inotify\<close>, as a function that may run forever; the length of a record comes
  from the record itself.
\<close>

partial_function (option) parse_from :: "byte list \<Rightarrow> nat \<Rightarrow> bool \<Rightarrow> bool option" where
  "parse_from buf off changed =
     (if off + 16 \<le> length buf then
        parse_from buf (off + (16 + unat (u32_at buf (off + 12))))
          (changed \<or> u32_at buf (off + 4) AND (WATCH_MASK OR IN_Q_OVERFLOW) \<noteq> 0)
      else Some changed)"

definition parse_inotify :: "byte list \<Rightarrow> bool option" where
  "parse_inotify buf = parse_from buf 0 False"

lemma b_hid: "hid_from_evdev 48 = Some 5"
  by (simp add: hid_from_evdev_def EVDEV_TO_HID_def lookup_def)

end
