(* ===== verification/Evdev_Rules.thy ===== *)
theory Evdev_Rules
  imports Evdev
begin

text \<open>
  What the kernel capture guarantees: the presses it forwards are paired, its watch list and the
  enumerator's agree, a crossing back leaves the devices free, and every inotify buffer is parsed.
\<close>

section \<open>Paired presses\<close>

text \<open>
  Whether the client holds key \<open>h\<close> after messages, and whether every release and repeat of \<open>h\<close>
  among them comes while it is held.
\<close>

fun tracked :: "u32 \<Rightarrow> bool \<Rightarrow> message list \<Rightarrow> bool" where
  "tracked h held [] = held"
| "tracked h held (Key KeyDown g # ms) = tracked h (g = h \<or> held) ms"
| "tracked h held (Key KeyUp g # ms) = tracked h (g \<noteq> h \<and> held) ms"
| "tracked h held (m # ms) = tracked h held ms"

fun paired :: "u32 \<Rightarrow> bool \<Rightarrow> message list \<Rightarrow> bool" where
  "paired h held [] = True"
| "paired h held (Key KeyDown g # ms) = paired h (g = h \<or> held) ms"
| "paired h held (Key KeyUp g # ms) = ((g = h \<longrightarrow> held) \<and> paired h (g \<noteq> h \<and> held) ms)"
| "paired h held (Key KeyRepeat g # ms) = ((g = h \<longrightarrow> held) \<and> paired h held ms)"
| "paired h held (m # ms) = paired h held ms"

lemma tracked_append [simp]: "tracked h b (ms @ ns) = tracked h (tracked h b ms) ns"
  by (induction h b ms rule: tracked.induct) auto

lemma paired_append [simp]: "paired h b (ms @ ns) \<longleftrightarrow> paired h b ms \<and> paired h (tracked h b ms) ns"
  by (induction h b ms rule: paired.induct) auto

lemma moves_paired [simp]:
  "paired h b (map (\<lambda>(dx, dy). MouseMoveRel dx dy) ms)"
  "tracked h b (map (\<lambda>(dx, dy). MouseMoveRel dx dy) ms) = b"
  by (induction ms) auto

text \<open>A key above the button ids, whose presses no button shares.\<close>

definition own_key :: "u32 \<Rightarrow> bool" where
  "own_key h \<longleftrightarrow> h \<noteq> 4 \<and> h \<noteq> 3 \<and> h \<noteq> 2 \<and> h \<noteq> 1 \<and> h \<noteq> 0"

lemma button_of_code_cases:
  "button_of_code code = Some i \<Longrightarrow> ucast i \<in> {0, 1, 2, 3, 4 :: u32}"
  by (auto simp: button_of_code_def button_ids split: if_splits)

lemma handle_event_paired:
  assumes "own_key h" "handle_event ev (motion, press) = (out, motion', press')"
  shows "paired h (h \<in> press) out" "tracked h (h \<in> press) out \<longleftrightarrow> h \<in> press'"
proof -
  have "paired h (h \<in> press) out \<and> (tracked h (h \<in> press) out \<longleftrightarrow> h \<in> press')"
  proof (cases "ev_type ev = EV_KEY")
    case True
    then have e: "key_event (ev_code ev) (ev_value ev) press = (out, press')"
      using assms(2) by (simp add: handle_event_def kernel_codes split: prod.splits)
    show ?thesis
    proof (cases "button_of_code (ev_code ev)")
      case (Some i)
      then have "ucast i \<noteq> h" using button_of_code_cases [OF Some] assms(1) by (auto simp: own_key_def)
      then show ?thesis using e Some by (auto simp: key_event_def press_button_def split: if_splits)
    next
      case None
      then show ?thesis using e
        by (auto simp: key_event_def key_action_def split: option.splits if_splits)
    qed
  next
    case False
    then show ?thesis using assms(2)
      by (auto simp: handle_event_def rel_event_def split: prod.splits if_splits)
  qed
  then show "paired h (h \<in> press) out" "tracked h (h \<in> press) out \<longleftrightarrow> h \<in> press'" by simp_all
qed

lemma handle_events_paired:
  "own_key h \<Longrightarrow> handle_events evs s = (out, motion', press') \<Longrightarrow>
     paired h (h \<in> snd s) out \<and> (tracked h (h \<in> snd s) out \<longleftrightarrow> h \<in> press')"
proof (induction evs arbitrary: s out)
  case (Cons ev evs)
  obtain o1 m1 p1 where 1: "handle_event ev s = (o1, m1, p1)" by (metis prod_cases3)
  obtain o2 where 2: "handle_events evs (m1, p1) = (o2, motion', press')" "out = o1 @ o2"
    using Cons.prems(2) 1 by (auto split: prod.splits)
  show ?case
    using handle_event_paired [of h ev "fst s" "snd s" o1 m1 p1] 1 Cons.prems(1) Cons.IH [OF Cons.prems(1) 2(1)] 2(2)
    by simp
qed simp

lemma drain_devices_paired:
  "own_key h \<Longrightarrow> drain_devices remote i rs s = (out, dead, motion', press') \<Longrightarrow>
     paired h (h \<in> snd s) out \<and> (tracked h (h \<in> snd s) out \<longleftrightarrow> h \<in> press')"
proof (induction remote i rs s arbitrary: out dead rule: drain_devices.induct)
  case (2 remote i evs rs s)
  obtain o1 m1 p1 where 1: "(if remote then handle_events evs s else ([], s)) = (o1, m1, p1)"
    by (metis prod_cases3)
  then have e: "paired h (h \<in> snd s) o1 \<and> (tracked h (h \<in> snd s) o1 \<longleftrightarrow> h \<in> p1)"
    using handle_events_paired [OF "2.prems"(1), of evs s o1 m1 p1] by (auto split: if_splits)
  obtain o2 d2 where 2: "drain_devices remote (i + 1) rs (m1, p1) = (o2, d2, motion', press')" "out = o1 @ o2"
    using "2.prems"(2) 1 by (auto split: prod.splits)
  show ?case using e "2.IH" [OF 1 [symmetric] "2.prems"(1) 2(1)] 2(2) by simp
qed (auto split: prod.splits)

lemma drain_pass_paired:
  assumes "own_key h" "drain_pass rs r = (out, r')"
  shows "paired h (h \<in> rd_press r) out" "tracked h (h \<in> rd_press r) out \<longleftrightarrow> h \<in> rd_press r'"
    "rd_was_remote r' = rd_was_remote r"
  using assms drain_devices_paired [of h "rd_was_remote r" 0 rs "(rd_motion r, rd_press r)"]
  by (auto simp: drain_pass_def split: prod.splits)

lemma handle_local:
  "drain_devices False i rs s = (out, dead, s') \<Longrightarrow> out = [] \<and> s' = s"
  by (induction "False" i rs s arbitrary: out dead rule: drain_devices.induct) (auto split: prod.splits)

lemma drain_pass_local: "drain_pass rs r = (out, r') \<Longrightarrow> \<not> rd_was_remote r \<Longrightarrow> out = [] \<and> rd_press r' = rd_press r"
  by (auto simp: drain_pass_def dest!: handle_local split: prod.splits)

lemmas reader_ops = apply_fresh_def apply_flag_def set_remote_def release_start_def

lemma visit_paired:
  assumes "own_key h"
  shows "visit entries r sent \<Longrightarrow>
    paired h False sent \<and> (tracked h False sent \<longleftrightarrow> h \<in> rd_press r) \<and> (\<not> rd_was_remote r \<longrightarrow> rd_press r = {})"
proof (induction rule: visit.induct)
  case first
  then show ?case by (simp add: start_reader_def split: prod.splits)
next
  case (step r sent ok out r')
  from step.hyps(2) show ?case
  proof cases
    case (drain results)
    then show ?thesis
      using step.IH drain_pass_paired [OF assms, of results r out r'] drain_pass_local [of results r out r'] by simp
  qed (use step.IH in \<open>auto simp: reader_ops split: prod.splits\<close>)
qed

section \<open>The watch list\<close>

text \<open>No device is watched twice, and \<open>known_paths\<close> is what keeps the enumerator from opening it again.\<close>

definition watch_ok :: "device list \<times> string set \<Rightarrow> bool" where
  "watch_ok s \<longleftrightarrow> distinct (map dev_path (fst s)) \<and> snd s = dev_path ` set (fst s)"

lemma grab_device_path [simp]: "dev_path (grab_device ok b d) = dev_path d"
  by (simp add: grab_device_def)

lemma absorb_watch_ok: "watch_ok s \<Longrightarrow> watch_ok (absorb remote ok fresh s)"
proof (induction remote ok fresh s rule: absorb.induct)
  case (2 remote ok d fresh devices known)
  then show ?case by (auto simp: watch_ok_def)
qed simp

lemma remove_dead_watch_ok: "watch_ok s \<Longrightarrow> watch_ok (remove_dead dead s)"
proof (induction dead s rule: remove_dead.induct)
  case (2 i dead devices known)
  have "watch_ok (remove_at i devices, if i < length devices then known - {dev_path (devices ! i)} else known)"
  proof (cases "i < length devices")
    case True
    then obtain a b where d: "devices = a @ devices ! i # b" "length a = i"
      using id_take_nth_drop [OF True] by (metis length_take min.absorb4)
    then have "remove_at i devices = a @ b" unfolding remove_at_def
      by (metis One_nat_def add.right_neutral add_Suc_right append_eq_conv_conj drop_Suc_Cons drop_append
          diff_Suc_1 drop_all drop0 le_add2 append_Nil add_diff_cancel_left' lessI less_imp_le_nat)
    moreover have "watch_ok (a @ devices ! i # b, known)" using "2.prems" d(1) by simp
    ultimately show ?thesis using True by (auto simp: watch_ok_def) (metis image_eqI)+
  next
    case False
    then show ?thesis using "2.prems" by (simp add: remove_at_def)
  qed
  then show ?case using "2.IH" by simp
qed simp

lemma open_devices_paths:
  "d \<in> set (fst (open_devices known es)) \<Longrightarrow> dev_path d \<in> entry_path ` set es \<and> dev_path d \<notin> known"
  by (induction es) (fastforce split: prod.splits open_result.splits if_splits)+

lemma open_devices_distinct:
  "distinct (map file_name es) \<Longrightarrow> distinct (map dev_path (fst (open_devices known es)))"
proof (induction es)
  case (Cons e es)
  have "entry_path e \<notin> entry_path ` set es" using Cons.prems by (auto simp: entry_path_def)
  then have "entry_path e \<notin> dev_path ` set (fst (open_devices known es))"
    using open_devices_paths [of _ known es] by auto
  then show ?case using Cons by (auto split: prod.splits open_result.splits)
qed simp

lemma visit_watch_ok:
  assumes "distinct (map file_name entries)"
  shows "visit entries r sent \<Longrightarrow> watch_ok (rd_devices r, rd_known r)"
proof (induction rule: visit.induct)
  case first
  show ?case
    using open_devices_distinct [OF assms, of "{}"]
    by (cases "open_devices {} entries") (simp add: start_reader_def watch_ok_def)
next
  case (step r sent ok out r')
  from step.hyps(2) show ?case
  proof cases
    case (fresh known es devices denied)
    then show ?thesis
      using absorb_watch_ok [OF step.IH, of "rd_flag r" ok devices] by (auto simp: apply_fresh_def split: prod.splits)
  next
    case (drain results)
    then show ?thesis
      using remove_dead_watch_ok [OF step.IH] by (auto simp: drain_pass_def split: prod.splits) (metis)+
  qed (use step.IH in \<open>auto simp: apply_flag_def set_remote_def release_start_def watch_ok_def comp_def image_image\<close>)
qed

section \<open>The crossing back\<close>

text \<open>
  While the capture thread is in \<open>release_and_wait\<close> on a reader that isolates its devices and is
  not between its two accesses to the flag, the counter moves only with the release.
\<close>

definition releasing :: "(string \<Rightarrow> bool) \<Rightarrow> reader \<Rightarrow> bool" where
  "releasing ok r \<longleftrightarrow>
     (\<exists>n. rd_waiting r = Some n \<and> \<not> rd_flag r \<and> rd_pc r \<noteq> Loaded True \<and>
        (if rd_was_remote r then rd_ack r = n
         else \<forall>d \<in> set (rd_devices r). ok (dev_path d) \<longrightarrow> \<not> dev_grabbed d))"

inductive waits :: "(string \<Rightarrow> bool) \<Rightarrow> reader \<Rightarrow> reader \<Rightarrow> bool" for ok where
  here: "waits ok r r"
| step: "waits ok r r' \<Longrightarrow> reader_step ok r' out r'' \<Longrightarrow> rd_waiting r'' \<noteq> None \<Longrightarrow> waits ok r r''"

lemma open_devices_free: "d \<in> set (fst (open_devices known es)) \<Longrightarrow> \<not> dev_grabbed d"
  by (induction es) (auto split: prod.splits open_result.splits if_splits)

lemma absorb_local:
  "d \<in> set (fst (absorb False ok fresh s)) \<Longrightarrow> d \<in> set fresh \<or> d \<in> set (fst s)"
  by (induction "False" ok fresh s rule: absorb.induct) (fastforce split: if_splits)+

lemma remove_dead_subset: "d \<in> set (fst (remove_dead dead s)) \<Longrightarrow> d \<in> set (fst s)"
proof (induction dead s rule: remove_dead.induct)
  case (2 i dead devices known)
  then have "d \<in> set (remove_at i devices)" by simp
  then show ?case by (auto simp: remove_at_def dest: in_set_takeD in_set_dropD)
qed simp

lemma drain_pass_fields:
  assumes "drain_pass rs r = (out, r')"
  shows "rd_waiting r' = rd_waiting r" "rd_flag r' = rd_flag r" "rd_pc r' = AtTop" "rd_ack r' = rd_ack r"
    "rd_was_remote r' = rd_was_remote r" "set (rd_devices r') \<subseteq> set (rd_devices r)"
proof -
  obtain o1 dead m p where 1: "drain_devices (rd_was_remote r) 0 rs (rd_motion r, rd_press r) = (o1, dead, m, p)"
    by (metis prod_cases4)
  obtain ds k where 2: "remove_dead (rev dead) (rd_devices r, rd_known r) = (ds, k)" by fastforce
  then have "set ds \<subseteq> set (rd_devices r)" using remove_dead_subset [of _ "rev dead" "(rd_devices r, rd_known r)"] by auto
  then show "rd_waiting r' = rd_waiting r" "rd_flag r' = rd_flag r" "rd_pc r' = AtTop" "rd_ack r' = rd_ack r"
    "rd_was_remote r' = rd_was_remote r" "set (rd_devices r') \<subseteq> set (rd_devices r)"
    using assms 1 2 by (auto simp: drain_pass_def split: prod.splits)
qed

lemma releasing_step:
  assumes "releasing ok r" "reader_step ok r out r'" "rd_waiting r' \<noteq> None"
  shows "releasing ok r'"
  using assms(2)
proof cases
  case (fresh known es devices denied)
  show ?thesis
  proof (cases "rd_was_remote r")
    case True
    then show ?thesis using assms(1) fresh by (auto simp: releasing_def apply_fresh_def split: prod.splits)
  next
    case False
    obtain ds k where a: "absorb False ok devices (rd_devices r, rd_known r) = (ds, k)" by fastforce
    have "ok (dev_path d) \<longrightarrow> \<not> dev_grabbed d" if "d \<in> set ds" for d
      using absorb_local [of d ok devices "(rd_devices r, rd_known r)"] a that False assms(1)
        open_devices_free [of d known es] fresh(4) by (auto simp: releasing_def)
    then show ?thesis using assms(1) fresh False a by (auto simp: releasing_def apply_fresh_def)
  qed
next
  case (flag b)
  have b: "\<not> b" "\<not> rd_flag r" using assms(1) flag(3) by (auto simp: releasing_def)
  then show ?thesis using assms(1) flag by (auto simp: releasing_def apply_flag_def grab_device_def)
next
  case (drain results)
  then show ?thesis using assms(1) drain_pass_fields [OF drain(3)]
    unfolding releasing_def by (metis reader_pc.distinct(1) subsetD)
next
  case (remote b)
  then show ?thesis using assms(1) by (simp add: releasing_def)
next
  case release
  then show ?thesis using assms(1) by (simp add: releasing_def)
next
  case released
  then show ?thesis using assms(3) by simp
qed (use assms(1) in \<open>auto simp: releasing_def\<close>)

lemma releasing_waits: "waits ok r r' \<Longrightarrow> releasing ok r \<Longrightarrow> releasing ok r'"
  by (induction rule: waits.induct) (auto intro: releasing_step)

lemma release_frees:
  assumes "rd_was_remote r" "\<And>b. rd_pc r \<noteq> Loaded b" "waits ok (release_start r) r'" "release_acked r'"
    "d \<in> set (rd_devices r')" "ok (dev_path d)"
  shows "\<not> dev_grabbed d"
proof -
  have "releasing ok (release_start r)" using assms(1,2) by (simp add: releasing_def release_start_def)
  then have "releasing ok r'" by (rule releasing_waits [OF assms(3)])
  then show ?thesis using assms(4-6) by (auto simp: releasing_def release_acked_def split: if_splits)
qed

section \<open>Three ways it goes wrong\<close>

lemma visit_some: "\<exists>s. visit es (start_reader es) s"
  by (blast intro: visit.first)

lemma visit_more: "\<exists>s. visit es r s \<Longrightarrow> reader_step ok r out r' \<Longrightarrow> \<exists>s. visit es r' s"
  by (blast intro: visit.step)

text \<open>A keyboard, and the reader that starts on it.\<close>

definition keyboard :: dir_entry where
  "keyboard = \<lparr>file_name = ''event0'',
     open_it = Device \<lparr>relative_axes = None, key_codes_of = Some [30], own_name = None\<rparr>\<rparr>"

definition keyboard_device :: "bool \<Rightarrow> device" where
  "keyboard_device grabbed = \<lparr>dev_path = ''/dev/input/event0'', dev_name = ''event0'', dev_grabbed = grabbed\<rparr>"

lemma keyboard_opens: "open_devices {} [keyboard] = ([keyboard_device False], False)"
  by (simp add: keyboard_def keyboard_device_def entry_path_def classify_def KEY_A_def)

lemma keyboard_path [simp]: "dev_path (keyboard_device g) = ''/dev/input/event0''"
  by (simp add: keyboard_device_def)

lemma keyboard_grab [simp]: "grab_device (\<lambda>_. True) b (keyboard_device g) = keyboard_device b"
  by (simp add: keyboard_device_def grab_device_def)

lemma keyboard_reader: "start_reader [keyboard] = \<lparr>rd_flag = False, rd_ack = 0, rd_devices = [keyboard_device False],
    rd_known = {''/dev/input/event0''}, rd_was_remote = False, rd_press = {}, rd_motion = empty_motion,
    rd_logged = 1, rd_pc = AtTop, rd_waiting = None\<rparr>"
  unfolding start_reader_def keyboard_opens by (simp add: log_presence_def)

lemma empty_reader: "start_reader [] = \<lparr>rd_flag = False, rd_ack = 0, rd_devices = [],
    rd_known = {}, rd_was_remote = False, rd_press = {}, rd_motion = empty_motion,
    rd_logged = 3, rd_pc = AtTop, rd_waiting = None\<rparr>"
  by (simp add: start_reader_def log_presence_def)

text \<open>
  \<open>release_and_wait\<close> takes the acknowledgement of a grab for that of the release: the reader loads
  the flag, the capture thread reads the counter and clears the flag, and the reader completes the
  grab.  The wait ends with the keyboard isolated.
\<close>

lemma release_acked_by_grab:
  "\<exists>r sent. visit [keyboard] r sent \<and> release_acked r \<and> (\<exists>d \<in> set (rd_devices r). dev_grabbed d)"
proof -
  let ?r0 = "start_reader [keyboard]"
  let ?r1 = "set_remote True ?r0"
  let ?r2 = "?r1\<lparr>rd_pc := Loaded (rd_flag ?r1)\<rparr>"
  let ?r3 = "release_start ?r2"
  let ?r4 = "apply_flag (\<lambda>_. True) True ?r3"
  have 1: "\<exists>s. visit [keyboard] ?r1 s"
    by (rule visit_more [OF visit_some reader_step.remote]) (simp add: keyboard_reader)
  have 2: "\<exists>s. visit [keyboard] ?r2 s"
    by (rule visit_more [OF 1 reader_step.load]) (simp add: keyboard_reader set_remote_def)
  have 3: "\<exists>s. visit [keyboard] ?r3 s"
    by (rule visit_more [OF 2 reader_step.release]) (simp add: keyboard_reader set_remote_def)
  have 4: "\<exists>s. visit [keyboard] ?r4 s"
    by (rule visit_more [OF 3 reader_step.flag]) (simp add: keyboard_reader set_remote_def release_start_def)
  have "release_acked ?r4" "\<exists>d \<in> set (rd_devices ?r4). dev_grabbed d"
    by (simp_all add: keyboard_reader set_remote_def release_start_def apply_flag_def release_acked_def keyboard_device_def
        grab_device_def)
  then show ?thesis using 4 by blast
qed

text \<open>
  A device plugged in while the flag is up is grabbed at once; when the flag falls before the loop
  loads it there is no transition, and the device stays isolated with control at home.
\<close>

lemma hotplug_stays_grabbed:
  "\<exists>r sent. visit [] r sent \<and> rd_pc r = Polling \<and> \<not> rd_flag r \<and> \<not> rd_was_remote r \<and>
     (\<exists>d \<in> set (rd_devices r). dev_grabbed d)"
proof -
  let ?r0 = "start_reader []"
  let ?r1 = "set_remote True ?r0"
  let ?r2 = "apply_fresh (\<lambda>_. True) [keyboard_device False] False ?r1"
  let ?r3 = "set_remote False ?r2"
  let ?r4 = "?r3\<lparr>rd_pc := Loaded (rd_flag ?r3)\<rparr>"
  let ?r5 = "apply_flag (\<lambda>_. True) False ?r4"
  have 1: "\<exists>s. visit [] ?r1 s"
    by (rule visit_more [OF visit_some reader_step.remote]) (simp add: empty_reader)
  have 2: "\<exists>s. visit [] ?r2 s"
    by (rule visit_more [OF 1 reader_step.fresh [OF _ keyboard_opens]]) (simp add: empty_reader set_remote_def)
  have r2: "?r2 = ?r1\<lparr>rd_devices := [keyboard_device True], rd_known := {''/dev/input/event0''}, rd_logged := 1\<rparr>"
    by (simp add: apply_fresh_def empty_reader set_remote_def log_presence_def)
  have 3: "\<exists>s. visit [] ?r3 s"
    by (rule visit_more [OF 2 reader_step.remote]) (subst r2, simp add: empty_reader set_remote_def)
  have 4: "\<exists>s. visit [] ?r4 s"
    by (rule visit_more [OF 3 reader_step.load]) (subst r2, simp add: empty_reader set_remote_def)
  have 5: "\<exists>s. visit [] ?r5 s"
    by (rule visit_more [OF 4 reader_step.flag]) (subst r2, simp add: empty_reader set_remote_def)
  have "rd_pc ?r5 = Polling \<and> \<not> rd_flag ?r5 \<and> \<not> rd_was_remote ?r5 \<and> (\<exists>d \<in> set (rd_devices ?r5). dev_grabbed d)"
    unfolding r2 by (simp add: empty_reader set_remote_def apply_flag_def keyboard_device_def)
  then show ?thesis using 5 by blast
qed

text \<open>
  Button 4 and the key A, HID usage 4, share an entry of the press set: a click of the extra button
  while A is held swallows the release of A.
\<close>

lemma extra_button_swallows_A:
  "fst (handle_events
     [\<lparr>ev_type = 1, ev_code = 30, ev_value = 1\<rparr>, \<lparr>ev_type = 1, ev_code = 0x114, ev_value = 1\<rparr>,
      \<lparr>ev_type = 1, ev_code = 0x114, ev_value = 0\<rparr>, \<lparr>ev_type = 1, ev_code = 30, ev_value = 0\<rparr>]
     (empty_motion, {})) = [Key KeyDown 4, MouseButton 4 True, MouseButton 4 False]"
proof -
  have "hid_from_evdev 30 = Some 4" by (simp add: hid_from_evdev_def EVDEV_TO_HID_def lookup_def)
  then show ?thesis
    by (simp add: handle_event_def key_event_def button_of_code_def press_button_def key_action_def kernel_codes
        button_ids ESCAPE_KEY_HID_def)
qed

section \<open>Every buffer is parsed\<close>

lemma parse_from_total: "parse_from buf off changed \<noteq> None"
proof (induction "length buf - off" arbitrary: off changed rule: less_induct)
  case less
  show ?case
  proof (cases "off + 16 \<le> length buf")
    case True
    then have "length buf - (off + (16 + unat (u32_at buf (off + 12)))) < length buf - off" by linarith
    then show ?thesis using less by (subst parse_from.simps) simp
  next
    case False
    then show ?thesis by (subst parse_from.simps) simp
  qed
qed

text \<open>What the kernel writes of one event: watch, mask, cookie, length, and the padded name.\<close>

record inotify_event =
  in_wd :: u32
  in_mask :: u32
  in_cookie :: u32
  in_name :: "byte list"

definition le32 :: "u32 \<Rightarrow> byte list" where
  "le32 w = rev (be_bytes 4 (unat w))"

definition inotify_bytes :: "inotify_event \<Rightarrow> byte list" where
  "inotify_bytes e = le32 (in_wd e) @ le32 (in_mask e) @ le32 (in_cookie e)
     @ le32 (of_nat (length (in_name e))) @ in_name e"

definition device_change :: "inotify_event \<Rightarrow> bool" where
  "device_change e \<longleftrightarrow> in_mask e AND (WATCH_MASK OR IN_Q_OVERFLOW) \<noteq> 0"

lemma length_le32 [simp]: "length (le32 w) = 4"
  by (simp add: le32_def)

lemma u32_at_le32: "u32_at (xs @ le32 w @ ys) (length xs) = w"
proof -
  have "unat w < 256 ^ 4" using unsigned_less [of w] by simp
  then have "be_val (be_bytes 4 (unat w)) = unat w" by simp
  then show ?thesis by (simp add: u32_at_def le32_def del: be_val_be_bytes)
qed

lemma u32_at_field:
  assumes "length xs = off"
  shows "u32_at (xs @ le32 w @ ys) off = w"
  using u32_at_le32 [of xs w ys] assms by simp

lemma parse_from_event:
  assumes "length (in_name e) < 2 ^ 32"
  shows "parse_from (xs @ inotify_bytes e @ ys) (length xs) changed =
    parse_from (xs @ inotify_bytes e @ ys) (length (xs @ inotify_bytes e)) (changed \<or> device_change e)"
proof -
  let ?buf = "xs @ inotify_bytes e @ ys"
  have len: "u32_at ?buf (length xs + 12) = of_nat (length (in_name e))"
    using u32_at_field [of "xs @ le32 (in_wd e) @ le32 (in_mask e) @ le32 (in_cookie e)" "length xs + 12"
        "of_nat (length (in_name e))" "in_name e @ ys"]
    by (simp add: inotify_bytes_def)
  have mask: "u32_at ?buf (length xs + 4) = in_mask e"
    using u32_at_field [of "xs @ le32 (in_wd e)" "length xs + 4" "in_mask e"
        "le32 (in_cookie e) @ le32 (of_nat (length (in_name e))) @ in_name e @ ys"]
    by (simp add: inotify_bytes_def)
  have n: "unat (of_nat (length (in_name e)) :: u32) = length (in_name e)"
    using assms by (simp add: unat_of_nat)
  have "length xs + 16 \<le> length ?buf" "length (xs @ inotify_bytes e) = length xs + (16 + length (in_name e))"
    by (simp_all add: inotify_bytes_def)
  then show ?thesis by (subst parse_from.simps) (simp add: len mask n device_change_def)
qed

lemma parse_from_events:
  "\<forall>e \<in> set es. length (in_name e) < 2 ^ 32 \<Longrightarrow>
   parse_from (xs @ concat (map inotify_bytes es)) (length xs) changed = Some (changed \<or> (\<exists>e \<in> set es. device_change e))"
proof (induction es arbitrary: xs changed)
  case Nil
  then show ?case by (subst parse_from.simps) simp
next
  case (Cons e es)
  have "parse_from (xs @ concat (map inotify_bytes (e # es))) (length xs) changed =
      parse_from ((xs @ inotify_bytes e) @ concat (map inotify_bytes es)) (length (xs @ inotify_bytes e))
        (changed \<or> device_change e)"
    using parse_from_event [of e xs "concat (map inotify_bytes es)" changed] Cons.prems by simp
  also have "\<dots> = Some ((changed \<or> device_change e) \<or> (\<exists>e \<in> set es. device_change e))"
    by (rule Cons.IH) (use Cons.prems in simp)
  finally show ?case by auto
qed

section \<open>Properties\<close>

text \<open>
  C31. The inotify parser always returns, on any bytes the kernel could hand it, although the length of
  every record is read from the record; and on the records of whole events it reports a change
  exactly when one of them creates, deletes or moves a device node or reports an overflow.
\<close>
theorem inotify_always_parsed:
  "parse_inotify buf \<noteq> None \<and>
   ((\<forall>e \<in> set es. length (in_name e) < 2 ^ 32) \<longrightarrow>
      parse_inotify (concat (map inotify_bytes es)) = Some (\<exists>e \<in> set es. device_change e))"
  using parse_from_total [of buf 0 False] parse_from_events [of es "[]" False] by (simp add: parse_inotify_def)

definition plugged_in :: inotify_event where
  "plugged_in = \<lparr>in_wd = 1, in_mask = 0x100, in_cookie = 0, in_name = [101, 118, 48, 0]\<rparr>"

theorem inotify_always_parsed_witness:
  "parse_inotify (inotify_bytes plugged_in) = Some True \<and> parse_inotify [1, 2, 3] \<noteq> None"
proof -
  have "device_change plugged_in"
    by (simp add: device_change_def plugged_in_def WATCH_MASK_def IN_Q_OVERFLOW_def)
  then show ?thesis
    using inotify_always_parsed [of "[1, 2, 3]" "[plugged_in]"] by (simp add: plugged_in_def)
qed


text \<open>The keyboard, isolated, on which B is pressed.\<close>

definition b_down :: input_event where
  "b_down = \<lparr>ev_type = EV_KEY, ev_code = 48, ev_value = 1\<rparr>"

definition b_pressed :: reader where
  "b_pressed = \<lparr>rd_flag = True, rd_ack = 1, rd_devices = [keyboard_device True],
    rd_known = {''/dev/input/event0''}, rd_was_remote = True, rd_press = {5}, rd_motion = empty_motion,
    rd_logged = 1, rd_pc = AtTop, rd_waiting = None\<rparr>"

lemma b_pass:
  "drain_pass [Events [b_down]] (b_pressed\<lparr>rd_press := {}, rd_pc := Polling\<rparr>) = ([Key KeyDown 5], b_pressed)"
proof -
  have "key_event 48 1 {} = ([Key KeyDown 5], {5})"
    by (simp add: key_event_def button_of_code_def kernel_codes b_hid ESCAPE_KEY_HID_def key_action_def)
  then have "handle_event b_down (empty_motion, {}) = ([Key KeyDown 5], empty_motion, {5})"
    by (simp add: handle_event_def b_down_def kernel_codes)
  moreover have "pm_flush empty_motion = ([], empty_motion)"
    by (simp add: pm_flush_def take_whole_def empty_motion_def real_to_i32_def trunc_toward_def sat_i32_def)
  ultimately show ?thesis by (simp add: drain_pass_def b_pressed_def)
qed

lemma b_visit: "visit [keyboard] b_pressed [Key KeyDown 5]"
proof -
  let ?r0 = "start_reader [keyboard]"
  let ?r1 = "set_remote True ?r0"
  let ?r2 = "?r1\<lparr>rd_pc := Loaded (rd_flag ?r1)\<rparr>"
  let ?r3 = "apply_flag (\<lambda>_. True) True ?r2"
  have 1: "\<exists>s. visit [keyboard] ?r1 s"
    by (rule visit_more [OF visit_some reader_step.remote]) (simp add: keyboard_reader)
  have 2: "\<exists>s. visit [keyboard] ?r2 s"
    by (rule visit_more [OF 1 reader_step.load]) (simp add: keyboard_reader set_remote_def)
  obtain s where s: "visit [keyboard] ?r2 s" using 2 by blast
  have r3: "?r3 = b_pressed\<lparr>rd_press := {}, rd_pc := Polling\<rparr>"
    by (simp add: keyboard_reader set_remote_def apply_flag_def b_pressed_def)
  have "reader_step (\<lambda>_. True) ?r2 [] ?r3"
    by (rule reader_step.flag) (simp add: keyboard_reader set_remote_def)
  from visit.step [OF s this] have 3: "visit [keyboard] ?r3 []"
    unfolding r3 by (simp add: keyboard_reader set_remote_def b_pressed_def)
  have "reader_step (\<lambda>_. True) ?r3 [Key KeyDown 5] b_pressed"
    by (rule reader_step.drain [of _ "[Events [b_down]]"]) (simp_all add: r3 b_pass, simp_all add: b_pressed_def)
  from visit.step [OF 3 this] show ?thesis by (simp add: r3 b_pressed_def)
qed


end
