(* ===== verification/X11_Capture.thy ===== *)
theory X11_Capture
  imports Evdev Server "HOL-Library.Product_Lexorder"
begin

text \<open>
  The X11 capture of the server, \<open>platform/src/x11/capture\<close> with \<open>x11/buttons.rs\<close> and
  \<open>x11/geometry.rs\<close>: raw events in, wire messages and X requests out.  The X server is outside: its
  replies are arguments, the requests are a list, and the two grabs it grants are remembered in
  \<open>cp_pointer\<close> and \<open>cp_keyboard\<close>, its passive grabs in \<open>cp_passive\<close>.  Clock readings are nanoseconds;
  the readings of one pass of the loop are one argument.
\<close>

section \<open>Buttons\<close>

datatype x_button = XButton byte | XWheel int int | XIgnore

definition from_x11 :: "u32 \<Rightarrow> x_button" where
  "from_x11 b =
     (if b = 1 then XButton BUTTON_LEFT else if b = 2 then XButton BUTTON_MIDDLE
      else if b = 3 then XButton BUTTON_RIGHT else if b = 4 then XWheel 0 1
      else if b = 5 then XWheel 0 (- 1) else if b = 6 then XWheel (- 1) 0
      else if b = 7 then XWheel 1 0 else if b = 8 then XButton BUTTON_EXTRA_1
      else if b = 9 then XButton BUTTON_EXTRA_2 else XIgnore)"

definition to_x11 :: "byte \<Rightarrow> byte option" where
  "to_x11 b =
     (if b = BUTTON_LEFT then Some 1 else if b = BUTTON_MIDDLE then Some 2
      else if b = BUTTON_RIGHT then Some 3 else if b = BUTTON_EXTRA_1 then Some 8
      else if b = BUTTON_EXTRA_2 then Some 9 else None)"

definition wheel_to_x11 :: "int \<Rightarrow> int \<Rightarrow> byte option" where
  "wheel_to_x11 dx dy =
     (if dy > 0 then Some 4 else if dy < 0 then Some 5 else if dx > 0 then Some 7
      else if dx < 0 then Some 6 else None)"

section \<open>The visible desktop\<close>

record visible_desktop =
  vd_origin :: "int \<times> int"
  vd_size :: "u32 \<times> u32"

definition whole_root :: "u32 \<Rightarrow> u32 \<Rightarrow> visible_desktop" where
  "whole_root w h = \<lparr>vd_origin = (0, 0), vd_size = (w, h)\<rparr>"

definition to_root :: "visible_desktop \<Rightarrow> int \<Rightarrow> int \<Rightarrow> int \<times> int" where
  "to_root v x y = (add32 x (fst (vd_origin v)), add32 y (snd (vd_origin v)))"

definition from_root :: "visible_desktop \<Rightarrow> int \<Rightarrow> int \<Rightarrow> int \<times> int" where
  "from_root v x y = (sub32 x (fst (vd_origin v)), sub32 y (snd (vd_origin v)))"

text \<open>
  What RandR answers of one output: the request cannot be sent; no reply; a connection state and the
  controller it is on, if any.
\<close>

datatype crtc_reply = CrtcUnsent | CrtcNoReply | Crtc int int int int

datatype output_reply = OutputUnsent | OutputNoReply | Output bool "crtc_reply option"

record bounds =
  bd_min :: "int \<times> int"
  bd_max :: "int \<times> int"
  bd_found :: bool

definition no_bounds :: bounds where
  "no_bounds = \<lparr>bd_min = (2147483647, 2147483647), bd_max = (- 2147483648, - 2147483648), bd_found = False\<rparr>"

definition widen :: "int \<Rightarrow> int \<Rightarrow> int \<Rightarrow> int \<Rightarrow> bounds \<Rightarrow> bounds" where
  "widen x y w h b = b\<lparr>bd_min := (min (fst (bd_min b)) x, min (snd (bd_min b)) y),
     bd_max := (max (fst (bd_max b)) (add32 x w), max (snd (bd_max b)) (add32 y h)), bd_found := True\<rparr>"

fun scan_outputs :: "output_reply list \<Rightarrow> bounds \<Rightarrow> bounds option" where
  "scan_outputs [] b = Some b"
| "scan_outputs (OutputUnsent # os) b = None"
| "scan_outputs (OutputNoReply # os) b = scan_outputs os b"
| "scan_outputs (Output plugged None # os) b = scan_outputs os b"
| "scan_outputs (Output plugged (Some c) # os) b =
     (if \<not> plugged then scan_outputs os b
      else case c of
        CrtcUnsent \<Rightarrow> None
      | CrtcNoReply \<Rightarrow> scan_outputs os b
      | Crtc x y w h \<Rightarrow> scan_outputs os (if w \<le> 0 \<or> h \<le> 0 then b else widen x y w h b))"

definition visible_desktop_of :: "output_reply list \<Rightarrow> visible_desktop option" where
  "visible_desktop_of os =
     (case scan_outputs os no_bounds of
        None \<Rightarrow> None
      | Some b \<Rightarrow>
          if \<not> bd_found b then None
          else Some \<lparr>vd_origin = bd_min b,
                     vd_size = (word_of_int (sub32 (fst (bd_max b)) (fst (bd_min b))),
                                word_of_int (sub32 (snd (bd_max b)) (snd (bd_min b))))\<rparr>)"

section \<open>Raw motion\<close>

text \<open>A 32.32 fixed-point value; the conversion is taken as exact.\<close>

definition fp_value :: "int \<times> u32 \<Rightarrow> real" where
  "fp_value v = of_int (fst v) + of_nat (unat (snd v)) / 4294967296"

definition set_axes :: "u32 list \<Rightarrow> nat list" where
  "set_axes words = filter (\<lambda>a. bit (words ! (a div 32)) (a mod 32)) [0..<32 * length words]"

text \<open>The walk over the set bits: each takes the next value.\<close>

fun raw_walk :: "nat list \<Rightarrow> (int \<times> u32) list \<Rightarrow> real \<times> real \<Rightarrow> real \<times> real" where
  "raw_walk [] vs d = d"
| "raw_walk (a # as) [] d = d"
| "raw_walk (a # as) (v # vs) d =
     raw_walk as vs (if a = 0 then (fp_value v, snd d) else if a = 1 then (fst d, fp_value v) else d)"

definition raw_xy :: "u32 list \<Rightarrow> (int \<times> u32) list \<Rightarrow> real \<times> real" where
  "raw_xy words values = raw_walk (set_axes words) values (0, 0)"

section \<open>The capture\<close>

definition BEACON_PERIOD :: nat where "BEACON_PERIOD = 6000000"
definition BEACON_IDLE_PERIOD :: nat where "BEACON_IDLE_PERIOD = 25000000"
definition BEACON_IDLE_AFTER :: u32 where "BEACON_IDLE_AFTER = 3"
definition REMOTE_IDLE_TICK :: nat where "REMOTE_IDLE_TICK = 100000000"
definition REPEAT_DELAY :: nat where "REPEAT_DELAY = 500000000"
definition REPEAT_INTERVAL :: nat where "REPEAT_INTERVAL = 33000000"
definition GRAB_ATTEMPTS :: nat where "GRAB_ATTEMPTS = 6"

lemmas capture_times = BEACON_PERIOD_def REMOTE_IDLE_TICK_def REPEAT_DELAY_def REPEAT_INTERVAL_def

record held =
  hd_down :: nat
  hd_repeat :: nat

text \<open>The held keys are a map; its entries are kept in the order the map would be iterated.\<close>

type_synonym held_keys = "(u32 \<times> held) list"

definition hold_key :: "u32 \<Rightarrow> held \<Rightarrow> held_keys \<Rightarrow> held_keys" where
  "hold_key k h ks = (k, h) # filter (\<lambda>p. fst p \<noteq> k) ks"

definition drop_key :: "u32 \<Rightarrow> held_keys \<Rightarrow> held_keys" where
  "drop_key k ks = filter (\<lambda>p. fst p \<noteq> k) ks"

datatype x_request =
  Sent message
| WarpPointer int int
| ShowCursor
| HideCursor
| UngrabPointer
| UngrabKeyboard
| UngrabKey byte u16
| GrabKey byte u16
| EvdevRemote
| EvdevRelease

record capture =
  cp_visible :: visible_desktop
  cp_motion :: pending_motion
  cp_beacon :: "(int \<times> int) option"
  cp_last_beacon :: "nat option"
  cp_probe :: motion_probe
  cp_held :: held_keys
  cp_grabbed :: bool
  cp_chords :: "(byte \<times> u32) list"
  cp_pointer :: bool
  cp_keyboard :: bool
  cp_passive :: "(byte \<times> u16) set"

definition new_capture :: "visible_desktop \<Rightarrow> motion_probe \<Rightarrow> capture" where
  "new_capture v p = \<lparr>cp_visible = v, cp_motion = empty_motion, cp_beacon = None, cp_last_beacon = None,
     cp_probe = p, cp_held = [], cp_grabbed = False, cp_chords = [], cp_pointer = False, cp_keyboard = False,
     cp_passive = {}\<rparr>"

definition is_escape :: "u32 \<Rightarrow> bool" where
  "is_escape key \<longleftrightarrow> key = ESCAPE_KEY_HID"

text \<open>\<open>checked_sub(8)\<close>, then \<open>as u16\<close>.\<close>

definition canonical_key :: "u32 \<Rightarrow> u32 option" where
  "canonical_key keycode = (if keycode < 8 then None else hid_from_evdev (ucast (keycode - 8)))"

fun on_button :: "u32 \<Rightarrow> bool \<Rightarrow> x_request list" where
  "on_button b pressed =
     (case from_x11 b of
        XButton c \<Rightarrow> [Sent (MouseButton c pressed)]
      | XWheel dx dy \<Rightarrow> if pressed then [Sent (MouseWheel dx dy)] else []
      | XIgnore \<Rightarrow> [])"

definition flush_motion :: "capture \<Rightarrow> x_request list \<times> capture" where
  "flush_motion c =
     (case pm_flush (cp_motion c) of (moves, motion) \<Rightarrow>
        (map (\<lambda>(dx, dy). Sent (MouseMoveRel dx dy)) moves,
         c\<lparr>cp_motion := motion, cp_probe := fold (\<lambda>(dx, dy). requested dx dy) moves (cp_probe c)\<rparr>))"

text \<open>The positions of a motion event are 16.16 fixed point.\<close>

datatype x_event =
  RawMotion "u32 list" "(int \<times> u32) list"
| PointerMotion int int
| RawButton u32 bool
| RawKeyPress u32
| RawKeyRelease u32
| OtherEvent

fun on_event :: "nat \<Rightarrow> x_event \<Rightarrow> capture \<Rightarrow> x_request list \<times> capture" where
  "on_event now (RawMotion words values) c =
     (case raw_xy words values of (dx, dy) \<Rightarrow> ([], c\<lparr>cp_motion := pm_push dx dy (cp_motion c)\<rparr>))"
| "on_event now (PointerMotion px py) c =
     (case flush_motion c of (out, c') \<Rightarrow>
        (out, if cp_grabbed c' then c'
              else c'\<lparr>cp_beacon := Some (from_root (cp_visible c') (px div 65536) (py div 65536))\<rparr>))"
| "on_event now (RawButton b pressed) c = (on_button b pressed, c)"
| "on_event now (RawKeyPress code) c =
     (case canonical_key code of
        None \<Rightarrow> ([], c)
      | Some key \<Rightarrow>
          if cp_grabbed c \<and> is_escape key then ([Sent Escape], c)
          else ([Sent (Key KeyDown key)], c\<lparr>cp_held := hold_key key \<lparr>hd_down = now, hd_repeat = now\<rparr> (cp_held c)\<rparr>))"
| "on_event now (RawKeyRelease code) c =
     (case canonical_key code of
        None \<Rightarrow> ([], c)
      | Some key \<Rightarrow>
          if cp_grabbed c \<and> is_escape key then ([], c)
          else ([Sent (Key KeyUp key)], c\<lparr>cp_held := drop_key key (cp_held c)\<rparr>))"
| "on_event now OtherEvent c = ([], c)"

section \<open>Commands\<close>

datatype capture_command =
  CcGrab bool
| CcIsolate bool
| CcWarp int int
| CcCursorVisible bool
| CcBindChords "(byte \<times> u32) list"

text \<open>
  The grab loop.  \<open>p\<close> and \<open>k\<close> are the replies to the attempts: \<open>None\<close> when there is none, else
  whether the status is success.
\<close>

fun grab_loop ::
  "(nat \<Rightarrow> bool option) \<Rightarrow> (nat \<Rightarrow> bool option) \<Rightarrow> nat \<Rightarrow> nat \<Rightarrow> bool option \<Rightarrow> bool option \<Rightarrow> bool option \<times> bool option" where
  "grab_loop p k 0 i pointer keyboard = (pointer, keyboard)"
| "grab_loop p k (Suc n) i pointer keyboard =
     (let pointer' = (if pointer \<noteq> Some True then p i else pointer);
          keyboard' = (if keyboard \<noteq> Some True then k i else keyboard) in
      if pointer' = Some True \<and> keyboard' = Some True then (pointer', keyboard')
      else grab_loop p k n (Suc i) pointer' keyboard')"

definition set_grabbed ::
  "(nat \<Rightarrow> bool option) \<Rightarrow> (nat \<Rightarrow> bool option) \<Rightarrow> bool \<Rightarrow> capture \<Rightarrow> x_request list \<times> capture" where
  "set_grabbed p k grab c =
     (if grab = cp_grabbed c then ([], c)
      else if grab then
        (case grab_loop p k GRAB_ATTEMPTS 0 None None of (pointer, keyboard) \<Rightarrow>
           ([], c\<lparr>cp_grabbed := (pointer = Some True \<and> keyboard = Some True),
                   cp_pointer := cp_pointer c \<or> pointer = Some True,
                   cp_keyboard := cp_keyboard c \<or> keyboard = Some True\<rparr>))
      else ([UngrabPointer, UngrabKeyboard],
            c\<lparr>cp_grabbed := False, cp_pointer := False, cp_keyboard := False\<rparr>))"

definition x_mods :: "byte \<Rightarrow> u16" where
  "x_mods packed =
     (if packed AND 1 \<noteq> 0 then 4 else 0) OR (if packed AND 2 \<noteq> 0 then 8 else 0) OR
     (if packed AND 4 \<noteq> 0 then 1 else 0) OR (if packed AND 8 \<noteq> 0 then 64 else 0)"

definition lock_variants :: "u16 \<Rightarrow> u16 list" where
  "lock_variants mods =
     map (\<lambda>bits :: nat. mods OR (if bits mod 2 = 1 then 2 else 0) OR (if bits div 2 mod 2 = 1 then 16 else 0) OR
            (if bits div 4 mod 2 = 1 then 128 else 0)) [0..<8]"

text \<open>\<open>(evdev as u8).wrapping_add(8)\<close>.\<close>

definition chord_keycodes :: "u32 \<Rightarrow> byte list" where
  "chord_keycodes key = (case evdev_from_hid key of None \<Rightarrow> [] | Some e \<Rightarrow> [ucast e + 8])"

definition chord_grabs :: "byte \<times> u32 \<Rightarrow> (byte \<times> u16) list" where
  "chord_grabs c = concat (map (\<lambda>kc. map (\<lambda>m. (kc, m)) (lock_variants (x_mods (fst c)))) (chord_keycodes (snd c)))"

text \<open>The X server grants a passive grab that no other client holds; here it grants all of them.\<close>

definition set_bound_chords :: "(byte \<times> u32) list \<Rightarrow> capture \<Rightarrow> x_request list \<times> capture" where
  "set_bound_chords chords c =
     (let wanted = remdups_adj (sort chords) in
      if wanted = cp_chords c then ([], c)
      else
        let old = concat (map chord_grabs (cp_chords c)); fresh = concat (map chord_grabs wanted) in
        (map (\<lambda>(kc, m). UngrabKey kc m) old @ map (\<lambda>(kc, m). GrabKey kc m) fresh,
         c\<lparr>cp_chords := wanted, cp_passive := (cp_passive c - set old) \<union> set fresh\<rparr>))"

text \<open>\<open>as i16\<close> of the warp.\<close>

definition wrap_i16 :: "int \<Rightarrow> int" where
  "wrap_i16 n = (n + 32768) mod 65536 - 32768"

fun apply_command ::
  "(nat \<Rightarrow> bool option) \<Rightarrow> (nat \<Rightarrow> bool option) \<Rightarrow> capture_command \<Rightarrow> capture \<Rightarrow> x_request list \<times> capture" where
  "apply_command p k (CcWarp x y) c =
     (case to_root (cp_visible c) x y of (px, py) \<Rightarrow> ([WarpPointer (wrap_i16 px) (wrap_i16 py)], c))"
| "apply_command p k (CcCursorVisible v) c = ([if v then ShowCursor else HideCursor], c)"
| "apply_command p k (CcBindChords chords) c = set_bound_chords chords c"
| "apply_command p k (CcGrab grab) c = set_grabbed p k grab c"
| "apply_command p k (CcIsolate remote) c = ([if remote then EvdevRemote else EvdevRelease], c\<lparr>cp_held := []\<rparr>)"

section \<open>The duties of a pass\<close>

definition flush_beacon :: "nat \<Rightarrow> capture \<Rightarrow> x_request list \<times> capture" where
  "flush_beacon now c =
     (case cp_beacon c of
        None \<Rightarrow> ([], c)
      | Some (x, y) \<Rightarrow>
          if (case cp_last_beacon c of None \<Rightarrow> True | Some t \<Rightarrow> BEACON_PERIOD \<le> now - t)
          then ([Sent (MouseMoveAbs x y)], c\<lparr>cp_last_beacon := Some now, cp_beacon := None\<rparr>)
          else ([], c))"

definition repeat_due :: "nat \<Rightarrow> held \<Rightarrow> bool" where
  "repeat_due now h \<longleftrightarrow> REPEAT_DELAY \<le> now - hd_down h \<and> REPEAT_INTERVAL \<le> now - hd_repeat h"

definition tick_repeats :: "nat \<Rightarrow> capture \<Rightarrow> x_request list \<times> capture" where
  "tick_repeats now c =
     (map (\<lambda>(key, h). Sent (Key KeyRepeat key)) (filter (\<lambda>(key, h). repeat_due now h) (cp_held c)),
      c\<lparr>cp_held := map (\<lambda>(key, h). (key, if repeat_due now h then h\<lparr>hd_repeat := now\<rparr> else h)) (cp_held c)\<rparr>)"

definition sample_probe :: "nat \<Rightarrow> (int \<times> int) option \<Rightarrow> capture \<Rightarrow> capture" where
  "sample_probe now pos0 c =
     (if cp_grabbed c \<or> \<not> probe_due now (cp_probe c) then c
      else case pos0 of None \<Rightarrow> c | Some pos \<Rightarrow> c\<lparr>cp_probe := snd (sample now pos (cp_probe c))\<rparr>)"

definition repeat_wait :: "nat \<Rightarrow> held \<Rightarrow> nat" where
  "repeat_wait now h =
     (if now - hd_down h < REPEAT_DELAY then REPEAT_DELAY - (now - hd_down h)
      else REPEAT_INTERVAL - (now - hd_repeat h))"

definition opt_min :: "nat option \<Rightarrow> nat option \<Rightarrow> nat option" where
  "opt_min a b = (case (a, b) of (Some d, Some e) \<Rightarrow> Some (min d e) | (Some d, None) \<Rightarrow> Some d | (None, e) \<Rightarrow> e)"

definition wait_timeout :: "nat \<Rightarrow> capture \<Rightarrow> nat option" where
  "wait_timeout now c =
     (let beacon = (if cp_beacon c = None then None
                    else map_option (\<lambda>last. BEACON_PERIOD - (now - last)) (cp_last_beacon c));
          earliest = fold (\<lambda>p e. opt_min e (Some (repeat_wait now (snd p)))) (cp_held c) None;
          due = opt_min beacon earliest in
      case due of
        Some d \<Rightarrow> Some d
      | None \<Rightarrow> if cp_grabbed c then Some REMOTE_IDLE_TICK else None)"

text \<open>The argument of \<open>poll\<close>, in milliseconds; \<open>None\<close> is \<open>-1\<close>, without end.\<close>

definition poll_ms :: "nat option \<Rightarrow> nat option" where
  "poll_ms t = map_option (\<lambda>d. min (d div 1000000) 2147483647) t"

fun on_events :: "nat \<Rightarrow> x_event list \<Rightarrow> capture \<Rightarrow> x_request list \<times> capture" where
  "on_events now [] c = ([], c)"
| "on_events now (e # es) c =
     (case on_event now e c of (out, c') \<Rightarrow> case on_events now es c' of (outs, c'') \<Rightarrow> (out @ outs, c''))"

text \<open>A command, with the replies of the X server to its grabs.\<close>

type_synonym granted_command = "(nat \<Rightarrow> bool option) \<times> (nat \<Rightarrow> bool option) \<times> capture_command"

fun apply_commands :: "granted_command list \<Rightarrow> capture \<Rightarrow> x_request list \<times> capture" where
  "apply_commands [] c = ([], c)"
| "apply_commands ((p, k, cmd) # cmds) c =
     (case apply_command p k cmd c of (out, c') \<Rightarrow> case apply_commands cmds c' of (outs, c'') \<Rightarrow> (out @ outs, c''))"

text \<open>One turn of \<open>run_forever\<close>, up to the poll.\<close>

definition capture_pass ::
  "nat \<Rightarrow> x_event list \<Rightarrow> granted_command list \<Rightarrow> (int \<times> int) option \<Rightarrow> capture \<Rightarrow> x_request list \<times> capture" where
  "capture_pass now es cmds pos0 c =
     (case on_events now es c of (o1, c1) \<Rightarrow>
      case apply_commands cmds c1 of (o2, c2) \<Rightarrow>
      case flush_motion c2 of (o3, c3) \<Rightarrow>
      case flush_beacon now c3 of (o4, c4) \<Rightarrow>
      case tick_repeats now c4 of (o5, c5) \<Rightarrow>
        (o1 @ o2 @ o3 @ o4 @ o5, sample_probe now pos0 c5))"

section \<open>The beacon thread\<close>

record beacon_thread =
  bt_last :: "(int \<times> int) option"
  bt_same :: u32
  bt_interval :: nat

definition new_beacon_thread :: beacon_thread where
  "new_beacon_thread = \<lparr>bt_last = None, bt_same = 0, bt_interval = BEACON_PERIOD\<rparr>"

text \<open>One query.  \<open>reply\<close> is the position on the root window; the result is the beacon sent.\<close>

definition beacon_query ::
  "visible_desktop \<Rightarrow> bool \<Rightarrow> (int \<times> int) option \<Rightarrow> beacon_thread \<Rightarrow> message option \<times> beacon_thread" where
  "beacon_query v grabbed reply b =
     (if grabbed then (None, b)
      else case reply of
        None \<Rightarrow> (None, b)
      | Some (px, py) \<Rightarrow>
          (case from_root v px py of (x, y) \<Rightarrow>
             if bt_last b \<noteq> Some (x, y)
             then (Some (MouseMoveAbs x y), b\<lparr>bt_last := Some (x, y), bt_same := 0, bt_interval := BEACON_PERIOD\<rparr>)
             else (None, b\<lparr>bt_same := bt_same b + 1,
                           bt_interval := (if BEACON_IDLE_AFTER \<le> bt_same b + 1 then BEACON_IDLE_PERIOD else bt_interval b)\<rparr>)))"

section \<open>The engine\<close>

text \<open>\<open>X11Engine\<close> sends each call of the server's engine as a command to the capture thread.\<close>

fun x11_engine :: "engine_call \<Rightarrow> capture_command" where
  "x11_engine (WarpLocal x y) = CcWarp x y"
| "x11_engine (GrabInput g) = CcGrab g"
| "x11_engine (IsolateInput i) = CcIsolate i"
| "x11_engine (ShowLocalCursor v) = CcCursorVisible v"
| "x11_engine (SetBoundChords cs) = CcBindChords cs"

end
