(* ===== verification/X11_Capture_Rules.thy ===== *)
theory X11_Capture_Rules
  imports X11_Capture Server_Properties
begin

text \<open>
  What the X11 capture guarantees: it wakes no later than its next duty, its grabs are all or none as
  long as it believes in them, its passive grabs are those of the bound chords, scroll valuators never
  move the cursor, and the engine calls of the server end in the hold on the input they ask for.
\<close>

section \<open>Raw motion\<close>

lemma raw_walk_higher: "\<forall>a \<in> set as. 1 < a \<Longrightarrow> raw_walk as vs d = d"
  by (induction as vs d rule: raw_walk.induct) auto

lemma raw_walk_nil [simp]: "raw_walk as [] d = d"
  by (cases as) auto

lemma set_axes_shape:
  assumes "words \<noteq> []"
  shows "set_axes words = (if bit (hd words) 0 then [0] else []) @ (if bit (hd words) 1 then [1] else [])
      @ filter (\<lambda>a. bit (words ! (a div 32)) (a mod 32)) [2..<32 * length words]"
proof -
  obtain w ws where w: "words = w # ws" using assms by (cases words) auto
  have "[0..<32 * length words] = [0, 1] @ [2..<32 * length words]"
    using w by (simp add: upt_conv_Cons numeral_2_eq_2)
  then show ?thesis using w by (simp add: set_axes_def)
qed

text \<open>
  The values that are not the first two axes, a wheel's among them, never become motion; the horizontal
  motion is the value of axis 0 when it is present, and the vertical one that of axis 1.
\<close>

lemma raw_xy_axes:
  assumes "words \<noteq> []"
  shows "raw_xy words vals =
    (let w = hd words; n = (if bit w 0 then 1 else 0) in
     (if bit w 0 \<and> vals \<noteq> [] then fp_value (hd vals) else 0,
      if bit w 1 \<and> n < length vals then fp_value (vals ! n) else 0))"
proof -
  have "\<forall>a \<in> set (filter (\<lambda>a. bit (words ! (a div 32)) (a mod 32)) [2..<32 * length words]). 1 < a" by auto
  note rest = raw_walk_higher [OF this]
  show ?thesis unfolding raw_xy_def set_axes_shape [OF assms]
    by (cases vals; cases "tl vals") (auto simp: rest Let_def)
qed

section \<open>Waking in time\<close>

lemma opt_min_Some [simp]: "opt_min a b = Some d \<longleftrightarrow>
    (a = Some d \<and> (\<forall>e. b = Some e \<longrightarrow> d \<le> e)) \<or> (b = Some d \<and> (\<forall>e. a = Some e \<longrightarrow> d \<le> e))"
  by (auto simp: opt_min_def split: option.splits)

lemma opt_min_None [simp]: "opt_min a b = None \<longleftrightarrow> a = None \<and> b = None"
  by (auto simp: opt_min_def split: option.splits)

lemma earliest_le:
  "\<exists>d. fold (\<lambda>p e. opt_min e (Some (repeat_wait now (snd p)))) ks e0 = d \<and>
     (\<forall>x. e0 = Some x \<longrightarrow> (\<exists>y. d = Some y \<and> y \<le> x)) \<and>
     (\<forall>p \<in> set ks. \<exists>y. d = Some y \<and> y \<le> repeat_wait now (snd p))"
proof (induction ks arbitrary: e0)
  case (Cons p ks)
  let ?e = "opt_min e0 (Some (repeat_wait now (snd p)))"
  obtain d where d: "fold (\<lambda>p e. opt_min e (Some (repeat_wait now (snd p)))) ks ?e = d"
    "\<forall>x. ?e = Some x \<longrightarrow> (\<exists>y. d = Some y \<and> y \<le> x)"
    "\<forall>p \<in> set ks. \<exists>y. d = Some y \<and> y \<le> repeat_wait now (snd p)"
    using Cons.IH [of ?e] by auto
  obtain x where x: "?e = Some x" "x \<le> repeat_wait now (snd p)" "\<forall>z. e0 = Some z \<longrightarrow> x \<le> z"
    by (cases e0) (auto simp: opt_min_def)
  obtain y where y: "d = Some y" "y \<le> x" using d(2) x(1) by auto
  have "(\<forall>z. e0 = Some z \<longrightarrow> (\<exists>y. d = Some y \<and> y \<le> z)) \<and>
      (\<forall>q \<in> set (p # ks). \<exists>y. d = Some y \<and> y \<le> repeat_wait now (snd q))"
    using d(3) x y order_trans by fastforce
  then show ?case using d(1) by auto
qed auto

lemma opt_min_left: "opt_min (Some x) b = Some y \<Longrightarrow> y \<le> x"
  by (auto simp: opt_min_def split: option.splits)

text \<open>Time advances, and a key goes down no earlier than its entry says.\<close>

definition held_ok :: "nat \<Rightarrow> held \<Rightarrow> bool" where
  "held_ok now h \<longleftrightarrow> hd_down h \<le> hd_repeat h \<and> hd_repeat h \<le> now"

text \<open>When the next repeat of a key is due.\<close>

definition next_repeat :: "held \<Rightarrow> nat" where
  "next_repeat h = max (hd_down h + REPEAT_DELAY) (hd_repeat h + REPEAT_INTERVAL)"

lemma repeat_due_iff: "repeat_due now h \<longleftrightarrow> next_repeat h \<le> now"
  by (auto simp: repeat_due_def next_repeat_def capture_times)

lemma repeat_wait_le: "held_ok now h \<Longrightarrow> now + repeat_wait now h \<le> max now (next_repeat h)"
  by (auto simp: repeat_wait_def next_repeat_def held_ok_def capture_times)

text \<open>The duties that bound the sleep: the pending beacon, and the repeats of the held keys.\<close>

definition beacon_due :: "capture \<Rightarrow> nat option" where
  "beacon_due c = (if cp_beacon c = None then None else map_option (\<lambda>last. last + BEACON_PERIOD) (cp_last_beacon c))"

lemma wait_timeout_beacon:
  assumes "beacon_due c = Some t"
  shows "\<exists>d. wait_timeout now c = Some d \<and> now + d \<le> max now t"
proof -
  obtain last where last: "cp_beacon c \<noteq> None" "cp_last_beacon c = Some last" "t = last + BEACON_PERIOD"
    using assms by (auto simp: beacon_due_def split: if_splits)
  obtain e where e: "fold (\<lambda>p e. opt_min e (Some (repeat_wait now (snd p)))) (cp_held c) None = e" by blast
  obtain d where d: "opt_min (Some (BEACON_PERIOD - (now - last))) e = Some d"
    by (cases "opt_min (Some (BEACON_PERIOD - (now - last))) e") (auto simp del: opt_min_Some)
  then have "wait_timeout now c = Some d" using last e by (auto simp: wait_timeout_def simp del: opt_min_Some)
  moreover have "now + d \<le> max now t" using opt_min_left [OF d] last(3) by simp
  ultimately show ?thesis by blast
qed

lemma wait_timeout_held:
  assumes "(k, h) \<in> set (cp_held c)" "held_ok now h"
  shows "\<exists>d. wait_timeout now c = Some d \<and> now + d \<le> max now (next_repeat h)"
proof -
  obtain e where e: "fold (\<lambda>p e. opt_min e (Some (repeat_wait now (snd p)))) (cp_held c) None = Some e"
    "e \<le> repeat_wait now h"
    using earliest_le [of now "cp_held c" None] assms(1) by fastforce
  let ?b = "if cp_beacon c = None then None else map_option (\<lambda>last. BEACON_PERIOD - (now - last)) (cp_last_beacon c)"
  obtain d where d: "opt_min ?b (Some e) = Some d"
    by (cases "opt_min ?b (Some e)") (auto simp del: opt_min_Some)
  have "d \<le> e" using d by (cases ?b) (auto simp: opt_min_def)
  moreover have "wait_timeout now c = Some d" using e(1) d by (simp add: wait_timeout_def Let_def del: opt_min_Some)
  moreover have "now + e \<le> max now (next_repeat h)" using e(2) repeat_wait_le [OF assms(2)] by linarith
  ultimately show ?thesis by fastforce
qed

lemma poll_ms_le: "poll_ms (Some d) = Some n \<Longrightarrow> n * 1000000 \<le> d"
  by (auto simp: poll_ms_def min_def)

section \<open>The state of the capture\<close>

text \<open>
  The capture holds both grabs when it believes it holds the input, its passive grabs are those of the
  chords it remembers, and no key is held twice.
\<close>

definition chord_grab_set :: "(byte \<times> u32) list \<Rightarrow> (byte \<times> u16) set" where
  "chord_grab_set cs = set (concat (map chord_grabs cs))"

definition capture_ok :: "nat \<Rightarrow> capture \<Rightarrow> bool" where
  "capture_ok now c \<longleftrightarrow> (cp_grabbed c \<longrightarrow> cp_pointer c \<and> cp_keyboard c) \<and>
     cp_passive c = chord_grab_set (cp_chords c) \<and>
     distinct (map fst (cp_held c)) \<and> (\<forall>p \<in> set (cp_held c). held_ok now (snd p))"

lemma new_capture_ok: "capture_ok now (new_capture v p)"
  by (simp add: capture_ok_def new_capture_def chord_grab_set_def)

lemma flush_motion_fields [simp]:
  "cp_grabbed (snd (flush_motion c)) = cp_grabbed c" "cp_pointer (snd (flush_motion c)) = cp_pointer c"
  "cp_keyboard (snd (flush_motion c)) = cp_keyboard c" "cp_passive (snd (flush_motion c)) = cp_passive c"
  "cp_chords (snd (flush_motion c)) = cp_chords c" "cp_held (snd (flush_motion c)) = cp_held c"
  by (simp_all add: flush_motion_def split: prod.splits)

lemma flush_motion_ok: "capture_ok now c \<Longrightarrow> flush_motion c = (out, c') \<Longrightarrow> capture_ok now c'"
  using flush_motion_fields [of c] by (simp add: capture_ok_def)

lemma hold_key_distinct: "distinct (map fst ks) \<Longrightarrow> distinct (map fst (hold_key k h ks))"
  by (auto simp: hold_key_def distinct_map_filter)

lemma capture_ok_fields [simp]:
  "capture_ok now (c\<lparr>cp_motion := m\<rparr>) = capture_ok now c"
  "capture_ok now (c\<lparr>cp_beacon := b\<rparr>) = capture_ok now c"
  "capture_ok now (c\<lparr>cp_last_beacon := t\<rparr>) = capture_ok now c"
  "capture_ok now (c\<lparr>cp_probe := q\<rparr>) = capture_ok now c"
  by (simp_all add: capture_ok_def)

lemma capture_ok_held:
  "capture_ok now c \<Longrightarrow> distinct (map fst ks) \<Longrightarrow> \<forall>p \<in> set ks. held_ok now (snd p) \<Longrightarrow> capture_ok now (c\<lparr>cp_held := ks\<rparr>)"
  by (simp add: capture_ok_def)

lemma capture_ok_hold: "capture_ok now c \<Longrightarrow> capture_ok now (c\<lparr>cp_held := hold_key k \<lparr>hd_down = now, hd_repeat = now\<rparr> (cp_held c)\<rparr>)"
  by (rule capture_ok_held) (auto simp: capture_ok_def hold_key_distinct, auto simp: hold_key_def held_ok_def)

lemma capture_ok_drop: "capture_ok now c \<Longrightarrow> capture_ok now (c\<lparr>cp_held := drop_key k (cp_held c)\<rparr>)"
  by (rule capture_ok_held) (auto simp: capture_ok_def drop_key_def distinct_map_filter)

lemma on_event_ok: "capture_ok now c \<Longrightarrow> capture_ok now (snd (on_event now e c))"
proof (induction now e c rule: on_event.induct)
  case (2 now px py c)
  obtain o1 c1 where f: "flush_motion c = (o1, c1)" by fastforce
  then show ?case using flush_motion_ok [OF 2 f] by simp
qed (simp_all add: capture_ok_hold capture_ok_drop split: option.split prod.split)

lemma on_events_ok: "capture_ok now c \<Longrightarrow> on_events now es c = (out, c') \<Longrightarrow> capture_ok now c'"
proof (induction now es c arbitrary: out rule: on_events.induct)
  case (2 now e es c)
  obtain o1 c1 where 1: "on_event now e c = (o1, c1)" by fastforce
  obtain o2 where "on_events now es c1 = (o2, c')" using "2.prems"(2) 1 by (auto split: prod.splits)
  then show ?case using "2.IH" [OF 1 [symmetric] on_event_ok [OF "2.prems"(1), of e, unfolded 1 snd_conv]] by blast
qed simp

lemma set_bound_chords_ok:
  assumes "capture_ok now c" "set_bound_chords chords c = (out, c')"
  shows "capture_ok now c' \<and> cp_chords c' = remdups_adj (sort chords)"
proof -
  show ?thesis using assms
    by (auto simp: set_bound_chords_def capture_ok_def chord_grab_set_def Let_def split: if_splits)
qed

lemma apply_command_ok: "capture_ok now c \<Longrightarrow> apply_command p k cmd c = (out, c') \<Longrightarrow> capture_ok now c'"
proof (induction p k cmd c rule: apply_command.induct)
  case (3 p k chords c)
  then show ?case using set_bound_chords_ok by simp
next
  case (4 p k grab c)
  then show ?case by (auto simp: set_grabbed_def capture_ok_def split: if_splits prod.splits)
qed (auto simp: capture_ok_def split: prod.splits)

lemma apply_commands_ok: "capture_ok now c \<Longrightarrow> apply_commands cmds c = (out, c') \<Longrightarrow> capture_ok now c'"
proof (induction cmds c arbitrary: out rule: apply_commands.induct)
  case (2 p k cmd cmds c)
  obtain o1 c1 where 1: "apply_command p k cmd c = (o1, c1)" by fastforce
  obtain o2 where "apply_commands cmds c1 = (o2, c')" using "2.prems"(2) 1 by (auto split: prod.splits)
  then show ?case using "2.IH" [OF 1 [symmetric] apply_command_ok [OF "2.prems"(1) 1]] by blast
qed simp

lemma flush_beacon_ok: "capture_ok now c \<Longrightarrow> capture_ok now (snd (flush_beacon now c))"
  by (simp add: flush_beacon_def split: option.split prod.split)

lemma held_fst [simp]: "fst \<circ> (\<lambda>(key, h). (key, f key h)) = fst"
  by auto

lemma tick_repeats_ok: "capture_ok now c \<Longrightarrow> capture_ok now (snd (tick_repeats now c))"
  unfolding tick_repeats_def snd_conv
  by (rule capture_ok_held) (auto simp: capture_ok_def held_ok_def intro: order_trans)

text \<open>After the tick no repeat is overdue.\<close>

lemma tick_repeats_future: "(k, h) \<in> set (cp_held (snd (tick_repeats now c))) \<Longrightarrow> now < next_repeat h"
  by (auto simp: tick_repeats_def repeat_due_iff next_repeat_def REPEAT_INTERVAL_def split: if_splits)

lemma sample_probe_fields [simp]:
  "cp_held (sample_probe now r c) = cp_held c" "cp_beacon (sample_probe now r c) = cp_beacon c"
  "cp_last_beacon (sample_probe now r c) = cp_last_beacon c" "cp_grabbed (sample_probe now r c) = cp_grabbed c"
  "capture_ok now' (sample_probe now r c) = capture_ok now' c"
  by (auto simp: sample_probe_def split: option.split)

lemma capture_pass_ok:
  assumes "capture_ok now c" "capture_pass now es cmds pos c = (out, c')"
  shows "capture_ok now c' \<and> (\<forall>(k, h) \<in> set (cp_held c'). now < next_repeat h)"
proof -
  obtain o1 c1 where 1: "on_events now es c = (o1, c1)" by fastforce
  obtain o2 c2 where 2: "apply_commands cmds c1 = (o2, c2)" by fastforce
  obtain o3 c3 where 3: "flush_motion c2 = (o3, c3)" by fastforce
  obtain o4 c4 where 4: "flush_beacon now c3 = (o4, c4)" by fastforce
  obtain o5 c5 where 5: "tick_repeats now c4 = (o5, c5)" by fastforce
  have c': "c' = sample_probe now pos c5" using assms(2) by (simp add: capture_pass_def 1 2 3 4 5)
  have "capture_ok now c3"
    by (rule flush_motion_ok [OF apply_commands_ok [OF on_events_ok [OF assms(1) 1] 2] 3])
  then have "capture_ok now c5"
    using tick_repeats_ok [of now c4] flush_beacon_ok [of now c3] 4 5 by simp
  then show ?thesis using c' tick_repeats_future [of _ _ now c4] 5 by auto
qed

lemma poll_in_time:
  assumes "wait_timeout now c = Some d" "now + d \<le> t"
  shows "\<exists>n. poll_ms (wait_timeout now c) = Some n \<and> now + n * 1000000 \<le> t"
proof -
  obtain n where n: "poll_ms (Some d) = Some n" by (simp add: poll_ms_def)
  have "n * 1000000 \<le> d" by (rule poll_ms_le [OF n])
  then show ?thesis using n assms by fastforce
qed

lemma wait_while_grabbed:
  assumes "capture_ok now c" "cp_grabbed c"
  shows "\<exists>d. wait_timeout now c = Some d \<and> d \<le> REPEAT_DELAY"
proof (cases "cp_held c = []")
  case True
  then show ?thesis
    using assms(2) by (cases "cp_beacon c"; cases "cp_last_beacon c")
      (auto simp: wait_timeout_def opt_min_def capture_times)
next
  case False
  then obtain k h where h: "(k, h) \<in> set (cp_held c)" by (cases "cp_held c") auto
  then have ok: "held_ok now h" using assms(1) by (auto simp: capture_ok_def)
  obtain e where e: "fold (\<lambda>p e. opt_min e (Some (repeat_wait now (snd p)))) (cp_held c) None = Some e"
    "e \<le> repeat_wait now h"
    using earliest_le [of now "cp_held c" None] h by fastforce
  let ?b = "if cp_beacon c = None then None else map_option (\<lambda>last. BEACON_PERIOD - (now - last)) (cp_last_beacon c)"
  obtain d where d: "opt_min ?b (Some e) = Some d"
    by (cases "opt_min ?b (Some e)") (auto simp del: opt_min_Some)
  have "d \<le> e" using d by (cases ?b) (auto simp: opt_min_def)
  moreover have "wait_timeout now c = Some d" using e(1) d by (simp add: wait_timeout_def Let_def del: opt_min_Some)
  moreover have "repeat_wait now h \<le> REPEAT_DELAY" by (auto simp: repeat_wait_def capture_times)
  ultimately show ?thesis using e(2) by fastforce
qed

section \<open>The engine calls of the server\<close>

text \<open>The X server grants every grab; the last word the reader had.\<close>

definition granted :: "engine_call list \<Rightarrow> granted_command list" where
  "granted cs = map (\<lambda>c. (\<lambda>_. Some True, \<lambda>_. Some True, x11_engine c)) cs"

fun isolated_by :: "x_request list \<Rightarrow> bool \<Rightarrow> bool" where
  "isolated_by [] b = b"
| "isolated_by (EvdevRemote # rs) b = isolated_by rs True"
| "isolated_by (EvdevRelease # rs) b = isolated_by rs False"
| "isolated_by (r # rs) b = isolated_by rs b"

fun hidden_by :: "x_request list \<Rightarrow> bool \<Rightarrow> bool" where
  "hidden_by [] b = b"
| "hidden_by (HideCursor # rs) b = hidden_by rs True"
| "hidden_by (ShowCursor # rs) b = hidden_by rs False"
| "hidden_by (r # rs) b = hidden_by rs b"

lemma isolated_by_append [simp]: "isolated_by (rs @ ss) b = isolated_by ss (isolated_by rs b)"
  by (induction rs b rule: isolated_by.induct) auto

lemma hidden_by_append [simp]: "hidden_by (rs @ ss) b = hidden_by ss (hidden_by rs b)"
  by (induction rs b rule: hidden_by.induct) auto

lemma ungrabs_neutral [simp]:
  "isolated_by (map (\<lambda>(kc, m). UngrabKey kc m) xs) b = b" "hidden_by (map (\<lambda>(kc, m). UngrabKey kc m) xs) b = b"
  by (induction xs) auto

lemma grabs_neutral [simp]:
  "isolated_by (map (\<lambda>(kc, m). GrabKey kc m) xs) b = b" "hidden_by (map (\<lambda>(kc, m). GrabKey kc m) xs) b = b"
  by (induction xs) auto

lemma grab_loop_granted: "0 < n \<Longrightarrow> grab_loop (\<lambda>_. Some True) (\<lambda>_. Some True) n i None None = (Some True, Some True)"
  by (cases n) (simp_all add: Let_def)

lemma granted_command:
  assumes "apply_command (\<lambda>_. Some True) (\<lambda>_. Some True) (x11_engine e) c = (out, c')"
  shows "engine_after e (cp_grabbed c, i, h) = (cp_grabbed c', isolated_by out i, hidden_by out h)"
  using assms grab_loop_granted [of GRAB_ATTEMPTS 0]
  by (cases e) (auto simp: set_grabbed_def set_bound_chords_def Let_def GRAB_ATTEMPTS_def split: if_splits prod.splits)

lemma granted_commands:
  "apply_commands (granted es) c = (out, c') \<Longrightarrow>
     fold engine_after es (cp_grabbed c, i, h) = (cp_grabbed c', isolated_by out i, hidden_by out h)"
proof (induction es arbitrary: c i h out)
  case Nil
  then show ?case by (simp add: granted_def)
next
  case (Cons e es)
  obtain o1 c1 where 1: "apply_command (\<lambda>_. Some True) (\<lambda>_. Some True) (x11_engine e) c = (o1, c1)" by fastforce
  obtain o2 where 2: "apply_commands (granted es) c1 = (o2, c')" "out = o1 @ o2"
    using Cons.prems 1 by (auto simp: granted_def split: prod.splits)
  have "fold engine_after (e # es) (cp_grabbed c, i, h) = fold engine_after es (cp_grabbed c1, isolated_by o1 i, hidden_by o1 h)"
    using granted_command [OF 1, of i h] by simp
  also have "\<dots> = (cp_grabbed c', isolated_by o2 (isolated_by o1 i), hidden_by o2 (hidden_by o1 h))"
    by (rule Cons.IH [OF 2(1)])
  finally show ?case using 2(2) by simp
qed

section \<open>How it goes wrong\<close>

text \<open>
  A pointer granted without the keyboard is never given back: the capture does not believe it holds
  the input, so the release that follows returns early and sends nothing.
\<close>

lemma half_grab_is_kept:
  assumes "\<not> cp_grabbed c"
  shows "set_grabbed p k False (snd (set_grabbed (\<lambda>_. Some True) (\<lambda>_. Some False) True c)) =
      ([], snd (set_grabbed (\<lambda>_. Some True) (\<lambda>_. Some False) True c)) \<and>
    cp_pointer (snd (set_grabbed (\<lambda>_. Some True) (\<lambda>_. Some False) True c))"
proof -
  have "grab_loop (\<lambda>_. Some True) (\<lambda>_. Some False) GRAB_ATTEMPTS 0 None None = (Some True, Some False)"
    by (simp add: GRAB_ATTEMPTS_def eval_nat_numeral)
  then show ?thesis using assms by (simp add: set_grabbed_def)
qed

text \<open>A position seen before the grab is sent as a beacon after it: the grab does not clear it.\<close>

lemma stale_beacon_after_grab:
  assumes "cp_beacon c = Some (x, y)" "cp_last_beacon c = None" "\<not> cp_grabbed c"
  shows "cp_grabbed (snd (set_grabbed (\<lambda>_. Some True) (\<lambda>_. Some True) True c)) \<and>
    fst (flush_beacon now (snd (set_grabbed (\<lambda>_. Some True) (\<lambda>_. Some True) True c))) = [Sent (MouseMoveAbs x y)]"
  using assms grab_loop_granted [of GRAB_ATTEMPTS 0]
  by (simp add: set_grabbed_def flush_beacon_def GRAB_ATTEMPTS_def)

text \<open>
  The heartbeat of the capture is wall-clock time, the supervisor's clock the age of the process: the
  tick is ahead of the clock until the process is older than the epoch, and a capture that stopped
  never makes the supervisor exit.
\<close>

lemma wedged_capture_unseen:
  assumes "ms \<le> epoch_tick" "ms - loop_tick \<le> SUPERVISOR_STALL_MS"
  shows "\<not> supervisor_exits ms loop_tick epoch_tick active"
  using assms by (simp add: supervisor_exits_def)

text \<open>
  A chord on Shuffle grabs keycode 150, which is evdev code 142, the sleep key: evdev codes above 247
  do not fit a keycode.
\<close>

lemma shuffle_grabs_sleep: "evdev_from_hid 0xb9 = Some 398 \<and> chord_keycodes 0xb9 = [142 + 8]"
proof -
  have "evdev_from_hid 0xb9 = Some 398" by (simp add: evdev_from_hid_def lookup_def HID_TO_EVDEV_def)
  then show ?thesis by (simp add: chord_keycodes_def)
qed

section \<open>Properties\<close>

text \<open>
  C30. The capture sleeps no longer than it may.  After any turn of its loop no repeat of a held key is
  overdue, and the poll that follows ends by the next repeat of every held key and by the time a
  pending beacon may be sent; while the input is held it ends within half a second, so the heartbeat
  goes on.  Along the way the capture holds both grabs whenever it believes it holds the input, and its
  passive grabs are those of the chords last bound.
\<close>
theorem capture_wakes_in_time:
  assumes "capture_ok now c" "capture_pass now es cmds pos c = (out, c')"
  shows "capture_ok now c' \<and>
    (\<forall>(k, h) \<in> set (cp_held c'). now < next_repeat h \<and>
       (\<exists>n. poll_ms (wait_timeout now c') = Some n \<and> now + n * 1000000 \<le> next_repeat h)) \<and>
    (\<forall>t. beacon_due c' = Some t \<longrightarrow>
       (\<exists>n. poll_ms (wait_timeout now c') = Some n \<and> now + n * 1000000 \<le> max now t)) \<and>
    (cp_grabbed c' \<longrightarrow> (\<exists>n. poll_ms (wait_timeout now c') = Some n \<and> n \<le> 500))"
proof -
  have ok: "capture_ok now c'" and future: "\<forall>(k, h) \<in> set (cp_held c'). now < next_repeat h"
    using capture_pass_ok [OF assms] by auto
  have "\<exists>n. poll_ms (wait_timeout now c') = Some n \<and> now + n * 1000000 \<le> next_repeat h"
    if h: "(k, h) \<in> set (cp_held c')" for k h
  proof -
    have "held_ok now h" using ok h by (auto simp: capture_ok_def)
    then obtain d where d: "wait_timeout now c' = Some d" "now + d \<le> max now (next_repeat h)"
      using wait_timeout_held [OF h] by blast
    then show ?thesis using poll_in_time [OF d(1), of "next_repeat h"] future h by auto
  qed
  moreover have "\<exists>n. poll_ms (wait_timeout now c') = Some n \<and> now + n * 1000000 \<le> max now t"
    if "beacon_due c' = Some t" for t
    using wait_timeout_beacon [OF that] poll_in_time by blast
  moreover have "\<exists>n. poll_ms (wait_timeout now c') = Some n \<and> n \<le> 500" if grabbed: "cp_grabbed c'"
  proof -
    obtain d where d: "wait_timeout now c' = Some d" "d \<le> REPEAT_DELAY" using wait_while_grabbed [OF ok grabbed] by blast
    obtain n where n: "poll_ms (Some d) = Some n" by (simp add: poll_ms_def)
    have "n * 1000000 \<le> d" by (rule poll_ms_le [OF n])
    then show ?thesis using n d by (auto simp: REPEAT_DELAY_def)
  qed
  ultimately show ?thesis using ok future by fast
qed

definition desk :: visible_desktop where
  "desk = whole_root 1920 1080"

theorem capture_wakes_in_time_witness:
  "capture_ok 5 (snd (capture_pass 5 [RawKeyPress 56] [] None (new_capture desk (new_probe 100 0)))) \<and>
   map fst (cp_held (snd (capture_pass 5 [RawKeyPress 56] [] None (new_capture desk (new_probe 100 0))))) = [5]"
proof -
  let ?c = "new_capture desk (new_probe 100 0)"
  obtain out c' where p: "capture_pass 5 [RawKeyPress 56] [] None ?c = (out, c')" by fastforce
  have "canonical_key 56 = Some 5" by (simp add: canonical_key_def b_hid)
  moreover have "pm_flush empty_motion = ([], empty_motion)"
    by (simp add: pm_flush_def take_whole_def empty_motion_def real_to_i32_def trunc_toward_def sat_i32_def)
  ultimately have "map fst (cp_held (snd (capture_pass 5 [RawKeyPress 56] [] None ?c))) = [5]"
    by (simp add: capture_pass_def flush_motion_def flush_beacon_def tick_repeats_def new_capture_def is_escape_def
        hold_key_def)
  then show ?thesis using capture_wakes_in_time [OF new_capture_ok p] p by simp
qed



end
