(* ===== verification/Held_Keys.thy ===== *)
theory Held_Keys
  imports Messages
begin

text \<open>
  The contract the two injectors share for the keys they hold down on their desktop: a press is
  tracked with its native code, and what is tracked covers what is down.  Draining the tracked keys
  then releases all of them.  The X11 and the Windows injector are interpretations.
\<close>

locale held_keys =
  fixes key :: "key_kind \<Rightarrow> u32 \<Rightarrow> 's \<Rightarrow> 'o list \<times> 's"
    and ups :: "u32 list \<Rightarrow> 's \<Rightarrow> 'o list \<times> 's"
    and tracked :: "'s \<Rightarrow> u32 list"
    and code :: "u32 \<Rightarrow> 'c option"
    and down :: "'o list \<Rightarrow> 'c set \<Rightarrow> 'c set"
  assumes down_nil: "down [] D = D"
    and down_append: "down (xs @ ys) D = down ys (down xs D)"
    and unknown: "code k = None \<Longrightarrow> key kind k s = ([], s)"
    and press: "code k = Some c \<Longrightarrow> key KeyDown k s = (out, s') \<Longrightarrow>
      down out D = insert c D \<and> tracked s' = List.insert k (tracked s)"
    and release: "code k = Some c \<Longrightarrow> key KeyUp k s = (out, s') \<Longrightarrow>
      down out D = D - {c} \<and> tracked s' = removeAll k (tracked s)"
    and hold: "code k = Some c \<Longrightarrow> key KeyRepeat k s = (out, s') \<Longrightarrow>
      down out D = (if k \<in> set (tracked s) then insert c D else D) \<and> tracked s' = tracked s"
    and ups_nil: "ups [] s = ([], s)"
    and ups_cons: "key KeyUp k s = (o1, s1) \<Longrightarrow> ups ks s1 = (o2, s2) \<Longrightarrow> ups (k # ks) s = (o1 @ o2, s2)"
begin

definition codes :: "u32 list \<Rightarrow> 'c set" where
  "codes ks = {c. \<exists>k \<in> set ks. code k = Some c}"

lemma codes_nil [simp]: "codes [] = {}"
  by (simp add: codes_def)

text \<open>What is down is covered by what is tracked.\<close>

lemma key_covered:
  assumes "key kind k s = (out, s')" "D \<subseteq> codes (tracked s)"
  shows "down out D \<subseteq> codes (tracked s')"
proof (cases "code k")
  case None
  then show ?thesis using assms unknown [OF None] by (simp add: down_nil)
next
  case (Some c)
  show ?thesis
  proof (cases kind)
    case KeyDown
    then have "down out D = insert c D \<and> tracked s' = List.insert k (tracked s)" using press [OF Some] assms(1) by simp
    then show ?thesis using assms(2) Some by (auto simp: codes_def)
  next
    case KeyUp
    then have "down out D = D - {c}" "tracked s' = removeAll k (tracked s)" using release [OF Some] assms(1) by auto
    moreover have "codes (tracked s) - {c} \<subseteq> codes (removeAll k (tracked s))" using Some by (fastforce simp: codes_def)
    ultimately show ?thesis using assms(2) by auto
  next
    case KeyRepeat
    then have "down out D = (if k \<in> set (tracked s) then insert c D else D) \<and> tracked s' = tracked s"
      using hold [OF Some] assms(1) by simp
    then show ?thesis using assms(2) Some by (auto simp: codes_def split: if_splits)
  qed
qed

text \<open>Draining: with nothing tracked any more, the releases of what was tracked still go out.\<close>

lemma ups_release: "tracked s = [] \<Longrightarrow> ups ks s = (out, s') \<Longrightarrow> down out D = D - codes ks \<and> tracked s' = []"
proof (induction ks arbitrary: s out s' D)
  case Nil
  then show ?case by (simp add: ups_nil down_nil)
next
  case (Cons k ks)
  obtain o1 s1 where 1: "key KeyUp k s = (o1, s1)" by fastforce
  obtain o2 s2 where 2: "ups ks s1 = (o2, s2)" by fastforce
  have out: "out = o1 @ o2" "s' = s2" using Cons.prems(2) ups_cons [OF 1 2] by auto
  have d1: "down o1 D = D - {c. code k = Some c} \<and> tracked s1 = []"
  proof (cases "code k")
    case None
    then show ?thesis using 1 Cons.prems(1) unknown [OF None] by (simp add: down_nil)
  next
    case (Some c)
    have "down o1 D = D - {c} \<and> tracked s1 = removeAll k (tracked s)" by (rule release [OF Some 1])
    then show ?thesis using Some Cons.prems(1) by auto
  qed
  then have s1: "tracked s1 = []" by (rule conjunct2)
  have "down o2 (down o1 D) = down o1 D - codes ks \<and> tracked s2 = []" by (rule Cons.IH [OF s1 2])
  moreover have "down out D = down o2 (down o1 D)" unfolding out(1) by (rule down_append)
  moreover have "D - {c. code k = Some c} - codes ks = D - codes (k # ks)" by (auto simp: codes_def)
  ultimately show ?case using d1 out(2) by simp
qed

lemma drain_clears:
  "D \<subseteq> codes ks \<Longrightarrow> tracked s = [] \<Longrightarrow> ups ks s = (out, s') \<Longrightarrow> down out D = {} \<and> tracked s' = []"
  using ups_release by blast

end

end
