(* ===== verification/X11_Inject.thy ===== *)
theory X11_Inject
  imports X11_Capture Client
begin

text \<open>
  The X11 injection of the client, \<open>platform/src/x11/injector.rs\<close>, and the virtual wheel it uses,
  \<open>wheel_daemon.rs\<close> and the serving half of \<open>wheel_server.rs\<close>.  X requests, wheel frames and uinput
  events are lists; whether the daemon answers is an argument.  A hash set is a list without
  duplicates in the order it would be drained.
\<close>

section \<open>The wheel datagram\<close>

definition WHEEL_DGRAM_LEN :: nat where "WHEEL_DGRAM_LEN = 12"

definition le_i32 :: "int \<Rightarrow> byte list" where
  "le_i32 n = rev (be_bytes 4 (nat (n mod 4294967296)))"

definition of_le_i32 :: "byte list \<Rightarrow> int" where
  "of_le_i32 bs = wrap_i32 (int (be_val (rev bs)))"

definition wheel_pack :: "int \<Rightarrow> int \<Rightarrow> bool \<Rightarrow> byte list" where
  "wheel_pack dx dy left = le_i32 dx @ le_i32 dy @ le_i32 (if left then 1 else 0)"

definition wheel_unpack :: "byte list \<Rightarrow> (int \<times> int \<times> bool) option" where
  "wheel_unpack buf =
     (if length buf \<noteq> WHEEL_DGRAM_LEN then None
      else Some (of_le_i32 (take 4 buf), of_le_i32 (take 4 (drop 4 buf)), be_val (rev (drop 8 buf)) mod 2 \<noteq> 0))"

section \<open>The sender\<close>

record wheel_client =
  wc_bound :: bool
  wc_was_dead :: bool

text \<open>
  What the environment answers: is a daemon bound to the path, can a socket be made and bound, is a
  frame taken.
\<close>

record wheel_env =
  we_alive :: bool
  we_socket :: bool
  we_bind :: bool
  we_taken :: bool

definition wheel_connect :: "wheel_env \<Rightarrow> wheel_client option" where
  "wheel_connect env =
     (if \<not> we_alive env then None else if \<not> we_socket env then None
      else Some \<lparr>wc_bound = False, wc_was_dead = False\<rparr>)"

definition ensure_bound :: "wheel_env \<Rightarrow> wheel_client \<Rightarrow> bool \<times> wheel_client" where
  "ensure_bound env w =
     (if wc_bound w then (True, w) else if we_bind env then (True, w\<lparr>wc_bound := True\<rparr>) else (False, w))"

definition wheel_send :: "wheel_env \<Rightarrow> int \<Rightarrow> int \<Rightarrow> bool \<Rightarrow> wheel_client \<Rightarrow> bool \<times> byte list list \<times> wheel_client" where
  "wheel_send env dx dy left w =
     (case ensure_bound env w of (bound, w') \<Rightarrow>
        if \<not> bound then (False, [], w')
        else if we_taken env then (True, [wheel_pack dx dy left], w'\<lparr>wc_was_dead := False\<rparr>)
        else (False, [], w'\<lparr>wc_was_dead := True\<rparr>))"

definition wheel_set_button :: "wheel_env \<Rightarrow> byte \<Rightarrow> bool \<Rightarrow> wheel_client \<Rightarrow> byte list list \<times> wheel_client" where
  "wheel_set_button env button pressed w =
     (if button \<noteq> 1 then ([], w) else snd (wheel_send env 0 0 pressed w))"

section \<open>The daemon\<close>

definition REL_WHEEL_HI_RES :: u16 where "REL_WHEEL_HI_RES = 0x0b"
definition REL_HWHEEL_HI_RES :: u16 where "REL_HWHEEL_HI_RES = 0x0c"

definition uinput :: "u16 \<Rightarrow> u16 \<Rightarrow> int \<Rightarrow> input_event" where
  "uinput t c v = \<lparr>ev_type = t, ev_code = c, ev_value = v\<rparr>"

definition syn_report :: input_event where
  "syn_report = uinput 0 0 0"

text \<open>\<open>Daemon::apply\<close>; the state is the virtual left button.\<close>

definition daemon_apply :: "int \<Rightarrow> int \<Rightarrow> bool \<Rightarrow> bool \<Rightarrow> input_event list \<times> bool" where
  "daemon_apply dx dy left held =
     ((if left \<noteq> held then [uinput EV_KEY BTN_LEFT (if left then 1 else 0), syn_report] else [])
      @ (if dx \<noteq> 0 then [uinput EV_REL REL_HWHEEL dx, uinput EV_REL REL_HWHEEL_HI_RES (wrap_i32 (dx * 120))] else [])
      @ (if dy \<noteq> 0 then [uinput EV_REL REL_WHEEL dy, uinput EV_REL REL_WHEEL_HI_RES (wrap_i32 (dy * 120))] else [])
      @ (if dx \<noteq> 0 \<or> dy \<noteq> 0 then [syn_report] else []),
      left)"

text \<open>One datagram of the serving loop; a longer one is cut to the buffer by the socket.\<close>

definition daemon_recv :: "byte list \<Rightarrow> bool \<Rightarrow> input_event list \<times> bool" where
  "daemon_recv dgram held =
     (let buf = take WHEEL_DGRAM_LEN dgram in
      if length buf = WHEEL_DGRAM_LEN
      then (case wheel_unpack buf of None \<Rightarrow> ([], held) | Some (dx, dy, left) \<Rightarrow> daemon_apply dx dy left held)
      else ([], held))"

section \<open>The injector\<close>

definition REAL_QUERY_INTERVAL :: nat where "REAL_QUERY_INTERVAL = 8000000"

datatype fake =
  FakeKey bool byte
| FakeButton bool byte
| FakeWarp int int
| WheelFrame "byte list"

record x_injector =
  xi_visible :: visible_desktop
  xi_pos :: "int \<times> int"
  xi_real :: "int \<times> int"
  xi_last_query :: "nat option"
  xi_bounds :: "u32 \<times> u32"
  xi_keys :: "u32 list"
  xi_buttons :: "byte list"
  xi_wheel :: "wheel_client option"

definition new_injector :: "nat \<Rightarrow> wheel_env \<Rightarrow> visible_desktop \<Rightarrow> (int \<times> int) option \<Rightarrow> x_injector" where
  "new_injector now env v reply =
     (let start = (case reply of None \<Rightarrow> (0, 0) | Some (px, py) \<Rightarrow> from_root v px py) in
      \<lparr>xi_visible = v, xi_pos = start, xi_real = start, xi_last_query = Some now, xi_bounds = vd_size v,
       xi_keys = [], xi_buttons = [], xi_wheel = wheel_connect env\<rparr>)"

text \<open>
  \<open>i32::clamp\<close> panics when the upper bound is below the lower; the size of an X screen is far below
  \<open>2 ^ 31\<close>, and the upper bound is then not negative.
\<close>

definition clamp_axis :: "u32 \<Rightarrow> int \<Rightarrow> int" where
  "clamp_axis n x = max 0 (min x (wrap_i32 (max (uint n - 1) 0)))"

definition xi_clamp :: "x_injector \<Rightarrow> int \<Rightarrow> int \<Rightarrow> int \<times> int" where
  "xi_clamp j x y = (clamp_axis (fst (xi_bounds j)) x, clamp_axis (snd (xi_bounds j)) y)"

definition xi_warp :: "int \<Rightarrow> int \<Rightarrow> x_injector \<Rightarrow> fake list \<times> x_injector" where
  "xi_warp x y j =
     (let p = xi_clamp j x y; j' = j\<lparr>xi_pos := p\<rparr> in
      if p = xi_real j then ([], j')
      else (case to_root (xi_visible j) (fst p) (snd p) of (px, py) \<Rightarrow>
              ([FakeWarp (wrap_i16 px) (wrap_i16 py)], j'\<lparr>xi_real := p\<rparr>)))"

definition xi_move_rel :: "int \<Rightarrow> int \<Rightarrow> x_injector \<Rightarrow> fake list \<times> x_injector" where
  "xi_move_rel dx dy j =
     (case xi_clamp j (add32 (fst (xi_pos j)) dx) (add32 (snd (xi_pos j)) dy) of (nx, ny) \<Rightarrow> xi_warp nx ny j)"

definition xi_cursor_position :: "nat \<Rightarrow> (int \<times> int) option \<Rightarrow> x_injector \<Rightarrow> (int \<times> int) \<times> x_injector" where
  "xi_cursor_position now reply j =
     (let j' = (if (case xi_last_query j of None \<Rightarrow> True | Some t \<Rightarrow> REAL_QUERY_INTERVAL \<le> now - t)
                then (let q = j\<lparr>xi_last_query := Some now\<rparr> in
                      case reply of None \<Rightarrow> q | Some (px, py) \<Rightarrow> q\<lparr>xi_real := from_root (xi_visible j) px py\<rparr>)
                else j) in
      (xi_real j', j'))"

definition xi_button :: "wheel_env \<Rightarrow> byte \<Rightarrow> bool \<Rightarrow> x_injector \<Rightarrow> fake list \<times> x_injector" where
  "xi_button env b pressed j =
     (let j1 = j\<lparr>xi_buttons := (if pressed then List.insert b (xi_buttons j) else removeAll b (xi_buttons j))\<rparr> in
      if \<not> pressed \<and> b \<notin> set (xi_buttons j) then ([], j)
      else case to_x11 b of
        None \<Rightarrow> ([], j1)
      | Some xb \<Rightarrow>
          (case xi_wheel j1 of
             None \<Rightarrow> ([FakeButton pressed xb], j1)
           | Some w \<Rightarrow>
               (case wheel_set_button env b pressed w of (frames, w') \<Rightarrow>
                  (FakeButton pressed xb # map WheelFrame frames, j1\<lparr>xi_wheel := Some w'\<rparr>))))"

text \<open>The count of notches; \<open>abs\<close> and the sum wrap.\<close>

definition wheel_notches_x11 :: "int \<Rightarrow> int \<Rightarrow> int" where
  "wheel_notches_x11 dx dy = max 1 (min (add32 (abs32 dx) (abs32 dy)) 10)"

definition xi_scroll :: "wheel_env \<Rightarrow> int \<Rightarrow> int \<Rightarrow> x_injector \<Rightarrow> fake list \<times> x_injector" where
  "xi_scroll env dx dy j =
     (let w0 = (if xi_wheel j = None then wheel_connect env else xi_wheel j);
          (via_daemon, frames, w1) =
            (case w0 of
               None \<Rightarrow> (False, [], None)
             | Some w \<Rightarrow> (case wheel_send env dx dy (1 \<in> set (xi_buttons j)) w of (ok, fs, w') \<Rightarrow> (ok, fs, Some w')));
          j' = j\<lparr>xi_wheel := w1\<rparr> in
      if via_daemon then (map WheelFrame frames, j')
      else case wheel_to_x11 dx dy of
        None \<Rightarrow> ([], j')
      | Some b \<Rightarrow> (concat (replicate (nat (wheel_notches_x11 dx dy)) [FakeButton True b, FakeButton False b]), j'))"

definition keycode_of :: "u32 \<Rightarrow> byte option" where
  "keycode_of key = map_option (\<lambda>e. ucast (e + 8)) (evdev_from_hid key)"

definition xi_key :: "key_kind \<Rightarrow> u32 \<Rightarrow> x_injector \<Rightarrow> fake list \<times> x_injector" where
  "xi_key kind key j =
     (case keycode_of key of
        None \<Rightarrow> ([], j)
      | Some code \<Rightarrow>
          (case kind of
             KeyDown \<Rightarrow> ([FakeKey True code], j\<lparr>xi_keys := List.insert key (xi_keys j)\<rparr>)
           | KeyUp \<Rightarrow> ([FakeKey False code], j\<lparr>xi_keys := removeAll key (xi_keys j)\<rparr>)
           | KeyRepeat \<Rightarrow> if key \<in> set (xi_keys j) then ([FakeKey True code], j) else ([], j)))"

fun xi_keys_up :: "u32 list \<Rightarrow> x_injector \<Rightarrow> fake list \<times> x_injector" where
  "xi_keys_up [] j = ([], j)"
| "xi_keys_up (k # ks) j =
     (case xi_key KeyUp k j of (out, j') \<Rightarrow> case xi_keys_up ks j' of (outs, j'') \<Rightarrow> (out @ outs, j''))"

fun xi_buttons_up :: "wheel_env \<Rightarrow> byte list \<Rightarrow> x_injector \<Rightarrow> fake list \<times> x_injector" where
  "xi_buttons_up env [] j = ([], j)"
| "xi_buttons_up env (b # bs) j =
     (case xi_button env b False j of (out, j') \<Rightarrow> case xi_buttons_up env bs j' of (outs, j'') \<Rightarrow> (out @ outs, j''))"

text \<open>\<open>leave\<close> drains each set before it releases what was in it.\<close>

definition xi_leave :: "wheel_env \<Rightarrow> x_injector \<Rightarrow> fake list \<times> x_injector" where
  "xi_leave env j =
     (case xi_keys_up (xi_keys j) (j\<lparr>xi_keys := []\<rparr>) of (o1, j1) \<Rightarrow>
      case xi_buttons_up env (xi_buttons j1) (j1\<lparr>xi_buttons := []\<rparr>) of (o2, j2) \<Rightarrow> (o1 @ o2, j2))"

text \<open>What the client calls, \<open>injector_call\<close>, on this backend.\<close>

fun x11_event :: "wheel_env \<Rightarrow> inject_event \<Rightarrow> x_injector \<Rightarrow> fake list \<times> x_injector" where
  "x11_event env (InjButton b p) j = xi_button env b p j"
| "x11_event env (InjWheel dx dy) j = xi_scroll env dx dy j"
| "x11_event env (InjKey kind key) j = xi_key kind key j"

fun x11_inject :: "wheel_env \<Rightarrow> injector_call \<Rightarrow> x_injector \<Rightarrow> fake list \<times> x_injector" where
  "x11_inject env (MoveCursor x y) j = xi_warp x y j"
| "x11_inject env (MoveRelative dx dy) j = xi_move_rel dx dy j"
| "x11_inject env (Inject e) j = x11_event env e j"
| "x11_inject env InjectorEnter j = ([], j)"
| "x11_inject env InjectorLeave j = xi_leave env j"
| "x11_inject env SteerHeartbeat j = ([], j)"
| "x11_inject env EmergencyRelease j = ([], j)"

end
