(* ===== verification/X11_Inject_Rules.thy ===== *)
theory X11_Inject_Rules
  imports X11_Inject X11_Capture_Rules Held_Keys
begin

text \<open>
  What the X11 injection guarantees: a key crosses unchanged and none stays down when control leaves,
  the cursor is placed on the visible desktop, and the wheel datagram loses nothing.  Held buttons are
  not released, which two theorems show.
\<close>

section \<open>The wheel datagram\<close>

lemma be_val_lt: "be_val bs < 256 ^ length bs"
  by (metis be_bytes_be_val be_val_be_bytes mod_less_divisor zero_less_numeral zero_less_power)

lemma le_i32_round: "in_i32 n \<Longrightarrow> of_le_i32 (le_i32 n) = n"
proof -
  assume n: "in_i32 n"
  have "n mod 4294967296 < 4294967296" "0 \<le> n mod 4294967296" by simp_all
  then have "nat (n mod 4294967296) < 256 ^ 4" by (simp add: nat_less_iff)
  then have "be_val (be_bytes 4 (nat (n mod 4294967296))) = nat (n mod 4294967296)" by simp
  then show ?thesis using n
    by (simp add: of_le_i32_def le_i32_def wrap_i32_id del: be_val_be_bytes)
qed

lemma length_le_i32 [simp]: "length (le_i32 n) = 4"
  by (simp add: le_i32_def)

lemma wheel_round_trip:
  assumes "in_i32 dx" "in_i32 dy"
  shows "wheel_unpack (wheel_pack dx dy left) = Some (dx, dy, left)"
proof -
  have "be_val (rev (le_i32 (if left then 1 else 0))) = (if left then 1 else 0)" by (simp add: le_i32_def)
  then show ?thesis using le_i32_round assms
    by (simp add: wheel_unpack_def wheel_pack_def WHEEL_DGRAM_LEN_def)
qed

section \<open>The virtual left button\<close>

text \<open>The presses and releases of the virtual button alternate, and end in what was last asked for.\<close>

fun left_alternates :: "bool \<Rightarrow> input_event list \<Rightarrow> bool" where
  "left_alternates held [] = True"
| "left_alternates held (e # es) =
     (if ev_type e = EV_KEY \<and> ev_code e = BTN_LEFT
      then (ev_value e = (if held then 0 else 1)) \<and> left_alternates (\<not> held) es
      else left_alternates held es)"

fun left_after :: "bool \<Rightarrow> input_event list \<Rightarrow> bool" where
  "left_after held [] = held"
| "left_after held (e # es) =
     left_after (if ev_type e = EV_KEY \<and> ev_code e = BTN_LEFT then ev_value e \<noteq> 0 else held) es"

lemma daemon_apply_left:
  "daemon_apply dx dy left held = (out, held') \<Longrightarrow> left_alternates held out \<and> left_after held out = left \<and> held' = left"
  by (cases left; cases held; cases "dx = 0"; cases "dy = 0")
    (auto simp: daemon_apply_def uinput_def syn_report_def kernel_codes REL_WHEEL_HI_RES_def REL_HWHEEL_HI_RES_def)

section \<open>Keys\<close>

text \<open>The keycodes the X server has down.\<close>

fun keys_after :: "fake list \<Rightarrow> byte set \<Rightarrow> byte set" where
  "keys_after [] D = D"
| "keys_after (FakeKey p c # fs) D = keys_after fs (if p then insert c D else D - {c})"
| "keys_after (f # fs) D = keys_after fs D"

fun buttons_after :: "fake list \<Rightarrow> byte set \<Rightarrow> byte set" where
  "buttons_after [] D = D"
| "buttons_after (FakeButton p b # fs) D = buttons_after fs (if p then insert b D else D - {b})"
| "buttons_after (f # fs) D = buttons_after fs D"

lemma keys_after_append [simp]: "keys_after (fs @ gs) D = keys_after gs (keys_after fs D)"
  by (induction fs D rule: keys_after.induct) auto

lemma buttons_after_append [simp]: "buttons_after (fs @ gs) D = buttons_after gs (buttons_after fs D)"
  by (induction fs D rule: buttons_after.induct) auto

fun keyless :: "fake \<Rightarrow> bool" where
  "keyless (FakeKey p c) = False"
| "keyless f = True"

lemma keys_after_keyless: "list_all keyless fs \<Longrightarrow> keys_after fs D = D"
  by (induction fs D rule: keys_after.induct) auto

interpretation x11_keys: held_keys xi_key xi_keys_up xi_keys keycode_of keys_after
  by unfold_locales (auto simp: xi_key_def split: if_splits)

lemma xi_button_keyless:
  "xi_button env b p j = (out, j') \<Longrightarrow> list_all keyless out \<and> xi_keys j' = xi_keys j"
  by (auto simp: xi_button_def Let_def list_all_iff split: if_splits option.splits prod.splits)

lemma xi_buttons_up_keyless:
  "xi_buttons_up env bs j = (out, j') \<Longrightarrow> list_all keyless out \<and> xi_keys j' = xi_keys j"
proof (induction env bs j arbitrary: out rule: xi_buttons_up.induct)
  case (2 env b bs j)
  obtain o1 j1 where 1: "xi_button env b False j = (o1, j1)" by fastforce
  obtain o2 where 2: "xi_buttons_up env bs j1 = (o2, j')" "out = o1 @ o2"
    using "2.prems" 1 by (auto split: prod.splits)
  show ?case using xi_button_keyless [OF 1] "2.IH" [OF 1 [symmetric] 2(1)] 2(2) by simp
qed simp

lemma xi_scroll_keyless:
  assumes "xi_scroll env dx dy j = (out, j')"
  shows "list_all keyless out \<and> xi_keys j' = xi_keys j"
proof -
  let ?w0 = "if xi_wheel j = None then wheel_connect env else xi_wheel j"
  obtain v fs w1 where w: "(case ?w0 of None \<Rightarrow> (False, [], None)
      | Some w \<Rightarrow> (case wheel_send env dx dy (1 \<in> set (xi_buttons j)) w of (ok, fs, w') \<Rightarrow> (ok, fs, Some w'))) = (v, fs, w1)"
    by (metis prod_cases3)
  have "list_all keyless (concat (replicate n [FakeButton True b, FakeButton False b]))" for n b
    by (induction n) auto
  moreover have "list_all keyless (map WheelFrame fs)" by (simp add: list_all_iff)
  ultimately show ?thesis using assms unfolding xi_scroll_def Let_def w
    by (auto split: if_splits option.splits)
qed

lemma xi_warp_keyless: "xi_warp x y j = (out, j') \<Longrightarrow> list_all keyless out \<and> xi_keys j' = xi_keys j"
  by (auto simp: xi_warp_def Let_def split: if_splits prod.splits)

lemma xi_leave_codes:
  assumes "xi_leave env j = (out, j')" "D \<subseteq> x11_keys.codes (xi_keys j)"
  shows "keys_after out D = {} \<and> xi_keys j' = []"
proof -
  obtain o1 j1 where 1: "xi_keys_up (xi_keys j) (j\<lparr>xi_keys := []\<rparr>) = (o1, j1)" by fastforce
  obtain o2 where 2: "xi_buttons_up env (xi_buttons j1) (j1\<lparr>xi_buttons := []\<rparr>) = (o2, j')" "out = o1 @ o2"
    using assms(1) 1 by (auto simp: xi_leave_def split: prod.splits)
  have "keys_after o1 D = {}" "xi_keys j1 = []" using x11_keys.drain_clears [OF assms(2) _ 1] by simp_all
  then show ?thesis using xi_buttons_up_keyless [OF 2(1)] 2(2) keys_after_keyless by auto
qed

lemma keyless_codes:
  "list_all keyless out \<and> xi_keys j' = xi_keys j \<Longrightarrow> D \<subseteq> x11_keys.codes (xi_keys j) \<Longrightarrow> keys_after out D \<subseteq> x11_keys.codes (xi_keys j')"
  by (simp add: keys_after_keyless)

lemma x11_inject_codes:
  assumes "x11_inject env call j = (out, j')" "D \<subseteq> x11_keys.codes (xi_keys j)"
  shows "keys_after out D \<subseteq> x11_keys.codes (xi_keys j')"
proof (cases call)
  case (MoveCursor x y)
  then show ?thesis using assms by (intro keyless_codes [OF xi_warp_keyless]) simp_all
next
  case (MoveRelative dx dy)
  obtain nx ny where "xi_clamp j (add32 (fst (xi_pos j)) dx) (add32 (snd (xi_pos j)) dy) = (nx, ny)" by fastforce
  then have "xi_warp nx ny j = (out, j')" using assms(1) MoveRelative by (simp add: xi_move_rel_def)
  then show ?thesis by (rule keyless_codes [OF xi_warp_keyless assms(2)])
next
  case (Inject e)
  show ?thesis
  proof (cases e)
    case (InjButton b p)
    then have "xi_button env b p j = (out, j')" using assms(1) Inject by simp
    then show ?thesis by (rule keyless_codes [OF xi_button_keyless assms(2)])
  next
    case (InjWheel dx dy)
    then have "xi_scroll env dx dy j = (out, j')" using assms(1) Inject by simp
    then show ?thesis by (rule keyless_codes [OF xi_scroll_keyless assms(2)])
  next
    case (InjKey kind key)
    then have "xi_key kind key j = (out, j')" using assms(1) Inject by simp
    then show ?thesis by (rule x11_keys.key_covered [OF _ assms(2)])
  qed
next
  case InjectorLeave
  then have "xi_leave env j = (out, j')" using assms(1) by simp
  then show ?thesis using xi_leave_codes [OF _ assms(2)] by simp
qed (use assms in simp_all)

text \<open>A run of calls, each with what the environment then answers.\<close>

fun x11_run :: "(wheel_env \<times> injector_call) list \<Rightarrow> x_injector \<Rightarrow> fake list \<times> x_injector" where
  "x11_run [] j = ([], j)"
| "x11_run ((env, call) # cs) j =
     (case x11_inject env call j of (out, j') \<Rightarrow> case x11_run cs j' of (outs, j'') \<Rightarrow> (out @ outs, j''))"

lemma x11_run_codes:
  "x11_run cs j = (out, j') \<Longrightarrow> D \<subseteq> x11_keys.codes (xi_keys j) \<Longrightarrow> keys_after out D \<subseteq> x11_keys.codes (xi_keys j')"
proof (induction cs j arbitrary: out D rule: x11_run.induct)
  case (2 env call cs j)
  obtain o1 j1 where 1: "x11_inject env call j = (o1, j1)" by fastforce
  obtain o2 where 2: "x11_run cs j1 = (o2, j')" "out = o1 @ o2" using "2.prems"(1) 1 by (auto split: prod.splits)
  show ?case using "2.IH" [OF 1 [symmetric] 2(1) x11_inject_codes [OF 1 "2.prems"(2)]] 2(2) by simp
qed simp

section \<open>Placement\<close>

definition on_desk :: "x_injector \<Rightarrow> int \<times> int \<Rightarrow> bool" where
  "on_desk j p \<longleftrightarrow> 0 \<le> fst p \<and> fst p < uint (fst (xi_bounds j)) \<and> 0 \<le> snd p \<and> snd p < uint (snd (xi_bounds j))"

lemma clamp_axis_bounds: "0 < uint n \<Longrightarrow> uint n < 2 ^ 31 \<Longrightarrow> 0 \<le> clamp_axis n x \<and> clamp_axis n x < uint n"
  by (auto simp: clamp_axis_def wrap_i32_id in_i32_def)

lemma warp_on_desk:
  assumes "0 < uint (fst (xi_bounds j))" "uint (fst (xi_bounds j)) < 2 ^ 31"
    "0 < uint (snd (xi_bounds j))" "uint (snd (xi_bounds j)) < 2 ^ 31" "xi_warp x y j = (out, j')"
  shows "on_desk j (xi_pos j') \<and> xi_pos j' = xi_clamp j x y \<and> xi_real j' = xi_pos j' \<and> xi_bounds j' = xi_bounds j"
proof -
  have "on_desk j (xi_clamp j x y)" using assms(1-4) clamp_axis_bounds by (simp add: on_desk_def xi_clamp_def)
  then show ?thesis using assms(5) by (auto simp: xi_warp_def Let_def split: if_splits prod.splits)
qed

section \<open>Held buttons\<close>

text \<open>
  Control leaves while the left button is held: the set is drained first, so the release finds nothing
  to release, and the button stays down; the release that may still arrive is dropped too.
\<close>

lemma leave_keeps_buttons:
  assumes "x11_run [(env, Inject (InjButton BUTTON_LEFT True)), (env, InjectorLeave), (env, Inject (InjButton BUTTON_LEFT False))]
    (new_injector now env v reply) = (out, j)"
  shows "buttons_after out {} = {1}"
proof -
  define j0 where "j0 = new_injector now env v reply"
  have j0: "xi_keys j0 = []" "xi_buttons j0 = []" by (auto simp: j0_def new_injector_def Let_def)
  have press: "\<exists>w. xi_button env BUTTON_LEFT True j0 = ([FakeButton True 1], j0\<lparr>xi_buttons := [0], xi_wheel := w\<rparr>)"
    using j0 by (cases "xi_wheel j0") (auto simp: xi_button_def to_x11_def button_ids wheel_set_button_def Let_def intro: exI [of _ None])
  have gone: "xi_button env b False j = ([], j)" if "xi_buttons j = []" for b j
    using that by (simp add: xi_button_def Let_def)
  have ups: "xi_buttons_up env bs j = ([], j)" if "xi_buttons j = []" for bs j
    using that gone by (induction bs) auto
  show ?thesis using assms press j0 gone ups unfolding j0_def [symmetric]
    by (auto simp: xi_leave_def)
qed

text \<open>The virtual wheel follows button 1, which is the middle one: a left drag is never a drag for it.\<close>

lemma left_drag_unseen: "wheel_set_button env BUTTON_LEFT pressed w = ([], w)"
  by (simp add: wheel_set_button_def button_ids)

text \<open>Shuffle is injected as the sleep key.\<close>

lemma shuffle_injects_sleep: "keycode_of 0xb9 = Some (142 + 8)"
proof -
  have "evdev_from_hid 0xb9 = Some 398" by (simp add: evdev_from_hid_def lookup_def HID_TO_EVDEV_def)
  then show ?thesis by (simp add: keycode_of_def)
qed

text \<open>A key the X capture names is injected with the keycode it was captured with.\<close>

lemma key_crosses_unchanged:
  assumes "canonical_key kc = Some h" "kc < 256"
  shows "keycode_of h = Some (ucast kc)"
proof -
  have k: "8 \<le> kc" "hid_from_evdev (ucast (kc - 8)) = Some h"
    using assms(1) by (auto simp: canonical_key_def split: if_splits)
  have e: "evdev_from_hid h = Some (ucast (kc - 8))" using k(2) by (simp add: evdev_round_trip)
  have "unat kc < 256" "8 \<le> unat kc" using assms(2) k(1) by (simp_all add: word_less_nat_alt word_le_nat_alt)
  then have "unat (kc - 8) = unat kc - 8" using k(1) by (simp add: unat_sub)
  then have "ucast (ucast (kc - 8) + 8 :: u16) = (ucast kc :: byte)"
    using \<open>unat kc < 256\<close> \<open>8 \<le> unat kc\<close>
    by (simp add: word_unat_eq_iff unsigned_ucast_eq unat_word_ariths take_bit_eq_mod)
  then show ?thesis by (simp add: keycode_of_def e)
qed

section \<open>Properties\<close>

text \<open>
  C28. No key stays down on the client: whatever the client injected, in any order and whatever the wheel
  daemon answered, once control leaves the X server has none of the keys down, and the injector
  tracks none.  The same does not hold for buttons.
\<close>
theorem no_key_left_down:
  assumes "x11_run cs (new_injector now env v reply) = (o1, j1)" "x11_inject env' InjectorLeave j1 = (o2, j2)"
  shows "keys_after (o1 @ o2) {} = {} \<and> xi_keys j2 = []"
proof -
  have "keys_after o1 {} \<subseteq> x11_keys.codes (xi_keys j1)" by (rule x11_run_codes [OF assms(1)]) simp
  then show ?thesis using xi_leave_codes [of env' j1 o2 j2] assms(2) by simp
qed

definition no_daemon :: wheel_env where
  "no_daemon = \<lparr>we_alive = False, we_socket = True, we_bind = True, we_taken = True\<rparr>"

theorem no_key_left_down_witness:
  "\<exists>o1 o2 j. x11_run [(no_daemon, Inject (InjKey KeyDown 5))] (new_injector 0 no_daemon desk None) = (o1, j) \<and>
     keys_after o1 {} = {56} \<and> fst (x11_inject no_daemon InjectorLeave j) = o2 \<and> keys_after (o1 @ o2) {} = {}"
proof -
  obtain o1 j where r: "x11_run [(no_daemon, Inject (InjKey KeyDown 5))] (new_injector 0 no_daemon desk None) = (o1, j)"
    by fastforce
  obtain o2 j2 where l: "x11_inject no_daemon InjectorLeave j = (o2, j2)" by fastforce
  have "evdev_from_hid 5 = Some 48" using b_hid by (simp add: evdev_round_trip)
  then have "keys_after o1 {} = {56}" using r by (auto simp: xi_key_def keycode_of_def)
  then show ?thesis using no_key_left_down [OF r l] r l by auto
qed

end
