(* ===== verification/Windows.thy ===== *)
theory Windows
  imports Evdev Client Server
begin

text \<open>
  The Windows backend, \<open>platform/src/windows\<close>: the low-level hooks of the server's capture
  (\<open>capture.rs\<close>, \<open>buttons.rs\<close>), its engine (\<open>engine.rs\<close>, \<open>cursor_hide.rs\<close>), and for the client the
  injector (\<open>injector.rs\<close>) with the isolation of its own hardware (\<open>isolation\<close>).

  The process statics are fields of records.  Window messages are named by the constants the code
  matches on; what the system calls answer is an argument.  A hook procedure returns whether the
  event is swallowed.
\<close>

section \<open>Buttons and the wheel\<close>

datatype mouse_msg =
  WM_MOUSEMOVE | WM_LBUTTONDOWN | WM_LBUTTONUP | WM_RBUTTONDOWN | WM_RBUTTONUP | WM_MBUTTONDOWN | WM_MBUTTONUP
| WM_XBUTTONDOWN | WM_XBUTTONUP | WM_MOUSEWHEEL | WM_MOUSEHWHEEL | WM_OTHER_MOUSE

definition XBUTTON1 :: u32 where "XBUTTON1 = 1"
definition XBUTTON2 :: u32 where "XBUTTON2 = 2"
definition WHEEL_DELTA :: int where "WHEEL_DELTA = 120"

definition hi_word :: "u32 \<Rightarrow> u16" where
  "hi_word d = ucast (drop_bit 16 d)"

fun from_wparam :: "mouse_msg \<Rightarrow> u32 \<Rightarrow> (byte \<times> bool) option" where
  "from_wparam WM_LBUTTONDOWN d = Some (BUTTON_LEFT, True)"
| "from_wparam WM_LBUTTONUP d = Some (BUTTON_LEFT, False)"
| "from_wparam WM_RBUTTONDOWN d = Some (BUTTON_RIGHT, True)"
| "from_wparam WM_RBUTTONUP d = Some (BUTTON_RIGHT, False)"
| "from_wparam WM_MBUTTONDOWN d = Some (BUTTON_MIDDLE, True)"
| "from_wparam WM_MBUTTONUP d = Some (BUTTON_MIDDLE, False)"
| "from_wparam WM_XBUTTONDOWN d = Some (if hi_word d = ucast XBUTTON1 then BUTTON_EXTRA_1 else BUTTON_EXTRA_2, True)"
| "from_wparam WM_XBUTTONUP d = Some (if hi_word d = ucast XBUTTON1 then BUTTON_EXTRA_1 else BUTTON_EXTRA_2, False)"
| "from_wparam _ d = None"

text \<open>The signed high word, in notches.\<close>

definition wheel_notches :: "u32 \<Rightarrow> int" where
  "wheel_notches d = tdiv (sint (hi_word d)) WHEEL_DELTA"

datatype mouse_flag =
  MOUSEEVENTF_LEFTDOWN | MOUSEEVENTF_LEFTUP | MOUSEEVENTF_RIGHTDOWN | MOUSEEVENTF_RIGHTUP | MOUSEEVENTF_MIDDLEDOWN
| MOUSEEVENTF_MIDDLEUP | MOUSEEVENTF_XDOWN | MOUSEEVENTF_XUP | MOUSEEVENTF_WHEEL | MOUSEEVENTF_HWHEEL

definition to_flags :: "byte \<Rightarrow> (mouse_flag \<times> mouse_flag \<times> u32 option) option" where
  "to_flags b =
     (if b = BUTTON_LEFT then Some (MOUSEEVENTF_LEFTDOWN, MOUSEEVENTF_LEFTUP, None)
      else if b = BUTTON_RIGHT then Some (MOUSEEVENTF_RIGHTDOWN, MOUSEEVENTF_RIGHTUP, None)
      else if b = BUTTON_MIDDLE then Some (MOUSEEVENTF_MIDDLEDOWN, MOUSEEVENTF_MIDDLEUP, None)
      else if b = BUTTON_EXTRA_1 then Some (MOUSEEVENTF_XDOWN, MOUSEEVENTF_XUP, Some XBUTTON1)
      else if b = BUTTON_EXTRA_2 then Some (MOUSEEVENTF_XDOWN, MOUSEEVENTF_XUP, Some XBUTTON2)
      else None)"

definition sendinput_flags :: "byte \<Rightarrow> bool \<Rightarrow> (mouse_flag \<times> u32 option) option" where
  "sendinput_flags b pressed = map_option (\<lambda>(down, up, x). (if pressed then down else up, x)) (to_flags b)"

definition wheel_flag :: "int \<Rightarrow> int \<Rightarrow> mouse_flag option" where
  "wheel_flag dx dy = (if dy \<noteq> 0 then Some MOUSEEVENTF_WHEEL else if dx \<noteq> 0 then Some MOUSEEVENTF_HWHEEL else None)"

definition wheel_data :: "int \<Rightarrow> int \<Rightarrow> u32" where
  "wheel_data dx dy = word_of_int ((if dy \<noteq> 0 then dy else dx) * WHEEL_DELTA)"

section \<open>The capture\<close>

record hook_mods =
  hm_ctrl :: bool
  hm_alt :: bool
  hm_shift :: bool
  hm_meta :: bool

definition no_hook_mods :: hook_mods where
  "no_hook_mods = \<lparr>hm_ctrl = False, hm_alt = False, hm_shift = False, hm_meta = False\<rparr>"

definition hook_bits :: "hook_mods \<Rightarrow> byte" where
  "hook_bits m = (if hm_ctrl m then 1 else 0) OR (if hm_alt m then 2 else 0) OR (if hm_shift m then 4 else 0)
     OR (if hm_meta m then 8 else 0)"

definition update_hook_mods :: "u32 \<Rightarrow> bool \<Rightarrow> hook_mods \<Rightarrow> hook_mods" where
  "update_hook_mods key down m =
     (if key = 0xe0 \<or> key = 0xe4 then m\<lparr>hm_ctrl := down\<rparr>
      else if key = 0xe1 \<or> key = 0xe5 then m\<lparr>hm_shift := down\<rparr>
      else if key = 0xe2 \<or> key = 0xe6 then m\<lparr>hm_alt := down\<rparr>
      else if key = 0xe3 \<or> key = 0xe7 then m\<lparr>hm_meta := down\<rparr>
      else m)"

type_synonym scan_id = "u16 \<times> bool"

record win_capture =
  wn_isolate :: bool
  wn_keys :: "scan_id set"
  wn_pending :: pending_motion
  wn_escape :: bool
  wn_swallowed :: "scan_id set"
  wn_chords :: "(byte \<times> u32) list"
  wn_mods :: hook_mods
  wn_last_beacon :: "(int \<times> int) option"

definition new_win_capture :: win_capture where
  "new_win_capture = \<lparr>wn_isolate = False, wn_keys = {}, wn_pending = empty_motion, wn_escape = False,
     wn_swallowed = {}, wn_chords = [], wn_mods = no_hook_mods, wn_last_beacon = None\<rparr>"

definition is_bound_chord :: "byte \<Rightarrow> u32 \<Rightarrow> win_capture \<Rightarrow> bool" where
  "is_bound_chord m key w = list_ex (\<lambda>(bm, k). k = key \<and> bm = m) (wn_chords w)"

definition publish_chords :: "(byte \<times> u32) list \<Rightarrow> win_capture \<Rightarrow> win_capture" where
  "publish_chords cs w = w\<lparr>wn_chords := cs\<rparr>"

record mouse_info =
  mi_pt :: "int \<times> int"
  mi_data :: u32
  mi_flags :: u32

text \<open>\<open>cur\<close> is what \<open>GetCursorPos\<close> answers.\<close>

definition capture_mouse_proc ::
  "int \<Rightarrow> mouse_msg \<Rightarrow> mouse_info \<Rightarrow> (int \<times> int) option \<Rightarrow> win_capture \<Rightarrow> bool \<times> message list \<times> win_capture" where
  "capture_mouse_proc code msg info cur w =
     (if code < 0 then (False, [], w)
      else
        let (out, w') =
          (if msg = WM_MOUSEMOVE then
             (case cur of
                None \<Rightarrow> ([], w)
              | Some (ax, ay) \<Rightarrow>
                  let dx = sub32 (fst (mi_pt info)) ax; dy = sub32 (snd (mi_pt info)) ay in
                  if dx \<noteq> 0 \<or> dy \<noteq> 0 then ([], w\<lparr>wn_pending := pm_push (of_int dx) (of_int dy) (wn_pending w)\<rparr>)
                  else ([], w))
           else case from_wparam msg (mi_data info) of
             Some (b, pressed) \<Rightarrow> ([MouseButton b pressed], w)
           | None \<Rightarrow>
               if msg = WM_MOUSEWHEEL \<or> msg = WM_MOUSEHWHEEL then
                 let notches = wheel_notches (mi_data info) in
                 if notches \<noteq> 0
                 then (if msg = WM_MOUSEWHEEL then ([MouseWheel 0 notches], w) else ([MouseWheel notches 0], w))
                 else ([], w)
               else ([], w)) in
        (wn_isolate w', out, w'))"

datatype key_msg = WM_KEYDOWN | WM_SYSKEYDOWN | WM_KEYUP | WM_SYSKEYUP | WM_OTHER_KEY

record key_info =
  ki_vk :: u32
  ki_scan :: u32
  ki_flags :: u32

definition VK_PAUSE :: u32 where "VK_PAUSE = 0x13"
definition ESCAPE_SCAN :: u16 where "ESCAPE_SCAN = 0x46"
definition ESCAPE_EXTENDED :: bool where "ESCAPE_EXTENDED = False"
definition LLKHF_EXTENDED :: u32 where "LLKHF_EXTENDED = 1"

definition is_hid_modifier :: "u32 \<Rightarrow> bool" where
  "is_hid_modifier key \<longleftrightarrow> 0xe0 \<le> key \<and> key \<le> 0xe7"

text \<open>A press, a release, and what the procedure does when the event is neither.\<close>

definition hook_press :: "scan_id \<Rightarrow> win_capture \<Rightarrow> bool \<times> message list \<times> win_capture" where
  "hook_press i w =
     (let w1 = w\<lparr>wn_keys := insert i (wn_keys w)\<rparr> in
      case hid_from_scancode (fst i) (snd i) of
        None \<Rightarrow> (wn_isolate w1, [], w1)
      | Some key \<Rightarrow>
          let chord = (\<not> is_hid_modifier key \<and> is_bound_chord (hook_bits (wn_mods w1)) key w1);
              w2 = (if is_hid_modifier key then w1\<lparr>wn_mods := update_hook_mods key True (wn_mods w1)\<rparr>
                    else if chord then w1\<lparr>wn_swallowed := insert i (wn_swallowed w1)\<rparr>
                    else w1) in
          if wn_isolate w2 \<and> key = ESCAPE_KEY_HID then (True, [Escape], w2\<lparr>wn_escape := True\<rparr>)
          else (chord \<or> wn_isolate w2, [Key KeyDown key], w2))"

definition hook_release :: "scan_id \<Rightarrow> win_capture \<Rightarrow> bool \<times> message list \<times> win_capture" where
  "hook_release i w =
     (let w1 = w\<lparr>wn_keys := wn_keys w - {i}\<rparr> in
      if i = (ESCAPE_SCAN, ESCAPE_EXTENDED) \<and> wn_escape w1 then (True, [], w1\<lparr>wn_escape := False\<rparr>)
      else case hid_from_scancode (fst i) (snd i) of
        None \<Rightarrow> (wn_isolate w1, [], w1)
      | Some key \<Rightarrow>
          let w2 = (if is_hid_modifier key then w1\<lparr>wn_mods := update_hook_mods key False (wn_mods w1)\<rparr> else w1);
              suppress = (i \<in> wn_swallowed w2) in
          (suppress \<or> wn_isolate w2, [Key KeyUp key], w2\<lparr>wn_swallowed := wn_swallowed w2 - {i}\<rparr>))"

definition capture_keyboard_proc ::
  "int \<Rightarrow> key_msg \<Rightarrow> key_info \<Rightarrow> win_capture \<Rightarrow> bool \<times> message list \<times> win_capture" where
  "capture_keyboard_proc code msg info w =
     (if code < 0 then (False, [], w)
      else if ki_vk info = VK_PAUSE then (wn_isolate w, [], w)
      else
        let i = (ucast (ki_scan info), ki_flags info AND LLKHF_EXTENDED \<noteq> 0);
            is_down = (msg = WM_KEYDOWN \<or> msg = WM_SYSKEYDOWN);
            is_up = (msg = WM_KEYUP \<or> msg = WM_SYSKEYUP);
            was_down = (i \<in> wn_keys w) in
        if is_down \<and> \<not> was_down then hook_press i w
        else if is_up \<and> was_down then hook_release i w
        else (wn_isolate w, [], w))"

definition flush_pending_motion :: "win_capture \<Rightarrow> message list \<times> win_capture" where
  "flush_pending_motion w =
     (case pm_flush (wn_pending w) of (moves, p) \<Rightarrow> (map (\<lambda>(dx, dy). MouseMoveRel dx dy) moves, w\<lparr>wn_pending := p\<rparr>))"

definition on_beacon_timer :: "(int \<times> int) option \<Rightarrow> win_capture \<Rightarrow> message list \<times> win_capture" where
  "on_beacon_timer cur w =
     (if wn_isolate w then ([], w)
      else case cur of
        None \<Rightarrow> ([], w)
      | Some pos \<Rightarrow>
          if wn_last_beacon w = Some pos then ([], w)
          else ([MouseMoveAbs (fst pos) (snd pos)], w\<lparr>wn_last_beacon := Some pos\<rparr>))"

section \<open>The engine\<close>

text \<open>\<open>cursor_hide\<close>: shown, or hidden by the swap of the system cursors; the handles ever created.\<close>

record cursor_hide =
  ch_state :: nat
  ch_created :: nat

text \<open>\<open>made\<close> is whether the cursor can be created, \<open>swapped\<close> whether every shape is replaced.\<close>

definition ch_hide :: "bool \<Rightarrow> bool \<Rightarrow> cursor_hide \<Rightarrow> cursor_hide" where
  "ch_hide made swapped h =
     (if ch_state h \<noteq> 0 then h
      else if \<not> made then h
      else h\<lparr>ch_created := ch_created h + 1, ch_state := (if swapped then 2 else 0)\<rparr>)"

definition ch_restore :: "cursor_hide \<Rightarrow> cursor_hide" where
  "ch_restore h = h\<lparr>ch_state := 0\<rparr>"

datatype engine_cmd = CursorVisible bool | EngineWarp int int

text \<open>An engine call: the commands it sends to the engine thread, and the capture's statics after it.\<close>

fun win32_engine :: "engine_call \<Rightarrow> win_capture \<Rightarrow> engine_cmd list \<times> win_capture" where
  "win32_engine (GrabInput g) w = ([], w\<lparr>wn_isolate := g\<rparr>)"
| "win32_engine (IsolateInput i) w = ([], w\<lparr>wn_isolate := i\<rparr>)"
| "win32_engine (WarpLocal x y) w = ([EngineWarp x y], w)"
| "win32_engine (ShowLocalCursor v) w = ([CursorVisible v], w)"
| "win32_engine (SetBoundChords cs) w = ([], publish_chords cs w)"

fun engine_exec :: "bool \<Rightarrow> bool \<Rightarrow> engine_cmd \<Rightarrow> cursor_hide \<Rightarrow> (int \<times> int) option \<times> cursor_hide" where
  "engine_exec made swapped (CursorVisible v) h = (None, if v then ch_restore h else ch_hide made swapped h)"
| "engine_exec made swapped (EngineWarp x y) h = (Some (x, y), h)"

section \<open>The isolation of the client\<close>

definition WATCHDOG_TIMEOUT_MS :: nat where "WATCHDOG_TIMEOUT_MS = 2000"
definition WATCHDOG_PERIOD_MS :: nat where "WATCHDOG_PERIOD_MS = 500"
definition LLMHF_INJECTED :: u32 where "LLMHF_INJECTED = 1"
definition LLKHF_INJECTED :: u32 where "LLKHF_INJECTED = 16"

record isolation =
  io_isolate :: bool
  io_resumed :: bool
  io_last_steer :: nat
  io_secure_released :: bool
  io_shown :: nat

definition new_isolation :: isolation where
  "new_isolation = \<lparr>io_isolate = False, io_resumed = False, io_last_steer = 0, io_secure_released = False, io_shown = 0\<rparr>"

definition io_heartbeat :: "nat \<Rightarrow> isolation \<Rightarrow> isolation" where
  "io_heartbeat now s = s\<lparr>io_last_steer := now\<rparr>"

definition set_isolating :: "nat \<Rightarrow> bool \<Rightarrow> isolation \<Rightarrow> isolation" where
  "set_isolating now b s = (let s' = s\<lparr>io_isolate := b\<rparr> in if b then io_heartbeat now s' else s')"

definition take_resumed :: "isolation \<Rightarrow> bool \<times> isolation" where
  "take_resumed s = (io_resumed s, s\<lparr>io_resumed := False\<rparr>)"

text \<open>\<open>desktop\<close> is the name of the input desktop, when it can be read.\<close>

definition secure_desktop_active :: "string option \<Rightarrow> bool" where
  "secure_desktop_active desktop = (case desktop of None \<Rightarrow> False | Some name \<Rightarrow> name \<noteq> ''Default'')"

definition on_secure_desktop :: "string option \<Rightarrow> isolation \<Rightarrow> bool \<times> isolation" where
  "on_secure_desktop desktop s =
     (if \<not> secure_desktop_active desktop then (False, s\<lparr>io_secure_released := False\<rparr>)
      else if io_secure_released s then (True, s)
      else (True, s\<lparr>io_secure_released := True, io_isolate := False, io_shown := io_shown s + 1\<rparr>))"

definition io_watchdog :: "nat \<Rightarrow> string option \<Rightarrow> isolation \<Rightarrow> isolation" where
  "io_watchdog now desktop s =
     (if \<not> io_isolate s then s
      else case on_secure_desktop desktop s of
        (True, s') \<Rightarrow> s'
      | (False, s') \<Rightarrow>
          if io_last_steer s' = 0 then s'\<lparr>io_last_steer := now\<rparr>
          else if now - io_last_steer s' > WATCHDOG_TIMEOUT_MS
          then s'\<lparr>io_isolate := False, io_shown := io_shown s' + 1\<rparr>
          else s')"

datatype power_event = PBT_APMRESUMEAUTOMATIC | PBT_APMRESUMESUSPEND | PBT_OTHER

definition on_power_event :: "power_event \<Rightarrow> isolation \<Rightarrow> isolation" where
  "on_power_event e s =
     (if e = PBT_OTHER then s
      else s\<lparr>io_isolate := False, io_resumed := True, io_shown := io_shown s + 1\<rparr>)"

text \<open>The two hooks of the client: whether the event is swallowed.\<close>

definition client_mouse_proc :: "int \<Rightarrow> u32 \<Rightarrow> isolation \<Rightarrow> bool" where
  "client_mouse_proc code flags s \<longleftrightarrow> code \<ge> 0 \<and> io_isolate s \<and> flags AND LLMHF_INJECTED = 0"

definition client_keyboard_proc :: "int \<Rightarrow> u32 \<Rightarrow> isolation \<Rightarrow> bool" where
  "client_keyboard_proc code flags s \<longleftrightarrow> code \<ge> 0 \<and> io_isolate s \<and> flags AND LLKHF_INJECTED = 0"

section \<open>The injector\<close>

datatype win_input =
  SetCursorPos int int
| SendKey u16 bool bool
| SendMouse mouse_flag "u32 option"
| SendWheel mouse_flag u32

record win_injector =
  wi_pos :: "int \<times> int"
  wi_keys :: "u32 list"
  wi_buttons :: "byte list"
  wi_isolation :: isolation

definition new_win_injector :: "isolation \<Rightarrow> win_injector" where
  "new_win_injector s = \<lparr>wi_pos = (0, 0), wi_keys = [], wi_buttons = [], wi_isolation = s\<rparr>"

text \<open>\<open>metrics\<close> is the size of the primary screen.\<close>

definition wi_clamp :: "int \<times> int \<Rightarrow> int \<Rightarrow> int \<Rightarrow> int \<times> int" where
  "wi_clamp metrics x y =
     (max 0 (min x (max (sub32 (fst metrics) 1) 0)), max 0 (min y (max (sub32 (snd metrics) 1) 0)))"

definition wi_move_cursor :: "int \<times> int \<Rightarrow> int \<Rightarrow> int \<Rightarrow> win_injector \<Rightarrow> win_input list \<times> win_injector" where
  "wi_move_cursor metrics x y j =
     (let p = wi_clamp metrics x y in ([SetCursorPos (fst p) (snd p)], j\<lparr>wi_pos := p\<rparr>))"

definition wi_move_rel :: "int \<times> int \<Rightarrow> int \<Rightarrow> int \<Rightarrow> win_injector \<Rightarrow> win_input list \<times> win_injector" where
  "wi_move_rel metrics dx dy j =
     (let p = wi_clamp metrics (add32 (fst (wi_pos j)) dx) (add32 (snd (wi_pos j)) dy) in
      ([SetCursorPos (fst p) (snd p)], j\<lparr>wi_pos := p\<rparr>))"

definition wi_cursor_position :: "(int \<times> int) option \<Rightarrow> win_injector \<Rightarrow> int \<times> int" where
  "wi_cursor_position reply j = (case reply of None \<Rightarrow> wi_pos j | Some p \<Rightarrow> p)"

definition wi_button :: "byte \<Rightarrow> bool \<Rightarrow> win_injector \<Rightarrow> win_input list \<times> win_injector" where
  "wi_button b pressed j =
     (if \<not> pressed \<and> b \<notin> set (wi_buttons j) then ([], j)
      else
        let j' = j\<lparr>wi_buttons := (if pressed then List.insert b (wi_buttons j) else removeAll b (wi_buttons j))\<rparr> in
        case sendinput_flags b pressed of
          None \<Rightarrow> ([], j')
        | Some (flag, x) \<Rightarrow> ([SendMouse flag x], j'))"

definition wi_wheel :: "int \<Rightarrow> int \<Rightarrow> win_input list" where
  "wi_wheel dx dy = (case wheel_flag dx dy of None \<Rightarrow> [] | Some flag \<Rightarrow> [SendWheel flag (wheel_data dx dy)])"

definition wi_key :: "key_kind \<Rightarrow> u32 \<Rightarrow> win_injector \<Rightarrow> win_input list \<times> win_injector" where
  "wi_key kind key j =
     (case scancode_from_hid key of
        None \<Rightarrow> ([], j)
      | Some (scan, extended) \<Rightarrow>
          (case kind of
             KeyDown \<Rightarrow> ([SendKey scan extended True], j\<lparr>wi_keys := List.insert key (wi_keys j)\<rparr>)
           | KeyUp \<Rightarrow> ([SendKey scan extended False], j\<lparr>wi_keys := removeAll key (wi_keys j)\<rparr>)
           | KeyRepeat \<Rightarrow> if key \<in> set (wi_keys j) then ([SendKey scan extended True], j) else ([], j)))"

fun wi_keys_up :: "u32 list \<Rightarrow> win_injector \<Rightarrow> win_input list \<times> win_injector" where
  "wi_keys_up [] j = ([], j)"
| "wi_keys_up (k # ks) j =
     (case wi_key KeyUp k j of (out, j') \<Rightarrow> case wi_keys_up ks j' of (outs, j'') \<Rightarrow> (out @ outs, j''))"

fun wi_buttons_up :: "byte list \<Rightarrow> win_injector \<Rightarrow> win_input list \<times> win_injector" where
  "wi_buttons_up [] j = ([], j)"
| "wi_buttons_up (b # bs) j =
     (case wi_button b False j of (out, j') \<Rightarrow> case wi_buttons_up bs j' of (outs, j'') \<Rightarrow> (out @ outs, j''))"

definition wi_enter :: "nat \<Rightarrow> win_injector \<Rightarrow> win_injector" where
  "wi_enter now j = j\<lparr>wi_isolation := set_isolating now True (wi_isolation j)\<rparr>"

definition wi_leave :: "nat \<Rightarrow> win_injector \<Rightarrow> win_input list \<times> win_injector" where
  "wi_leave now j =
     (let j0 = j\<lparr>wi_isolation := set_isolating now False (wi_isolation j)\<rparr> in
      case wi_keys_up (wi_keys j0) (j0\<lparr>wi_keys := []\<rparr>) of (o1, j1) \<Rightarrow>
      case wi_buttons_up (wi_buttons j1) (j1\<lparr>wi_buttons := []\<rparr>) of (o2, j2) \<Rightarrow> (o1 @ o2, j2))"

text \<open>\<open>emergency_release\<close>, and the drop of an injector.\<close>

definition restore_machine :: "nat \<Rightarrow> win_injector \<Rightarrow> win_injector" where
  "restore_machine now j = j\<lparr>wi_isolation := set_isolating now False (wi_isolation j)\<rparr>"

fun win_event :: "inject_event \<Rightarrow> win_injector \<Rightarrow> win_input list \<times> win_injector" where
  "win_event (InjButton b p) j = wi_button b p j"
| "win_event (InjWheel dx dy) j = (wi_wheel dx dy, j)"
| "win_event (InjKey kind key) j = wi_key kind key j"

fun win_inject :: "nat \<Rightarrow> int \<times> int \<Rightarrow> injector_call \<Rightarrow> win_injector \<Rightarrow> win_input list \<times> win_injector" where
  "win_inject now metrics (MoveCursor x y) j = wi_move_cursor metrics x y j"
| "win_inject now metrics (MoveRelative dx dy) j = wi_move_rel metrics dx dy j"
| "win_inject now metrics (Inject e) j = win_event e j"
| "win_inject now metrics InjectorEnter j = ([], wi_enter now j)"
| "win_inject now metrics InjectorLeave j = wi_leave now j"
| "win_inject now metrics SteerHeartbeat j = ([], j\<lparr>wi_isolation := io_heartbeat now (wi_isolation j)\<rparr>)"
| "win_inject now metrics EmergencyRelease j = ([], restore_machine now j)"

end
