(* ===== verification/Windows_Rules.thy ===== *)
theory Windows_Rules
  imports Windows Held_Keys Evdev_Rules X11_Inject_Rules
begin

text \<open>
  What the Windows backend guarantees: the capture forwards each key as strictly alternating presses
  and releases and swallows what it should, the client's isolation ends with its steering, and no key
  is left down when control leaves.  Five theorems show what it does not do.
\<close>

section \<open>The key stream of the capture\<close>

text \<open>Presses and releases of key \<open>h\<close> alternate, and there are no repeats.\<close>

fun alternating :: "u32 \<Rightarrow> bool \<Rightarrow> message list \<Rightarrow> bool" where
  "alternating h held [] = True"
| "alternating h held (Key k g # ms) =
     (if g \<noteq> h then alternating h held ms
      else (k = (if held then KeyUp else KeyDown)) \<and> alternating h (\<not> held) ms)"
| "alternating h held (m # ms) = alternating h held ms"

lemma alternating_append:
  "alternating h b ms \<Longrightarrow> alternating h b (ms @ ns) \<longleftrightarrow> alternating h (tracked h b ms) ns"
proof (induction h b ms rule: alternating.induct)
  case (2 h held k g ms)
  then show ?case by (cases k; cases held) (auto split: if_splits)
qed auto

text \<open>The keys whose press was forwarded and whose release was not.\<close>

definition forwarded :: "win_capture \<Rightarrow> u32 \<Rightarrow> bool" where
  "forwarded w h \<longleftrightarrow>
     (\<exists>i \<in> wn_keys w. hid_from_scancode (fst i) (snd i) = Some h \<and> \<not> (i = (ESCAPE_SCAN, ESCAPE_EXTENDED) \<and> wn_escape w))"

definition capture_sane :: "win_capture \<Rightarrow> bool" where
  "capture_sane w \<longleftrightarrow> (wn_escape w \<longrightarrow> (ESCAPE_SCAN, ESCAPE_EXTENDED) \<in> wn_keys w)"

lemma same_scan:
  "hid_from_scancode (fst i) (snd i) = Some h \<Longrightarrow> hid_from_scancode (fst j) (snd j) = Some h \<Longrightarrow> i = j"
  using scan.capture_inj [of i h j] by (simp add: case_prod_beta)

lemma escape_scan: "hid_from_scancode ESCAPE_SCAN ESCAPE_EXTENDED = Some ESCAPE_KEY_HID"
  by (simp add: hid_from_scancode_def HID_TO_SCAN_def ESCAPE_SCAN_def ESCAPE_EXTENDED_def ESCAPE_KEY_HID_def)

lemma escape_scan_only: "hid_from_scancode (fst i) (snd i) = Some ESCAPE_KEY_HID \<Longrightarrow> i = (ESCAPE_SCAN, ESCAPE_EXTENDED)"
  using same_scan [of i ESCAPE_KEY_HID "(ESCAPE_SCAN, ESCAPE_EXTENDED)"] escape_scan by simp

lemma forwarded_iff:
  "hid_from_scancode (fst i) (snd i) = Some h \<Longrightarrow>
     forwarded w h \<longleftrightarrow> i \<in> wn_keys w \<and> \<not> (i = (ESCAPE_SCAN, ESCAPE_EXTENDED) \<and> wn_escape w)"
  unfolding forwarded_def by (metis same_scan)

text \<open>What a press and a release leave.\<close>

lemma hook_press_fields:
  assumes "hook_press i w = (sw, out, w')"
  shows "wn_keys w' = insert i (wn_keys w)" "wn_isolate w' = wn_isolate w"
    "out = (case hid_from_scancode (fst i) (snd i) of None \<Rightarrow> []
       | Some k \<Rightarrow> if wn_isolate w \<and> k = ESCAPE_KEY_HID then [Escape] else [Key KeyDown k])"
    "wn_escape w' = (wn_escape w \<or> (wn_isolate w \<and> hid_from_scancode (fst i) (snd i) = Some ESCAPE_KEY_HID))"
  using assms by (auto simp: hook_press_def Let_def split: option.splits if_splits)

lemma hook_release_fields:
  assumes "hook_release i w = (sw, out, w')"
  shows "wn_keys w' = wn_keys w - {i}" "wn_isolate w' = wn_isolate w"
    "out = (if i = (ESCAPE_SCAN, ESCAPE_EXTENDED) \<and> wn_escape w then []
       else case hid_from_scancode (fst i) (snd i) of None \<Rightarrow> [] | Some k \<Rightarrow> [Key KeyUp k])"
    "wn_escape w' = (if i = (ESCAPE_SCAN, ESCAPE_EXTENDED) then False else wn_escape w)"
  using assms by (auto simp: hook_release_def Let_def split: option.splits if_splits)

lemma hook_press_stream:
  assumes "hook_press i w = (sw, out, w')" "i \<notin> wn_keys w" "capture_sane w"
  shows "alternating h (forwarded w h) out \<and> (tracked h (forwarded w h) out \<longleftrightarrow> forwarded w' h) \<and> capture_sane w'"
proof -
  note f = hook_press_fields [OF assms(1)]
  have sane: "capture_sane w'" using assms(3) f escape_scan_only [of i] by (auto simp: capture_sane_def)
  show ?thesis
  proof (cases "hid_from_scancode (fst i) (snd i) = Some h")
    case True
    then have "\<not> forwarded w h" using forwarded_iff [OF True] assms(2) by simp
    moreover have "forwarded w' h \<longleftrightarrow> \<not> (wn_isolate w \<and> h = ESCAPE_KEY_HID)"
      using forwarded_iff [OF True, of w'] f True assms(2,3) escape_scan escape_scan_only [of i] by (auto simp: capture_sane_def)
    ultimately show ?thesis using f(3) True sane by auto
  next
    case False
    have esc: "wn_escape w' = wn_escape w" if "h = ESCAPE_KEY_HID" using f(4) False that by auto
    have "forwarded w' h \<longleftrightarrow> forwarded w h"
    proof (cases "\<exists>j. hid_from_scancode (fst j) (snd j) = Some h")
      case True
      then obtain j where j: "hid_from_scancode (fst j) (snd j) = Some h" by blast
      have "j \<noteq> i" using j False by auto
      moreover have "wn_escape w' = wn_escape w" if "j = (ESCAPE_SCAN, ESCAPE_EXTENDED)"
        using esc j that escape_scan by simp
      ultimately show ?thesis using forwarded_iff [OF j] f(1) by auto
    next
      case False
      then show ?thesis by (auto simp: forwarded_def)
    qed
    then show ?thesis using f(3) False sane by (auto split: option.splits if_splits)
  qed
qed

lemma hook_release_stream:
  assumes "hook_release i w = (sw, out, w')" "i \<in> wn_keys w" "capture_sane w"
  shows "alternating h (forwarded w h) out \<and> (tracked h (forwarded w h) out \<longleftrightarrow> forwarded w' h) \<and> capture_sane w'"
proof -
  note f = hook_release_fields [OF assms(1)]
  have sane: "capture_sane w'" using assms(3) f by (auto simp: capture_sane_def)
  show ?thesis
  proof (cases "hid_from_scancode (fst i) (snd i) = Some h")
    case True
    then have "forwarded w h \<longleftrightarrow> \<not> (i = (ESCAPE_SCAN, ESCAPE_EXTENDED) \<and> wn_escape w)"
      using forwarded_iff [OF True] assms(2) by simp
    moreover have "\<not> forwarded w' h" using forwarded_iff [OF True, of w'] f(1) by simp
    ultimately show ?thesis using f(3) True sane by auto
  next
    case False
    have "forwarded w' h \<longleftrightarrow> forwarded w h"
    proof (cases "\<exists>j. hid_from_scancode (fst j) (snd j) = Some h")
      case True
      then obtain j where j: "hid_from_scancode (fst j) (snd j) = Some h" by blast
      have "j \<noteq> i" using j False by auto
      then show ?thesis using forwarded_iff [OF j] f(1,4) by auto
    next
      case False
      then show ?thesis by (auto simp: forwarded_def)
    qed
    then show ?thesis using f(3) False sane by (auto split: option.splits if_splits)
  qed
qed

lemma keyboard_stream:
  assumes "capture_keyboard_proc code msg info w = (sw, out, w')" "capture_sane w"
  shows "alternating h (forwarded w h) out \<and> (tracked h (forwarded w h) out \<longleftrightarrow> forwarded w' h) \<and> capture_sane w'"
  using assms hook_press_stream [of _ w sw out w'] hook_release_stream [of _ w sw out w']
  by (auto simp: capture_keyboard_proc_def Let_def split: if_splits)

text \<open>What happens to the capture: hook calls, the flush of its loop, its timer, the engine.\<close>

datatype win_happening =
  HookKey int key_msg key_info
| HookMouse int mouse_msg mouse_info "(int \<times> int) option"
| LoopFlush
| BeaconTimer "(int \<times> int) option"
| EngineCalls engine_call

fun win_step :: "win_happening \<Rightarrow> win_capture \<Rightarrow> message list \<times> win_capture" where
  "win_step (HookKey code msg info) w = snd (capture_keyboard_proc code msg info w)"
| "win_step (HookMouse code msg info cur) w = snd (capture_mouse_proc code msg info cur w)"
| "win_step LoopFlush w = flush_pending_motion w"
| "win_step (BeaconTimer cur) w = on_beacon_timer cur w"
| "win_step (EngineCalls c) w = ([], snd (win32_engine c w))"

fun win_run :: "win_happening list \<Rightarrow> win_capture \<Rightarrow> message list \<times> win_capture" where
  "win_run [] w = ([], w)"
| "win_run (e # es) w = (case win_step e w of (out, w') \<Rightarrow> case win_run es w' of (outs, w'') \<Rightarrow> (out @ outs, w''))"

lemma forwarded_cong: "wn_keys w' = wn_keys w \<Longrightarrow> wn_escape w' = wn_escape w \<Longrightarrow> forwarded w' h = forwarded w h"
  by (simp add: forwarded_def)

definition keyless_msg :: "message \<Rightarrow> bool" where
  "keyless_msg m \<longleftrightarrow> (\<forall>k h. m \<noteq> Key k h)"

lemma keyless_stream: "list_all keyless_msg ms \<Longrightarrow> alternating h b ms \<and> tracked h b ms = b"
  by (induction h b ms rule: alternating.induct) (auto simp: keyless_msg_def)

text \<open>Everything but a key event leaves the keys alone.\<close>

lemma win_step_keyless:
  assumes "win_step e w = (out, w')" "\<And>code msg info. e \<noteq> HookKey code msg info"
  shows "list_all keyless_msg out \<and> wn_keys w' = wn_keys w \<and> wn_escape w' = wn_escape w"
proof (cases e)
  case (HookMouse code msg info cur)
  then have "(out, w') = snd (capture_mouse_proc code msg info cur w)" using assms(1) by simp
  then show ?thesis
    by (cases cur; cases "from_wparam msg (mi_data info)")
      (auto simp: capture_mouse_proc_def keyless_msg_def Let_def split: if_splits)
next
  case LoopFlush
  then show ?thesis using assms(1)
    by (auto simp: flush_pending_motion_def list_all_iff keyless_msg_def split: prod.splits)
next
  case (BeaconTimer cur)
  then show ?thesis using assms(1)
    by (auto simp: on_beacon_timer_def keyless_msg_def split: if_splits option.splits)
next
  case (EngineCalls c)
  then show ?thesis using assms(1) by (cases c) (auto simp: publish_chords_def)
qed (use assms in simp)

lemma win_step_stream:
  assumes "win_step e w = (out, w')" "capture_sane w"
  shows "alternating h (forwarded w h) out \<and> (tracked h (forwarded w h) out \<longleftrightarrow> forwarded w' h) \<and> capture_sane w'"
proof (cases "\<exists>code msg info. e = HookKey code msg info")
  case True
  then obtain code msg info where e: "e = HookKey code msg info" by blast
  obtain sw where "capture_keyboard_proc code msg info w = (sw, out, w')"
    using assms(1) e by (cases "capture_keyboard_proc code msg info w") auto
  then show ?thesis by (rule keyboard_stream [OF _ assms(2)])
next
  case False
  then have f: "list_all keyless_msg out \<and> wn_keys w' = wn_keys w \<and> wn_escape w' = wn_escape w"
    using win_step_keyless [OF assms(1)] by blast
  then have "forwarded w' h = forwarded w h" by (intro forwarded_cong) simp_all
  then show ?thesis using f keyless_stream [of out h] assms(2) by (simp add: capture_sane_def)
qed

lemma win_run_stream:
  "win_run es w = (out, w') \<Longrightarrow> capture_sane w \<Longrightarrow>
     alternating h (forwarded w h) out \<and> (tracked h (forwarded w h) out \<longleftrightarrow> forwarded w' h)"
proof (induction es arbitrary: w out)
  case (Cons e es)
  obtain o1 w1 where 1: "win_step e w = (o1, w1)" by fastforce
  obtain o2 where 2: "win_run es w1 = (o2, w')" "out = o1 @ o2" using Cons.prems(1) 1 by (auto split: prod.splits)
  have s: "alternating h (forwarded w h) o1" "tracked h (forwarded w h) o1 \<longleftrightarrow> forwarded w1 h" "capture_sane w1"
    using win_step_stream [OF 1 Cons.prems(2), of h] by auto
  show ?case using Cons.IH [OF 2(1) s(3)] s(1,2) 2(2) alternating_append [OF s(1)] by simp
qed simp

section \<open>What the desktop sees\<close>

text \<open>Away every event is swallowed; at home only a bound chord's press and release, and a consumed escape's release.\<close>

lemma swallowed_away: "wn_isolate w \<Longrightarrow> 0 \<le> code \<Longrightarrow> fst (capture_keyboard_proc code msg info w)"
  by (auto simp: capture_keyboard_proc_def hook_press_def hook_release_def Let_def split: option.split if_split)

lemma swallowed_away_mouse: "wn_isolate w \<Longrightarrow> 0 \<le> code \<Longrightarrow> fst (capture_mouse_proc code msg info cur w)"
  by (cases cur; cases "from_wparam msg (mi_data info)") (auto simp: capture_mouse_proc_def Let_def split: if_splits)

lemma swallowed_home:
  assumes "\<not> wn_isolate w" "fst (capture_keyboard_proc code msg info w)"
  defines "i \<equiv> (ucast (ki_scan info), ki_flags info AND LLKHF_EXTENDED \<noteq> 0)"
  shows "(i \<notin> wn_keys w \<and> (\<exists>key. hid_from_scancode (fst i) (snd i) = Some key \<and> \<not> is_hid_modifier key \<and>
        is_bound_chord (hook_bits (wn_mods w)) key w)) \<or>
    (i \<in> wn_keys w \<and> (i \<in> wn_swallowed w \<or> (i = (ESCAPE_SCAN, ESCAPE_EXTENDED) \<and> wn_escape w)))"
  using assms(1,2) unfolding i_def
  by (auto simp: capture_keyboard_proc_def hook_press_def hook_release_def is_bound_chord_def Let_def
      split: option.splits if_splits)

section \<open>The injector\<close>

text \<open>The keys Windows has down.\<close>

fun win_keys_after :: "win_input list \<Rightarrow> scan_id set \<Rightarrow> scan_id set" where
  "win_keys_after [] D = D"
| "win_keys_after (SendKey s e p # is) D = win_keys_after is (if p then insert (s, e) D else D - {(s, e)})"
| "win_keys_after (i # is) D = win_keys_after is D"

lemma win_keys_after_append [simp]: "win_keys_after (xs @ ys) D = win_keys_after ys (win_keys_after xs D)"
  by (induction xs D rule: win_keys_after.induct) auto

interpretation win_keys: held_keys wi_key wi_keys_up wi_keys scancode_from_hid win_keys_after
  by unfold_locales (auto simp: wi_key_def split: if_splits)

lemma wi_button_keyless: "wi_button b p j = (out, j') \<Longrightarrow> win_keys_after out D = D \<and> wi_keys j' = wi_keys j"
  by (auto simp: wi_button_def Let_def split: if_splits option.splits prod.splits)

lemma wi_buttons_up_keyless:
  "wi_buttons_up bs j = (out, j') \<Longrightarrow> win_keys_after out D = D \<and> wi_keys j' = wi_keys j"
proof (induction bs j arbitrary: out D rule: wi_buttons_up.induct)
  case (2 b bs j)
  obtain o1 j1 where 1: "wi_button b False j = (o1, j1)" by fastforce
  obtain o2 where 2: "wi_buttons_up bs j1 = (o2, j')" "out = o1 @ o2"
    using "2.prems" 1 by (auto split: prod.splits)
  show ?case using wi_button_keyless [OF 1] "2.IH" [OF 1 [symmetric] 2(1)] 2(2) by simp
qed simp

lemma wi_leave_clears:
  assumes "wi_leave now j = (out, j')" "D \<subseteq> win_keys.codes (wi_keys j)"
  shows "win_keys_after out D = {} \<and> wi_keys j' = []"
proof -
  let ?j0 = "j\<lparr>wi_isolation := set_isolating now False (wi_isolation j), wi_keys := []\<rparr>"
  obtain o1 j1 where 1: "wi_keys_up (wi_keys j) ?j0 = (o1, j1)" by fastforce
  obtain o2 where 2: "wi_buttons_up (wi_buttons j1) (j1\<lparr>wi_buttons := []\<rparr>) = (o2, j')" "out = o1 @ o2"
    using assms(1) 1 by (auto simp: wi_leave_def Let_def split: prod.splits)
  have "win_keys_after o1 D = {}" "wi_keys j1 = []" using win_keys.drain_clears [OF assms(2) _ 1] by simp_all
  then show ?thesis using wi_buttons_up_keyless [OF 2(1)] 2(2) by simp
qed

lemma win_inject_covered:
  assumes "win_inject now metrics call j = (out, j')" "D \<subseteq> win_keys.codes (wi_keys j)"
  shows "win_keys_after out D \<subseteq> win_keys.codes (wi_keys j')"
proof (cases call)
  case (Inject e)
  show ?thesis
  proof (cases e)
    case (InjKey kind key)
    then have "wi_key kind key j = (out, j')" using assms(1) Inject by simp
    then show ?thesis by (rule win_keys.key_covered [OF _ assms(2)])
  next
    case (InjButton b p)
    then have "wi_button b p j = (out, j')" using assms(1) Inject by simp
    then show ?thesis using wi_button_keyless [of b p j out j' D] assms(2) by simp
  next
    case (InjWheel dx dy)
    then show ?thesis using assms Inject by (auto simp: wi_wheel_def split: option.splits)
  qed
next
  case InjectorLeave
  then have "wi_leave now j = (out, j')" using assms(1) by simp
  then show ?thesis using wi_leave_clears [OF _ assms(2)] by simp
qed (use assms in \<open>auto simp: wi_move_cursor_def wi_move_rel_def wi_enter_def restore_machine_def Let_def\<close>)

fun win_inject_run :: "(nat \<times> (int \<times> int) \<times> injector_call) list \<Rightarrow> win_injector \<Rightarrow> win_input list \<times> win_injector" where
  "win_inject_run [] j = ([], j)"
| "win_inject_run ((now, metrics, call) # cs) j =
     (case win_inject now metrics call j of (out, j') \<Rightarrow> case win_inject_run cs j' of (outs, j'') \<Rightarrow> (out @ outs, j''))"

lemma win_inject_run_covered:
  "win_inject_run cs j = (out, j') \<Longrightarrow> D \<subseteq> win_keys.codes (wi_keys j) \<Longrightarrow>
     win_keys_after out D \<subseteq> win_keys.codes (wi_keys j')"
proof (induction cs j arbitrary: out D rule: win_inject_run.induct)
  case (2 now metrics call cs j)
  obtain o1 j1 where 1: "win_inject now metrics call j = (o1, j1)" by fastforce
  obtain o2 where 2: "win_inject_run cs j1 = (o2, j')" "out = o1 @ o2" using "2.prems"(1) 1 by (auto split: prod.splits)
  show ?case using "2.IH" [OF 1 [symmetric] 2(1) win_inject_covered [OF 1 "2.prems"(2)]] 2(2) by simp
qed simp

lemma win_no_key_left_down:
  assumes "win_inject_run cs (new_win_injector s) = (o1, j1)" "wi_leave now j1 = (o2, j2)"
  shows "win_keys_after (o1 @ o2) {} = {} \<and> wi_keys j2 = []"
proof -
  have "win_keys_after o1 {} \<subseteq> win_keys.codes (wi_keys j1)" by (rule win_inject_run_covered [OF assms(1)]) simp
  then show ?thesis using wi_leave_clears [OF assms(2)] by simp
qed

section \<open>What it does not do\<close>

text \<open>The drain comes before the release here too: a held button stays down when control leaves.\<close>

lemma win_leave_keeps_buttons:
  assumes "wi_keys j = []"
  shows "fst (wi_leave now j) = []"
proof -
  have ups: "wi_buttons_up bs i = ([], i)" if "wi_buttons i = []" for bs i
    using that by (induction bs) (auto simp: wi_button_def)
  show ?thesis using assms ups by (simp add: wi_leave_def Let_def)
qed

text \<open>The auto-repeat of a swallowed chord is not swallowed: it reaches the desktop while the key is held.\<close>

lemma chord_repeat_reaches_desktop:
  assumes "\<not> wn_isolate w" "hook_press i w = (True, out, w')" "msg = WM_KEYDOWN \<or> msg = WM_SYSKEYDOWN"
    "ki_vk info \<noteq> VK_PAUSE" "i = (ucast (ki_scan info), ki_flags info AND LLKHF_EXTENDED \<noteq> 0)"
  shows "capture_keyboard_proc 0 msg info w' = (False, [], w')"
  using assms(1,3-5) hook_press_fields [OF assms(2)] by (auto simp: capture_keyboard_proc_def Let_def)

text \<open>
  A key pressed at home and released away: the desktop saw the press and never sees the release, so a
  modifier of the chord that made the crossing stays down on it.
\<close>

lemma modifier_stays_down_at_home:
  assumes "\<not> wn_isolate w" "hid_from_scancode (fst i) (snd i) = Some key" "is_hid_modifier key"
  shows "\<exists>out w'. hook_press i w = (False, out, w') \<and> fst (hook_release i (w'\<lparr>wn_isolate := True\<rparr>))"
  using assms by (auto simp: hook_press_def hook_release_def Let_def)

text \<open>Releasing the left control key clears the modifier while the right one is held.\<close>

lemma either_release_clears:
  "hm_ctrl (update_hook_mods 0xe0 False (update_hook_mods 0xe4 True (update_hook_mods 0xe0 True no_hook_mods))) = False"
  by (simp add: update_hook_mods_def)

text \<open>A wheel movement below a notch is dropped, and nothing accumulates.\<close>

lemma fine_wheel_dropped: "\<bar>sint (hi_word d)\<bar> < 120 \<Longrightarrow> wheel_notches d = 0"
  by (auto simp: wheel_notches_def tdiv_def WHEEL_DELTA_def)

text \<open>
  The second prompt.  The flag that a prompt was handled is cleared only by a watchdog tick that finds
  the machine isolating with no prompt; a prompt that comes up before the first such tick of the next
  session is taken for the old one, and the hardware stays silenced under it.
\<close>

lemma second_prompt_not_released:
  assumes "secure_desktop_active d1" "secure_desktop_active d2" "io_isolate s" "\<not> io_secure_released s"
  shows "\<not> io_isolate (io_watchdog t1 d1 s) \<and>
    io_isolate (io_watchdog t3 d2 (set_isolating t2 True (io_watchdog t d (io_watchdog t1 d1 s))))"
proof -
  define home where "home = io_watchdog t1 d1 s"
  have home: "\<not> io_isolate home" "io_secure_released home" "io_watchdog t d home = home"
    using assms(1,3,4) by (simp_all add: home_def io_watchdog_def on_secure_desktop_def)
  then show ?thesis using assms(2) unfolding home_def [symmetric]
    by (simp add: io_watchdog_def on_secure_desktop_def set_isolating_def io_heartbeat_def)
qed

text \<open>Every hide creates a cursor, and none is destroyed.\<close>

lemma hide_leaks:
  "ch_created (ch_hide True True (ch_restore (ch_hide True True (ch_restore h)))) = ch_created h + 2"
  by (simp add: ch_hide_def ch_restore_def)

section \<open>Properties\<close>

text \<open>
  C25. The Windows capture forwards every key as strictly alternating presses and releases, whatever the
  hooks see: no auto-repeat, no release without its press, no second press, across crossings in either
  direction and with the escape key consumed away.  Away it swallows every event; at home it swallows
  only the press of a bound chord, the release of such a press, and the release of a consumed escape.
\<close>
theorem hook_keys_alternate:
  assumes "win_run es new_win_capture = (out, w)" "0 \<le> code"
  shows "alternating h False out \<and> (tracked h False out \<longleftrightarrow> forwarded w h) \<and>
    (wn_isolate w \<longrightarrow> fst (capture_keyboard_proc code msg info w) \<and> fst (capture_mouse_proc code mmsg minfo cur w)) \<and>
    (\<not> wn_isolate w \<and> fst (capture_keyboard_proc code msg info w) \<longrightarrow>
      (let i = (ucast (ki_scan info), ki_flags info AND LLKHF_EXTENDED \<noteq> 0) in
       (i \<notin> wn_keys w \<and> (\<exists>key. hid_from_scancode (fst i) (snd i) = Some key \<and>
          is_bound_chord (hook_bits (wn_mods w)) key w)) \<or>
       i \<in> wn_swallowed w \<or> (i = (ESCAPE_SCAN, ESCAPE_EXTENDED) \<and> wn_escape w)))"
proof -
  have "capture_sane new_win_capture" "\<not> forwarded new_win_capture h"
    by (simp_all add: capture_sane_def new_win_capture_def forwarded_def)
  then have "alternating h False out" "tracked h False out \<longleftrightarrow> forwarded w h"
    using win_run_stream [OF assms(1), of h] by simp_all
  moreover have "wn_isolate w \<Longrightarrow> fst (capture_keyboard_proc code msg info w) \<and> fst (capture_mouse_proc code mmsg minfo cur w)"
    using swallowed_away swallowed_away_mouse assms(2) by blast
  ultimately show ?thesis using swallowed_home [of w code msg info] by (auto simp: Let_def)
qed

definition a_press :: key_info where
  "a_press = \<lparr>ki_vk = 0x41, ki_scan = 0x1e, ki_flags = 0\<rparr>"

theorem hook_keys_alternate_witness:
  "\<exists>w. win_run [HookKey 0 WM_KEYDOWN a_press, HookKey 0 WM_KEYDOWN a_press] new_win_capture = ([Key KeyDown 4], w) \<and>
     alternating 4 False [Key KeyDown 4] \<and> forwarded w 4"
proof -
  let ?es = "[HookKey 0 WM_KEYDOWN a_press, HookKey 0 WM_KEYDOWN a_press]"
  have "hid_from_scancode 0x1e False = Some 4" by (simp add: hid_from_scancode_def HID_TO_SCAN_def)
  then have "\<exists>w. win_run ?es new_win_capture = ([Key KeyDown 4], w)"
    by (simp add: capture_keyboard_proc_def hook_press_def new_win_capture_def a_press_def VK_PAUSE_def
        LLKHF_EXTENDED_def is_hid_modifier_def is_bound_chord_def ESCAPE_KEY_HID_def Let_def)
  then obtain w where w: "win_run ?es new_win_capture = ([Key KeyDown 4], w)" by blast
  show ?thesis using hook_keys_alternate [OF w, of 0 4 WM_KEYUP a_press] w by simp
qed

text \<open>
  The hardware of a controlled Windows machine is never silenced for longer than the steering lasts:
  after a tick of the watchdog the isolation stands only if the machine was steered within the last two
  seconds, or under a prompt it counts as handled; events injected by software always pass; and a
  resume from sleep, a stall of the client and the end of control lift it at once.
\<close>
theorem hardware_not_trapped:
  assumes "io_isolate (io_watchdog now desktop s)"
  shows "(secure_desktop_active desktop \<longrightarrow> io_secure_released s) \<and>
    (\<not> secure_desktop_active desktop \<longrightarrow> now - io_last_steer (io_watchdog now desktop s) \<le> 2000) \<and>
    (flags AND LLMHF_INJECTED \<noteq> 0 \<longrightarrow> \<not> client_mouse_proc code flags s) \<and>
    (flags AND LLKHF_INJECTED \<noteq> 0 \<longrightarrow> \<not> client_keyboard_proc code flags s) \<and>
    (e \<noteq> PBT_OTHER \<longrightarrow> \<not> io_isolate (on_power_event e s)) \<and>
    \<not> io_isolate (wi_isolation (restore_machine now (j\<lparr>wi_isolation := s\<rparr>)))"
proof -
  have "io_isolate s" using assms by (auto simp: io_watchdog_def split: if_splits)
  then show ?thesis using assms
    by (auto simp: io_watchdog_def on_secure_desktop_def WATCHDOG_TIMEOUT_MS_def client_mouse_proc_def
        client_keyboard_proc_def on_power_event_def restore_machine_def set_isolating_def Let_def split: if_splits)
qed

definition steered :: isolation where
  "steered = set_isolating 5000 True new_isolation"

theorem hardware_not_trapped_witness:
  "io_isolate (io_watchdog 6000 (Some ''Default'') steered) \<and> \<not> io_isolate (on_power_event PBT_APMRESUMESUSPEND steered) \<and>
   \<not> io_isolate (io_watchdog 7001 (Some ''Default'') steered)"
proof -
  have "io_isolate (io_watchdog 6000 (Some ''Default'') steered)"
    by (simp add: steered_def io_watchdog_def on_secure_desktop_def secure_desktop_active_def set_isolating_def
        io_heartbeat_def new_isolation_def WATCHDOG_TIMEOUT_MS_def)
  moreover have "\<not> io_isolate (io_watchdog 7001 (Some ''Default'') steered)"
    by (simp add: steered_def io_watchdog_def on_secure_desktop_def secure_desktop_active_def set_isolating_def
        io_heartbeat_def new_isolation_def WATCHDOG_TIMEOUT_MS_def)
  ultimately show ?thesis
    using hardware_not_trapped [of 6000 "Some ''Default''" steered 0 0 PBT_APMRESUMESUSPEND] by simp
qed

end
