(* ===== verification/Rust_Text.thy ===== *)
theory Rust_Text
  imports Prelude "HOL-Library.Sublist"
begin

text \<open>
  The operations of \<open>str\<close> that the application layer and the logger use on command lines,
  environment variables and small control files.  A string is the list of its UTF-8 bytes, one
  \<open>char\<close> each, so that indices and lengths are those of Rust.
\<close>

definition NL :: char where "NL = CHR 0x0A"
definition CR :: char where "CR = CHR 0x0D"

lemma NL_not_CR [simp]: "NL \<noteq> CR" "CR \<noteq> NL"
  by (simp_all add: NL_def CR_def)

section \<open>White space\<close>

text \<open>
  The encodings of the characters with the Unicode property \<open>White_Space\<close>.  None of them is a
  prefix or a suffix of the encoding of another character, so a scan of the bytes finds whole
  characters.
\<close>

definition WHITE_SPACE :: "string list" where
  "WHITE_SPACE = map (map char_of)
     ([[9], [10], [11], [12], [13], [32], [0xC2, 0x85], [0xC2, 0xA0], [0xE1, 0x9A, 0x80]]
      @ map (\<lambda>n. [0xE2, 0x80, n])
          [0x80, 0x81, 0x82, 0x83, 0x84, 0x85, 0x86, 0x87, 0x88, 0x89, 0x8A, 0xA8, 0xA9, 0xAF]
      @ [[0xE2, 0x81, 0x9F], [0xE3, 0x80, 0x80 :: nat]])"

function skip_white :: "string list \<Rightarrow> string \<Rightarrow> string" where
  "skip_white ws s =
     (case List.find (\<lambda>w. w \<noteq> [] \<and> prefix w s) ws of
        None \<Rightarrow> s
      | Some w \<Rightarrow> skip_white ws (drop (length w) s))"
  by pat_completeness auto
termination
proof (relation "measure (\<lambda>(ws, s). length s)")
  show "wf (measure (\<lambda>(ws, s). length s))" by simp
next
  fix ws :: "string list" and s w :: string
  assume "List.find (\<lambda>w. w \<noteq> [] \<and> prefix w s) ws = Some w"
  then have "w \<noteq> [] \<and> prefix w s" using find_SomeD by fastforce
  then show "((ws, drop (length w) s), ws, s) \<in> measure (\<lambda>(ws, s). length s)"
    using prefix_length_le [of w s] by (auto intro!: diff_less)
qed

declare skip_white.simps [simp del]

definition trim_start :: "string \<Rightarrow> string" where
  "trim_start s = skip_white WHITE_SPACE s"

definition trim_end :: "string \<Rightarrow> string" where
  "trim_end s = rev (skip_white (map rev WHITE_SPACE) (rev s))"

definition trim :: "string \<Rightarrow> string" where
  "trim s = trim_end (trim_start s)"

lemma skip_white_suffix: "suffix (skip_white ws s) s"
proof (induction ws s rule: skip_white.induct)
  case (1 ws s)
  show ?case
  proof (cases "List.find (\<lambda>w. w \<noteq> [] \<and> prefix w s) ws")
    case None
    then show ?thesis by (subst skip_white.simps) simp
  next
    case (Some w)
    have "suffix (drop (length w) s) s" by (simp add: suffix_drop)
    then show ?thesis
      using 1 [OF Some] Some by (subst skip_white.simps) (auto intro: suffix_order.trans)
  qed
qed

lemma trim_length: "length (trim s) \<le> length s"
proof -
  have "length (trim s) \<le> length (trim_start s)"
    using suffix_length_le [OF skip_white_suffix [of "map rev WHITE_SPACE" "rev (trim_start s)"]]
    by (simp add: trim_def trim_end_def)
  also have "\<dots> \<le> length s"
    using suffix_length_le [OF skip_white_suffix [of WHITE_SPACE s]] by (simp add: trim_start_def)
  finally show ?thesis .
qed

text \<open>Text without white space at either end is trimmed to itself.\<close>

definition trimmed :: "string \<Rightarrow> bool" where
  "trimmed s \<longleftrightarrow> (\<forall>w \<in> set WHITE_SPACE. \<not> prefix w s \<and> \<not> suffix w s)"

lemma skip_white_none: "\<forall>w \<in> set ws. \<not> prefix w s \<Longrightarrow> skip_white ws s = s"
proof -
  assume "\<forall>w \<in> set ws. \<not> prefix w s"
  then have "List.find (\<lambda>w. w \<noteq> [] \<and> prefix w s) ws = None" by (auto simp: find_None_iff)
  then show ?thesis by (subst skip_white.simps) (simp del: find_None_iff)
qed

lemma trim_trimmed: "trimmed s \<Longrightarrow> trim s = s"
proof -
  assume s: "trimmed s"
  have start: "trim_start s = s"
    using s by (simp add: trim_start_def trimmed_def skip_white_none)
  have "\<forall>w \<in> set WHITE_SPACE. \<not> prefix (rev w) (rev s)"
    using s by (simp add: trimmed_def suffix_to_prefix)
  then have "trim_end s = s" by (simp add: trim_end_def skip_white_none)
  then show ?thesis using start by (simp add: trim_def)
qed

text \<open>Such is any text that starts and ends with a printing ASCII character.\<close>

definition printing :: "char \<Rightarrow> bool" where
  "printing c \<longleftrightarrow> 33 \<le> (of_char c :: nat) \<and> (of_char c :: nat) \<le> 126"

lemma white_space_ends:
  "w \<in> set WHITE_SPACE \<Longrightarrow> w \<noteq> [] \<and> \<not> printing (hd w) \<and> \<not> printing (last w)"
  by (auto simp: WHITE_SPACE_def printing_def)

lemma trimmed_printing:
  assumes "s \<noteq> []" "printing (hd s)" "printing (last s)"
  shows "trimmed s"
proof -
  have "hd w = hd s" if "prefix w s" "w \<noteq> []" for w
    using that by (auto simp: prefix_def)
  moreover have "last w = last s" if "suffix w s" "w \<noteq> []" for w
    using that by (auto simp: suffix_def)
  ultimately show ?thesis using assms(2,3) white_space_ends unfolding trimmed_def by metis
qed

section \<open>Splitting\<close>

text \<open>\<open>split_once\<close>, \<open>splitn(2, c)\<close>, and \<open>split\<close> at a character.\<close>

definition split_once :: "char \<Rightarrow> string \<Rightarrow> (string \<times> string) option" where
  "split_once c s =
     (if c \<in> set s then Some (takeWhile (\<lambda>x. x \<noteq> c) s, tl (dropWhile (\<lambda>x. x \<noteq> c) s)) else None)"

fun split_at :: "char \<Rightarrow> string \<Rightarrow> string list" where
  "split_at c [] = [[]]"
| "split_at c (x # xs) =
     (if x = c then [] # split_at c xs
      else case split_at c xs of w # ws \<Rightarrow> (x # w) # ws | [] \<Rightarrow> [[x]])"

text \<open>\<open>str::lines\<close>: a line ends at a newline, with the carriage return before it; a last line needs none.\<close>

definition strip_cr :: "string \<Rightarrow> string" where
  "strip_cr s = (if s \<noteq> [] \<and> last s = CR then butlast s else s)"

function lines_of :: "string \<Rightarrow> string list" where
  "lines_of s =
     (if s = [] then []
      else case dropWhile (\<lambda>c. c \<noteq> NL) s of
        [] \<Rightarrow> [s]
      | _ # rest \<Rightarrow> strip_cr (takeWhile (\<lambda>c. c \<noteq> NL) s) # lines_of rest)"
  by pat_completeness auto
termination
proof (relation "measure length")
  fix s rest :: string and c
  assume "dropWhile (\<lambda>c. c \<noteq> NL) s = c # rest"
  then have "length (c # rest) \<le> length s" by (metis length_dropWhile_le)
  then show "(rest, s) \<in> measure length" by simp
qed simp

declare lines_of.simps [simp del]

text \<open>\<open>trim_end_matches\<close> of carriage returns, and \<open>to_ascii_lowercase\<close>.\<close>

definition trim_end_cr :: "string \<Rightarrow> string" where
  "trim_end_cr s = rev (dropWhile (\<lambda>c. c = CR) (rev s))"

definition to_ascii_lowercase :: "string \<Rightarrow> string" where
  "to_ascii_lowercase s = map (\<lambda>c.
     let n = of_char c :: nat in if 65 \<le> n \<and> n \<le> 90 then char_of (n + 32) else c) s"

lemma split_at_nonempty [simp]: "split_at c s \<noteq> []"
  by (induction s) (auto split: list.split)

lemma split_at_no_sep: "c \<notin> set s \<Longrightarrow> split_at c s = [s]"
  by (induction s) auto

lemma split_at_append: "c \<notin> set s \<Longrightarrow> split_at c (s @ c # t) = s # split_at c t"
  by (induction s) auto

lemma split_once_append: "c \<notin> set s \<Longrightarrow> split_once c (s @ c # t) = Some (s, t)"
  by (induction s) (auto simp: split_once_def)

lemma dropWhile_first: "c \<notin> set s \<Longrightarrow> dropWhile (\<lambda>x. x \<noteq> c) (s @ c # t) = c # t"
  by (induction s) auto

lemma takeWhile_first: "c \<notin> set s \<Longrightarrow> takeWhile (\<lambda>x. x \<noteq> c) (s @ c # t) = s"
  by (induction s) auto

lemma lines_of_Nil [simp]: "lines_of [] = []"
  by (simp add: lines_of.simps)

lemma lines_of_line:
  "NL \<notin> set s \<Longrightarrow> lines_of (s @ NL # t) = strip_cr s # lines_of t"
  by (subst lines_of.simps) (simp add: dropWhile_first takeWhile_first)

lemma lines_of_last: "NL \<notin> set s \<Longrightarrow> s \<noteq> [] \<Longrightarrow> lines_of s = [s]"
proof -
  assume "NL \<notin> set s" "s \<noteq> []"
  moreover from this have "dropWhile (\<lambda>c. c \<noteq> NL) s = []" by (auto simp: dropWhile_eq_Nil_conv)
  ultimately show ?thesis by (subst lines_of.simps) (simp del: dropWhile_eq_Nil_conv)
qed

text \<open>What is written one item per line is read back item by item.\<close>

definition unlines :: "string list \<Rightarrow> string" where
  "unlines ss = concat (map (\<lambda>s. s @ [NL]) ss)"

definition one_line :: "string \<Rightarrow> bool" where
  "one_line s \<longleftrightarrow> NL \<notin> set s \<and> (s \<noteq> [] \<longrightarrow> last s \<noteq> CR)"

lemma lines_of_unlines: "list_all one_line ss \<Longrightarrow> lines_of (unlines ss) = ss"
proof (induction ss)
  case Nil
  then show ?case by (simp add: unlines_def)
next
  case (Cons s ss)
  then have "strip_cr s = s" by (auto simp: one_line_def strip_cr_def)
  then show ?case using Cons by (simp add: unlines_def lines_of_line one_line_def)
qed

lemma one_line_trim_end_cr: "one_line s \<Longrightarrow> trim_end_cr s = s"
  by (cases s rule: rev_cases) (auto simp: trim_end_cr_def one_line_def)

section \<open>Numbers\<close>

text \<open>Decimal digits as \<open>{}\<close> prints an unsigned integer, and \<open>str::parse\<close> for \<open>u16\<close> and \<open>u32\<close>.\<close>

definition digit :: "nat \<Rightarrow> char" where
  "digit n = char_of (48 + n)"

fun decimal :: "nat \<Rightarrow> string" where
  "decimal n = (if n < 10 then [digit n] else decimal (n div 10) @ [digit (n mod 10)])"

declare decimal.simps [simp del]

definition digit_value :: "char \<Rightarrow> nat option" where
  "digit_value c = (let n = of_char c :: nat in if 48 \<le> n \<and> n \<le> 57 then Some (n - 48) else None)"

fun parse_digits :: "nat \<Rightarrow> nat \<Rightarrow> string \<Rightarrow> nat option" where
  "parse_digits bound acc [] = Some acc"
| "parse_digits bound acc (c # cs) =
     (case digit_value c of
        None \<Rightarrow> None
      | Some d \<Rightarrow> if acc * 10 + d < bound then parse_digits bound (acc * 10 + d) cs else None)"

definition parse_unsigned :: "nat \<Rightarrow> string \<Rightarrow> nat option" where
  "parse_unsigned bound s =
     (let t = (if prefix ''+'' s then drop 1 s else s) in if t = [] then None else parse_digits bound 0 t)"

definition parse_u16 :: "string \<Rightarrow> u16 option" where
  "parse_u16 s = map_option word_of_nat (parse_unsigned 65536 s)"

definition parse_u32 :: "string \<Rightarrow> u32 option" where
  "parse_u32 s = map_option word_of_nat (parse_unsigned 4294967296 s)"

lemma digit_value_digit [simp]: "n < 10 \<Longrightarrow> digit_value (digit n) = Some n"
  by (simp add: digit_value_def digit_def)

lemma digit_not_plus: "n < 10 \<Longrightarrow> digit n \<noteq> CHR ''+''"
proof
  assume "n < 10" "digit n = CHR ''+''"
  then have "(of_char (digit n) :: nat) = of_char (CHR ''+'')" by simp
  then show False using \<open>n < 10\<close> by (simp add: digit_def)
qed

lemma parse_digits_append:
  "parse_digits bound acc (xs @ [c]) =
     (case parse_digits bound acc xs of None \<Rightarrow> None | Some n \<Rightarrow> parse_digits bound n [c])"
  by (induction xs arbitrary: acc) (auto split: option.split)

lemma parse_digits_decimal: "n < bound \<Longrightarrow> parse_digits bound 0 (decimal n) = Some n"
proof (induction n rule: decimal.induct)
  case (1 n)
  show ?case
  proof (cases "n < 10")
    case True
    then show ?thesis using 1(2) by (subst decimal.simps) simp
  next
    case False
    have "parse_digits bound 0 (decimal (n div 10)) = Some (n div 10)" using 1 False by simp
    moreover have "n div 10 * 10 + n mod 10 = n" by simp
    ultimately show ?thesis
      using False 1(2) by (subst decimal.simps) (simp add: parse_digits_append)
  qed
qed

lemma decimal_first: "\<exists>d r. decimal n = digit d # r \<and> d < 10"
proof (induction n rule: decimal.induct)
  case (1 n)
  show ?case
  proof (cases "n < 10")
    case True
    then show ?thesis by (subst decimal.simps) auto
  next
    case False
    then obtain d r where "decimal (n div 10) = digit d # r" "d < 10" using 1 by blast
    then show ?thesis using False by (subst decimal.simps) auto
  qed
qed

lemma printing_digit: "n < 10 \<Longrightarrow> printing (digit n)"
  by (simp add: printing_def digit_def)

lemma trimmed_decimal: "trimmed (decimal n)"
proof (rule trimmed_printing)
  obtain d r where d: "decimal n = digit d # r" "d < 10" using decimal_first by blast
  then show "decimal n \<noteq> []" "printing (hd (decimal n))" by (simp_all add: printing_digit)
  show "printing (last (decimal n))" by (subst decimal.simps) (simp add: printing_digit)
qed

lemma parse_unsigned_decimal: "n < bound \<Longrightarrow> parse_unsigned bound (decimal n) = Some n"
proof -
  assume n: "n < bound"
  obtain d r where d: "decimal n = digit d # r" "d < 10" using decimal_first by blast
  then have "\<not> prefix ''+'' (decimal n)" using digit_not_plus [of d] by auto
  then show ?thesis using d parse_digits_decimal [OF n] by (simp add: parse_unsigned_def)
qed

lemma parse_u16_decimal: "n < 65536 \<Longrightarrow> parse_u16 (decimal n) = Some (word_of_nat n)"
  by (simp add: parse_u16_def parse_unsigned_decimal)

lemma parse_u32_decimal: "n < 4294967296 \<Longrightarrow> parse_u32 (decimal n) = Some (word_of_nat n)"
  by (simp add: parse_u32_def parse_unsigned_decimal)

end
