(* ===== verification/Config.thy ===== *)
theory Config
  imports Server Rust_Text
begin

text \<open>
  The configuration of a server: \<open>app/src/config\<close> (model, validation, geometry, id lists),
  \<open>app/src/session.rs\<close>, \<open>app/src/trust.rs\<close>, and what the binary \<open>kvmshare-server.rs\<close> does with
  the file: the entry of a connected machine in the trusted list, the size a client reports, the
  hot reload and the command file of the GUI.

  TOML is a library: \<open>parse\<close> and \<open>render\<close> are parameters, and a file is the text it holds, or
  \<open>None\<close> when it cannot be read.  The scale of a screen is kept as the bits of its \<open>f32\<close>.
\<close>

section \<open>The model\<close>

definition DEFAULT_PORT :: u16 where "DEFAULT_PORT = 24800"
definition DEFAULT_SCREEN_W :: u32 where "DEFAULT_SCREEN_W = 1920"
definition DEFAULT_SCREEN_H :: u32 where "DEFAULT_SCREEN_H = 1080"

record screen_config =
  sf_name :: string
  sf_width :: u32
  sf_height :: u32
  sf_x :: int
  sf_y :: int
  sf_scale :: u32

record network_config =
  nc_allowlist :: bool
  nc_local_only :: bool
  nc_trusted_ids :: "string list"
  nc_revoked_ids :: "string list"

definition default_network :: network_config where
  "default_network = \<lparr>nc_allowlist = True, nc_local_only = True, nc_trusted_ids = [], nc_revoked_ids = []\<rparr>"

record config =
  cf_port :: u16
  cf_screens :: "screen_config list"
  cf_network :: network_config
  cf_shortcuts :: bind_section
  cf_input :: input_prefs

section \<open>Validation\<close>

datatype config_error =
  NoScreens | EmptyName | DuplicateName string | ZeroSize string | TooLarge string | BadScale string

text \<open>\<open>> 10.0\<close> of a finite positive number: the bits of such numbers are ordered as the numbers are.\<close>

definition f32_above_ten :: "u32 \<Rightarrow> bool" where
  "f32_above_ten b \<longleftrightarrow> 0x41200000 < b"

fun validate_screens :: "string set \<Rightarrow> screen_config list \<Rightarrow> config_error + unit" where
  "validate_screens seen [] = Inr ()"
| "validate_screens seen (s # ss) =
     (if trim (sf_name s) = [] then Inl EmptyName
      else if sf_name s \<in> seen then Inl (DuplicateName (sf_name s))
      else if sf_width s = 0 \<or> sf_height s = 0 then Inl (ZeroSize (sf_name s))
      else if MAX_DIMENSION < sf_width s \<or> MAX_DIMENSION < sf_height s then Inl (TooLarge (sf_name s))
      else if \<not> f32_is_finite (sf_scale s) \<or> f32_le_zero (sf_scale s) \<or> f32_above_ten (sf_scale s)
        then Inl (BadScale (sf_name s))
      else validate_screens (insert (sf_name s) seen) ss)"

definition validate :: "config \<Rightarrow> config_error + unit" where
  "validate c = (if cf_screens c = [] then Inl NoScreens else validate_screens {} (cf_screens c))"

datatype load_error =
  ReadFailed | ParseFailed | Invalid config_error | EncodeFailed | WriteFailed

definition load_config :: "(string \<Rightarrow> config option) \<Rightarrow> string option \<Rightarrow> load_error + config" where
  "load_config parse file =
     (case file of
        None \<Rightarrow> Inl ReadFailed
      | Some text \<Rightarrow>
          (case parse text of
             None \<Rightarrow> Inl ParseFailed
           | Some c \<Rightarrow> (case validate c of Inl e \<Rightarrow> Inl (Invalid e) | Inr _ \<Rightarrow> Inr c)))"

text \<open>\<open>save\<close> replaces the whole file; \<open>writable\<close> says whether the write and the rename succeed.\<close>

definition save_config ::
  "(config \<Rightarrow> string option) \<Rightarrow> bool \<Rightarrow> config \<Rightarrow> string option \<Rightarrow> (load_error + unit) \<times> string option" where
  "save_config render writable c file =
     (case render c of
        None \<Rightarrow> (Inl EncodeFailed, file)
      | Some text \<Rightarrow> if writable then (Inr (), Some text) else (Inl WriteFailed, file))"

definition network_policy :: "config \<Rightarrow> policy" where
  "network_policy c =
     \<lparr>po_allowlist = nc_allowlist (cf_network c), po_local_only = nc_local_only (cf_network c),
      po_trusted_ids = nc_trusted_ids (cf_network c), po_revoked_ids = nc_revoked_ids (cf_network c)\<rparr>"

text \<open>The default: one screen, named and sized after this machine; \<open>display\<close> is what the platform reports.\<close>

definition for_this_machine :: "string \<Rightarrow> screen_info option \<Rightarrow> config" where
  "for_this_machine host display =
     (let (w, h) = (case display of
            Some info \<Rightarrow> (max (si_width info) 1, max (si_height info) 1)
          | None \<Rightarrow> (DEFAULT_SCREEN_W, DEFAULT_SCREEN_H)) in
      \<lparr>cf_port = DEFAULT_PORT,
       cf_screens = [\<lparr>sf_name = host, sf_width = max w 1, sf_height = max h 1, sf_x = 0, sf_y = 0, sf_scale = F32_ONE\<rparr>],
       cf_network = default_network, cf_shortcuts = default_bind_section, cf_input = default_prefs\<rparr>)"

text \<open>A missing file is created; \<open>not_found\<close> tells it from one that cannot be read.\<close>

definition load_or_create ::
  "(string \<Rightarrow> config option) \<Rightarrow> (config \<Rightarrow> string option) \<Rightarrow> string \<Rightarrow> screen_info option \<Rightarrow> bool \<Rightarrow> bool \<Rightarrow>
   string option \<Rightarrow> (load_error + config \<times> bool) \<times> string option" where
  "load_or_create parse render host display not_found writable file =
     (case file of
        Some text \<Rightarrow> (map_sum id (\<lambda>c. (c, False)) (load_config parse file), file)
      | None \<Rightarrow>
          if not_found then
            (let c = for_this_machine host display in
             case save_config render writable c file of
               (Inl e, file') \<Rightarrow> (Inl e, file')
             | (Inr _, file') \<Rightarrow> (Inr (c, True), file'))
          else (Inl ReadFailed, file))"

section \<open>Geometry\<close>

definition config_rect :: "screen_config \<Rightarrow> rect" where
  "config_rect s = \<lparr>rx = sf_x s, ry = sf_y s, rw = wrap_i32 (uint (sf_width s)), rh = wrap_i32 (uint (sf_height s))\<rparr>"

definition config_screen :: "nat \<times> screen_config \<Rightarrow> screen" where
  "config_screen = (\<lambda>(i, s). \<lparr>sc_id = word_of_nat i, sc_name = sf_name s, sc_rect = config_rect s\<rparr>)"

definition to_layout :: "config \<Rightarrow> layout" where
  "to_layout c = normalized \<lparr>screens = map config_screen (enumerate 0 (cf_screens c))\<rparr>"

definition shift_screen :: "int \<Rightarrow> int \<Rightarrow> int \<Rightarrow> int \<Rightarrow> screen_config \<Rightarrow> screen_config" where
  "shift_screen ow oh dx dy s =
     (let s1 = (if ow \<le> sf_x s then s\<lparr>sf_x := add32 (sf_x s) dx\<rparr> else s) in
      if oh \<le> sf_y s1 then s1\<lparr>sf_y := add32 (sf_y s1) dy\<rparr> else s1)"

definition correct_local_screen_to :: "u32 \<Rightarrow> u32 \<Rightarrow> config \<Rightarrow> bool \<times> config" where
  "correct_local_screen_to w h c =
     (case cf_screens c of
        [] \<Rightarrow> (False, c)
      | local # others \<Rightarrow>
          if sf_width local = w \<and> sf_height local = h then (False, c)
          else
            let i32 = (\<lambda>n. wrap_i32 (uint n)); ow = i32 (sf_width local); oh = i32 (sf_height local);
                dx = sub32 (i32 w) ow; dy = sub32 (i32 h) oh in
            (True, c\<lparr>cf_screens := local\<lparr>sf_width := w, sf_height := h\<rparr> # map (shift_screen ow oh dx dy) others\<rparr>))"

definition correct_local_screen :: "screen_info option \<Rightarrow> config \<Rightarrow> bool \<times> config" where
  "correct_local_screen display c =
     (case display of
        Some info \<Rightarrow> correct_local_screen_to (max (si_width info) 1) (max (si_height info) 1) c
      | None \<Rightarrow> (False, c))"

section \<open>The session and the policies\<close>

definition session_from_config :: "config \<Rightarrow> session option" where
  "session_from_config c =
     map_option (\<lambda>s. set_prefs (cf_input c) (set_bindings (cf_shortcuts c) s)) (new_session (to_layout c) 0)"

definition set_id :: "string list \<Rightarrow> string \<Rightarrow> bool \<Rightarrow> string list" where
  "set_id ids i on =
     (let kept = filter (\<lambda>t. \<not> (id_matches t i \<or> id_matches i t)) ids in if on then kept @ [i] else kept)"

definition policy_from_revoked_list :: "string \<Rightarrow> policy" where
  "policy_from_revoked_list raw =
     default_policy\<lparr>po_revoked_ids := filter (\<lambda>s. s \<noteq> []) (map trim (split_at (CHR '','') raw))\<rparr>"

text \<open>The environment wins over the file in the state directory.\<close>

definition revoked_policy :: "string option \<Rightarrow> string option \<Rightarrow> policy" where
  "revoked_policy env file =
     (case env of
        Some raw \<Rightarrow>
          if trim raw \<noteq> [] then policy_from_revoked_list raw
          else (case file of Some raw' \<Rightarrow> policy_from_revoked_list raw' | None \<Rightarrow> default_policy)
      | None \<Rightarrow> (case file of Some raw' \<Rightarrow> policy_from_revoked_list raw' | None \<Rightarrow> default_policy))"

definition revoked_policy_from_env :: "string option \<Rightarrow> policy" where
  "revoked_policy_from_env env = policy_from_revoked_list (case env of Some raw \<Rightarrow> raw | None \<Rightarrow> [])"

section \<open>What the server writes back\<close>

definition auto_trust ::
  "(string \<Rightarrow> config option) \<Rightarrow> (config \<Rightarrow> string option) \<Rightarrow> bool \<Rightarrow> string \<Rightarrow> string option \<Rightarrow>
   (load_error + unit) \<times> string option" where
  "auto_trust parse render writable machine file =
     (case load_config parse file of
        Inl e \<Rightarrow> (Inl e, file)
      | Inr c \<Rightarrow>
          if is_trusted (network_policy c) machine then (Inr (), file)
          else
            let n = cf_network c;
                c' = c\<lparr>cf_network := n\<lparr>nc_trusted_ids := set_id (nc_trusted_ids n) machine True\<rparr>\<rparr> in
            save_config render writable c' file)"

text \<open>The first screen with the name of the client takes the size it reports.\<close>

fun resize_first :: "string \<Rightarrow> u32 \<Rightarrow> u32 \<Rightarrow> screen_config list \<Rightarrow> screen_config list option" where
  "resize_first name w h [] = None"
| "resize_first name w h (s # ss) =
     (if sf_name s = name
      then if w = sf_width s \<and> h = sf_height s then None else Some (s\<lparr>sf_width := w, sf_height := h\<rparr> # ss)
      else map_option (Cons s) (resize_first name w h ss))"

definition auto_config_screen_size ::
  "(string \<Rightarrow> config option) \<Rightarrow> (config \<Rightarrow> string option) \<Rightarrow> bool \<Rightarrow> string \<Rightarrow> screen_info \<Rightarrow> string option \<Rightarrow>
   string option" where
  "auto_config_screen_size parse render writable name info file =
     (case load_config parse file of
        Inl e \<Rightarrow> file
      | Inr c \<Rightarrow>
          (case resize_first name (max (si_width info) 1) (max (si_height info) 1) (cf_screens c) of
             None \<Rightarrow> file
           | Some ss \<Rightarrow> snd (save_config render writable (c\<lparr>cf_screens := ss\<rparr>) file)))"

text \<open>The event sink: the table of connected clients, the marker of control, and the two writes above.\<close>

record sink =
  sk_clients :: "(string \<times> string \<times> (ip \<times> u16) \<times> nat) list"
  sk_control :: bool
  sk_file :: "string option"

fun sink_event ::
  "(string \<Rightarrow> config option) \<Rightarrow> (config \<Rightarrow> string option) \<Rightarrow> bool \<Rightarrow> server_event \<Rightarrow> sink \<Rightarrow> sink" where
  "sink_event parse render writable (ClientJoined name i addr port since info) k =
     (let file1 = snd (auto_trust parse render writable i (sk_file k)) in
      k\<lparr>sk_clients := (name, i, (addr, port), since) # filter (\<lambda>(n, _). n \<noteq> name) (sk_clients k),
        sk_file := auto_config_screen_size parse render writable name info file1\<rparr>)"
| "sink_event parse render writable (ClientLeft name) k =
     k\<lparr>sk_clients := filter (\<lambda>(n, _). n \<noteq> name) (sk_clients k)\<rparr>"
| "sink_event parse render writable (ControlChanged away) k = k\<lparr>sk_control := away\<rparr>"

section \<open>What the server reads while it runs\<close>

definition cmd_line :: "string \<Rightarrow> control option" where
  "cmd_line raw =
     (case split_once (CHR '' '') (trim raw) of
        None \<Rightarrow> None
      | Some (cmd, name) \<Rightarrow>
          if cmd = ''disconnect'' then Some (ClientCommand name CTRL_DISCONNECT)
          else if cmd = ''reconnect'' then Some (ClientCommand name CTRL_RECONNECT)
          else if cmd = ''restart'' then Some (ClientCommand name CTRL_RESTART)
          else None)"

text \<open>A poll of the command file: what it holds, and what is left (\<open>cleared\<close> says whether the truncation succeeds).\<close>

definition cmd_poll :: "bool \<Rightarrow> string option \<Rightarrow> control list \<times> string option" where
  "cmd_poll cleared file =
     (case file of
        None \<Rightarrow> ([], file)
      | Some text \<Rightarrow>
          if trim text = [] then ([], file)
          else (List.map_filter cmd_line (lines_of text), if cleared then Some [] else file))"

text \<open>A poll of the configuration; a signature is the time of the last change and the length.\<close>

definition config_poll ::
  "(string \<Rightarrow> config option) \<Rightarrow> (nat \<times> nat) option \<Rightarrow> string option \<Rightarrow> (nat \<times> nat) option \<Rightarrow>
   control list \<times> (nat \<times> nat) option" where
  "config_poll parse meta file seen =
     (case meta of
        None \<Rightarrow> ([], seen)
      | Some sig \<Rightarrow>
          if seen = Some sig then ([], seen)
          else (case load_config parse file of
              Inl e \<Rightarrow> ([], seen)
            | Inr c \<Rightarrow> ([Reload (to_layout c) (cf_shortcuts c) (cf_input c), SetPolicy (network_policy c)], Some sig)))"

text \<open>A poll of the clipboard: what is broadcast, and what was last seen.\<close>

type_synonym clip = "string \<times> byte list"

definition clipboard_poll :: "clip option \<Rightarrow> clip option \<Rightarrow> clip option \<Rightarrow> clip option \<times> clip option" where
  "clipboard_poll cur injected seen =
     (case cur of
        None \<Rightarrow> (None, seen)
      | Some c \<Rightarrow> if seen \<noteq> Some c \<and> injected \<noteq> Some c then (Some c, Some c) else (None, seen))"

end
