(* ===== verification/Config_Rules.thy ===== *)
theory Config_Rules
  imports Config Crossing_Rules
begin

text \<open>
  What the configuration guarantees: a file that validates gives a session that is well formed and
  cannot panic, as long as its positions are in range; the correction of the local screen keeps the
  neighbours where they were relative to the edges; and a machine that connected once is admitted
  again.  Lemmas at the end show what validation does not rule out.
\<close>

section \<open>Validation\<close>

definition screen_config_ok :: "screen_config \<Rightarrow> bool" where
  "screen_config_ok s \<longleftrightarrow> trim (sf_name s) \<noteq> [] \<and> 0 < sf_width s \<and> sf_width s \<le> MAX_DIMENSION \<and>
     0 < sf_height s \<and> sf_height s \<le> MAX_DIMENSION \<and> f32_is_finite (sf_scale s) \<and>
     \<not> f32_le_zero (sf_scale s) \<and> \<not> f32_above_ten (sf_scale s)"

lemma validate_screens_ok:
  "validate_screens seen ss = Inr () \<longleftrightarrow>
     list_all screen_config_ok ss \<and> distinct (map sf_name ss) \<and> sf_name ` set ss \<inter> seen = {}"
  by (induction ss arbitrary: seen)
    (auto simp: screen_config_ok_def not_less word_gt_0)

lemma validate_ok:
  "validate c = Inr () \<longleftrightarrow>
     cf_screens c \<noteq> [] \<and> list_all screen_config_ok (cf_screens c) \<and> distinct (map sf_name (cf_screens c))"
  by (simp add: validate_def validate_screens_ok)

lemma load_config_ok:
  "load_config parse file = Inr c \<longleftrightarrow> (\<exists>text. file = Some text \<and> parse text = Some c \<and> validate c = Inr ())"
  by (auto simp: load_config_def split: option.splits sum.splits)

lemma config_dim:
  assumes "0 < n" "n \<le> MAX_DIMENSION"
  shows "wrap_i32 (uint n) = uint n" "0 < uint n" "uint n \<le> 2 ^ 15"
proof -
  show "0 < uint n" using assms(1) by (simp add: word_less_def)
  show "uint n \<le> 2 ^ 15" using assms(2) by (simp add: word_le_def MAX_DIMENSION_def)
  then show "wrap_i32 (uint n) = uint n"
    using \<open>0 < uint n\<close> by (intro wrap_i32_id) (simp add: in_i32_def)
qed

section \<open>Normalisation stays close\<close>

text \<open>Sizes of a validated screen, at most \<open>b\<close> away from the origin.\<close>

definition close_rect :: "int \<Rightarrow> rect \<Rightarrow> bool" where
  "close_rect b r \<longleftrightarrow> \<bar>rx r\<bar> \<le> b \<and> \<bar>ry r\<bar> \<le> b \<and> 0 < rw r \<and> rw r \<le> 2 ^ 15 \<and> 0 < rh r \<and> rh r \<le> 2 ^ 15"

definition all_close :: "int \<Rightarrow> screen list \<Rightarrow> bool" where
  "all_close b ss \<longleftrightarrow> (\<forall>s \<in> set ss. close_rect b (sc_rect s))"

lemma close_mono: "close_rect b r \<Longrightarrow> b \<le> b' \<Longrightarrow> close_rect b' r"
  by (auto simp: close_rect_def)

lemma near_exact: "\<bar>a\<bar> \<le> 2 ^ 29 \<Longrightarrow> \<bar>b\<bar> \<le> 2 ^ 29 \<Longrightarrow> near a b EDGE_TOLERANCE \<longleftrightarrow> \<bar>a - b\<bar> \<le> 16"
proof -
  assume "\<bar>a\<bar> \<le> 2 ^ 29" "\<bar>b\<bar> \<le> 2 ^ 29"
  then have "in_i32 (a - b)" "in_i32 \<bar>a - b\<bar>" by (auto simp: in_i32_def)
  then show ?thesis by (simp add: near_def range_simps EDGE_TOLERANCE_def)
qed

lemma close_edges:
  assumes "close_rect b r" "b \<le> 2 ^ 28"
  shows "rect_left r = rx r" "rect_top r = ry r" "rect_right r = rx r + rw r" "rect_bottom r = ry r + rh r"
    "\<bar>rx r\<bar> \<le> 2 ^ 28" "\<bar>ry r\<bar> \<le> 2 ^ 28" "0 < rw r" "rw r \<le> 2 ^ 15" "0 < rh r" "rh r \<le> 2 ^ 15"
proof -
  have "rect_sane r" using assms by (auto simp: close_rect_def rect_sane_def)
  then show "rect_left r = rx r" "rect_top r = ry r" "rect_right r = rx r + rw r" "rect_bottom r = ry r + rh r"
    by simp_all
  show "\<bar>rx r\<bar> \<le> 2 ^ 28" "\<bar>ry r\<bar> \<le> 2 ^ 28" "0 < rw r" "rw r \<le> 2 ^ 15" "0 < rh r" "rh r \<le> 2 ^ 15"
    using assms by (auto simp: close_rect_def)
qed

text \<open>A snap in one direction moves each coordinate by at most the tolerance.\<close>

lemma snap_side_moves:
  assumes "close_rect b a" "close_rect b r" "b \<le> 2 ^ 28"
  shows "\<bar>rx (snap_side a r) - rx r\<bar> \<le> 16 \<and> \<bar>ry (snap_side a r) - ry r\<bar> \<le> 16 \<and>
    rw (snap_side a r) = rw r \<and> rh (snap_side a r) = rh r"
proof -
  note A = close_edges [OF assms(1,3)] and R = close_edges [OF assms(2,3)]
  have n1: "near (rect_right a) (rect_left r) EDGE_TOLERANCE \<longleftrightarrow> \<bar>rx a + rw a - rx r\<bar> \<le> 16"
    unfolding A(3) R(1) using A R by (intro near_exact) auto
  have n2: "near (rect_right r) (rect_left a) EDGE_TOLERANCE \<longleftrightarrow> \<bar>rx r + rw r - rx a\<bar> \<le> 16"
    unfolding A(1) R(3) using A R by (intro near_exact) auto
  have y: "abs32 (sub32 (ry r) (ry a)) = \<bar>ry r - ry a\<bar>"
    using A R by (subst sub32_id; (subst abs32_id)?) (auto simp: in_i32_def)
  have x: "sub32 (rect_left a) (rw r) = rx a - rw r"
    using A R by (subst sub32_id) (auto simp: in_i32_def)
  show ?thesis
    unfolding snap_side_def Let_def n1 n2 x unfolding A(3) by (auto simp: y EDGE_TOLERANCE_def)
qed

lemma snap_stack_moves:
  assumes "close_rect b a" "close_rect b r" "close_rect c nb" "b \<le> 2 ^ 28" "c \<le> 2 ^ 28" "rh nb = rh r"
  shows "\<bar>rx (snap_stack a r nb) - rx nb\<bar> \<le> 16 \<and>
    (\<bar>ry (snap_stack a r nb) - ry r\<bar> \<le> 16 \<or> ry (snap_stack a r nb) = ry nb) \<and>
    rw (snap_stack a r nb) = rw nb \<and> rh (snap_stack a r nb) = rh nb"
proof -
  note A = close_edges [OF assms(1,4)] and R = close_edges [OF assms(2,4)] and N = close_edges [OF assms(3,5)]
  have n1: "near (rect_bottom a) (rect_top r) EDGE_TOLERANCE \<longleftrightarrow> \<bar>ry a + rh a - ry r\<bar> \<le> 16"
    unfolding A(4) R(2) using A R by (intro near_exact) auto
  have n2: "near (rect_bottom r) (rect_top a) EDGE_TOLERANCE \<longleftrightarrow> \<bar>ry r + rh r - ry a\<bar> \<le> 16"
    unfolding A(2) R(4) using A R by (intro near_exact) auto
  have x: "abs32 (sub32 (rx nb) (rx a)) = \<bar>rx nb - rx a\<bar>"
    using A N by (subst sub32_id; (subst abs32_id)?) (auto simp: in_i32_def)
  have y: "sub32 (rect_top a) (rh r) = ry a - rh r"
    using A R by (subst sub32_id) (auto simp: in_i32_def)
  show ?thesis
    unfolding snap_stack_def Let_def n1 n2 unfolding A(4) by (auto simp: x y assms(6) EDGE_TOLERANCE_def)
qed

lemma snap_rect_close:
  assumes "close_rect b a" "close_rect b r" "b + 32 \<le> 2 ^ 28"
  shows "close_rect (b + 32) (snap_rect a r)"
proof -
  have side: "\<bar>rx (snap_side a r) - rx r\<bar> \<le> 16 \<and> \<bar>ry (snap_side a r) - ry r\<bar> \<le> 16 \<and>
      rw (snap_side a r) = rw r \<and> rh (snap_side a r) = rh r"
    using assms by (intro snap_side_moves) auto
  then have "close_rect (b + 16) (snap_side a r)" using assms(2) by (auto simp: close_rect_def)
  moreover have "\<bar>rx (snap_rect a r) - rx (snap_side a r)\<bar> \<le> 16 \<and>
      (\<bar>ry (snap_rect a r) - ry r\<bar> \<le> 16 \<or> ry (snap_rect a r) = ry (snap_side a r)) \<and>
      rw (snap_rect a r) = rw (snap_side a r) \<and> rh (snap_rect a r) = rh (snap_side a r)"
    unfolding snap_rect_def
    using assms side calculation by (intro snap_stack_moves [of b _ _ "b + 16"]) auto
  ultimately have "\<bar>rx (snap_rect a r) - rx r\<bar> \<le> 32" "\<bar>ry (snap_rect a r) - ry r\<bar> \<le> 32"
      "rw (snap_rect a r) = rw r" "rh (snap_rect a r) = rh r"
    using side by linarith+
  moreover have "\<bar>x'\<bar> \<le> b + 32" if "\<bar>x' - x\<bar> \<le> 32" "\<bar>x\<bar> \<le> b" for x x' :: int
    using that by linarith
  ultimately show ?thesis using assms(2) by (simp add: close_rect_def)
qed

lemma snap_step_close:
  assumes "all_close b (fst st)" "close_rect b a" "j < length (fst st)" "b + 32 \<le> 2 ^ 28"
  shows "all_close (b + 32) (fst (snap_step i a st j))"
proof -
  obtain ss ch where st: "st = (ss, ch)" by force
  have all: "all_close (b + 32) ss"
    using assms(1) close_mono by (fastforce simp: all_close_def st)
  have "close_rect (b + 32) (snap_rect a (sc_rect (ss ! j)))"
    using assms by (intro snap_rect_close) (auto simp: all_close_def st)
  then have "all_close (b + 32) (ss[j := (ss ! j)\<lparr>sc_rect := snap_rect a (sc_rect (ss ! j))\<rparr>])"
    using all set_update_subset_insert by (fastforce simp: all_close_def)
  then show ?thesis using all by (simp add: snap_step_def st Let_def)
qed

text \<open>A fold of moves, each by at most \<open>d\<close>.\<close>

lemma foldl_close:
  assumes move: "\<And>(st :: screen list \<times> 'c) x c. x \<in> set xs \<Longrightarrow> b \<le> c \<Longrightarrow> c + d \<le> 2 ^ 28 \<Longrightarrow> length (fst st) = n \<Longrightarrow>
      all_close c (fst st) \<Longrightarrow> all_close (c + d) (fst (f st x)) \<and> length (fst (f st x)) = n"
    and "0 \<le> d" "b + d * int (length xs) \<le> 2 ^ 28" "length (fst st) = n" "all_close b (fst st)"
  shows "all_close (b + d * int (length xs)) (fst (foldl f st xs)) \<and> length (fst (foldl f st xs)) = n"
  using assms
proof (induction xs arbitrary: st b)
  case Nil
  then show ?case by simp
next
  case (Cons x xs)
  have d: "0 \<le> d * int (length xs)" using Cons.prems(2) by simp
  have "d * int (length (x # xs)) = d + d * int (length xs)" by (simp add: algebra_simps)
  then have room: "b + d \<le> 2 ^ 28" "b + d + d * int (length xs) \<le> 2 ^ 28"
    using Cons.prems(3) d by linarith+
  have step: "all_close (b + d) (fst (f st x)) \<and> length (fst (f st x)) = n"
    using room(1) by (intro Cons.prems(1)) (use Cons.prems(4,5) in auto)
  have "all_close (b + d + d * int (length xs)) (fst (foldl f (f st x) xs)) \<and> length (fst (foldl f (f st x) xs)) = n"
  proof (rule Cons.IH)
    show "0 \<le> d" "b + d + d * int (length xs) \<le> 2 ^ 28" using Cons.prems(2) room by auto
    show "length (fst (f st x)) = n" "all_close (b + d) (fst (f st x))" using step by auto
  next
    fix st' :: "screen list \<times> 'c" and y c
    assume "y \<in> set xs" "b + d \<le> c" "c + d \<le> 2 ^ 28" "length (fst st') = n" "all_close c (fst st')"
    then show "all_close (c + d) (fst (f st' y)) \<and> length (fst (f st' y)) = n"
      using Cons.prems(1) [of y c st'] Cons.prems(2) by auto
  qed
  then show ?case by (simp add: algebra_simps)
qed

lemma snap_row_close:
  assumes "all_close c (fst st)" "i < length (fst st)" "length (fst st) = n" "c + 32 * int n \<le> 2 ^ 28"
  shows "all_close (c + 32 * int n) (fst (snap_row st i)) \<and> length (fst (snap_row st i)) = n"
proof -
  let ?a = "sc_rect (fst st ! i)"
  have a: "close_rect c ?a" using assms(1,2) by (simp add: all_close_def)
  have "all_close (c + 32 * int (length [0..<n])) (fst (foldl (snap_step i ?a) st [0..<n])) \<and>
      length (fst (foldl (snap_step i ?a) st [0..<n])) = n"
  proof (rule foldl_close)
    fix st' :: "screen list \<times> bool" and j e
    assume h: "j \<in> set [0..<n]" "c \<le> e" "e + 32 \<le> 2 ^ 28" "length (fst st') = n" "all_close e (fst st')"
    have "length (fst (snap_step i ?a st' j)) = n"
      using same_shapes_length [OF snap_step_shapes] h(4) by metis
    then show "all_close (e + 32) (fst (snap_step i ?a st' j)) \<and> length (fst (snap_step i ?a st' j)) = n"
      using h close_mono [OF a h(2)] by (auto intro!: snap_step_close)
  qed (use assms in auto)
  then show ?thesis using assms(3) by (simp add: snap_row_def)
qed

lemma normalize_pass_close:
  assumes "all_close c ss" "c + 32 * int (length ss) * int (length ss) \<le> 2 ^ 28"
  shows "all_close (c + 32 * int (length ss) * int (length ss)) (fst (normalize_pass ss)) \<and>
    length (fst (normalize_pass ss)) = length ss"
proof -
  let ?n = "length ss"
  have "all_close (c + 32 * int ?n * int (length [0..<?n])) (fst (foldl snap_row (ss, False) [0..<?n])) \<and>
      length (fst (foldl snap_row (ss, False) [0..<?n])) = ?n"
  proof (rule foldl_close)
    fix st :: "screen list \<times> bool" and i e
    assume "i \<in> set [0..<?n]" "e + 32 * int ?n \<le> 2 ^ 28" "length (fst st) = ?n" "all_close e (fst st)"
    then show "all_close (e + 32 * int ?n) (fst (snap_row st i)) \<and> length (fst (snap_row st i)) = ?n"
      by (intro snap_row_close) auto
  qed (use assms in auto)
  then show ?thesis by (simp add: normalize_pass_def)
qed

lemma normalize_loop_close:
  "all_close c ss \<Longrightarrow> c + 32 * int (length ss) * int (length ss) * int k \<le> 2 ^ 28 \<Longrightarrow>
   all_close (c + 32 * int (length ss) * int (length ss) * int k) (normalize_loop k ss)"
proof (induction k arbitrary: c ss)
  case 0
  then show ?case by simp
next
  case (Suc k)
  let ?d = "32 * int (length ss) * int (length ss)"
  have d: "0 \<le> ?d" "0 \<le> ?d * int k" by simp_all
  have "?d * int (Suc k) = ?d + ?d * int k" by (simp add: algebra_simps)
  then have "c + ?d \<le> 2 ^ 28" using Suc.prems(2) d by linarith
  then have pass: "all_close (c + ?d) (fst (normalize_pass ss))" "length (fst (normalize_pass ss)) = length ss"
    using normalize_pass_close [OF Suc.prems(1)] by auto
  then have "all_close (c + ?d + ?d * int k) (normalize_loop k (fst (normalize_pass ss)))"
    using Suc.IH [of "c + ?d" "fst (normalize_pass ss)"] Suc.prems(2) by (simp add: algebra_simps)
  moreover have "all_close (c + ?d + ?d * int k) (fst (normalize_pass ss))"
    using pass(1) d(2) close_mono by (fastforce simp: all_close_def)
  ultimately show ?case by (simp add: case_prod_beta Let_def algebra_simps)
qed

section \<open>The layout of a validated configuration\<close>

lemma config_rect_close:
  "screen_config_ok s \<Longrightarrow> \<bar>sf_x s\<bar> \<le> b \<Longrightarrow> \<bar>sf_y s\<bar> \<le> b \<Longrightarrow> close_rect b (config_rect s)"
  using config_dim [of "sf_width s"] config_dim [of "sf_height s"]
  by (simp add: screen_config_ok_def close_rect_def config_rect_def)

lemma to_layout_shapes:
  "same_shapes (map config_screen (enumerate 0 (cf_screens c))) (screens (to_layout c))"
  using normalize_loop_shapes by (simp add: to_layout_def normalized_def)

lemma to_layout_nth:
  assumes "i < length (cf_screens c)"
  shows "length (screens (to_layout c)) = length (cf_screens c)"
    "sc_id (screens (to_layout c) ! i) = word_of_nat i"
    "sc_name (screens (to_layout c) ! i) = sf_name (cf_screens c ! i)"
  using to_layout_shapes [of c] assms
  by (auto simp: same_shapes_nth config_screen_def nth_enumerate_eq)

lemma to_layout_close:
  assumes "list_all screen_config_ok (cf_screens c)" "length (cf_screens c) \<le> 256"
    "\<forall>s \<in> set (cf_screens c). \<bar>sf_x s\<bar> \<le> 2 ^ 27 \<and> \<bar>sf_y s\<bar> \<le> 2 ^ 27"
  shows "layout_sane (to_layout c)"
proof -
  let ?ss = "map config_screen (enumerate 0 (cf_screens c))"
  let ?b = "2 ^ 27 + 32 * int (length ?ss) * int (length ?ss) * int 8"
  have "int (length ?ss) * int (length ?ss) \<le> 256 * 256"
    using assms(2) by (intro mult_mono) auto
  then have room: "?b \<le> 2 ^ 28" by simp
  have "all_close (2 ^ 27) ?ss"
    unfolding all_close_def
  proof
    fix s
    assume "s \<in> set ?ss"
    then obtain sf where "sf \<in> set (cf_screens c)" "sc_rect s = config_rect sf"
      by (force simp: config_screen_def in_set_enumerate_eq)
    then show "close_rect (2 ^ 27) (sc_rect s)"
      using assms(1,3) config_rect_close by (metis (no_types, lifting) list_all_iff)
  qed
  then have "all_close ?b (screens (to_layout c))"
    using normalize_loop_close [of "2 ^ 27" ?ss 8] room by (simp add: to_layout_def normalized_def)
  then have "all_close (2 ^ 28) (screens (to_layout c))"
    using close_mono [OF _ room] unfolding all_close_def by blast
  then show ?thesis by (auto simp: all_close_def layout_sane_def close_rect_def rect_sane_def)
qed

lemma session_from_config_new:
  assumes "cf_screens c \<noteq> []"
  shows "\<exists>s0 s. new_session (to_layout c) 0 = Some s0 \<and> session_from_config c = Some s \<and>
    se_layout s = to_layout c \<and> se_mode s = Local \<and>
    se_local s = sc_rect (the (find_screen (to_layout c) 0)) \<and> session_ok s"
proof -
  have n: "0 < length (cf_screens c)" using assms by simp
  then have "screens (to_layout c) ! 0 \<in> set (screens (to_layout c))" "sc_id (screens (to_layout c) ! 0) = 0"
    using to_layout_nth(1,2) [OF n] by simp_all
  then have "0 \<in> sc_id ` set (screens (to_layout c))" by force
  then obtain sc where sc: "find_screen (to_layout c) 0 = Some sc"
    using find_screen_exists by blast
  then obtain s0 where s0: "new_session (to_layout c) 0 = Some s0" "se_layout s0 = to_layout c"
      "se_mode s0 = Local" "se_local s0 = sc_rect sc"
    by (simp add: new_session_def case_prod_beta Let_def)
  then have "session_ok s0" using new_session_ok by blast
  then show ?thesis
    using s0 sc by (simp add: session_from_config_def set_prefs_def set_bindings_def session_ok_def screen_ids_def)
qed

section \<open>What a validated file guarantees\<close>


definition sample_config :: config where
  "sample_config =
     \<lparr>cf_port = DEFAULT_PORT,
      cf_screens = [\<lparr>sf_name = ''pc'', sf_width = 1920, sf_height = 1080, sf_x = 0, sf_y = 0, sf_scale = F32_ONE\<rparr>,
        \<lparr>sf_name = ''hp'', sf_width = 1280, sf_height = 720, sf_x = - 1280, sf_y = 10, sf_scale = F32_ONE\<rparr>],
      cf_network = default_network, cf_shortcuts = default_bind_section, cf_input = default_prefs\<rparr>"

lemma name_trims:
  "trim ''pc'' = ''pc''" "trim ''hp'' = ''hp''"
  by (simp_all add: trim_trimmed trimmed_printing printing_def)

lemma sample_validates: "validate sample_config = Inr ()"
  by (simp add: validate_def sample_config_def name_trims MAX_DIMENSION_def F32_ONE_def f32_is_finite_def
      f32_le_zero_def f32_above_ten_def)


text \<open>
  The positions are not validated: one screen far enough to the right is a valid file, and the first
  motion of the mouse makes the session panic, because the right edge wraps around.
\<close>

definition far_config :: config where
  "far_config = sample_config\<lparr>cf_screens :=
     [\<lparr>sf_name = ''pc'', sf_width = 1920, sf_height = 1080, sf_x = 2147483000, sf_y = 0, sf_scale = F32_ONE\<rparr>]\<rparr>"

lemma far_screen_panics:
  "validate far_config = Inr () \<and>
   (\<exists>s. session_from_config far_config = Some s \<and> session_step 7 (LocalEvent (MouseMoveRel 1 0)) s = None)"
proof
  show "validate far_config = Inr ()"
    by (simp add: validate_def far_config_def name_trims MAX_DIMENSION_def F32_ONE_def f32_is_finite_def
        f32_le_zero_def f32_above_ten_def)
  have l: "to_layout far_config = \<lparr>screens = [\<lparr>sc_id = 0, sc_name = ''pc'', sc_rect = \<lparr>rx = 2147483000, ry = 0, rw = 1920, rh = 1080\<rparr>\<rparr>]\<rparr>"
    unfolding to_layout_def
    by (subst normalized_settled)
      (simp_all add: settled_def far_config_def config_screen_def config_rect_def wrap_i32_def)
  then obtain s where s: "session_from_config far_config = Some s"
    by (simp add: session_from_config_def new_session_def find_screen_def case_prod_beta Let_def)
  have "se_mode s = Local \<and> se_layout s = to_layout far_config \<and> se_at_wall s = 0 \<and> se_pushing s = None \<and>
      se_local s = \<lparr>rx = 2147483000, ry = 0, rw = 1920, rh = 1080\<rparr>"
    and xy: "se_x s = - 2147483336" "se_y s = 540"
    using s by (auto simp: session_from_config_def new_session_def find_screen_def l case_prod_beta Let_def
        set_prefs_def set_bindings_def rect_center_def add32_def wrap_i32_def)
  then have "session_step 7 (LocalEvent (MouseMoveRel 1 0)) s = None"
    using xy by (simp add: l disarm_def on_local_motion_def handle_local_motion_def DIRS_def armed_def
        Let_def add32_def wrap_i32_def exit_direction_def find_screen_def clamp_to_def rect_left_def
        rect_right_def rect_top_def rect_bottom_def sub32_def rect_contains_def)
  then show "\<exists>s. session_from_config far_config = Some s \<and> session_step 7 (LocalEvent (MouseMoveRel 1 0)) s = None"
    using s by blast
qed

text \<open>Nor is their number: with 257 screens the last one has the id of the local screen.\<close>

definition many_config :: "nat \<Rightarrow> config" where
  "many_config n = sample_config\<lparr>cf_screens := map (\<lambda>i.
     \<lparr>sf_name = decimal i, sf_width = 800, sf_height = 600, sf_x = 900 * int i, sf_y = 0, sf_scale = F32_ONE\<rparr>) [0..<n]\<rparr>"

lemma decimal_inj: "i < 65536 \<Longrightarrow> j < 65536 \<Longrightarrow> decimal i = decimal j \<Longrightarrow> i = j"
  by (metis option.inject parse_digits_decimal)

lemma many_validates: "0 < n \<Longrightarrow> n < 65536 \<Longrightarrow> validate (many_config n) = Inr ()"
proof -
  assume n: "0 < n" "n < 65536"
  have "inj_on decimal {0..<n}"
    using n(2) by (intro inj_onI) (auto intro: decimal_inj)
  then have "distinct (map decimal [0..<n])" by (simp add: distinct_map)
  moreover have "trim (decimal i) \<noteq> []" for i
    using trim_trimmed [OF trimmed_decimal, of i] decimal_first [of i] by auto
  ultimately show ?thesis
    using n by (simp add: validate_ok many_config_def list_all_iff screen_config_ok_def
        MAX_DIMENSION_def F32_ONE_def f32_is_finite_def f32_le_zero_def f32_above_ten_def comp_def)
qed

lemma id_of_screen_256_wraps:
  "validate (many_config 257) = Inr () \<and>
   sc_id (screens (to_layout (many_config 257)) ! 256) = 0 \<and> sc_id (screens (to_layout (many_config 257)) ! 0) = 0"
proof -
  have n: "length (cf_screens (many_config 257)) = 257" by (simp add: many_config_def)
  show ?thesis
    using many_validates [of 257] to_layout_nth(2) [of 256 "many_config 257"] to_layout_nth(2) [of 0 "many_config 257"]
    by (simp only: n) simp
qed

section \<open>The size of the local screen\<close>

text \<open>
  The correction of the local screen to the display of the machine, on sizes and positions in
  range: the local screen takes the new size; every other screen keeps its name, size and order and
  moves only along with the edge it lies past, so that its distance from that edge stays the same;
  and a second correction to the same display changes nothing.
\<close>
theorem correction_keeps_adjacency:
  assumes "cf_screens c = l # others" "correct_local_screen_to w h c = (changed, c')"
    "\<forall>s \<in> set (l # others). sf_width s \<le> MAX_DIMENSION \<and> sf_height s \<le> MAX_DIMENSION"
    "\<forall>s \<in> set others. \<bar>sf_x s\<bar> \<le> 2 ^ 27 \<and> \<bar>sf_y s\<bar> \<le> 2 ^ 27"
    "w \<le> MAX_DIMENSION" "h \<le> MAX_DIMENSION"
  shows "correct_local_screen_to w h c' = (False, c') \<and>
    (changed \<longleftrightarrow> sf_width l \<noteq> w \<or> sf_height l \<noteq> h) \<and> c' = c\<lparr>cf_screens := cf_screens c'\<rparr> \<and>
    (\<exists>others'. cf_screens c' = l\<lparr>sf_width := w, sf_height := h\<rparr> # others' \<and>
      list_all2 (\<lambda>s s'. sf_name s' = sf_name s \<and> sf_width s' = sf_width s \<and> sf_height s' = sf_height s \<and>
        (uint (sf_width l) \<le> sf_x s \<longrightarrow> sf_x s' - uint w = sf_x s - uint (sf_width l)) \<and>
        (sf_x s < uint (sf_width l) \<longrightarrow> sf_x s' = sf_x s) \<and>
        (uint (sf_height l) \<le> sf_y s \<longrightarrow> sf_y s' - uint h = sf_y s - uint (sf_height l)) \<and>
        (sf_y s < uint (sf_height l) \<longrightarrow> sf_y s' = sf_y s)) others others')"
proof -
  let ?ow = "uint (sf_width l)" and ?oh = "uint (sf_height l)"
  have dim: "wrap_i32 (uint n) = uint n" "uint n \<le> 2 ^ 15" if "n \<le> MAX_DIMENSION" for n
    using that config_dim [of n] by (cases "n = 0"; simp add: word_gt_0 wrap_i32_def)+
  have l: "wrap_i32 ?ow = ?ow" "?ow \<le> 2 ^ 15" "wrap_i32 ?oh = ?oh" "?oh \<le> 2 ^ 15"
      "wrap_i32 (uint w) = uint w" "uint w \<le> 2 ^ 15" "wrap_i32 (uint h) = uint h" "uint h \<le> 2 ^ 15"
    using assms(3,5,6) dim by auto
  have diff: "- (2 ^ 15) \<le> uint a - uint b \<and> uint a - uint b \<le> 2 ^ 15"
    if "uint a \<le> 2 ^ 15" "uint b \<le> 2 ^ 15" for a b :: u32
    using that uint_ge_0 [of a] uint_ge_0 [of b] by linarith
  have d: "- (2 ^ 15) \<le> uint w - ?ow \<and> uint w - ?ow \<le> 2 ^ 15" "- (2 ^ 15) \<le> uint h - ?oh \<and> uint h - ?oh \<le> 2 ^ 15"
    using diff l by blast+
  have delta: "sub32 (uint w) ?ow = uint w - ?ow" "sub32 (uint h) ?oh = uint h - ?oh"
    using d by (auto intro!: sub32_id simp: in_i32_def)
  let ?shift = "shift_screen ?ow ?oh (uint w - ?ow) (uint h - ?oh)"
  have moved: "add32 a (uint w - ?ow) = a + (uint w - ?ow)" "add32 a (uint h - ?oh) = a + (uint h - ?oh)"
    if "\<bar>a\<bar> \<le> 2 ^ 27" for a
    using that d by (auto simp: in_i32_def intro!: add32_id)
  have shifted: "sf_name (?shift s) = sf_name s \<and> sf_width (?shift s) = sf_width s \<and>
        sf_height (?shift s) = sf_height s \<and>
        (?ow \<le> sf_x s \<longrightarrow> sf_x (?shift s) - uint w = sf_x s - ?ow) \<and>
        (sf_x s < ?ow \<longrightarrow> sf_x (?shift s) = sf_x s) \<and>
        (?oh \<le> sf_y s \<longrightarrow> sf_y (?shift s) - uint h = sf_y s - ?oh) \<and>
        (sf_y s < ?oh \<longrightarrow> sf_y (?shift s) = sf_y s)" if "s \<in> set others" for s
    using assms(4) that moved [of "sf_x s"] moved [of "sf_y s"] by (auto simp: shift_screen_def Let_def)
  show ?thesis
  proof (cases "sf_width l = w \<and> sf_height l = h")
    case True
    then have "c' = c" "\<not> changed" using assms(1,2) by (auto simp: correct_local_screen_to_def)
    then show ?thesis
      using assms(1,2) True by (auto simp: list_all2_same)
  next
    case False
    then have "changed" "c' = c\<lparr>cf_screens := l\<lparr>sf_width := w, sf_height := h\<rparr> # map ?shift others\<rparr>"
      using assms(1,2) by (auto simp: correct_local_screen_to_def Let_def l delta)
    then show ?thesis
      using False shifted by (auto simp: correct_local_screen_to_def list_all2_conv_all_nth)
  qed
qed

theorem correction_keeps_adjacency_witness:
  "correct_local_screen_to 1024 768 (snd (correct_local_screen_to 1024 768 sample_config)) =
     (False, snd (correct_local_screen_to 1024 768 sample_config))"
  using correction_keeps_adjacency
    [of sample_config "hd (cf_screens sample_config)" "tl (cf_screens sample_config)" 1024 768
      "fst (correct_local_screen_to 1024 768 sample_config)" "snd (correct_local_screen_to 1024 768 sample_config)"]
  by (simp add: sample_config_def MAX_DIMENSION_def)

text \<open>
  The edge is taken to be the size of the local screen, wherever that screen is: with the local screen
  at \<open>- 1920\<close>, its right neighbour at \<open>0\<close> stays behind and a gap opens between them.
\<close>

definition moved_config :: config where
  "moved_config = sample_config\<lparr>cf_screens :=
     [\<lparr>sf_name = ''pc'', sf_width = 1920, sf_height = 1080, sf_x = - 1920, sf_y = 0, sf_scale = F32_ONE\<rparr>,
      \<lparr>sf_name = ''hp'', sf_width = 1280, sf_height = 720, sf_x = 0, sf_y = 0, sf_scale = F32_ONE\<rparr>]\<rparr>"

lemma moved_local_loses_neighbor:
  "validate moved_config = Inr () \<and>
   rect_right (config_rect (cf_screens moved_config ! 0)) = rect_left (config_rect (cf_screens moved_config ! 1)) \<and>
   (let c' = snd (correct_local_screen_to 1024 768 moved_config) in
      rect_right (config_rect (cf_screens c' ! 0)) = - 896 \<and> rect_left (config_rect (cf_screens c' ! 1)) = 0)"
  by (simp add: validate_def moved_config_def sample_config_def name_trims MAX_DIMENSION_def F32_ONE_def
      f32_is_finite_def f32_le_zero_def f32_above_ten_def config_rect_def rect_right_def rect_left_def
      correct_local_screen_to_def shift_screen_def Let_def add32_def sub32_def wrap_i32_def)

section \<open>Trust\<close>

lemma set_id_trusts: "4 \<le> length i \<Longrightarrow> i \<in> set (set_id ids i True)"
  by (simp add: set_id_def Let_def)

lemma is_trusted_iff: "is_trusted p i \<longleftrightarrow> (\<exists>t \<in> set (po_trusted_ids p). id_matches i t)"
  by (simp add: is_trusted_def list_ex_iff)


text \<open>
  The witness: a text that stands for the sample configuration with a list of trusted ids, one per line.
\<close>

definition sample_trusting :: "string list \<Rightarrow> config" where
  "sample_trusting ids = sample_config\<lparr>cf_network := default_network\<lparr>nc_trusted_ids := ids\<rparr>\<rparr>"

definition sample_render :: "config \<Rightarrow> string option" where
  "sample_render c =
     (let ids = nc_trusted_ids (cf_network c) in
      if c = sample_trusting ids \<and> list_all one_line ids then Some (unlines ids) else None)"

definition sample_parse :: "string \<Rightarrow> config option" where
  "sample_parse text = Some (sample_trusting (lines_of text))"

lemma sample_toml: "sample_render c = Some text \<Longrightarrow> sample_parse text = Some c"
  by (auto simp: sample_render_def sample_parse_def Let_def lines_of_unlines split: if_splits)


text \<open>
  What recording an id does not do.  An id below four characters is appended at every connection and
  never trusted; an id of four characters, which a machine may send as its own, opens the server to
  every id that starts with it.
\<close>

lemma short_id_accumulates:
  "length machine < 4 \<Longrightarrow> set_id ids machine True = ids @ [machine] \<and> \<not> id_matches machine machine"
  by (auto simp: set_id_def Let_def id_matches_def prefix_def filter_id_conv)

lemma recorded_prefix_opens_up:
  "length machine = 4 \<Longrightarrow> po_trusted_ids p = set_id ids machine True \<Longrightarrow> is_trusted p (machine @ rest)"
  by (auto simp: is_trusted_iff set_id_def Let_def id_matches_def)

section \<open>The other files\<close>

text \<open>When the command file cannot be truncated, its commands are executed again at every poll.\<close>

lemma commands_replayed:
  "cmd_poll False (Some text) = (cmds, file) \<Longrightarrow> file = Some text \<and> cmd_poll False file = (cmds, file)"
  by (auto simp: cmd_poll_def split: if_splits)

text \<open>
  Clipboard content that came from a client is never sent back.  But a copy that equals the last
  broadcast is not sent either, although a client may have replaced the content of all clipboards
  in between: after the local copy \<open>a\<close> and the copy \<open>b\<close> of a client, a second local copy of \<open>a\<close> is lost.
\<close>

lemma injected_not_echoed: "fst (clipboard_poll cur (Some x) seen) \<noteq> Some x"
  by (auto simp: clipboard_poll_def split: option.splits)

lemma recopy_not_broadcast:
  assumes "a \<noteq> b"
  shows "let (out1, seen1) = clipboard_poll (Some a) None None;
             (out2, seen2) = clipboard_poll (Some b) (Some b) seen1;
             (out3, seen3) = clipboard_poll (Some a) (Some b) seen2 in
         out1 = Some a \<and> out2 = None \<and> out3 = None"
  using assms by (simp add: clipboard_poll_def)

end
