(* ===== verification/Config_Store.thy ===== *)
theory Config_Store
  imports Config_Rules
begin

text \<open>
  The configuration file under several writers: \<open>app/src/config/io.rs\<close>.  A writer reads and parses
  the file, changes the configuration, encodes it, and then, in \<open>atomic_write\<close>, takes the lock beside
  the file, writes a temporary file, renames it over the configuration and drops the lock.  Each of
  these is a step, and the steps of different writers (the event sink of the server, its start, the
  GUI) interleave; a writer may die at any step, which drops its lock.

  \<open>edit i\<close> is the change of writer \<open>i\<close>; \<open>parse\<close> and \<open>render\<close> are the TOML library.
\<close>

datatype phase =
  Idle | Encoded string | Holding string | Written string | Renamed string | Finished | Died

record store =
  st_file :: "string option"
  st_tmp :: string
  st_lock :: "nat option"
  st_phase :: "nat \<Rightarrow> phase"

definition new_store :: "string option \<Rightarrow> store" where
  "new_store file = \<lparr>st_file = file, st_tmp = [], st_lock = None, st_phase = (\<lambda>_. Idle)\<rparr>"

definition in_phase :: "nat \<Rightarrow> phase \<Rightarrow> store \<Rightarrow> store" where
  "in_phase i p s = s\<lparr>st_phase := (st_phase s)(i := p)\<rparr>"

definition drop_lock :: "nat \<Rightarrow> store \<Rightarrow> store" where
  "drop_lock i s = (if st_lock s = Some i then s\<lparr>st_lock := None\<rparr> else s)"

inductive store_step ::
  "(string \<Rightarrow> config option) \<Rightarrow> (config \<Rightarrow> string option) \<Rightarrow> (nat \<Rightarrow> config \<Rightarrow> config) \<Rightarrow> store \<Rightarrow> store \<Rightarrow> bool"
  for parse render edit where
  read: "st_phase s i = Idle \<Longrightarrow> load_config parse (st_file s) = Inr c \<Longrightarrow> render (edit i c) = Some text \<Longrightarrow>
    store_step parse render edit s (in_phase i (Encoded text) s)"
| take_lock: "st_phase s i = Encoded text \<Longrightarrow> st_lock s = None \<Longrightarrow>
    store_step parse render edit s (in_phase i (Holding text) (s\<lparr>st_lock := Some i\<rparr>))"
| write_part: "st_phase s i = Holding text \<Longrightarrow>
    store_step parse render edit s (s\<lparr>st_tmp := take k text\<rparr>)"
| write_whole: "st_phase s i = Holding text \<Longrightarrow>
    store_step parse render edit s (in_phase i (Written text) (s\<lparr>st_tmp := text\<rparr>))"
| rename: "st_phase s i = Written text \<Longrightarrow>
    store_step parse render edit s (in_phase i (Renamed text) (s\<lparr>st_file := Some (st_tmp s)\<rparr>))"
| release_lock: "st_phase s i = Renamed text \<Longrightarrow>
    store_step parse render edit s (in_phase i Finished (drop_lock i s))"
| die: "store_step parse render edit s (in_phase i Died (drop_lock i s))"

inductive_cases store_stepE: "store_step parse render edit s s'"

inductive store_reaches ::
  "(string \<Rightarrow> config option) \<Rightarrow> (config \<Rightarrow> string option) \<Rightarrow> (nat \<Rightarrow> config \<Rightarrow> config) \<Rightarrow> store \<Rightarrow> store \<Rightarrow> bool"
  for parse render edit s0 where
  start: "store_reaches parse render edit s0 s0"
| step: "store_reaches parse render edit s0 s \<Longrightarrow> store_step parse render edit s s' \<Longrightarrow>
    store_reaches parse render edit s0 s'"

text \<open>The text a writer is about to put in the file, and whether it holds the lock.\<close>

fun pending_text :: "phase \<Rightarrow> string option" where
  "pending_text (Encoded text) = Some text"
| "pending_text (Holding text) = Some text"
| "pending_text (Written text) = Some text"
| "pending_text _ = None"

fun holds_lock :: "phase \<Rightarrow> bool" where
  "holds_lock (Holding text) = True"
| "holds_lock (Written text) = True"
| "holds_lock (Renamed text) = True"
| "holds_lock _ = False"

definition good_text :: "(string \<Rightarrow> config option) \<Rightarrow> string \<Rightarrow> bool" where
  "good_text parse text \<longleftrightarrow> is_ok (load_config parse (Some text))"

definition store_ok :: "(string \<Rightarrow> config option) \<Rightarrow> store \<Rightarrow> bool" where
  "store_ok parse s \<longleftrightarrow>
     (\<forall>i. holds_lock (st_phase s i) \<longrightarrow> st_lock s = Some i) \<and>
     (\<forall>i text. pending_text (st_phase s i) = Some text \<longrightarrow> good_text parse text) \<and>
     (\<forall>i text. st_phase s i = Written text \<longrightarrow> st_tmp s = text) \<and>
     (\<exists>text. st_file s = Some text \<and> good_text parse text)"

lemma in_phase_simps [simp]:
  "st_file (in_phase i p s) = st_file s" "st_tmp (in_phase i p s) = st_tmp s"
  "st_lock (in_phase i p s) = st_lock s" "st_phase (in_phase i p s) = (st_phase s)(i := p)"
  "st_file (drop_lock i s) = st_file s" "st_tmp (drop_lock i s) = st_tmp s"
  "st_phase (drop_lock i s) = st_phase s"
  "st_lock (drop_lock i s) = (if st_lock s = Some i then None else st_lock s)"
  by (simp_all add: in_phase_def drop_lock_def)

lemma ok_lock: "store_ok parse s \<Longrightarrow> holds_lock (st_phase s i) \<Longrightarrow> st_lock s = Some i"
  by (simp add: store_ok_def)

lemma ok_alone: "store_ok parse s \<Longrightarrow> st_phase s i = Holding t \<Longrightarrow> st_phase s j \<noteq> Written u"
  using ok_lock [of parse s i] ok_lock [of parse s j] by auto

lemma store_step_ok:
  assumes toml: "\<And>c text. render c = Some text \<Longrightarrow> parse text = Some c"
    and edits: "\<And>i c. validate c = Inr () \<Longrightarrow> validate (edit i c) = Inr ()"
    and "store_step parse render edit s s'" "store_ok parse s"
  shows "store_ok parse s'"
  using assms(3)
proof cases
  case (read i c t)
  then have "good_text parse t"
    using toml [OF read(4)] edits by (auto simp: good_text_def load_config_def split: option.splits sum.splits)
  then show ?thesis using read assms(4) by (auto simp: store_ok_def)
next
  case (take_lock i t)
  then have "\<not> holds_lock (st_phase s j)" for j using assms(4) by (auto simp: store_ok_def)
  moreover from this have "st_phase s j \<noteq> Written u" for j u by (metis holds_lock.simps(2))
  moreover have "good_text parse t"
    using assms(4) take_lock(2) unfolding store_ok_def by (metis pending_text.simps(1))
  ultimately show ?thesis using take_lock assms(4) by (auto simp: store_ok_def)
next
  case (write_part i t k)
  have "st_phase s j \<noteq> Written u" for j u using ok_alone [OF assms(4) write_part(2)] .
  then show ?thesis using assms(4) unfolding store_ok_def write_part(1) by simp
next
  case (write_whole i t)
  have "st_phase s j \<noteq> Written u" for j u using ok_alone [OF assms(4) write_whole(2)] .
  moreover have "good_text parse t"
    using assms(4) write_whole(2) unfolding store_ok_def by (metis pending_text.simps(2))
  moreover have "st_lock s = Some i" using write_whole(2) ok_lock [OF assms(4), of i] by simp
  ultimately show ?thesis using assms(4) unfolding store_ok_def write_whole(1) by simp
next
  case (rename i t)
  then have t: "st_tmp s = t" "good_text parse t"
    using assms(4) unfolding store_ok_def by (metis pending_text.simps(3))+
  have "st_lock s = Some i" using rename(2) ok_lock [OF assms(4), of i] by simp
  then show ?thesis
    using assms(4) unfolding store_ok_def rename(1) by (simp add: t)
next
  case (release_lock i t)
  have "st_lock s = Some i" using release_lock(2) ok_lock [OF assms(4), of i] by simp
  then have others: "j \<noteq> i \<Longrightarrow> \<not> holds_lock (st_phase s j)" for j using ok_lock [OF assms(4), of j] by auto
  then have "j \<noteq> i \<Longrightarrow> st_phase s j \<noteq> Written u" for j u by (metis holds_lock.simps(2))
  then show ?thesis using assms(4) others unfolding store_ok_def release_lock(1) by simp
next
  case (die i)
  then show ?thesis using assms(4) by (fastforce simp: store_ok_def)
qed


text \<open>The changes the server itself makes keep a valid configuration valid.\<close>

lemma resize_first_ok:
  "resize_first name w h ss = Some ss' \<Longrightarrow> list_all screen_config_ok ss \<Longrightarrow>
   0 < w \<Longrightarrow> w \<le> MAX_DIMENSION \<Longrightarrow> 0 < h \<Longrightarrow> h \<le> MAX_DIMENSION \<Longrightarrow>
   list_all screen_config_ok ss' \<and> map sf_name ss' = map sf_name ss"
  by (induction ss arbitrary: ss') (auto simp: screen_config_ok_def split: if_splits)

lemma resize_keeps_valid:
  assumes "validate c = Inr ()" "screen_info_ok info"
    "resize_first name (max (si_width info) 1) (max (si_height info) 1) (cf_screens c) = Some ss"
  shows "validate (c\<lparr>cf_screens := ss\<rparr>) = Inr ()"
proof -
  have "max (si_width info) 1 = si_width info" "max (si_height info) 1 = si_height info"
      "0 < si_width info" "0 < si_height info"
    using assms(2) by (auto simp: screen_info_ok_def max_absorb1 word_gt_0)
  then have "list_all screen_config_ok ss \<and> map sf_name ss = map sf_name (cf_screens c)"
    using assms resize_first_ok [of name _ _ "cf_screens c" ss] by (auto simp: validate_ok screen_info_ok_def)
  then show ?thesis using assms(1) by (auto simp: validate_ok)
qed

text \<open>
  The lock covers the write only, not the read before it: two writers that both read the file before
  either writes it lose the change of the first, here one of two ids that were just trusted.
\<close>

definition trust_edit :: "nat \<Rightarrow> config \<Rightarrow> config" where
  "trust_edit i c = c\<lparr>cf_network := (cf_network c)\<lparr>nc_trusted_ids :=
     set_id (nc_trusted_ids (cf_network c)) ([''70b97d38'', ''98980a4d''] ! min i 1) True\<rparr>\<rparr>"

lemma trust_edit_valid: "validate c = Inr () \<Longrightarrow> validate (trust_edit i c) = Inr ()"
  by (simp add: trust_edit_def validate_def split: if_splits)


lemma trust_edit_renders:
  "sample_render (trust_edit 0 (sample_trusting [])) = Some (unlines [''70b97d38''])"
  "sample_render (trust_edit 1 (sample_trusting [])) = Some (unlines [''98980a4d''])"
  by (simp_all add: sample_render_def trust_edit_def sample_trusting_def default_network_def set_id_def
      one_line_def NL_def CR_def)

lemma update_lost:
  "\<exists>s :: store. store_reaches sample_parse sample_render trust_edit (new_store (Some [])) s \<and>
     st_phase s 0 = Finished \<and> st_phase s 1 = Finished \<and>
     load_config sample_parse (st_file s) = Inr (sample_trusting [''98980a4d''])"
proof -
  let ?t0 = "unlines [''70b97d38'']" and ?t1 = "unlines [''98980a4d'']"
  let ?R = "store_reaches sample_parse sample_render trust_edit (new_store (Some []))"
  have loads: "load_config sample_parse (Some []) = Inr (sample_trusting [])"
    using sample_validates by (simp add: load_config_def sample_parse_def validate_def sample_trusting_def split: if_splits)
  note step = store_reaches.step
  let ?s1 = "in_phase 0 (Encoded ?t0) (new_store (Some []))"
  have 1: "?R ?s1"
    by (rule step [OF store_reaches.start store_step.read [where i = 0 and c = "sample_trusting []" and render = sample_render and edit = trust_edit,
          OF _ _ trust_edit_renders(1)]])
      (simp_all add: new_store_def loads)
  let ?s2 = "in_phase 1 (Encoded ?t1) ?s1"
  have 2: "?R ?s2"
    by (rule step [OF 1 store_step.read [where i = 1 and c = "sample_trusting []" and render = sample_render and edit = trust_edit,
          OF _ _ trust_edit_renders(2)]]) (simp_all add: new_store_def loads)
  let ?s3 = "in_phase 0 (Holding ?t0) (?s2\<lparr>st_lock := Some 0\<rparr>)"
  have 3: "?R ?s3" by (rule step [OF 2 store_step.take_lock]) (simp_all add: new_store_def)
  let ?s4 = "in_phase 0 (Written ?t0) (?s3\<lparr>st_tmp := ?t0\<rparr>)"
  have 4: "?R ?s4" by (rule step [OF 3 store_step.write_whole]) simp
  let ?s5 = "in_phase 0 (Renamed ?t0) (?s4\<lparr>st_file := Some (st_tmp ?s4)\<rparr>)"
  have 5: "?R ?s5" by (rule step [OF 4 store_step.rename]) simp
  let ?s6 = "in_phase 0 Finished (drop_lock 0 ?s5)"
  have 6: "?R ?s6" by (rule step [OF 5 store_step.release_lock]) simp
  let ?s7 = "in_phase 1 (Holding ?t1) (?s6\<lparr>st_lock := Some 1\<rparr>)"
  have 7: "?R ?s7" by (rule step [OF 6 store_step.take_lock]) simp_all
  let ?s8 = "in_phase 1 (Written ?t1) (?s7\<lparr>st_tmp := ?t1\<rparr>)"
  have 8: "?R ?s8" by (rule step [OF 7 store_step.write_whole]) simp
  let ?s9 = "in_phase 1 (Renamed ?t1) (?s8\<lparr>st_file := Some (st_tmp ?s8)\<rparr>)"
  have 9: "?R ?s9" by (rule step [OF 8 store_step.rename]) simp
  let ?s10 = "in_phase 1 Finished (drop_lock 1 ?s9)"
  have 10: "?R ?s10" by (rule step [OF 9 store_step.release_lock]) simp
  have "load_config sample_parse (Some ?t1) = Inr (sample_trusting [''98980a4d''])"
    using sample_validates
    by (simp add: load_config_def sample_parse_def lines_of_unlines one_line_def NL_def CR_def validate_def
        sample_trusting_def split: if_splits)
  then show ?thesis using 10 by (intro exI [of _ ?s10]) simp
qed


end
