(* ===== verification/Machine_Role.thy ===== *)
theory Machine_Role
  imports Rust_Text
begin

text \<open>
  What a machine keeps in its state directory: the role locks of \<open>app/src/guard.rs\<close> and the machine
  id of \<open>app/src/machine_id.rs\<close>; and the host name of \<open>app/src/hostname.rs\<close>.  A file lock belongs to
  a process and dies with it; taking the own lock, probing the lock of the other role and dropping
  the probe are separate steps, and the steps of different processes interleave.
\<close>

section \<open>Environment\<close>

text \<open>A path is the list of the parts it was joined from.\<close>

type_synonym path = "string list"

definition env_path :: "(string \<Rightarrow> string option) \<Rightarrow> string \<Rightarrow> path \<Rightarrow> path option" where
  "env_path env var rest = (case env var of Some p \<Rightarrow> if p = [] then None else Some (p # rest) | None \<Rightarrow> None)"

fun first_some :: "'a option list \<Rightarrow> 'a option" where
  "first_some [] = None"
| "first_some (Some x # xs) = Some x"
| "first_some (None # xs) = first_some xs"

definition state_dir :: "bool \<Rightarrow> (string \<Rightarrow> string option) \<Rightarrow> path" where
  "state_dir windows env =
     (case first_some
        ([env_path env ''KVMSHARE_STATE'' [], env_path env ''HOME'' [''.local/state/kvmshare''],
          env_path env ''USERPROFILE'' [''.local/state/kvmshare'']]
         @ (if windows then [env_path env ''LOCALAPPDATA'' [''kvmshare'']] else []))
      of Some p \<Rightarrow> p | None \<Rightarrow> [''.kvmshare-state''])"

definition default_config_path :: "(string \<Rightarrow> string option) \<Rightarrow> (path \<Rightarrow> bool) \<Rightarrow> path" where
  "default_config_path env exists =
     (case env_path env ''KVMSHARE_CONFIG'' [] of
        Some p \<Rightarrow> p
      | None \<Rightarrow>
          (case env ''HOME'' of
             Some home \<Rightarrow>
               let p = [home, ''.config/kvmshare/kvmshare-server.toml''] in
               if exists p then p else [''kvmshare-server.toml'']
           | None \<Rightarrow> [''kvmshare-server.toml'']))"

text \<open>\<open>proc\<close> is the file of the kernel, read on Linux; \<open>platform\<close> is the answer of the system.\<close>

definition hostname :: "bool \<Rightarrow> (string \<Rightarrow> string option) \<Rightarrow> string option \<Rightarrow> string \<Rightarrow> string" where
  "hostname linux env proc platform =
     (case first_some
        [case env ''HOSTNAME'' of Some h \<Rightarrow> if h \<noteq> [] then Some h else None | None \<Rightarrow> None,
         case proc of Some h \<Rightarrow> if linux \<and> trim h \<noteq> [] then Some (trim h) else None | None \<Rightarrow> None]
      of Some h \<Rightarrow> h | None \<Rightarrow> if platform = [] then ''client'' else platform)"

section \<open>The machine id\<close>

text \<open>Two lowercase hexadecimal digits of a byte, the little-endian bytes of a \<open>u64\<close>.\<close>

definition hex_digit :: "nat \<Rightarrow> char" where
  "hex_digit n = (if n < 10 then digit n else char_of (87 + n))"

definition hex_byte :: "byte \<Rightarrow> string" where
  "hex_byte b = [hex_digit (unat b div 16), hex_digit (unat b mod 16)]"

definition hex :: "byte list \<Rightarrow> string" where
  "hex bs = concat (map hex_byte bs)"

definition le_u64 :: "u64 \<Rightarrow> byte list" where
  "le_u64 n = map (\<lambda>i. ucast (drop_bit (8 * i) n)) [0..<8]"

text \<open>Copy each chunk to its place; a place past the end of the buffer is a panic.\<close>

fun fill_chunks :: "nat \<Rightarrow> u64 list \<Rightarrow> byte list \<Rightarrow> byte list option" where
  "fill_chunks i [] bytes = Some bytes"
| "fill_chunks i (c # cs) bytes =
     (if (i + 1) * 8 \<le> length bytes
      then fill_chunks (Suc i) cs (take (i * 8) bytes @ le_u64 c @ drop ((i + 1) * 8) bytes)
      else None)"

text \<open>
  \<open>random\<close> are the sixteen bytes of the system, \<open>None\<close> when it has none; the result is the id and
  what the file holds afterwards.
\<close>

definition machine_id ::
  "bool \<Rightarrow> byte list option \<Rightarrow> u64 \<Rightarrow> u64 \<Rightarrow> string option \<Rightarrow> (string \<times> string option) option" where
  "machine_id writable random t p file =
     (if (\<exists>text. file = Some text \<and> trim text \<noteq> []) then Some (trim (the file), file)
      else
        let bytes = (case random of
              Some bs \<Rightarrow> Some bs
            | None \<Rightarrow> fill_chunks 0 [t, p, t * 0x9E3779B97F4A7C15] (replicate 16 0)) in
        map_option (\<lambda>bs. (hex bs, if writable then Some (hex bs) else file)) bytes)"

lemma printing_hex: "n < 16 \<Longrightarrow> printing (hex_digit n)"
  by (simp add: hex_digit_def printing_def digit_def)

lemma hex_byte_digits: "\<forall>c \<in> set (hex_byte b). printing c"
proof -
  have "unat b < 256" using unsigned_less [of b, where 'a = nat] by simp
  then show ?thesis by (auto simp: hex_byte_def printing_hex)
qed

lemma hex_trims:
  assumes "bs \<noteq> []"
  shows "trim (hex bs) = hex bs" "hex bs \<noteq> []"
proof -
  have len: "length (hex bs) = 2 * length bs" by (induction bs) (simp_all add: hex_def hex_byte_def)
  then show ne: "hex bs \<noteq> []" using assms by force
  have "\<forall>c \<in> set (hex bs). printing c" using hex_byte_digits by (auto simp: hex_def)
  then show "trim (hex bs) = hex bs"
    using ne by (intro trim_trimmed trimmed_printing) (auto simp: list.set_sel)
qed

lemma length_le_u64 [simp]: "length (le_u64 n) = 8"
  by (simp add: le_u64_def)

lemma three_chunks_overflow: "fill_chunks 0 [a, b, c] (replicate 16 0) = None"
  by simp

text \<open>The id is made once: a machine whose directory is writable gives the same id ever after.\<close>

lemma machine_id_stable:
  assumes "machine_id True random t p file = Some (i, file')" "random \<noteq> Some []"
  shows "machine_id w random' t' p' file' = Some (i, file')"
proof (cases "\<exists>text. file = Some text \<and> trim text \<noteq> []")
  case True
  then show ?thesis using assms(1) by (auto simp: machine_id_def)
next
  case False
  then obtain bs where bs: "bs \<noteq> []" "i = hex bs" "file' = Some (hex bs)"
    using assms unfolding machine_id_def if_not_P [OF False] Let_def
    by (cases random) (auto simp: three_chunks_overflow simp del: fill_chunks.simps)
  then show ?thesis using hex_trims [OF bs(1)] by (simp add: machine_id_def)
qed

text \<open>
  Without a source of random bytes the id is meant to come from the clock and the process; three
  words of eight bytes do not fit the buffer of sixteen, so there is no id but a panic.
\<close>

lemma machine_id_panics_without_rng:
  "machine_id w None t p None = None"
  by (simp add: machine_id_def three_chunks_overflow del: fill_chunks.simps)

section \<open>The role locks\<close>

datatype role = ServerRole | ClientRole

fun other_role :: "role \<Rightarrow> role" where
  "other_role ServerRole = ClientRole"
| "other_role ClientRole = ServerRole"

lemma other_role_neq [simp]: "other_role r \<noteq> r" "r \<noteq> other_role r" "other_role (other_role r) = r"
  by (cases r; simp)+

datatype guard_error = UnknownRole | NoStateDir | SameRoleRunning role | OtherRoleRunning role

definition role_named :: "string \<Rightarrow> role option" where
  "role_named s = (if s = ''server'' then Some ServerRole else if s = ''client'' then Some ClientRole else None)"

text \<open>A call that nothing interrupts: which lock is taken, by what is held.\<close>

definition acquire_in :: "bool \<Rightarrow> string \<Rightarrow> (role \<Rightarrow> nat option) \<Rightarrow> nat \<Rightarrow> guard_error + (role \<Rightarrow> nat option)" where
  "acquire_in dir_ok name locks i =
     (case role_named name of
        None \<Rightarrow> Inl UnknownRole
      | Some r \<Rightarrow>
          if \<not> dir_ok then Inl NoStateDir
          else if locks r \<noteq> None then Inl (SameRoleRunning r)
          else if locks (other_role r) \<noteq> None then Inl (OtherRoleRunning (other_role r))
          else Inr (locks(r := Some i)))"

datatype stage = NotStarted | HasOwn | Probing | ProbeFailed | Running | TurnedAway guard_error | Exited

record guards =
  gu_locks :: "role \<Rightarrow> nat option"
  gu_stage :: "nat \<Rightarrow> stage"
  gu_pids :: "role \<Rightarrow> nat option"

definition idle_machine :: guards where
  "idle_machine = \<lparr>gu_locks = (\<lambda>_. None), gu_stage = (\<lambda>_. NotStarted), gu_pids = (\<lambda>_. None)\<rparr>"

definition set_stage :: "nat \<Rightarrow> stage \<Rightarrow> guards \<Rightarrow> guards" where
  "set_stage i p g = g\<lparr>gu_stage := (gu_stage g)(i := p)\<rparr>"

definition set_lock :: "role \<Rightarrow> nat option \<Rightarrow> guards \<Rightarrow> guards" where
  "set_lock r h g = g\<lparr>gu_locks := (gu_locks g)(r := h)\<rparr>"

definition free_locks :: "nat \<Rightarrow> guards \<Rightarrow> guards" where
  "free_locks i g = g\<lparr>gu_locks := (\<lambda>r. if gu_locks g r = Some i then None else gu_locks g r)\<rparr>"

definition record_pid :: "bool \<Rightarrow> role \<Rightarrow> nat \<Rightarrow> guards \<Rightarrow> guards" where
  "record_pid ok r i g = (if ok then g\<lparr>gu_pids := (gu_pids g)(r := Some i)\<rparr> else g)"

text \<open>\<open>rl i\<close> is the role process \<open>i\<close> asks for.\<close>

inductive guard_step :: "(nat \<Rightarrow> role) \<Rightarrow> guards \<Rightarrow> guards \<Rightarrow> bool" for rl where
  own: "gu_stage g i = NotStarted \<Longrightarrow> gu_locks g (rl i) = None \<Longrightarrow>
    guard_step rl g (set_stage i HasOwn (set_lock (rl i) (Some i) g))"
| own_taken: "gu_stage g i = NotStarted \<Longrightarrow> gu_locks g (rl i) \<noteq> None \<Longrightarrow>
    guard_step rl g (set_stage i (TurnedAway (SameRoleRunning (rl i))) g)"
| probe: "gu_stage g i = HasOwn \<Longrightarrow> gu_locks g (other_role (rl i)) = None \<Longrightarrow>
    guard_step rl g (set_stage i Probing (set_lock (other_role (rl i)) (Some i) g))"
| probe_taken: "gu_stage g i = HasOwn \<Longrightarrow> gu_locks g (other_role (rl i)) \<noteq> None \<Longrightarrow>
    guard_step rl g (set_stage i ProbeFailed g)"
| give_up: "gu_stage g i = ProbeFailed \<Longrightarrow>
    guard_step rl g (set_stage i (TurnedAway (OtherRoleRunning (other_role (rl i)))) (set_lock (rl i) None g))"
| run: "gu_stage g i = Probing \<Longrightarrow>
    guard_step rl g (set_stage i Running (record_pid ok (rl i) i (set_lock (other_role (rl i)) None g)))"
| leave: "guard_step rl g (set_stage i Exited (free_locks i g))"

inductive guard_reaches :: "(nat \<Rightarrow> role) \<Rightarrow> guards \<Rightarrow> bool" for rl where
  idle: "guard_reaches rl idle_machine"
| step: "guard_reaches rl g \<Longrightarrow> guard_step rl g g' \<Longrightarrow> guard_reaches rl g'"

text \<open>A process past its first step holds its own lock; while it probes it holds both.\<close>

definition owns :: "stage \<Rightarrow> bool" where
  "owns p \<longleftrightarrow> p = HasOwn \<or> p = Probing \<or> p = ProbeFailed \<or> p = Running"

definition guards_ok :: "(nat \<Rightarrow> role) \<Rightarrow> guards \<Rightarrow> bool" where
  "guards_ok rl g \<longleftrightarrow>
     (\<forall>i. owns (gu_stage g i) \<longrightarrow> gu_locks g (rl i) = Some i) \<and>
     (\<forall>i. gu_stage g i = Probing \<longrightarrow> gu_locks g (other_role (rl i)) = Some i) \<and>
     (\<forall>i j. gu_stage g i = Running \<and> gu_stage g j = Running \<longrightarrow> i = j)"

lemma guard_fields [simp]:
  "gu_stage (set_stage i p g) = (gu_stage g)(i := p)" "gu_locks (set_stage i p g) = gu_locks g"
  "gu_stage (set_lock r h g) = gu_stage g" "gu_locks (set_lock r h g) = (gu_locks g)(r := h)"
  "gu_stage (free_locks i g) = gu_stage g" "gu_stage (record_pid b r i g) = gu_stage g"
  "gu_locks (record_pid b r i g) = gu_locks g"
  "gu_locks (free_locks i g) r = (if gu_locks g r = Some i then None else gu_locks g r)"
  by (simp_all add: set_stage_def set_lock_def free_locks_def record_pid_def)

lemma owns_simps [simp]:
  "owns HasOwn" "owns Probing" "owns ProbeFailed" "owns Running" "\<not> owns NotStarted" "\<not> owns (TurnedAway e)" "\<not> owns Exited"
  by (simp_all add: owns_def)

lemma two_roles: "r = r' \<or> r = other_role r'"
  by (cases r; cases r') simp_all

text \<open>Nobody runs while a process probes: that one holds both locks.\<close>

lemma probing_alone:
  assumes "guards_ok rl g" "gu_stage g i = Probing" "owns (gu_stage g j)"
  shows "j = i"
proof -
  have "gu_locks g (rl j) = Some i"
    using assms(1,2) two_roles [of "rl j" "rl i"] by (auto simp: guards_ok_def)
  moreover have "gu_locks g (rl j) = Some j" using assms(1,3) by (simp add: guards_ok_def)
  ultimately show ?thesis by simp
qed

lemma guard_step_ok:
  assumes "guard_step rl g g'" "guards_ok rl g"
  shows "guards_ok rl g'"
  using assms(1)
proof cases
  case (own i)
  then show ?thesis using assms(2) unfolding guards_ok_def by (auto; metis option.distinct(1) owns_simps)
next
  case (own_taken i)
  then show ?thesis using assms(2) by (simp add: guards_ok_def)
next
  case (probe i)
  then show ?thesis using assms(2) unfolding guards_ok_def by (auto; metis option.distinct(1) owns_simps)
next
  case (probe_taken i)
  then show ?thesis using assms(2) unfolding guards_ok_def by (auto; metis owns_simps)
next
  case (give_up i)
  then show ?thesis using assms(2) unfolding guards_ok_def by (auto; metis option.inject owns_simps)
next
  case (run i b)
  then have "owns (gu_stage g j) \<Longrightarrow> j = i" for j using probing_alone [OF assms(2)] by blast
  then show ?thesis using run assms(2) unfolding guards_ok_def by (auto; metis owns_simps)
next
  case (leave i)
  then show ?thesis using assms(2) unfolding guards_ok_def by auto
qed

text \<open>
  C37. A machine runs one role at a time: in every interleaving of starts, probes, refusals and exits of
  any number of processes, at most one process runs; it holds the lock of its role for as long as it
  runs, and meanwhile a start of either role is refused.
\<close>
theorem one_role_per_machine:
  assumes "guard_reaches rl g" "gu_stage g i = Running"
  shows "gu_locks g (rl i) = Some i \<and> (\<forall>j. gu_stage g j = Running \<longrightarrow> j = i) \<and>
    (\<exists>e. acquire_in ok name (gu_locks g) k = Inl e)"
proof -
  have "guards_ok rl idle_machine" by (simp add: guards_ok_def idle_machine_def)
  with assms(1) have "guards_ok rl g"
    by (induction rule: guard_reaches.induct) (auto intro: guard_step_ok)
  then have lock: "gu_locks g (rl i) = Some i" and one: "\<forall>j. gu_stage g j = Running \<longrightarrow> j = i"
    using assms(2) by (auto simp: guards_ok_def)
  have held: "gu_locks g r \<noteq> None \<or> gu_locks g (other_role r) \<noteq> None" for r
    using lock two_roles [of r "rl i"] by auto
  have "\<exists>e. acquire_in ok name (gu_locks g) k = Inl e" if "role_named name = Some r" for r
    using that held [of r] by (auto simp: acquire_in_def split: if_splits)
  then have "\<exists>e. acquire_in ok name (gu_locks g) k = Inl e"
    by (cases "role_named name") (simp_all add: acquire_in_def)
  then show ?thesis using lock one by blast
qed

text \<open>A start that nothing interrupts, on a machine that runs nothing, succeeds.\<close>

definition started :: "(nat \<Rightarrow> role) \<Rightarrow> nat \<Rightarrow> guards \<Rightarrow> guards" where
  "started rl i g = set_stage i Running (record_pid True (rl i) i (set_lock (other_role (rl i)) None
     (set_stage i Probing (set_lock (other_role (rl i)) (Some i) (set_stage i HasOwn (set_lock (rl i) (Some i) g))))))"

lemma undisturbed_start:
  assumes "guard_reaches rl g" "gu_locks g = (\<lambda>_. None)" "gu_stage g i = NotStarted"
  shows "guard_reaches rl (started rl i g) \<and> gu_stage (started rl i g) i = Running \<and>
    acquire_in True (case rl i of ServerRole \<Rightarrow> ''server'' | ClientRole \<Rightarrow> ''client'') (gu_locks g) i =
      Inr (gu_locks (started rl i g))"
proof -
  let ?g1 = "set_stage i HasOwn (set_lock (rl i) (Some i) g)"
  have 1: "guard_reaches rl ?g1"
    by (rule guard_reaches.step [OF assms(1) guard_step.own]) (simp_all add: assms)
  let ?g2 = "set_stage i Probing (set_lock (other_role (rl i)) (Some i) ?g1)"
  have 2: "guard_reaches rl ?g2"
    by (rule guard_reaches.step [OF 1 guard_step.probe]) (simp_all add: assms)
  have "guard_reaches rl (started rl i g)"
    unfolding started_def by (rule guard_reaches.step [OF 2 guard_step.run]) simp
  then show ?thesis
    by (cases "rl i") (auto simp: started_def acquire_in_def role_named_def assms(2))
qed

theorem one_role_per_machine_witness:
  "\<exists>g :: guards. gu_stage g (3 :: nat) = Running \<and> acquire_in True ''client'' (gu_locks g) 5 = Inl (OtherRoleRunning ServerRole)"
proof -
  let ?rl = "\<lambda>i. if i = 3 then ServerRole else ClientRole"
  let ?g = "started ?rl 3 idle_machine"
  have r: "guard_reaches ?rl ?g" "gu_stage ?g 3 = Running"
    using undisturbed_start [of ?rl idle_machine 3] guard_reaches.idle by (auto simp: idle_machine_def)
  have "\<exists>e. acquire_in True ''client'' (gu_locks ?g) 5 = Inl e"
    using one_role_per_machine [OF r] by blast
  moreover have "gu_locks ?g ClientRole = None" by (simp add: started_def)
  ultimately show ?thesis
    using r(2) by (intro exI [of _ ?g]) (auto simp: acquire_in_def role_named_def split: if_splits)
qed

text \<open>
  The probe itself is a lock that others see.  A server and a client started at the same moment may
  refuse each other, and nothing runs; and a client that starts while a server probes is told that
  another client is running, when there is none.
\<close>

definition one_of_each :: "nat \<Rightarrow> role" where
  "one_of_each i = (if i = 0 then ServerRole else ClientRole)"

lemma one_of_each_simps [simp]: "one_of_each 0 = ServerRole" "one_of_each (Suc i) = ClientRole"
  by (simp_all add: one_of_each_def)

lemma simultaneous_starts_refuse_both:
  "\<exists>g :: guards. guard_reaches one_of_each g \<and> (\<forall>r. gu_locks g r = None) \<and>
     gu_stage g 0 = TurnedAway (OtherRoleRunning ClientRole) \<and> gu_stage g 1 = TurnedAway (OtherRoleRunning ServerRole)"
proof -
  note step = guard_reaches.step
  let ?g1 = "set_stage 0 HasOwn (set_lock ServerRole (Some 0) idle_machine)"
  have 1: "guard_reaches one_of_each ?g1"
    using step [OF guard_reaches.idle guard_step.own [of idle_machine 0 one_of_each]] by (simp add: idle_machine_def)
  let ?g2 = "set_stage 1 HasOwn (set_lock ClientRole (Some 1) ?g1)"
  have 2: "guard_reaches one_of_each ?g2"
    using step [OF 1 guard_step.own [of ?g1 1]] by (simp add: idle_machine_def)
  let ?g3 = "set_stage 0 ProbeFailed ?g2"
  have 3: "guard_reaches one_of_each ?g3"
    using step [OF 2 guard_step.probe_taken [of ?g2 0]] by simp
  let ?g4 = "set_stage 1 ProbeFailed ?g3"
  have 4: "guard_reaches one_of_each ?g4"
    using step [OF 3 guard_step.probe_taken [of ?g3 1]] by simp
  let ?g5 = "set_stage 0 (TurnedAway (OtherRoleRunning ClientRole)) (set_lock ServerRole None ?g4)"
  have 5: "guard_reaches one_of_each ?g5"
    using step [OF 4 guard_step.give_up [of ?g4 0]] by simp
  let ?g6 = "set_stage 1 (TurnedAway (OtherRoleRunning ServerRole)) (set_lock ClientRole None ?g5)"
  have 6: "guard_reaches one_of_each ?g6"
    using step [OF 5 guard_step.give_up [of ?g5 1]] by simp
  have "gu_locks ?g6 r = None" for r by (cases r) (simp_all add: idle_machine_def)
  then show ?thesis using 6 by (intro exI [of _ ?g6]) simp
qed

lemma probe_mistaken_for_client:
  "\<exists>g :: guards. guard_reaches one_of_each g \<and> gu_stage g 0 = Running \<and>
     gu_stage g 1 = TurnedAway (SameRoleRunning ClientRole) \<and> (\<forall>j > 1. gu_stage g j = NotStarted)"
proof -
  note step = guard_reaches.step
  let ?g1 = "set_stage 0 HasOwn (set_lock ServerRole (Some 0) idle_machine)"
  have 1: "guard_reaches one_of_each ?g1"
    using step [OF guard_reaches.idle guard_step.own [of idle_machine 0 one_of_each]] by (simp add: idle_machine_def)
  let ?g2 = "set_stage 0 Probing (set_lock ClientRole (Some 0) ?g1)"
  have 2: "guard_reaches one_of_each ?g2"
    using step [OF 1 guard_step.probe [of ?g1 0]] by (simp add: idle_machine_def)
  let ?g3 = "set_stage 1 (TurnedAway (SameRoleRunning ClientRole)) ?g2"
  have 3: "guard_reaches one_of_each ?g3"
    using step [OF 2 guard_step.own_taken [of ?g2 1]] by (simp add: idle_machine_def)
  let ?g4 = "set_stage 0 Running (record_pid True ServerRole 0 (set_lock ClientRole None ?g3))"
  have 4: "guard_reaches one_of_each ?g4"
    using step [OF 3 guard_step.run [of ?g3 0]] by simp
  then show ?thesis by (intro exI [of _ ?g4]) (simp add: idle_machine_def)
qed

end
