(* ===== verification/Client_App.thy ===== *)
theory Client_App
  imports Config Client Machine_Role
begin

text \<open>
  The command lines of the two binaries (\<open>app/src/args.rs\<close>), the state file of the client
  (\<open>app/src/client_state.rs\<close>) and its reconnect loop (\<open>app/src/bin/kvmshare-client.rs\<close>).  Printing a
  version or a usage text and leaving with code 0 is the outcome \<open>Prints\<close>.
\<close>

section \<open>The argument list\<close>

datatype arg_error = MissingValue string | BadPort string | UnknownArgument string | NoArgsFile string

text \<open>
  The tokens of the process without \<open>--args-file PATH\<close> and \<open>--args-file=PATH\<close>, and the last such path.
\<close>

definition ARGS_FILE :: string where "ARGS_FILE = ''--args-file''"
definition ARGS_FILE_EQ :: string where "ARGS_FILE_EQ = ''--args-file=''"

fun strip_args_file :: "string option \<Rightarrow> string list \<Rightarrow> arg_error + string list \<times> string option" where
  "strip_args_file found [] = Inr ([], found)"
| "strip_args_file found (a # rest) =
     (if a = ARGS_FILE then
        (case rest of [] \<Rightarrow> Inl (MissingValue ARGS_FILE) | v # rest' \<Rightarrow> strip_args_file (Some v) rest')
      else if prefix ARGS_FILE_EQ a then strip_args_file (Some (drop (length ARGS_FILE_EQ) a)) rest
      else map_sum id (\<lambda>(argv, f). (a # argv, f)) (strip_args_file found rest))"

text \<open>One token per line; empty lines are skipped; the file comes before the command line.\<close>

definition args_tokens :: "string \<Rightarrow> string list" where
  "args_tokens txt = filter (\<lambda>t. t \<noteq> []) (map trim_end_cr (lines_of txt))"

definition merged_argv :: "(string \<Rightarrow> string option) \<Rightarrow> string list \<Rightarrow> arg_error + string list" where
  "merged_argv readable argv =
     (case strip_args_file None argv of
        Inl e \<Rightarrow> Inl e
      | Inr (argv', None) \<Rightarrow> Inr argv'
      | Inr (argv', Some path) \<Rightarrow>
          (case readable path of
             None \<Rightarrow> Inl (NoArgsFile path)
           | Some txt \<Rightarrow> Inr (args_tokens txt @ argv')))"

section \<open>The parsers\<close>

datatype 'a parsed = Args 'a | Rejected arg_error | Prints

record server_args =
  sa_config :: "string option"
  sa_port :: "u16 option"
  sa_level :: "string option"
  sa_ctl :: "string option"
  sa_file :: "string option"

definition no_server_args :: server_args where
  "no_server_args = \<lparr>sa_config = None, sa_port = None, sa_level = None, sa_ctl = None, sa_file = None\<rparr>"

fun scan_server_args :: "server_args \<Rightarrow> string list \<Rightarrow> server_args parsed" where
  "scan_server_args s [] = Args s"
| "scan_server_args s (a # rest) =
     (if a = ''--config'' \<or> a = ''-c'' then
        (case rest of [] \<Rightarrow> Rejected (MissingValue ''--config'')
         | v # rest' \<Rightarrow> scan_server_args (s\<lparr>sa_config := Some v\<rparr>) rest')
      else if a = ''--port'' \<or> a = ''-p'' then
        (case rest of [] \<Rightarrow> Rejected (MissingValue ''--port'')
         | v # rest' \<Rightarrow>
             (case parse_u16 v of None \<Rightarrow> Rejected (BadPort v)
              | Some n \<Rightarrow> scan_server_args (s\<lparr>sa_port := Some n\<rparr>) rest'))
      else if a = ''--log-level'' \<or> a = ''-l'' then
        (case rest of [] \<Rightarrow> Rejected (MissingValue ''--log-level'')
         | v # rest' \<Rightarrow> scan_server_args (s\<lparr>sa_level := Some v\<rparr>) rest')
      else if a = ''--logctl'' then
        (case rest of [] \<Rightarrow> Rejected (MissingValue ''--logctl'')
         | v # rest' \<Rightarrow> scan_server_args (s\<lparr>sa_ctl := Some v\<rparr>) rest')
      else if a = ''--log-file'' then
        (case rest of [] \<Rightarrow> Rejected (MissingValue ''--log-file'')
         | v # rest' \<Rightarrow> scan_server_args (s\<lparr>sa_file := Some v\<rparr>) rest')
      else if a = ''--version'' \<or> a = ''-V'' \<or> a = ''--help'' \<or> a = ''-h'' then Prints
      else Rejected (UnknownArgument a))"

definition parse_server_args :: "(string \<Rightarrow> string option) \<Rightarrow> string list \<Rightarrow> server_args parsed" where
  "parse_server_args readable argv =
     (case merged_argv readable argv of Inl e \<Rightarrow> Rejected e | Inr toks \<Rightarrow> scan_server_args no_server_args toks)"

text \<open>The port the server listens on: 0 on the command line means the one of the configuration.\<close>

definition effective_port :: "server_args \<Rightarrow> config \<Rightarrow> u16" where
  "effective_port s c =
     (let port = (case sa_port s of Some n \<Rightarrow> n | None \<Rightarrow> 0) in if port \<noteq> 0 then port else cf_port c)"

record client_args =
  ca_addr :: "string option"
  ca_name :: "string option"
  ca_level :: "string option"
  ca_ctl :: "string option"
  ca_file :: "string option"

definition no_client_args :: client_args where
  "no_client_args = \<lparr>ca_addr = None, ca_name = None, ca_level = None, ca_ctl = None, ca_file = None\<rparr>"

fun scan_client_args :: "client_args \<Rightarrow> string list \<Rightarrow> client_args parsed" where
  "scan_client_args s [] = Args s"
| "scan_client_args s (a # rest) =
     (if a = ''--name'' \<or> a = ''-n'' then
        (case rest of [] \<Rightarrow> Rejected (MissingValue ''--name'')
         | v # rest' \<Rightarrow> scan_client_args (s\<lparr>ca_name := Some v\<rparr>) rest')
      else if a = ''--log-level'' \<or> a = ''-l'' then
        (case rest of [] \<Rightarrow> Rejected (MissingValue ''--log-level'')
         | v # rest' \<Rightarrow> scan_client_args (s\<lparr>ca_level := Some v\<rparr>) rest')
      else if a = ''--logctl'' then
        (case rest of [] \<Rightarrow> Rejected (MissingValue ''--logctl'')
         | v # rest' \<Rightarrow> scan_client_args (s\<lparr>ca_ctl := Some v\<rparr>) rest')
      else if a = ''--log-file'' then
        (case rest of [] \<Rightarrow> Rejected (MissingValue ''--log-file'')
         | v # rest' \<Rightarrow> scan_client_args (s\<lparr>ca_file := Some v\<rparr>) rest')
      else if a = ''--version'' \<or> a = ''-V'' \<or> a = ''--help'' \<or> a = ''-h'' then Prints
      else if (a = ''--server'' \<or> a = ''--connect'') \<and> ca_addr s = None then
        (case rest of [] \<Rightarrow> Rejected (MissingValue ''--server'')
         | v # rest' \<Rightarrow> scan_client_args (s\<lparr>ca_addr := Some v\<rparr>) rest')
      else if prefix ''-'' a \<and> a \<noteq> ''-'' then Rejected (UnknownArgument a)
      else if ca_addr s = None then scan_client_args (s\<lparr>ca_addr := Some a\<rparr>) rest
      else Rejected (UnknownArgument a))"

definition parse_client_args :: "(string \<Rightarrow> string option) \<Rightarrow> string list \<Rightarrow> client_args parsed" where
  "parse_client_args readable argv =
     (case merged_argv readable argv of Inl e \<Rightarrow> Rejected e | Inr toks \<Rightarrow> scan_client_args no_client_args toks)"

definition with_default_port :: "string \<Rightarrow> u16 \<Rightarrow> string" where
  "with_default_port host port =
     (if CHR '':'' \<in> set host then host else host @ CHR '':'' # decimal (unat port))"

section \<open>The state file\<close>

definition write_state :: "string \<Rightarrow> string \<Rightarrow> string \<Rightarrow> bool \<Rightarrow> string" where
  "write_state status server server_id stopped =
     ''status='' @ status @ [NL] @ ''server='' @ server @ [NL]
       @ (if server_id = [] then [] else ''server_id='' @ server_id @ [NL])
       @ (if stopped then ''stopped=1'' @ [NL] else [])"

definition write_client_state :: "string \<Rightarrow> string \<Rightarrow> string" where
  "write_client_state status server = write_state status server [] False"

definition write_client_state_connected :: "string \<Rightarrow> string \<Rightarrow> string" where
  "write_client_state_connected server server_id = write_state ''connected'' server server_id False"

definition write_client_state_stopped :: "string \<Rightarrow> string" where
  "write_client_state_stopped server = write_state ''disconnected'' server [] True"

definition write_client_state_refused :: "string \<Rightarrow> string \<Rightarrow> string" where
  "write_client_state_refused server reason =
     ''status=refused'' @ [NL] @ ''server='' @ server @ [NL]
       @ ''reason='' @ map (\<lambda>c. if c = NL \<or> c = CR then CHR '' '' else c) reason @ [NL]"

section \<open>The reconnect loop\<close>

definition RETRY_DELAY :: nat where "RETRY_DELAY = 3000"

text \<open>
  What an iteration meets: a consent prompt, no platform, a connection that fails, or a server with its
  id; then the calls of the control observer during the session and how it ended.
\<close>

datatype session_result = Ends session_end | Breaks io_error

datatype attempt =
  SecureDesktop | NoPlatform | ConnectFails connect_error | Meets string "bool list" session_result

text \<open>
  \<open>ap_files\<close> are the contents \<open>client.state\<close> had, latest first; \<open>ap_control\<close> is whether \<open>control.state\<close>
  exists; \<open>ap_slept\<close> is the time spent waiting, in ms; \<open>ap_dials\<close> counts the calls of \<open>Client::connect\<close> and
  \<open>ap_served\<close> lists the servers a session was run with.
\<close>

record app =
  ap_files :: "string list"
  ap_control :: bool
  ap_warned :: bool
  ap_prompt_warned :: bool
  ap_slept :: nat
  ap_dials :: nat
  ap_served :: "string list"

definition start_app :: "bool \<Rightarrow> string \<Rightarrow> app" where
  "start_app control addr =
     \<lparr>ap_files = [write_client_state ''disconnected'' addr], ap_control = control, ap_warned = False,
      ap_prompt_warned = False, ap_slept = 0, ap_dials = 0, ap_served = []\<rparr>"

definition note_state :: "string \<Rightarrow> app \<Rightarrow> app" where
  "note_state f a = a\<lparr>ap_files := f # ap_files a\<rparr>"

definition retry_later :: "app \<Rightarrow> app" where
  "retry_later a = a\<lparr>ap_slept := ap_slept a + RETRY_DELAY\<rparr>"

datatype app_result = Again app | Exits nat app

fun app_iteration :: "policy \<Rightarrow> string \<Rightarrow> attempt \<Rightarrow> app \<Rightarrow> app_result" where
  "app_iteration revoked addr SecureDesktop a = Again (retry_later (a\<lparr>ap_prompt_warned := True\<rparr>))"
| "app_iteration revoked addr NoPlatform a =
     Again (retry_later (a\<lparr>ap_prompt_warned := False, ap_warned := True\<rparr>))"
| "app_iteration revoked addr (ConnectFails e) a =
     (let a1 = note_state (write_client_state ''connecting'' addr) (a\<lparr>ap_prompt_warned := False, ap_dials := ap_dials a + 1\<rparr>) in
      case e of
        Refused code reason \<Rightarrow> Exits 1 (note_state (write_client_state_refused addr reason) a1)
      | _ \<Rightarrow> Again (retry_later (note_state (write_client_state ''disconnected'' addr) (a1\<lparr>ap_warned := True\<rparr>))))"
| "app_iteration revoked addr (Meets server controls result) a =
     (let a1 = note_state (write_client_state ''connecting'' addr) (a\<lparr>ap_prompt_warned := False, ap_dials := ap_dials a + 1\<rparr>) in
      if is_revoked revoked server then Exits 0 (note_state (write_client_state_stopped addr) a1)
      else
        let a2 = note_state (write_client_state_connected addr server) (a1\<lparr>ap_warned := False\<rparr>);
            a3 = a2\<lparr>ap_served := server # ap_served a2, ap_control := fold (\<lambda>c _. c) controls (ap_control a2)\<rparr> in
        case result of
          Ends Disconnected \<Rightarrow> Exits 0 (note_state (write_client_state_stopped addr) a3)
        | Ends Reconnect \<Rightarrow> Again a3
        | Ends LinkClosed \<Rightarrow> Again (retry_later (note_state (write_client_state ''disconnected'' addr) a3))
        | Breaks e \<Rightarrow> Again (retry_later (note_state (write_client_state ''disconnected'' addr) a3)))"

fun app_run :: "policy \<Rightarrow> string \<Rightarrow> attempt list \<Rightarrow> app \<Rightarrow> app_result" where
  "app_run revoked addr [] a = Again a"
| "app_run revoked addr (t # ts) a =
     (case app_iteration revoked addr t a of Again a' \<Rightarrow> app_run revoked addr ts a' | Exits n a' \<Rightarrow> Exits n a')"

end
