(* ===== verification/Client_App_Rules.thy ===== *)
theory Client_App_Rules
  imports Client_App
begin

text \<open>
  The argument parsers of the client, and its reconnect loop: what reaches the parser through a staged
  file, which command lines are refused and why, and that the loop never hurries, never serves a
  revoked server and always leaves a true last word in the state file.
\<close>

section \<open>Staged arguments\<close>

lemma strip_args_file_plain:
  "\<forall>a \<in> set argv. a \<noteq> ARGS_FILE \<and> \<not> prefix ARGS_FILE_EQ a \<Longrightarrow> strip_args_file f argv = Inr (argv, f)"
  by (induction argv) auto

lemma args_tokens_unlines:
  assumes "\<forall>t \<in> set toks. t \<noteq> [] \<and> one_line t"
  shows "args_tokens (unlines toks) = toks"
proof -
  have "list_all one_line toks" using assms by (simp add: list_all_iff)
  then have "map trim_end_cr (lines_of (unlines toks)) = toks"
    using assms by (simp add: lines_of_unlines one_line_trim_end_cr map_idI)
  moreover have "filter (\<lambda>t. t \<noteq> []) toks = toks" using assms by (simp add: filter_id_conv)
  ultimately show ?thesis by (simp add: args_tokens_def)
qed

text \<open>A token that is taken for a flag; the long name of an option that has a value, and what the value sets.\<close>

definition flag_shaped :: "string \<Rightarrow> bool" where
  "flag_shaped a \<longleftrightarrow> prefix ''-'' a \<and> a \<noteq> ''-''"

definition value_flag :: "string \<Rightarrow> string option" where
  "value_flag a =
     (if a = ''--name'' \<or> a = ''-n'' then Some ''--name''
      else if a = ''--log-level'' \<or> a = ''-l'' then Some ''--log-level''
      else if a = ''--logctl'' then Some ''--logctl''
      else if a = ''--log-file'' then Some ''--log-file'' else None)"

definition set_value :: "string \<Rightarrow> string \<Rightarrow> client_args \<Rightarrow> client_args" where
  "set_value long v s =
     (if long = ''--name'' then s\<lparr>ca_name := Some v\<rparr>
      else if long = ''--log-level'' then s\<lparr>ca_level := Some v\<rparr>
      else if long = ''--logctl'' then s\<lparr>ca_ctl := Some v\<rparr>
      else s\<lparr>ca_file := Some v\<rparr>)"

definition prints_flag :: "string \<Rightarrow> bool" where
  "prints_flag a \<longleftrightarrow> a \<in> {''--version'', ''-V'', ''--help'', ''-h''}"

definition server_flag :: "string \<Rightarrow> bool" where
  "server_flag a \<longleftrightarrow> a \<in> {''--server'', ''--connect''}"

lemma scan_step:
  "scan_client_args s (a # rest) =
     (case value_flag a of
        Some long \<Rightarrow> (case rest of [] \<Rightarrow> Rejected (MissingValue long) | v # r \<Rightarrow> scan_client_args (set_value long v s) r)
      | None \<Rightarrow>
          if prints_flag a then Prints
          else if server_flag a \<and> ca_addr s = None then
            (case rest of [] \<Rightarrow> Rejected (MissingValue ''--server'') | v # r \<Rightarrow> scan_client_args (s\<lparr>ca_addr := Some v\<rparr>) r)
          else if flag_shaped a then Rejected (UnknownArgument a)
          else if ca_addr s = None then scan_client_args (s\<lparr>ca_addr := Some a\<rparr>) rest
          else Rejected (UnknownArgument a))"
proof (cases "value_flag a")
  case None
  then show ?thesis
    unfolding scan_client_args.simps(2) value_flag_def prints_flag_def server_flag_def flag_shaped_def
    by (simp split: if_splits)
next
  case (Some long)
  then consider "a = ''--name''" | "a = ''-n''" | "a = ''--log-level''" | "a = ''-l''" | "a = ''--logctl''" | "a = ''--log-file''"
    by (auto simp: value_flag_def split: if_splits)
  then show ?thesis
    by cases (simp_all add: value_flag_def set_value_def split: list.split)
qed

declare scan_client_args.simps(2) [simp del]

lemma value_flag_shaped: "value_flag a = Some long \<Longrightarrow> flag_shaped a"
  by (auto simp: value_flag_def flag_shaped_def split: if_splits)

lemma other_flags_shaped: "prints_flag a \<or> server_flag a \<Longrightarrow> flag_shaped a"
  by (auto simp: prints_flag_def server_flag_def flag_shaped_def)

lemma scan_positional:
  assumes "\<not> flag_shaped a"
  shows "scan_client_args s (a # rest) =
    (if ca_addr s = None then scan_client_args (s\<lparr>ca_addr := Some a\<rparr>) rest else Rejected (UnknownArgument a))"
  using assms value_flag_shaped [of a] other_flags_shaped [of a] by (cases "value_flag a") (auto simp: scan_step)

text \<open>The command line of a set of arguments, in the order of the usage text.\<close>

fun option_tokens :: "string \<Rightarrow> string option \<Rightarrow> string list" where
  "option_tokens flag None = []"
| "option_tokens flag (Some v) = [flag, v]"

definition client_argv :: "client_args \<Rightarrow> string list" where
  "client_argv c =
     (case ca_addr c of None \<Rightarrow> [] | Some x \<Rightarrow> [x]) @ option_tokens ''--name'' (ca_name c)
       @ option_tokens ''--log-level'' (ca_level c) @ option_tokens ''--logctl'' (ca_ctl c)
       @ option_tokens ''--log-file'' (ca_file c)"

lemma scan_option:
  "scan_client_args s (option_tokens ''--name'' v @ rest) =
     scan_client_args (case v of None \<Rightarrow> s | Some x \<Rightarrow> s\<lparr>ca_name := Some x\<rparr>) rest"
  "scan_client_args s (option_tokens ''--log-level'' v @ rest) =
     scan_client_args (case v of None \<Rightarrow> s | Some x \<Rightarrow> s\<lparr>ca_level := Some x\<rparr>) rest"
  "scan_client_args s (option_tokens ''--logctl'' v @ rest) =
     scan_client_args (case v of None \<Rightarrow> s | Some x \<Rightarrow> s\<lparr>ca_ctl := Some x\<rparr>) rest"
  "scan_client_args s (option_tokens ''--log-file'' v @ rest) =
     scan_client_args (case v of None \<Rightarrow> s | Some x \<Rightarrow> s\<lparr>ca_file := Some x\<rparr>) rest"
  by (cases v; simp add: scan_step value_flag_def set_value_def)+

lemma scan_client_argv:
  assumes "\<And>x. ca_addr c = Some x \<Longrightarrow> \<not> flag_shaped x"
  shows "scan_client_args no_client_args (client_argv c) = Args c"
proof -
  have addr: "scan_client_args no_client_args ((case ca_addr c of None \<Rightarrow> [] | Some x \<Rightarrow> [x]) @ rest) =
      scan_client_args (no_client_args\<lparr>ca_addr := ca_addr c\<rparr>) rest" for rest
    using assms by (cases "ca_addr c") (simp_all add: scan_positional no_client_args_def)
  have last: "scan_client_args s (option_tokens ''--log-file'' v) =
      Args (case v of None \<Rightarrow> s | Some x \<Rightarrow> s\<lparr>ca_file := Some x\<rparr>)" for s v
    using scan_option(4) [of s v "[]"] by simp
  show ?thesis
    unfolding client_argv_def addr scan_option(1-3) last
    by (cases c) (simp add: no_client_args_def split: option.split)
qed

text \<open>
  Arguments staged in a file arrive as they were meant: when the file at the path holds one token per
  line, both spellings of the option give the parser exactly those tokens, before the rest of the
  command line, and the tokens of any set of arguments whose address is no flag parse to that set.
\<close>
theorem staged_arguments_arrive:
  assumes "readable path = Some (unlines (client_argv c))" "\<forall>t \<in> set (client_argv c). t \<noteq> [] \<and> one_line t"
    "\<forall>x. ca_addr c = Some x \<longrightarrow> \<not> flag_shaped x"
    "\<forall>a \<in> set argv. a \<noteq> ARGS_FILE \<and> \<not> prefix ARGS_FILE_EQ a"
  shows "merged_argv readable (ARGS_FILE # path # argv) = Inr (client_argv c @ argv) \<and>
    merged_argv readable ((ARGS_FILE_EQ @ path) # argv) = Inr (client_argv c @ argv) \<and>
    parse_client_args readable [ARGS_FILE, path] = Args c"
proof -
  have eq: "ARGS_FILE_EQ @ path \<noteq> ARGS_FILE" by (simp add: ARGS_FILE_def ARGS_FILE_EQ_def)
  have merged: "merged_argv readable (ARGS_FILE # path # argv') = Inr (client_argv c @ argv')"
      "merged_argv readable ((ARGS_FILE_EQ @ path) # argv') = Inr (client_argv c @ argv')"
    if "\<forall>a \<in> set argv'. a \<noteq> ARGS_FILE \<and> \<not> prefix ARGS_FILE_EQ a" for argv'
    using that assms(1) eq by (simp_all add: merged_argv_def strip_args_file_plain args_tokens_unlines [OF assms(2)])
  have "parse_client_args readable [ARGS_FILE, path] = Args c"
    using merged(1) [of "[]"] assms(3) by (simp add: parse_client_args_def scan_client_argv)
  then show ?thesis using merged [OF assms(4)] by simp
qed

definition hp_args :: client_args where
  "hp_args = no_client_args\<lparr>ca_addr := Some ''pc:24800'', ca_name := Some ''hp''\<rparr>"

theorem staged_arguments_arrive_witness:
  "parse_client_args (\<lambda>p. if p = ''args.txt'' then Some (unlines [''pc:24800'', ''--name'', ''hp'']) else None)
     [ARGS_FILE, ''args.txt''] = Args hp_args"
proof -
  have "client_argv hp_args = [''pc:24800'', ''--name'', ''hp'']"
    by (simp add: client_argv_def hp_args_def no_client_args_def)
  then show ?thesis
    using staged_arguments_arrive [of "\<lambda>p. if p = ''args.txt'' then Some (unlines [''pc:24800'', ''--name'', ''hp'']) else None"
        "''args.txt''" hp_args "[]"]
    by (simp add: one_line_def NL_def CR_def flag_shaped_def hp_args_def no_client_args_def)
qed

section \<open>Refused command lines\<close>

lemma scan_append:
  "scan_client_args s pre = Args s' \<Longrightarrow> scan_client_args s (pre @ rest) = scan_client_args s' rest"
proof (induction "length pre" arbitrary: s pre rule: less_induct)
  case less
  have IH: "scan_client_args t (u @ rest) = scan_client_args s' rest"
    if "length u < length pre" "scan_client_args t u = Args s'" for t u
    using less.hyps that by blast
  show ?case
  proof (cases pre)
    case Nil
    then show ?thesis using less.prems by simp
  next
    case (Cons a r)
    then show ?thesis
      using less.prems IH IH [of r "s\<lparr>ca_addr := Some a\<rparr>"] unfolding Cons append_Cons scan_step [of s a]
      by (cases r) (auto split: option.splits if_splits)
  qed
qed

text \<open>
  C38. Which command lines of the client are refused, at any position after tokens that scan well: an
  option at the end of the line misses its value; a flag that is not known, an address option after an
  address, and a second address are unknown arguments; anything else that is not a flag is the
  address.  No token is silently dropped or taken for an address by mistake.
\<close>
theorem client_command_line_errors:
  assumes "scan_client_args no_client_args pre = Args s"
  shows "(\<forall>long. value_flag a = Some long \<longrightarrow>
      scan_client_args no_client_args (pre @ [a]) = Rejected (MissingValue long)) \<and>
    (flag_shaped a \<and> value_flag a = None \<and> \<not> prints_flag a \<and> (\<not> server_flag a \<or> ca_addr s \<noteq> None) \<longrightarrow>
      scan_client_args no_client_args (pre @ a # rest) = Rejected (UnknownArgument a)) \<and>
    (\<not> flag_shaped a \<longrightarrow> scan_client_args no_client_args (pre @ a # rest) =
      (if ca_addr s = None then scan_client_args (s\<lparr>ca_addr := Some a\<rparr>) rest else Rejected (UnknownArgument a)))"
  using scan_append [OF assms, of "[a]"] scan_append [OF assms, of "a # rest"] scan_positional [of a s rest]
  by (auto simp: scan_step)

theorem client_command_line_errors_witness:
  "scan_client_args no_client_args ([''pc''] @ ''--bogus'' # [''x'']) = Rejected (UnknownArgument ''--bogus'')"
  using client_command_line_errors [of "[''pc'']" "no_client_args\<lparr>ca_addr := Some ''pc''\<rparr>" "''--bogus''" "[''x'']"]
  by (simp add: scan_step flag_shaped_def value_flag_def prints_flag_def server_flag_def no_client_args_def)

text \<open>
  An IPv6 address never gets the default port: its colons are taken for a port that is there.
\<close>

lemma ipv6_gets_no_port: "with_default_port ''fe80::1'' DEFAULT_PORT = ''fe80::1''"
  by (simp add: with_default_port_def)

lemma default_port_added:
  "CHR '':'' \<notin> set host \<Longrightarrow> \<exists>p. with_default_port host DEFAULT_PORT = host @ CHR '':'' # p \<and> parse_u16 p = Some DEFAULT_PORT"
  by (simp add: with_default_port_def DEFAULT_PORT_def parse_u16_decimal)

section \<open>The reconnect loop\<close>

text \<open>The sessions that ended because the server asked the client to come again.\<close>

fun reconnects :: "policy \<Rightarrow> attempt list \<Rightarrow> nat" where
  "reconnects p [] = 0"
| "reconnects p (Meets server controls (Ends Reconnect) # ts) = (if is_revoked p server then 0 else 1) + reconnects p ts"
| "reconnects p (t # ts) = reconnects p ts"

definition final_file :: "string \<Rightarrow> nat \<Rightarrow> string \<Rightarrow> bool" where
  "final_file addr n f \<longleftrightarrow>
     n = 0 \<and> f = write_client_state_stopped addr \<or> n = 1 \<and> (\<exists>reason. f = write_client_state_refused addr reason)"

lemma iteration_again:
  assumes "app_iteration p addr t a = Again a'"
  shows "ap_dials a' * RETRY_DELAY + ap_slept a \<le>
      ap_dials a * RETRY_DELAY + ap_slept a' + reconnects p [t] * RETRY_DELAY"
    "\<forall>s \<in> set (ap_served a'). s \<in> set (ap_served a) \<or> \<not> is_revoked p s"
    "reconnects p [t] = 0 \<Longrightarrow> ap_files a' = ap_files a \<or> hd (ap_files a') = write_client_state ''disconnected'' addr"
  using assms
  by (cases t; auto simp: Let_def retry_later_def note_state_def split: connect_error.splits session_result.splits
      session_end.splits if_splits)+

lemma iteration_exits:
  assumes "app_iteration p addr t a = Exits n a'"
  shows "ap_dials a' = Suc (ap_dials a)" "ap_slept a' = ap_slept a" "final_file addr n (hd (ap_files a'))"
    "\<forall>s \<in> set (ap_served a'). s \<in> set (ap_served a) \<or> \<not> is_revoked p s"
  using assms
  by (cases t; auto simp: Let_def note_state_def final_file_def split: connect_error.splits session_result.splits
      session_end.splits if_splits)+

lemma reconnects_Cons: "reconnects p (t # ts) = reconnects p [t] + reconnects p ts"
  by (cases "(p, t # ts)" rule: reconnects.cases) auto

text \<open>The conclusions, for an outcome of the loop that started from \<open>a\<close>.\<close>

definition paced :: "policy \<Rightarrow> attempt list \<Rightarrow> app \<Rightarrow> app \<Rightarrow> bool" where
  "paced p ts a a' \<longleftrightarrow>
     ap_dials a' * RETRY_DELAY + ap_slept a \<le>
       ap_dials a * RETRY_DELAY + ap_slept a' + (reconnects p ts + 1) * RETRY_DELAY \<and>
     (\<forall>s \<in> set (ap_served a'). s \<in> set (ap_served a) \<or> \<not> is_revoked p s)"

lemma app_run_paced:
  "(app_run p addr ts a = Again a' \<longrightarrow> paced p ts a a' \<and>
      (reconnects p ts = 0 \<longrightarrow> ap_files a' = ap_files a \<or> hd (ap_files a') = write_client_state ''disconnected'' addr)) \<and>
   (app_run p addr ts a = Exits n a' \<longrightarrow> paced p ts a a' \<and> final_file addr n (hd (ap_files a')))"
proof (induction ts arbitrary: a)
  case Nil
  then show ?case by (simp add: paced_def)
next
  case (Cons t ts)
  show ?case
  proof (cases "app_iteration p addr t a")
    case (Again b)
    have paced_more: "paced p (t # ts) a a'" if "paced p ts b a'"
      using that iteration_again(1,2) [OF Again] unfolding paced_def reconnects_Cons [of p t ts]
      by (auto simp: algebra_simps)
    show ?thesis
      using Cons.IH [of b] paced_more iteration_again(3) [OF Again] Again
      by (auto simp: reconnects_Cons [of p t ts])
  next
    case (Exits k b)
    then show ?thesis
      using iteration_exits [OF Exits] by (auto simp: paced_def algebra_simps)
  qed
qed

text \<open>
  C39. The reconnect loop, whatever it meets: it calls the server at most once, once more for every three
  seconds it has slept, and once more for every session the server ended with a reconnect; it never
  runs a session with a revoked server; it leaves only with a state file that says that it was stopped
  (code 0) or refused (code 1); and as long as no session ended with a reconnect, the file says between
  the iterations that the client is not connected.
\<close>
theorem reconnect_loop_paced:
  "(app_run p addr ts (start_app control addr) = Again a \<longrightarrow>
      ap_dials a * 3000 \<le> ap_slept a + (reconnects p ts + 1) * 3000 \<and>
      (\<forall>s \<in> set (ap_served a). \<not> is_revoked p s) \<and>
      (reconnects p ts = 0 \<longrightarrow> hd (ap_files a) = write_client_state ''disconnected'' addr)) \<and>
   (app_run p addr ts (start_app control addr) = Exits n a \<longrightarrow>
      ap_dials a * 3000 \<le> ap_slept a + (reconnects p ts + 1) * 3000 \<and>
      (\<forall>s \<in> set (ap_served a). \<not> is_revoked p s) \<and>
      (n = 0 \<and> hd (ap_files a) = write_client_state_stopped addr \<or>
       n = 1 \<and> (\<exists>reason. hd (ap_files a) = write_client_state_refused addr reason)))"
  using app_run_paced [of p addr ts "start_app control addr" a n]
  by (auto simp: paced_def start_app_def RETRY_DELAY_def final_file_def)

definition met :: "attempt list" where
  "met = [ConnectFails (ConnectIo (IoError UnexpectedEof [])) , Meets ''70b97d38'' [True, False] (Ends LinkClosed),
     Meets ''98980a4d'' [] (Ends LinkClosed)]"

theorem reconnect_loop_paced_witness:
  "\<exists>a. app_run (default_policy\<lparr>po_revoked_ids := [''98980a4d'']\<rparr>) ''pc:1'' met (start_app False ''pc:1'') = Exits 0 a \<and>
     ap_served a = [''70b97d38''] \<and> hd (ap_files a) = write_client_state_stopped ''pc:1''"
proof -
  let ?p = "default_policy\<lparr>po_revoked_ids := [''98980a4d'']\<rparr>"
  obtain a where a: "app_run ?p ''pc:1'' met (start_app False ''pc:1'') = Exits 0 a" "ap_served a = [''70b97d38'']"
    by (simp add: met_def start_app_def Let_def is_revoked_def id_matches_def note_state_def retry_later_def)
  then show ?thesis using reconnect_loop_paced [of ?p "''pc:1''" met False a 0] by auto
qed

text \<open>
  After a reconnect the file still says connected, for as long as a prompt or a missing platform keeps
  the loop waiting; and \<open>control.state\<close> stays when a session ends while the server is in control.
\<close>

lemma reconnect_keeps_connected:
  "\<not> is_revoked p server \<Longrightarrow>
   \<exists>a. app_run p addr [Meets server [] (Ends Reconnect), SecureDesktop, SecureDesktop] (start_app False addr) = Again a \<and>
     hd (ap_files a) = write_client_state_connected addr server \<and> 6000 \<le> ap_slept a"
  by (simp add: start_app_def Let_def note_state_def retry_later_def RETRY_DELAY_def)

lemma control_marker_survives:
  "\<not> is_revoked p server \<Longrightarrow>
   \<exists>a. app_run p addr [Meets server [True] (Ends Disconnected)] (start_app False addr) = Exits 0 a \<and> ap_control a"
  by (simp add: start_app_def Let_def note_state_def)

end
