(* ===== verification/Logging.thy ===== *)
theory Logging
  imports Rust_Text
begin

text \<open>
  The logger of \<open>log/src/lib.rs\<close>: the severities, the gate of \<open>write_line\<close>, the bounded queue of the
  writer thread, the synchronous path of errors, and the control file that changes the level while
  the process runs.  The destination is the list of the lines written; each line is kept with its
  severity.  A write that fails on the disk is not modelled: the code ignores it.
\<close>

section \<open>Severities\<close>

datatype level = LError | LWarn | LInfo | LDebug | LTrace

fun rank :: "level \<Rightarrow> nat" where
  "rank LError = 0" | "rank LWarn = 1" | "rank LInfo = 2" | "rank LDebug = 3" | "rank LTrace = 4"

lemma rank_eq [simp]: "rank a = rank b \<longleftrightarrow> a = b"
  by (cases a; cases b) simp_all

instantiation level :: linorder
begin

definition less_eq_level :: "level \<Rightarrow> level \<Rightarrow> bool" where
  "less_eq_level a b \<longleftrightarrow> rank a \<le> rank b"

definition less_level :: "level \<Rightarrow> level \<Rightarrow> bool" where
  "less_level a b \<longleftrightarrow> rank a < rank b"

instance
  by standard (auto simp: less_eq_level_def less_level_def)

end

fun level_label :: "level \<Rightarrow> string" where
  "level_label LError = ''ERROR''"
| "level_label LWarn = ''WARN''"
| "level_label LInfo = ''INFO''"
| "level_label LDebug = ''DEBUG''"
| "level_label LTrace = ''TRACE''"

definition parse_level :: "string \<Rightarrow> level option" where
  "parse_level s =
     (let t = to_ascii_lowercase (trim s) in
      if t = ''error'' then Some LError
      else if t = ''warn'' \<or> t = ''warning'' then Some LWarn
      else if t = ''info'' then Some LInfo
      else if t = ''debug'' then Some LDebug
      else if t = ''trace'' \<or> t = ''verbose'' \<or> t = ''veryverbose'' then Some LTrace
      else None)"

definition ALL_LEVELS :: "level list" where
  "ALL_LEVELS = [LError, LWarn, LInfo, LDebug, LTrace]"

section \<open>The logger\<close>

type_synonym log_entry = "level \<times> string"

record logger =
  lg_level :: level
  lg_enabled :: bool
  lg_component :: "string option"
  lg_queue :: "log_entry list"
  lg_out :: "log_entry list"

definition fresh_logger :: logger where
  "fresh_logger = \<lparr>lg_level = LInfo, lg_enabled = True, lg_component = None, lg_queue = [], lg_out = []\<rparr>"

definition SINK_CAP :: nat where "SINK_CAP = 4096"

text \<open>At least \<open>k\<close> digits.\<close>

definition padded :: "nat \<Rightarrow> nat \<Rightarrow> string" where
  "padded k n = replicate (k - length (decimal n)) (CHR ''0'') @ decimal n"

definition log_line :: "nat \<Rightarrow> level \<Rightarrow> string \<Rightarrow> logger \<Rightarrow> string" where
  "log_line ms lvl msg g =
     padded 2 (ms div 3600000 mod 24) @ '':'' @ padded 2 (ms div 60000 mod 60) @ '':''
       @ padded 2 (ms div 1000 mod 60) @ ''.'' @ padded 3 (ms mod 1000) @ '' '' @ level_label lvl @ '' ''
       @ (case lg_component g of Some c \<Rightarrow> c | None \<Rightarrow> ''kvmshare'') @ '': '' @ msg"

text \<open>\<open>try_send\<close> on the queue, and the direct write of an error.\<close>

definition offer_line :: "log_entry \<Rightarrow> logger \<Rightarrow> logger" where
  "offer_line e g = (if length (lg_queue g) < SINK_CAP then g\<lparr>lg_queue := lg_queue g @ [e]\<rparr> else g)"

definition emit_line :: "log_entry \<Rightarrow> logger \<Rightarrow> logger" where
  "emit_line e g = g\<lparr>lg_out := lg_out g @ [e]\<rparr>"

text \<open>
  The queue handle: \<open>got\<close> says that it was there, \<open>installed\<close> that this caller's new channel became
  it.  A caller that finds no handle and loses the race to install one sends to its own channel,
  whose receiver is gone.
\<close>

definition sink_send :: "bool \<Rightarrow> bool \<Rightarrow> log_entry \<Rightarrow> logger \<Rightarrow> logger" where
  "sink_send got installed e g = (if got \<or> installed then offer_line e g else g)"

definition write_line :: "bool \<Rightarrow> bool \<Rightarrow> nat \<Rightarrow> level \<Rightarrow> string \<Rightarrow> logger \<Rightarrow> logger" where
  "write_line got installed ms lvl msg g =
     (if \<not> lg_enabled g \<or> lg_level g < lvl then g
      else let e = (lvl, log_line ms lvl msg g) in
        if lvl = LError then emit_line e g else sink_send got installed e g)"

text \<open>The writer thread takes the next line.\<close>

definition writer_takes :: "logger \<Rightarrow> logger" where
  "writer_takes g = (case lg_queue g of [] \<Rightarrow> g | e # q \<Rightarrow> emit_line e (g\<lparr>lg_queue := q\<rparr>))"

section \<open>The control file\<close>

definition control_line :: "string \<Rightarrow> logger \<Rightarrow> logger" where
  "control_line raw g =
     (let line = trim raw in
      if line = [] \<or> prefix ''#'' line then g
      else case split_once (CHR ''='') line of
          None \<Rightarrow> g
        | Some (key, v) \<Rightarrow>
            if trim key = ''level'' then (case parse_level v of Some l \<Rightarrow> g\<lparr>lg_level := l\<rparr> | None \<Rightarrow> g)
            else if trim key = ''enabled'' then
              (if trim v \<in> {''0'', ''false'', ''off''} then g\<lparr>lg_enabled := False\<rparr>
               else if trim v \<in> {''1'', ''true'', ''on''} then g\<lparr>lg_enabled := True\<rparr> else g)
            else g)"

text \<open>\<open>control\<close> is the text of the control file, \<open>None\<close> when there is no path or no file.\<close>

definition apply_control_file :: "string option \<Rightarrow> logger \<Rightarrow> logger" where
  "apply_control_file control g =
     (case control of None \<Rightarrow> g | Some txt \<Rightarrow> fold control_line (lines_of txt) g)"

definition init_logger :: "string \<Rightarrow> string \<Rightarrow> string option \<Rightarrow> logger \<Rightarrow> string + logger" where
  "init_logger lvl exe control g =
     (case parse_level lvl of
        None \<Rightarrow> Inl (to_ascii_lowercase (trim lvl))
      | Some l \<Rightarrow>
          Inr (apply_control_file control
            (g\<lparr>lg_level := l, lg_component := (case lg_component g of None \<Rightarrow> Some exe | c \<Rightarrow> c)\<rparr>)))"

definition level_from_env_or_default :: "string option \<Rightarrow> string" where
  "level_from_env_or_default env = (case env of Some s \<Rightarrow> s | None \<Rightarrow> ''info'')"

section \<open>Levels and their names\<close>

lemma level_name_trimmed: "trim (level_label l) = level_label l"
  by (cases l) (simp_all add: trim_trimmed trimmed_printing printing_def)

lemma lowercase_labels:
  "map (\<lambda>l. to_ascii_lowercase (level_label l)) ALL_LEVELS = [''error'', ''warn'', ''info'', ''debug'', ''trace'']"
  by code_simp

lemma parse_label: "parse_level (level_label l) = Some l"
  using lowercase_labels
  by (cases l) (simp_all add: ALL_LEVELS_def parse_level_def Let_def level_name_trimmed del: level_label.simps)

lemma all_levels_sorted: "sorted_wrt (<) ALL_LEVELS \<and> set ALL_LEVELS = UNIV"
proof
  show "sorted_wrt (<) ALL_LEVELS" by (simp add: ALL_LEVELS_def less_level_def)
  show "set ALL_LEVELS = UNIV" using level.exhaust by (auto simp: ALL_LEVELS_def)
qed

section \<open>What becomes of a line\<close>

interpretation log_queue: bounded_queue offer_line lg_queue SINK_CAP
  by unfold_locales (auto simp: offer_line_def)

datatype log_event = Logged bool bool nat level string | Drained | ControlRead "string option"

fun log_step :: "log_event \<Rightarrow> logger \<Rightarrow> logger" where
  "log_step (Logged got installed ms lvl msg) g = write_line got installed ms lvl msg g"
| "log_step Drained g = writer_takes g"
| "log_step (ControlRead control) g = apply_control_file control g"

text \<open>The lines that pass the gate, in the order they are logged.\<close>

fun admitted_lines :: "log_event list \<Rightarrow> logger \<Rightarrow> log_entry list" where
  "admitted_lines [] g = []"
| "admitted_lines (e # es) g =
     (case e of
        Logged got installed ms lvl msg \<Rightarrow>
          if lg_enabled g \<and> lvl \<le> lg_level g then [(lvl, log_line ms lvl msg g)] else []
      | _ \<Rightarrow> []) @ admitted_lines es (log_step e g)"

definition is_error :: "log_entry \<Rightarrow> bool" where
  "is_error e \<longleftrightarrow> fst e = LError"

definition errors_of :: "log_entry list \<Rightarrow> log_entry list" where
  "errors_of es = filter is_error es"

definition others_of :: "log_entry list \<Rightarrow> log_entry list" where
  "others_of es = filter (\<lambda>e. \<not> is_error e) es"

lemma control_line_fields [simp]:
  "lg_queue (control_line l g) = lg_queue g" "lg_out (control_line l g) = lg_out g"
  by (auto simp: control_line_def Let_def split: option.split)

lemma control_file_fields [simp]:
  "lg_queue (apply_control_file c g) = lg_queue g" "lg_out (apply_control_file c g) = lg_out g"
proof -
  have "lg_queue (fold control_line ls g) = lg_queue g \<and> lg_out (fold control_line ls g) = lg_out g" for ls
    by (induction ls arbitrary: g) simp_all
  then show "lg_queue (apply_control_file c g) = lg_queue g" "lg_out (apply_control_file c g) = lg_out g"
    by (auto simp: apply_control_file_def split: option.split)
qed

text \<open>The queue holds no error, and is never over its capacity.\<close>

definition logger_ok :: "logger \<Rightarrow> bool" where
  "logger_ok g \<longleftrightarrow> length (lg_queue g) \<le> SINK_CAP \<and> errors_of (lg_queue g) = []"

definition others_shown :: "logger \<Rightarrow> log_entry list" where
  "others_shown g = others_of (lg_out g) @ lg_queue g"

definition step_lines :: "log_event \<Rightarrow> logger \<Rightarrow> log_entry list" where
  "step_lines e g = admitted_lines [e] g"

lemma admitted_Cons: "admitted_lines (e # es) g = step_lines e g @ admitted_lines es (log_step e g)"
  by (simp add: step_lines_def)

lemma errors_of_simps [simp]:
  "errors_of [] = []" "errors_of (a @ b) = errors_of a @ errors_of b"
  "errors_of [(l, m)] = (if l = LError then [(l, m)] else [])"
  "others_of [] = []" "others_of (a @ b) = others_of a @ others_of b"
  "others_of [(l, m)] = (if l = LError then [] else [(l, m)])"
  by (auto simp: errors_of_def others_of_def is_error_def)

lemma takes_shown:
  assumes "logger_ok g"
  shows "logger_ok (writer_takes g)" "errors_of (lg_out (writer_takes g)) = errors_of (lg_out g)"
    "others_shown (writer_takes g) = others_shown g"
proof -
  have q: "\<not> is_error e" "errors_of q = []" if "lg_queue g = e # q" for e q
    using assms that by (auto simp: logger_ok_def errors_of_def split: if_splits)
  show "logger_ok (writer_takes g)" "errors_of (lg_out (writer_takes g)) = errors_of (lg_out g)"
    "others_shown (writer_takes g) = others_shown g"
    using assms q
    by (auto simp: writer_takes_def emit_line_def logger_ok_def others_shown_def errors_of_def others_of_def
        split: list.split)
qed

lemma log_step_shown:
  assumes "logger_ok g"
  shows "logger_ok (log_step e g)" "errors_of (lg_out (log_step e g)) = errors_of (lg_out g) @ errors_of (step_lines e g)"
    "others_shown (log_step e g) = others_shown g \<or>
     others_shown (log_step e g) = others_shown g @ others_of (step_lines e g)"
proof -
  have "logger_ok (log_step e g) \<and> errors_of (lg_out (log_step e g)) = errors_of (lg_out g) @ errors_of (step_lines e g) \<and>
    (others_shown (log_step e g) = others_shown g \<or>
     others_shown (log_step e g) = others_shown g @ others_of (step_lines e g))"
  proof (cases e)
    case (Logged got installed ms lvl msg)
    show ?thesis
      using assms
      by (auto simp: Logged step_lines_def write_line_def emit_line_def sink_send_def offer_line_def logger_ok_def
          others_shown_def not_le)
  next
    case Drained
    then show ?thesis using takes_shown [OF assms] by (simp add: step_lines_def)
  next
    case (ControlRead c)
    then show ?thesis using assms by (simp add: step_lines_def logger_ok_def others_shown_def)
  qed
  then show "logger_ok (log_step e g)" "errors_of (lg_out (log_step e g)) = errors_of (lg_out g) @ errors_of (step_lines e g)"
    "others_shown (log_step e g) = others_shown g \<or>
     others_shown (log_step e g) = others_shown g @ others_of (step_lines e g)"
    by blast+
qed

lemma run_shown:
  "logger_ok g \<Longrightarrow> logger_ok (run log_step es g) \<and>
   errors_of (lg_out (run log_step es g)) = errors_of (lg_out g) @ errors_of (admitted_lines es g) \<and>
   subseq (others_shown (run log_step es g)) (others_shown g @ others_of (admitted_lines es g))"
proof (induction es arbitrary: g)
  case Nil
  then show ?case by simp
next
  case (Cons e es)
  note st = log_step_shown [OF Cons.prems, of e]
  have "subseq (others_shown (log_step e g)) (others_shown g @ others_of (step_lines e g))"
    using st(3) by (auto intro: prefix_imp_subseq) 
  then have "subseq (others_shown (log_step e g) @ others_of (admitted_lines es (log_step e g)))
      (others_shown g @ others_of (admitted_lines (e # es) g))"
    unfolding admitted_Cons errors_of_simps append_assoc [symmetric] by (rule list_emb_append_mono) simp
  then show ?case
    using Cons.IH [OF st(1)] st(2) subseq_order.trans unfolding run_simps admitted_Cons errors_of_simps by auto
qed

text \<open>Nothing is dropped as long as the queue has room for all that comes.\<close>

definition reaches_sink :: "log_event \<Rightarrow> bool" where
  "reaches_sink e \<longleftrightarrow> (case e of Logged got installed ms lvl msg \<Rightarrow> got \<or> installed | _ \<Rightarrow> True)"

lemma run_keeps_all:
  "logger_ok g \<Longrightarrow> list_all reaches_sink es \<Longrightarrow>
   length (lg_queue g) + length (others_of (admitted_lines es g)) \<le> SINK_CAP \<Longrightarrow>
   others_shown (run log_step es g) = others_shown g @ others_of (admitted_lines es g)"
proof (induction es arbitrary: g)
  case Nil
  then show ?case by simp
next
  case (Cons e es)
  note st = log_step_shown [OF Cons.prems(1), of e]
  have "others_shown (log_step e g) = others_shown g @ others_of (step_lines e g) \<and>
      length (lg_queue (log_step e g)) \<le> length (lg_queue g) + length (others_of (step_lines e g))"
  proof (cases e)
    case (Logged got installed ms lvl msg)
    then show ?thesis
      using Cons.prems(2,3) unfolding admitted_Cons
      by (auto simp: step_lines_def write_line_def emit_line_def sink_send_def offer_line_def
          others_shown_def not_le reaches_sink_def)
  next
    case Drained
    then show ?thesis
      using takes_shown(3) [OF Cons.prems(1)]
      by (auto simp: step_lines_def writer_takes_def emit_line_def split: list.split)
  next
    case (ControlRead c)
    then show ?thesis by (simp add: step_lines_def others_shown_def)
  qed
  then show ?case
    using Cons.IH [OF st(1)] Cons.prems(2,3) unfolding run_simps admitted_Cons errors_of_simps by auto
qed


definition some_logging :: "log_event list" where
  "some_logging = [Logged False True 0 LInfo ''up'', Logged True False 5 LDebug ''noise'', Logged True False 7 LError ''down'',
     Drained]"


text \<open>Two first lines at the same moment: the caller that loses the race loses its line.\<close>

lemma losing_caller_loses_line: "sink_send False False e g = g"
  by (simp add: sink_send_def)

end
