(* ===== verification/Handshake.thy ===== *)
theory Handshake
  imports Server_Properties Client Rust_Text
begin

text \<open>
  The two ends of a connection attempt put together: the constructors of the transport with their
  socket options (\<open>core/src/transport.rs\<close>), \<open>Client::connect\<close> (\<open>core/src/client/mod.rs\<close>) and
  \<open>Client::spawn\<close> of the server up to the reader thread (\<open>core/src/server/client.rs\<close>).

  The calls an end makes on its sockets are a list, in order, up to the first that fails; what the
  operating system answers is a function from the call to the error, if any.  What an end reads is a
  \<open>read_ev\<close> list, as in \<open>Frames\<close>.
\<close>

section \<open>Calls on the sockets\<close>

datatype os = OnUnix | OnWindows

datatype sock_opt =
  NoDelay bool
| ReadTimeout "nat option"
| SoKeepalive
| KeepIdle u32
| KeepIntvl u32
| KeepCnt u32
| KeepaliveVals u32 u32 u32

datatype net_call =
  SetOpt sock_opt
| CloneSocket
| TcpSend "byte list"
| UdpBind
| UdpReadTimeout nat
| UdpConnect string
| UdpSend "byte list"

text \<open>The calls that are made, and the error that ended them (the \<open>?\<close> after each call).\<close>

fun make_calls :: "(net_call \<Rightarrow> io_error option) \<Rightarrow> net_call list \<Rightarrow> net_call list \<times> io_error option" where
  "make_calls fails [] = ([], None)"
| "make_calls fails (c # cs) =
     (case fails c of
        Some e \<Rightarrow> ([c], Some e)
      | None \<Rightarrow> (case make_calls fails cs of (made, e) \<Rightarrow> (c # made, e)))"

fun tcp_bytes :: "net_call list \<Rightarrow> byte list" where
  "tcp_bytes [] = []"
| "tcp_bytes (TcpSend bs # cs) = bs @ tcp_bytes cs"
| "tcp_bytes (c # cs) = tcp_bytes cs"

fun datagrams :: "net_call list \<Rightarrow> byte list list" where
  "datagrams [] = []"
| "datagrams (UdpSend bs # cs) = bs # datagrams cs"
| "datagrams (c # cs) = datagrams cs"

section \<open>The constructors of the transport\<close>

definition TCP_KEEPALIVE_SECS_BEFORE :: u32 where "TCP_KEEPALIVE_SECS_BEFORE = 2"
definition TCP_KEEPALIVE_SECS_INTERVAL :: u32 where "TCP_KEEPALIVE_SECS_INTERVAL = 2"
definition TCP_KEEPALIVE_RETRIES :: u32 where "TCP_KEEPALIVE_RETRIES = 3"

text \<open>Times on sockets are in milliseconds.\<close>

definition DEAD_PEER_TIMEOUT :: nat where "DEAD_PEER_TIMEOUT = 8000"

fun enable_keepalive :: "os \<Rightarrow> net_call list" where
  "enable_keepalive OnUnix =
     [SetOpt (KeepIdle TCP_KEEPALIVE_SECS_BEFORE), SetOpt (KeepIntvl TCP_KEEPALIVE_SECS_INTERVAL),
      SetOpt (KeepCnt TCP_KEEPALIVE_RETRIES)]"
| "enable_keepalive OnWindows =
     [SetOpt (KeepaliveVals 1 (TCP_KEEPALIVE_SECS_BEFORE * 1000) (TCP_KEEPALIVE_SECS_INTERVAL * 1000))]"

definition with_read_timeout :: "os \<Rightarrow> nat option \<Rightarrow> net_call list" where
  "with_read_timeout os timeout = [SetOpt (NoDelay True), SetOpt (ReadTimeout timeout)] @ enable_keepalive os"

definition new_transport :: "os \<Rightarrow> net_call list" where
  "new_transport os = with_read_timeout os None"

section \<open>The client's end\<close>

definition READ_TIMEOUT :: nat where "READ_TIMEOUT = 100"
definition CONNECT_TIMEOUT :: nat where "CONNECT_TIMEOUT = 3000"
definition UDP_RECV_TIMEOUT :: nat where "UDP_RECV_TIMEOUT = 25"

text \<open>
  The addresses are dialed one after the other; an attempt gives the time it took and the stream, or
  the error.
\<close>

type_synonym 'a dialer = "'a \<Rightarrow> nat \<times> (io_error + read_ev list)"

fun dial :: "'a dialer \<Rightarrow> 'a list \<Rightarrow> io_error option \<Rightarrow> nat \<times> (io_error option + read_ev list)" where
  "dial try [] last_err = (0, Inl last_err)"
| "dial try (sa # addrs) last_err =
     (case try sa of
        (time, Inr s) \<Rightarrow> (time, Inr s)
      | (time, Inl e) \<Rightarrow> (case dial try addrs (Some e) of (rest, res) \<Rightarrow> (time + rest, res)))"

definition connect_stream :: "'a dialer \<Rightarrow> string \<Rightarrow> 'a list \<Rightarrow> nat \<times> (io_error + read_ev list)" where
  "connect_stream try addr addrs =
     (case dial try addrs None of
        (time, Inr s) \<Rightarrow> (time, Inr s)
      | (time, Inl (Some e)) \<Rightarrow> (time, Inl e)
      | (time, Inl None) \<Rightarrow> (time, Inl (IoError OtherError (''no addresses for '' @ addr))))"

record client_link =
  ln_transport :: transport
  ln_own :: byte
  ln_layout :: layout
  ln_server :: string

definition hello_calls :: "os \<Rightarrow> string \<Rightarrow> string \<Rightarrow> screen_info \<Rightarrow> net_call list" where
  "hello_calls os name machine info =
     with_read_timeout os (Some READ_TIMEOUT) @ [TcpSend (send_msg (Hello VERSION machine name info))]"

definition udp_calls :: "string \<Rightarrow> byte \<Rightarrow> net_call list" where
  "udp_calls addr own =
     [UdpBind, UdpReadTimeout UDP_RECV_TIMEOUT, UdpConnect addr, UdpSend (pack own 0 KeepAlive)]"

text \<open>
  \<open>Client::connect\<close> on a stream that was dialed, and as a whole: the calls that were made, and the
  client or the error.  The result is \<open>None\<close> where the decoder panics, which it never does.
\<close>

definition connect_on :: "os \<Rightarrow> (net_call \<Rightarrow> io_error option) \<Rightarrow> string \<Rightarrow> string \<Rightarrow> string \<Rightarrow> screen_info \<Rightarrow> read_ev list
    \<Rightarrow> net_call list \<times> (connect_error + client_link) option" where
  "connect_on os fails addr name machine info stream =
     (case make_calls fails (hello_calls os name machine info) of
        (made, Some e) \<Rightarrow> (made, Some (Inl (ConnectIo e)))
      | (made, None) \<Rightarrow>
          (case recv (open_transport stream) of
             None \<Rightarrow> (made, None)
           | Some (answer, t) \<Rightarrow>
               (case on_welcome answer of
                  Inl e \<Rightarrow> (made, Some (Inl e))
                | Inr (own, l, server) \<Rightarrow>
                    (case make_calls fails (udp_calls addr own) of
                       (made', Some e) \<Rightarrow> (made @ made', Some (Inl (ConnectIo e)))
                     | (made', None) \<Rightarrow>
                         (made @ made', Some (Inr \<lparr>ln_transport = t, ln_own = own, ln_layout = l, ln_server = server\<rparr>))))))"

definition client_connect :: "os \<Rightarrow> (net_call \<Rightarrow> io_error option) \<Rightarrow> io_error + 'a list \<Rightarrow> 'a dialer \<Rightarrow> string \<Rightarrow> string \<Rightarrow> string
    \<Rightarrow> screen_info \<Rightarrow> net_call list \<times> (connect_error + client_link) option" where
  "client_connect os fails resolved try addr name machine info =
     (case resolved of
        Inl e \<Rightarrow> ([], Some (Inl (ConnectIo e)))
      | Inr addrs \<Rightarrow>
          (case connect_stream try addr addrs of
             (_, Inl e) \<Rightarrow> ([], Some (Inl (ConnectIo e)))
           | (_, Inr stream) \<Rightarrow> connect_on os fails addr name machine info stream))"

section \<open>The server's end\<close>

text \<open>A read timeout of two seconds, in milliseconds.\<close>

definition CLIENT_READ_TIMEOUT :: nat where "CLIENT_READ_TIMEOUT = 2000"

text \<open>The dashes of the texts, in UTF-8, and a number without a sign.\<close>

definition EM_DASH :: string where "EM_DASH = [CHR 0xE2, CHR 0x80, CHR 0x94]"
definition EN_DASH :: string where "EN_DASH = [CHR 0xE2, CHR 0x80, CHR 0x93]"
definition QUOTE :: string where "QUOTE = [CHR 0x22]"

text \<open>
  The \<open>Error\<close> message a refused peer is sent, if any; \<open>shown\<close> is the peer's address as it is printed,
  \<open>name\<close> the name the peer gave.
\<close>

fun refusal_text :: "string \<Rightarrow> string \<Rightarrow> refusal \<Rightarrow> string" where
  "refusal_text shown name (VersionMismatch v) =
     ''this server speaks protocol v'' @ decimal (unat VERSION) @ '' (accepts v'' @ decimal (unat MIN_PROTOCOL) @ EN_DASH
     @ ''v'' @ decimal (unat MAX_PROTOCOL) @ '') and the client speaks v'' @ decimal (unat v) @ '' '' @ EM_DASH
     @ '' update the older machine''"
| "refusal_text shown name Revoked =
     ''this machine's id is revoked on this server '' @ EM_DASH @ '' ask the server's operator to re-trust it''"
| "refusal_text shown name NotLocal =
     ''connection from '' @ shown @ '' refused '' @ EM_DASH @ '' only local-network peers are accepted''"
| "refusal_text shown name NotAllowed =
     QUOTE @ name @ QUOTE @ '' is not in this server's layout and its machine id is not trusted '' @ EM_DASH
     @ '' add it to the layout or trust its id to connect''"
| "refusal_text shown name NameConflict =
     ''a machine cannot connect as '' @ QUOTE @ name @ QUOTE @ '' '' @ EM_DASH @ '' that is this server's own screen''"
| "refusal_text shown name r = []"

fun hello_name :: "io_error + recv_result \<Rightarrow> string" where
  "hello_name (Inr (Msg (Hello v machine name info))) = name"
| "hello_name first = []"

definition refusal_reply :: "string \<Rightarrow> string \<Rightarrow> refusal \<Rightarrow> message option" where
  "refusal_reply shown name r = map_option (\<lambda>code. ErrorMsg code (refusal_text shown name r)) (refusal_code r)"

text \<open>
  \<open>Client::spawn\<close> with no other thread in between.  The error that a refused or broken attempt returns
  is only logged, so it is left out; the state of the server is what matters.
\<close>

datatype spawned = Turned_away refusal | Broken io_error | Serving admitted transport

definition spawn :: "os \<Rightarrow> (net_call \<Rightarrow> io_error option) \<Rightarrow> nat \<Rightarrow> nat \<Rightarrow> ip \<Rightarrow> u16 \<Rightarrow> string \<Rightarrow> read_ev list \<Rightarrow> server
    \<Rightarrow> (net_call list \<times> spawned \<times> server) option" where
  "spawn os fails now t peer port shown stream sv =
     (case make_calls fails (with_read_timeout os (Some CLIENT_READ_TIMEOUT)) of
        (made, Some e) \<Rightarrow> Some (made, Broken e, sv)
      | (made, None) \<Rightarrow>
          (case recv (open_transport stream) of
             None \<Rightarrow> None
           | Some (first, tr) \<Rightarrow>
               (case handshake peer first sv of
                  (Inl r, sv1) \<Rightarrow>
                    Some (made @ (case refusal_reply shown (hello_name first) r of
                        None \<Rightarrow> []
                      | Some m \<Rightarrow> fst (make_calls fails [TcpSend (send_msg m)])), Turned_away r, sv1)
                | (Inr (a, welcome), sv1) \<Rightarrow>
                    (case make_calls fails [TcpSend (send_msg welcome), CloneSocket] of
                       (made', Some e) \<Rightarrow> Some (made @ made', Broken e, sv1)
                     | (made', None) \<Rightarrow>
                         let sv2 = register now t peer a sv1 in
                         Some (made @ made', Serving a (open_transport (tr_stream tr)),
                           announce (new_connection now a) peer port a sv2)))))"

end
