(* ===== verification/Handshake_Rules.thy ===== *)
theory Handshake_Rules
  imports Handshake
begin

text \<open>
  What the two ends of a connection attempt make of each other: they agree on who was admitted, on the
  layout and on the datagram address, and a refusal arrives with its code and text.
\<close>

section \<open>Calls\<close>

lemma make_calls_ok: "\<forall>c. fails c = None \<Longrightarrow> make_calls fails cs = (cs, None)"
  by (induction cs) auto

declare make_calls.simps [simp del]

lemma tcp_bytes_append [simp]: "tcp_bytes (cs @ ds) = tcp_bytes cs @ tcp_bytes ds"
  by (induction cs rule: tcp_bytes.induct) auto

lemma datagrams_append [simp]: "datagrams (cs @ ds) = datagrams cs @ datagrams ds"
  by (induction cs rule: datagrams.induct) auto

lemma setup_sends_nothing [simp]:
  "tcp_bytes (with_read_timeout os timeout) = []" "datagrams (with_read_timeout os timeout) = []"
  by (cases os; simp add: with_read_timeout_def)+

lemma hello_calls_send [simp]:
  "tcp_bytes (hello_calls os name machine info) = send_msg (Hello VERSION machine name info)"
  "datagrams (hello_calls os name machine info) = []"
  by (simp_all add: hello_calls_def)

lemma udp_calls_send [simp]: "tcp_bytes (udp_calls addr own) = []" "datagrams (udp_calls addr own) = [pack own 0 KeepAlive]"
  by (simp_all add: udp_calls_def)

text \<open>One message on a fresh link is received whole, and nothing is left in the buffer.\<close>

lemma recv_first:
  assumes "healthy s" "pending_bytes s = send_msg m" "sendable m"
  shows "\<exists>t. recv (open_transport s) = Some (Inr (Msg m), t) \<and> tr_buf t = [] \<and> pending_bytes (tr_stream t) = []"
  using recv_delivers [of "open_transport s" m "[]"] assms
  by (auto simp: open_transport_def undelivered_def send_msg_def)

section \<open>The texts of the refusals\<close>

lemma utf8_valid_append: "utf8_valid xs \<Longrightarrow> utf8_valid ys \<Longrightarrow> utf8_valid (xs @ ys)"
proof (induction xs rule: utf8_valid.induct)
  case (2 a bs)
  consider "utf8_width a = 1" | "utf8_width a = 2" | "utf8_width a = 3" | "utf8_width a = 4"
    using 2(5) by (auto split: if_splits)
  then show ?case
  proof cases
    case 1 then show ?thesis using 2(1,5,6) by simp
  next
    case k: 2
    then obtain b cs where "bs = b # cs" "utf8_cont b" "utf8_valid cs" using 2(5) by (auto split: list.splits)
    then show ?thesis using k 2(2,6) by simp
  next
    case k: 3
    then obtain b c ds where "bs = b # c # ds" "utf8_second a b" "utf8_cont c" "utf8_valid ds"
      using 2(5) by (auto split: list.splits)
    then show ?thesis using k 2(3,6) by simp
  next
    case k: 4
    then obtain b c d es where "bs = b # c # d # es" "utf8_second a b" "utf8_cont c" "utf8_cont d" "utf8_valid es"
      using 2(5) by (auto split: list.splits)
    then show ?thesis using k 2(4,6) by simp
  qed
qed simp

lemma str_bytes_append: "str_bytes (s @ t) = str_bytes s @ str_bytes t"
  by (simp add: str_bytes_def)

lemma unat_of_char: "unat (of_char c :: byte) = of_char c"
proof -
  have "(of_char c :: byte) = word_of_nat (of_char c)" by (simp add: of_nat_of_char)
  then show ?thesis by (simp add: unat_of_nat take_bit_eq_mod)
qed

text \<open>Plain ASCII is valid UTF-8.\<close>

definition ascii :: "string \<Rightarrow> bool" where
  "ascii s \<longleftrightarrow> list_all (\<lambda>c. of_char c < (128 :: nat)) s"

lemma ascii_valid: "ascii s \<Longrightarrow> utf8_valid (str_bytes s)"
proof (induction s)
  case (Cons c s)
  then have "unat (of_char c :: byte) < 128"
    by (simp add: ascii_def unat_of_char)
  then show ?case using Cons by (simp add: str_bytes_def ascii_def utf8_width_def)
qed (simp add: str_bytes_def)

lemma ascii_append [simp]: "ascii (s @ t) \<longleftrightarrow> ascii s \<and> ascii t"
  by (simp add: ascii_def)

lemma ascii_digit: "n < 10 \<Longrightarrow> ascii [digit n]"
  by (simp add: ascii_def digit_def)

lemma ascii_decimal: "ascii (decimal n)"
proof (induction n rule: decimal.induct)
  case (1 n)
  then show ?case by (subst decimal.simps) (simp add: ascii_digit)
qed

lemma dashes_valid: "utf8_valid (str_bytes EM_DASH)" "utf8_valid (str_bytes EN_DASH)" "utf8_valid (str_bytes QUOTE)"
  by (simp_all add: EM_DASH_def EN_DASH_def QUOTE_def str_bytes_def utf8_width_def utf8_second_def utf8_cont_def)

lemma valid_Cons: "of_char c < (128 :: nat) \<Longrightarrow> utf8_valid (str_bytes (c # s)) = utf8_valid (str_bytes s)"
  using ascii_valid [of "[c]"] utf8_valid_append [of "str_bytes [c]" "str_bytes s"]
  by (simp add: str_bytes_def utf8_width_def unat_of_char)

lemma valid_Nil: "utf8_valid (str_bytes [])"
  by (simp add: str_bytes_def)

lemma valid_append: "utf8_valid (str_bytes s) \<Longrightarrow> utf8_valid (str_bytes t) \<Longrightarrow> utf8_valid (str_bytes (s @ t))"
  by (simp add: str_bytes_append utf8_valid_append)

lemmas valid_pieces = valid_Nil valid_append dashes_valid ascii_valid [OF ascii_decimal] ascii_valid

lemma length_decimal: "n < 100000 \<Longrightarrow> length (decimal n) \<le> 5"
  by (simp add: decimal.simps)

text \<open>
  Every refusal of a peer with a name of at most 65000 bytes is a message that arrives.
\<close>

lemma refusal_sendable:
  assumes "utf8_valid (str_bytes name)" "length name \<le> 65000" "ascii shown" "length shown \<le> 100"
    "refusal_reply shown name r = Some m"
  shows "sendable m"
proof -
  let ?t = "refusal_text shown name r"
  obtain code where m: "m = ErrorMsg code ?t" using assms(5) by (auto simp: refusal_reply_def)
  have short: "length (decimal (unat v)) \<le> 5" for v :: u16
    using unsigned_less [of v, where 'a = nat] by (intro length_decimal) simp
  have "utf8_valid (str_bytes ?t)"
    using assms(1,3) by (cases r) (simp_all add: valid_Cons valid_pieces)
  moreover have "length ?t \<le> 65400"
  proof (cases r)
    case (VersionMismatch v)
    then show ?thesis
      using short [of v] short [of VERSION] short [of MIN_PROTOCOL] short [of MAX_PROTOCOL]
      by (simp add: EM_DASH_def EN_DASH_def)
  qed (use assms(2,4) in \<open>simp_all add: EM_DASH_def QUOTE_def\<close>)
  ultimately show ?thesis
    unfolding m by (simp add: sendable_def str_ok_def MAX_PAYLOAD_def put_str_def put_u32_def put_u8_def)
qed

section \<open>The two ends\<close>

text \<open>What a refused hello of a compatible version is refused for.\<close>

lemma hello_refused:
  assumes "handshake peer (Inr (Msg (Hello VERSION machine name info))) sv = (Inl r, sv1)"
  shows "\<exists>code. refusal_code r = Some code"
proof -
  have "compatible VERSION" by (simp add: compatible_def const_defs)
  then show ?thesis
    using assms by (auto simp: handshake_def exchange_hello_def Let_def split: if_splits option.splits prod.splits sum.splits)
qed

lemma hello_refused_by:
  assumes "handshake peer (Inr (Msg (Hello VERSION machine name info))) sv = (Inl r, sv1)"
  shows "r \<in> {Revoked, NotLocal, NotAllowed, NameConflict}"
proof -
  have "compatible VERSION" by (simp add: compatible_def const_defs)
  then show ?thesis
    using assms by (auto simp: handshake_def exchange_hello_def Let_def split: if_splits option.splits prod.splits sum.splits)
qed

lemma hello_admitted:
  assumes "handshake peer (Inr (Msg (Hello VERSION machine name info))) sv = (Inr (a, w), sv1)"
  shows "w = Welcome VERSION (sv_id sv) (layout_snapshot sv1) (ad_id a)" "ad_machine a = machine" "ad_name a = name"
    "ad_info a = info"
  using assms by (auto simp: handshake_def exchange_hello_def Let_def split: if_splits option.splits prod.splits sum.splits)

lemma spawn_hello:
  assumes "healthy s" "pending_bytes s = send_msg (Hello VERSION machine name info)"
    "sendable (Hello VERSION machine name info)" "\<forall>c. fails c = None"
  shows "\<exists>tr :: transport. tr_buf tr = [] \<and> pending_bytes (tr_stream tr) = [] \<and>
    spawn os fails now t peer port shown s sv =
      (case handshake peer (Inr (Msg (Hello VERSION machine name info))) sv of
         (Inl r, sv1) \<Rightarrow> Some (with_read_timeout os (Some CLIENT_READ_TIMEOUT) @
            [TcpSend (send_msg (the (refusal_reply shown name r)))], Turned_away r, sv1)
       | (Inr (a, w), sv1) \<Rightarrow> Some (with_read_timeout os (Some CLIENT_READ_TIMEOUT) @ [TcpSend (send_msg w), CloneSocket],
            Serving a (open_transport (tr_stream tr)),
            announce (new_connection now a) peer port a (register now t peer a sv1)))"
proof -
  let ?m = "Hello VERSION machine name info"
  obtain tr where tr: "recv (open_transport s) = Some (Inr (Msg ?m), tr)" "tr_buf tr = []" "pending_bytes (tr_stream tr) = []"
    using recv_first [OF assms(1-3)] by blast
  have reply: "\<exists>m. refusal_reply shown name r = Some m" if "handshake peer (Inr (Msg ?m)) sv = (Inl r, sv1)" for r sv1
    using hello_refused [OF that] by (auto simp: refusal_reply_def)
  have "spawn os fails now t peer port shown s sv =
      (case handshake peer (Inr (Msg ?m)) sv of
         (Inl r, sv1) \<Rightarrow> Some (with_read_timeout os (Some CLIENT_READ_TIMEOUT) @
            [TcpSend (send_msg (the (refusal_reply shown name r)))], Turned_away r, sv1)
       | (Inr (a, w), sv1) \<Rightarrow> Some (with_read_timeout os (Some CLIENT_READ_TIMEOUT) @ [TcpSend (send_msg w), CloneSocket],
            Serving a (open_transport (tr_stream tr)),
            announce (new_connection now a) peer port a (register now t peer a sv1)))"
  proof (cases "handshake peer (Inr (Msg ?m)) sv")
    case (Pair out sv1)
    show ?thesis
    proof (cases out)
      case (Inl r)
      then obtain m where "refusal_reply shown name r = Some m" using reply Pair by blast
      then show ?thesis using tr(1) Inl Pair by (simp add: spawn_def make_calls_ok [OF assms(4)])
    next
      case (Inr aw)
      then show ?thesis using tr(1) Pair by (cases aw) (simp add: spawn_def make_calls_ok [OF assms(4)] Let_def)
    qed
  qed
  then show ?thesis using tr(2,3) by blast
qed

lemma connect_hello:
  assumes "healthy s" "pending_bytes s = send_msg m" "sendable m" "\<forall>c. fails c = None"
  shows "\<exists>tr :: transport. tr_buf tr = [] \<and> connect_on os fails addr name machine info s =
      (case on_welcome (Inr (Msg m)) of
         Inl e \<Rightarrow> (hello_calls os name machine info, Some (Inl e))
       | Inr (own, l, server) \<Rightarrow> (hello_calls os name machine info @ udp_calls addr own,
            Some (Inr \<lparr>ln_transport = tr, ln_own = own, ln_layout = l, ln_server = server\<rparr>)))"
proof -
  obtain tr where "recv (open_transport s) = Some (Inr (Msg m), tr)" "tr_buf tr = []"
    using recv_first [OF assms(1-3)] by blast
  then show ?thesis
    by (intro exI [of _ tr] conjI) (simp_all add: connect_on_def make_calls_ok [OF assms(4)] split: sum.split prod.split)
qed

text \<open>The first datagram of a client tells the server where to send the cursor stream.\<close>

lemma first_datagram_registers:
  assumes "sv_ips sv i = Some peer"
  shows "\<exists>sv'. on_datagram now (peer, p) (pack i 0 KeepAlive) sv = Some sv' \<and> sv_addrs sv' i = Some (peer, p)"
proof -
  have "unpack (pack i 0 KeepAlive) = Some \<lparr>dg_id = i, dg_seq = 0, dg_msg = KeepAlive\<rparr>"
    by (rule unpack_pack) (simp add: sendable_def)
  then show ?thesis
    using assms by (simp add: on_datagram_def learn_addr_def split: option.split)
qed

lemma announced:
  "sv_ips (announce c peer port a (register now t peer a sv)) (ad_id a) = Some peer"
  "sv_clients (announce c peer port a (register now t peer a sv)) (ad_id a) = Some t"
  "reachable (sv_session (announce c peer port a (register now t peer a sv))) (ad_id a)"
  "se_layout (sv_session (announce c peer port a (register now t peer a sv))) = se_layout (sv_session sv)"
  by (auto simp: announce_def register_def Let_def reachable_def on_client_connected_def split: option.split)

text \<open>
  C9. The two ends of a connection attempt agree.  When each reads what the other sent, however the
  network cuts it, the attempt ends in one of two ways.  Either the server serves a client with the
  name and id that were presented; then the client runs under the id the server registered, with the
  server's id and layout, the cursor may enter it, and its first datagram gives the server the
  address of the cursor stream.  Or the server turned it away by its policy or its name; then the
  client is told so, with the code and the text of that reason, and not with a broken link.
\<close>
theorem handshake_agrees:
  assumes client: "connect_on os fails addr name machine info s1 = (made, Some res)"
    and server: "spawn os' fails' now t peer port shown s2 sv = Some (made', out, sv')"
    and network: "healthy s1" "healthy s2" "pending_bytes s2 = tcp_bytes made" "pending_bytes s1 = tcp_bytes made'"
    and works: "\<forall>c. fails c = None" "\<forall>c. fails' c = None"
    and fits: "sendable (Hello VERSION machine name info)" "length name \<le> 65000" "ascii shown" "length shown \<le> 100"
      "\<And>a w sv1. handshake peer (Inr (Msg (Hello VERSION machine name info))) sv = (Inr (a, w), sv1) \<Longrightarrow> sendable w"
  shows "(\<exists>a tr ln. out = Serving a tr \<and> ad_name a = name \<and> ad_machine a = machine \<and> ad_info a = info \<and>
      res = Inr ln \<and> ln_own ln = ad_id a \<and> ln_server ln = sv_id sv \<and>
      screens (ln_layout ln) = screens (se_layout (sv_session sv')) \<and>
      sv_clients sv' (ad_id a) = Some t \<and> reachable (sv_session sv') (ad_id a) \<and>
      (\<forall>p later. \<exists>sv''. on_datagram later (peer, p) (hd (datagrams made)) sv' = Some sv'' \<and>
        sv_addrs sv'' (ad_id a) = Some (peer, p))) \<or>
    (\<exists>r code. out = Turned_away r \<and> refusal_code r = Some code \<and> r \<in> {Revoked, NotLocal, NotAllowed, NameConflict} \<and>
      res = Inl (Refused code (refusal_text shown name r)))"
proof -
  let ?m = "Hello VERSION machine name info"
  have "tcp_bytes made = send_msg ?m"
    using client by (auto simp: connect_on_def make_calls_ok [OF works(1)] split: option.splits prod.splits sum.splits)
  then have s2: "pending_bytes s2 = send_msg ?m" using network(3) by simp
  obtain tr :: transport where sp: "spawn os' fails' now t peer port shown s2 sv =
      (case handshake peer (Inr (Msg ?m)) sv of
         (Inl r, sv1) \<Rightarrow> Some (with_read_timeout os' (Some CLIENT_READ_TIMEOUT) @
            [TcpSend (send_msg (the (refusal_reply shown name r)))], Turned_away r, sv1)
       | (Inr (a, w), sv1) \<Rightarrow> Some (with_read_timeout os' (Some CLIENT_READ_TIMEOUT) @ [TcpSend (send_msg w), CloneSocket],
            Serving a (open_transport (tr_stream tr)),
            announce (new_connection now a) peer port a (register now t peer a sv1)))"
    using spawn_hello [OF network(2) s2 fits(1) works(2), of os' now t peer port shown sv] by blast
  obtain out1 sv1 where h: "handshake peer (Inr (Msg ?m)) sv = (out1, sv1)" by fastforce
  show ?thesis
  proof (cases out1)
    case (Inl r)
    obtain code where code: "refusal_code r = Some code" using hello_refused h Inl by blast
    have r: "out = Turned_away r" "made' = with_read_timeout os' (Some CLIENT_READ_TIMEOUT) @
        [TcpSend (send_msg (ErrorMsg code (refusal_text shown name r)))]"
      using server sp h Inl code by (simp_all add: refusal_reply_def)
    have "pending_bytes s1 = send_msg (ErrorMsg code (refusal_text shown name r))" using network(4) r(2) by simp
    moreover have "sendable (ErrorMsg code (refusal_text shown name r))"
      using refusal_sendable [of name shown r] fits(1-4) code
      by (simp add: refusal_reply_def sendable_def str_ok_def)
    ultimately have "res = Inl (Refused code (refusal_text shown name r))"
      using connect_hello [OF network(1) _ _ works(1), of _ os addr name machine info] client by fastforce
    moreover have "r \<in> {Revoked, NotLocal, NotAllowed, NameConflict}"
      using hello_refused_by [of peer machine name info sv] h Inl by blast
    ultimately show ?thesis using r(1) code by blast
  next
    case (Inr aw)
    obtain a w where aw: "aw = (a, w)" by fastforce
    note admitted = hello_admitted [of peer machine name info sv a w sv1]
    have out: "out = Serving a (open_transport (tr_stream tr))" "tcp_bytes made' = send_msg w"
        "sv' = announce (new_connection now a) peer port a (register now t peer a sv1)"
      using server sp h Inr aw by auto
    have w: "sendable w" "w = Welcome VERSION (sv_id sv) (layout_snapshot sv1) (ad_id a)"
      using fits(5) admitted(1) h Inr aw by simp_all
    have "compatible VERSION" by (simp add: compatible_def const_defs)
    then obtain tr' where "res = Inr \<lparr>ln_transport = tr', ln_own = ad_id a, ln_layout = layout_snapshot sv1, ln_server = sv_id sv\<rparr>"
        "made = hello_calls os name machine info @ udp_calls addr (ad_id a)"
      using connect_hello [OF network(1) _ w(1) works(1), of os addr name machine info] client w(2) network(4) out(2)
      by auto
    then show ?thesis
      using out(1) admitted(2-4) h Inr aw announced [where sv = sv1 and a = a and t = t and peer = peer] first_datagram_registers
      unfolding out(3) by (auto simp: layout_snapshot_def)
  qed
qed

text \<open>One machine connects, with the reads of both ends cut in the middle.\<close>

definition halved :: "byte list \<Rightarrow> read_ev list" where
  "halved bs = [Chunk (take 3 bs), Chunk (drop 3 bs)]"

lemma halved_healthy: "3 < length bs \<Longrightarrow> healthy (halved bs) \<and> pending_bytes (halved bs) = bs"
  by (auto simp: halved_def)

definition two_server :: server where
  "two_server = new_server two_session default_policy ''id''"

definition hp_welcome :: message where
  "hp_welcome = Welcome VERSION ''id'' (layout_snapshot (two_server\<lparr>sv_session := update_screen_info 1 default_screen_info two_session\<rparr>)) 1"

lemma hp_handshake:
  "handshake (V4 10 0 0 7) (Inr (Msg hello_hp)) two_server =
     (Inr (hp_client, hp_welcome), two_server\<lparr>sv_session := update_screen_info 1 default_screen_info two_session\<rparr>)"
  using hello_hp_admitted
  by (simp add: handshake_def two_server_def new_server_def Let_def hp_client_def hp_welcome_def)

lemma hp_screens:
  "screens (layout_snapshot (two_server\<lparr>sv_session := update_screen_info 1 default_screen_info two_session\<rparr>)) =
    [\<lparr>sc_id = 0, sc_name = ''pc'', sc_rect = \<lparr>rx = 0, ry = 0, rw = 1920, rh = 1080\<rparr>\<rparr>,
     \<lparr>sc_id = 1, sc_name = ''hp'', sc_rect = \<lparr>rx = -1930, ry = 4, rw = 1920, rh = 1080\<rparr>\<rparr>]"
  by (simp add: layout_snapshot_def update_screen_info_def two_session_facts two_screens_def default_screen_info_def dim_i32_def wrap_i32_def)

lemma hp_sendable: "sendable hello_hp" "sendable hp_welcome"
proof -
  show "sendable hello_hp"
    by (simp add: hello_hp_def sendable_def str_ok_def str_bytes_def utf8_width_def screen_info_ok_def
        default_screen_info_def MAX_DIMENSION_def F32_ONE_def f32_is_finite_def f32_le_zero_def
        MAX_PAYLOAD_def put_str_def put_screen_info_def put_u16_def put_u32_def)
  show "sendable hp_welcome"
    by (simp add: hp_welcome_def sendable_def layout_ok_def hp_screens screen_ok_def rect_in_i32_def str_ok_def str_bytes_def utf8_width_def
        MAX_PAYLOAD_def put_layout_def put_screen_def put_rect_def put_str_def put_u8_def put_u16_def put_u32_def put_i32_def in_i32_def)
qed

theorem handshake_agrees_witness:
  "\<exists>made made' ln tr sv'.
     connect_on OnUnix (\<lambda>_. None) ''pc:24800'' ''hp'' ''cafe0123'' default_screen_info (halved (send_msg hp_welcome))
       = (made, Some (Inr ln)) \<and>
     spawn OnWindows (\<lambda>_. None) 5 7 (V4 10 0 0 7) 4711 ''10.0.0.7:4711'' (halved (send_msg hello_hp)) two_server
       = Some (made', Serving hp_client tr, sv') \<and>
     ln_own ln = 1 \<and> sv_clients sv' 1 = Some 7"
proof -
  define ok where "ok = (\<lambda>_ :: net_call. None :: io_error option)"
  have works: "\<forall>c. ok c = None" by (simp add: ok_def)
  have long: "3 < length (send_msg m)" for m by (simp add: send_msg_def HEADER_LEN_def)
  have hp: "hello_hp = Hello VERSION ''cafe0123'' ''hp'' default_screen_info" by (simp add: hello_hp_def)
  have w: "compatible VERSION" by (simp add: compatible_def const_defs)
  let ?s1 = "halved (send_msg hp_welcome)" and ?s2 = "halved (send_msg hello_hp)"
  have s: "healthy ?s1" "healthy ?s2" "pending_bytes ?s1 = send_msg hp_welcome" "pending_bytes ?s2 = send_msg hello_hp"
    using halved_healthy [OF long] by auto
  obtain ln where c: "connect_on OnUnix ok ''pc:24800'' ''hp'' ''cafe0123'' default_screen_info ?s1
      = (hello_calls OnUnix ''hp'' ''cafe0123'' default_screen_info @ udp_calls ''pc:24800'' 1, Some (Inr ln))"
    using connect_hello [OF s(1,3) hp_sendable(2) works, of OnUnix "''pc:24800''" "''hp''" "''cafe0123''" default_screen_info] w
    by (auto simp: hp_welcome_def)
  obtain tr sv' where v: "spawn OnWindows ok 5 7 (V4 10 0 0 7) 4711 ''10.0.0.7:4711'' ?s2 two_server
      = Some (with_read_timeout OnWindows (Some CLIENT_READ_TIMEOUT) @ [TcpSend (send_msg hp_welcome), CloneSocket],
          Serving hp_client tr, sv')"
    using spawn_hello [OF s(2) _ hp_sendable(1) [unfolded hp] works, of OnWindows 5 7 "V4 10 0 0 7" 4711
        "''10.0.0.7:4711''" two_server] s(4) hp_handshake by (auto simp: hp)
  have "ln_own ln = 1 \<and> sv_clients sv' 1 = Some 7"
    using handshake_agrees [OF c v] works s hp_sendable hp_handshake
    by (simp add: hp hp_client_def ascii_def)
  then show ?thesis using c v unfolding ok_def by blast
qed

section \<open>Dialing\<close>

text \<open>The client dials at most three seconds for each address it knows.\<close>

lemma dial_bounded:
  "\<forall>sa \<in> set addrs. fst (try sa) \<le> CONNECT_TIMEOUT \<Longrightarrow> fst (dial try addrs e) \<le> length addrs * CONNECT_TIMEOUT"
proof (induction addrs arbitrary: e)
  case (Cons sa addrs)
  then have "fst (dial try addrs (Some e')) \<le> length addrs * CONNECT_TIMEOUT" for e' by simp
  then show ?case using Cons.prems by (auto split: prod.split sum.split intro: add_mono) (metis fst_conv add_mono trans_le_add1)+
qed simp

text \<open>It is connected to the first address that answers; an error is the last one met.\<close>

lemma dial_result:
  "snd (dial try addrs e) =
     (case List.find (\<lambda>sa. \<exists>s. snd (try sa) = Inr s) addrs of
        Some sa \<Rightarrow> Inr (projr (snd (try sa)))
      | None \<Rightarrow> Inl (if addrs = [] then e else Some (projl (snd (try (last addrs))))))"
  by (induction addrs arbitrary: e) (auto split: prod.split sum.split option.split, (metis snd_conv)+)

text \<open>No attempt ends in a panic.\<close>

lemma connect_total: "snd (client_connect os fails resolved try addr name machine info) \<noteq> None"
  by (auto simp: client_connect_def connect_on_def recv_total split: sum.split prod.split option.split)

lemma spawn_total: "spawn os fails now t peer port shown s sv \<noteq> None"
  by (auto simp: spawn_def Let_def recv_total split: sum.split prod.split option.split)

section \<open>What it does not do\<close>

text \<open>
  The probes of a dead peer add up to the promised bound, but on Unix they are never turned on: the
  options that shape them are set, the one that enables them is not.
\<close>

lemma keepalive_never_on:
  "unat (TCP_KEEPALIVE_SECS_BEFORE + TCP_KEEPALIVE_RETRIES * TCP_KEEPALIVE_SECS_INTERVAL) * 1000 = DEAD_PEER_TIMEOUT \<and>
   SetOpt SoKeepalive \<notin> set (with_read_timeout OnUnix timeout)"
  by (simp add: with_read_timeout_def TCP_KEEPALIVE_SECS_BEFORE_def TCP_KEEPALIVE_RETRIES_def TCP_KEEPALIVE_SECS_INTERVAL_def
      DEAD_PEER_TIMEOUT_def)

text \<open>A platform without one of the keepalive options gets no transport at all.\<close>

lemma keepalive_failure_is_fatal:
  "fails (SetOpt (KeepIdle TCP_KEEPALIVE_SECS_BEFORE)) = Some e \<Longrightarrow> fails (SetOpt (NoDelay True)) = None \<Longrightarrow>
   fails (SetOpt (ReadTimeout timeout)) = None \<Longrightarrow> snd (make_calls fails (with_read_timeout OnUnix timeout)) = Some e"
  by (simp add: with_read_timeout_def make_calls.simps)

text \<open>
  The read timeout of the control loop holds for the welcome too: a server that takes more than a tenth
  of a second to answer has admitted the client, and the client gives up.
\<close>

lemma slow_welcome_is_fatal:
  assumes "err_kind e = TimedOut" "\<forall>c. fails c = None"
  shows "connect_on os fails addr name machine info (ReadErr e # s) = (hello_calls os name machine info, Some (Inl NoWelcome))"
  using assms by (subst connect_on_def) (simp add: make_calls_ok open_transport_def recv.simps try_decode_def HEADER_LEN_def)

text \<open>What the reader of a connection finds in its buffer: nothing, whatever the handshake had read beyond the hello.\<close>

lemma reader_starts_empty:
  "spawn os fails now t peer port shown s sv = Some (made, Serving a tr, sv') \<Longrightarrow> tr_buf tr = []"
  by (auto simp: spawn_def open_transport_def Let_def split: sum.splits prod.splits option.splits)

text \<open>
  A peer with a name of the longest length that decodes is refused in a text that does not: it sees a
  broken link, and calls again.
\<close>

lemma long_text_refused:
  assumes "64 * 1024 < length t" "length t < 2 ^ 31"
  shows "from_frame (to_frame (ErrorMsg c t)) = Inl (WireError ''string too long'')"
proof -
  have "unat (word_of_nat (length t) :: u32) = length t"
    using assms(2) by (simp add: unat_of_nat take_bit_nat_eq_self)
  then have str: "get_str (rb_at pre (put_str t)) = Inl (WireError ''string too long'')" for pre
    using assms(1) by (simp add: get_str_def put_str_def u32_codec.get_put)
  have byte: "get_u8 (rb_at [] (put_u8 c @ put_str t)) = Inr (c, rb_at ([] @ put_u8 c) (put_str t))"
    by (rule u8_codec.get_put) simp
  show ?thesis
    using str byte by (simp add: from_frame_def to_frame_def new_frame_def new_buf_at get_payload_def)
qed

lemma long_name_hides_refusal:
  assumes "length name = 64 * 1024" "refusal_reply shown name NotAllowed = Some m"
  shows "from_frame (to_frame m) = Inl (WireError ''string too long'')"
proof -
  have "m = ErrorMsg ERR_NOT_ALLOWED (refusal_text shown name NotAllowed)"
    using assms(2) by (simp add: refusal_reply_def)
  moreover have "64 * 1024 < length (refusal_text shown name NotAllowed)" "length (refusal_text shown name NotAllowed) < 2 ^ 31"
    using assms(1) by (simp_all add: QUOTE_def EM_DASH_def)
  ultimately show ?thesis using long_text_refused by blast
qed

end
