(* ===== verification/Server_App.thy ===== *)
theory Server_App
  imports Config_Rules Client_App Logging
begin

text \<open>
  The server as a process: its start, from the command line to the bound sockets, and its end
  (\<open>app/src/bin/kvmshare-server.rs\<close>, \<open>run\<close>; \<open>core/src/server/mod.rs\<close>, \<open>with_options\<close>), the main loop with the
  channel of the app layer (\<open>run\<close>, \<open>drain_controls\<close>), the loop of the datagram receiver
  (\<open>core/src/server/udp.rs\<close>), and the thread that keeps the state files of the GUI.

  TOML and JSON are libraries: \<open>parse\<close>, \<open>render\<close> and \<open>json\<close> are parameters.
\<close>

section \<open>The start\<close>

datatype boot_error =
  BootArgs arg_error | BootLevel string | BootRole guard_error | BootConfig load_error | BootPlatform | BootBind io_error

text \<open>
  What the environment answers.  The two sockets are bound one after the other: \<open>be_tcp\<close> gives the port
  that was bound (the one asked for, or a free one for port 0) or the error.
\<close>

record boot_env =
  be_parse :: "string \<Rightarrow> config option"
  be_render :: "config \<Rightarrow> string option"
  be_host :: string
  be_display :: "screen_info option"
  be_not_found :: bool
  be_writable :: bool
  be_log_env :: "string option"
  be_state_dir :: bool
  be_platform :: bool
  be_tcp :: "u16 \<Rightarrow> io_error + u16"
  be_udp :: "u16 \<Rightarrow> io_error option"
  be_udp_timeout :: "nat \<Rightarrow> io_error option"

definition IDLE_TIMEOUT :: nat where "IDLE_TIMEOUT = 8"

text \<open>\<open>with_options\<close>: the datagram socket takes the port of the listener.\<close>

definition with_options :: "boot_env \<Rightarrow> session \<Rightarrow> u16 \<Rightarrow> policy \<Rightarrow> string \<Rightarrow> io_error + server \<times> u16" where
  "with_options env s port p machine =
     (case be_tcp env port of
        Inl e \<Rightarrow> Inl e
      | Inr bound \<Rightarrow>
          (case be_udp env bound of
             Some e \<Rightarrow> Inl e
           | None \<Rightarrow>
               (case be_udp_timeout env IDLE_TIMEOUT of
                  Some e \<Rightarrow> Inl e
                | None \<Rightarrow> Inr (new_server s p machine, bound))))"

definition with_control :: "boot_env \<Rightarrow> session \<Rightarrow> u16 \<Rightarrow> io_error + server \<times> u16" where
  "with_control env s port = with_options env s port default_policy []"

text \<open>The configuration a start works with, and what is in the file then.\<close>

definition boot_config :: "boot_env \<Rightarrow> string option \<Rightarrow> (load_error + config) \<times> string option" where
  "boot_config env file =
     (case load_or_create (be_parse env) (be_render env) (be_host env) (be_display env) (be_not_found env)
         (be_writable env) file of
        (Inl e, file1) \<Rightarrow> (Inl e, file1)
      | (Inr (c, created), file1) \<Rightarrow>
          (case correct_local_screen (be_display env) c of
             (True, c') \<Rightarrow> (Inr c', snd (save_config (be_render env) (be_writable env) c' file1))
           | (False, c') \<Rightarrow> (Inr c', file1)))"

record running_server =
  rs_server :: server
  rs_port :: u16
  rs_config :: config
  rs_locks :: "role \<Rightarrow> nat option"

text \<open>
  The start of process \<open>pid\<close>: the outcome, the configuration file and the machine id file it leaves.
  The outer \<open>None\<close> is a panic (of the id without a random source), or a command line that only prints.
  Left out are the log file, the priority of the process, and the threads that are spawned on the way:
  what they do are the loops below and the polls of \<open>Config\<close>.
\<close>

definition boot ::
  "boot_env \<Rightarrow> server_args parsed \<Rightarrow> (role \<Rightarrow> nat option) \<Rightarrow> nat \<Rightarrow> (string option \<Rightarrow> (string \<times> string option) option)
    \<Rightarrow> string option \<Rightarrow> string option \<Rightarrow> ((boot_error + running_server) \<times> string option \<times> string option) option" where
  "boot env args locks pid ident id_file file =
     (case args of
        Prints \<Rightarrow> None
      | Rejected e \<Rightarrow> Some (Inl (BootArgs e), file, id_file)
      | Args a \<Rightarrow>
          let lvl = (case sa_level a of Some l \<Rightarrow> l | None \<Rightarrow> level_from_env_or_default (be_log_env env)) in
          if parse_level lvl = None then Some (Inl (BootLevel lvl), file, id_file)
          else (case acquire_in (be_state_dir env) ''server'' locks pid of
             Inl e \<Rightarrow> Some (Inl (BootRole e), file, id_file)
           | Inr locks' \<Rightarrow>
               (case boot_config env file of
                  (Inl e, file1) \<Rightarrow> Some (Inl (BootConfig e), file1, id_file)
                | (Inr c, file1) \<Rightarrow>
                    if \<not> be_platform env then Some (Inl BootPlatform, file1, id_file)
                    else (case session_from_config c of
                       None \<Rightarrow> None
                     | Some s \<Rightarrow>
                         (case ident id_file of
                            None \<Rightarrow> None
                          | Some (machine, id_file1) \<Rightarrow>
                              (case with_options env s (effective_port a c) (network_policy c) machine of
                                 Inl e \<Rightarrow> Some (Inl (BootBind e), file1, id_file1)
                               | Inr (sv, port) \<Rightarrow>
                                   Some (Inr \<lparr>rs_server = engine_do [SetBoundChords (bound_chords s)] sv, rs_port = port,
                                       rs_config = c, rs_locks = locks'\<rparr>, file1, id_file1)))))))"

section \<open>The state files\<close>

text \<open>
  The files of the GUI: the list of clients, and the marker that control is away.  \<open>ok\<close> says whether a
  write and its rename succeed; a removal always does.
\<close>

type_synonym client_table = "(string \<times> string \<times> (ip \<times> u16) \<times> nat) list"

record gui_files =
  gf_clients :: "string option"
  gf_away :: bool

definition persist_control :: "bool \<Rightarrow> bool \<Rightarrow> gui_files \<Rightarrow> gui_files" where
  "persist_control ok away f =
     (if \<not> away then f\<lparr>gf_away := False\<rparr> else if ok then f\<lparr>gf_away := True\<rparr> else f)"

definition persist_clients :: "(client_table \<Rightarrow> string option) \<Rightarrow> bool \<Rightarrow> client_table \<Rightarrow> gui_files \<Rightarrow> gui_files" where
  "persist_clients json ok clients f =
     (case json clients of
        None \<Rightarrow> f
      | Some txt \<Rightarrow> if ok then f\<lparr>gf_clients := Some txt\<rparr> else f)"

text \<open>The loop of the event sink: the table, the marker, and the list after each event.\<close>

fun event_sink ::
  "(string \<Rightarrow> config option) \<Rightarrow> (config \<Rightarrow> string option) \<Rightarrow> (client_table \<Rightarrow> string option) \<Rightarrow> bool \<Rightarrow> server_event list
    \<Rightarrow> sink \<times> gui_files \<Rightarrow> sink \<times> gui_files" where
  "event_sink parse render json ok [] (k, f) = (k, f)"
| "event_sink parse render json ok (e # es) (k, f) =
     (let k' = sink_event parse render ok e k;
          f1 = (case e of ControlChanged away \<Rightarrow> persist_control ok away f | _ \<Rightarrow> f) in
      event_sink parse render json ok es (k', persist_clients json ok (sk_clients k') f1))"

text \<open>A start removes the list of the last session, an end both files.\<close>

definition files_at_start :: "gui_files \<Rightarrow> gui_files" where
  "files_at_start f = f\<lparr>gf_clients := None\<rparr>"

definition files_at_end :: "gui_files \<Rightarrow> gui_files" where
  "files_at_end f = \<lparr>gf_clients = None, gf_away = False\<rparr>"

section \<open>The loops\<close>

text \<open>What \<open>recv_timeout\<close> on the input channel gives.\<close>

datatype input_event = InputMsg message | InputQuiet | InputGone

fun drain_controls :: "nat \<Rightarrow> control list \<Rightarrow> server \<Rightarrow> server option" where
  "drain_controls now [] sv = Some sv"
| "drain_controls now (c # cs) sv = Option.bind (apply_control now c sv) (drain_controls now cs)"

text \<open>A turn of the main loop: whether it goes on, and what is left in the channel.\<close>

fun main_turn :: "nat \<Rightarrow> input_event \<Rightarrow> control list \<Rightarrow> server \<Rightarrow> (bool \<times> control list \<times> server) option" where
  "main_turn now (InputMsg m) cs sv = map_option (\<lambda>sv'. (True, cs, sv')) (handle_local_input now m sv)"
| "main_turn now InputQuiet cs sv = map_option (\<lambda>sv'. (True, [], sv')) (drain_controls now cs sv)"
| "main_turn now InputGone cs sv = Some (False, cs, sv)"

text \<open>A run of the main loop; each turn finds in the channel what the app layer has sent by then.\<close>

fun main_loop :: "(nat \<times> control list \<times> input_event) list \<Rightarrow> control list \<Rightarrow> server \<Rightarrow> (control list \<times> server) option" where
  "main_loop [] cs sv = Some (cs, sv)"
| "main_loop ((now, sent, e) # es) cs sv =
     (case main_turn now e (cs @ sent) sv of
        None \<Rightarrow> None
      | Some (True, cs', sv') \<Rightarrow> main_loop es cs' sv'
      | Some (False, cs', sv') \<Rightarrow> Some (cs', sv'))"

text \<open>
  A turn of the datagram receiver: a datagram (cut to the buffer of 1500 bytes), a read that timed out,
  or another error, after which it sleeps.
\<close>

datatype udp_event = UdpGot "ip \<times> u16" "byte list" | UdpQuiet | UdpError io_error

fun udp_turn :: "nat \<Rightarrow> udp_event \<Rightarrow> server \<Rightarrow> server option" where
  "udp_turn now (UdpGot src bytes) sv = on_datagram now src (take 1500 bytes) sv"
| "udp_turn now UdpQuiet sv = check_active_beacon_staleness now sv"
| "udp_turn now (UdpError e) sv = Some sv"

fun udp_loop :: "(nat \<times> udp_event) list \<Rightarrow> server \<Rightarrow> server option" where
  "udp_loop [] sv = Some sv"
| "udp_loop ((now, e) # es) sv = Option.bind (udp_turn now e sv) (udp_loop es)"

end
