(* ===== verification/Server_App_Rules.thy ===== *)
theory Server_App_Rules
  imports Server_App Config_Store Server_Properties
begin

text \<open>
  What a start of the server guarantees, what the loops do with the messages of the app layer, and
  what the list of clients of the GUI says.
\<close>

section \<open>The configuration of a start\<close>

lemma display_sizes:
  assumes "screen_info_ok info"
  shows "max (si_width info) 1 = si_width info" "max (si_height info) 1 = si_height info"
    "0 < si_width info" "0 < si_height info" "si_width info \<le> MAX_DIMENSION" "si_height info \<le> MAX_DIMENSION"
  using assms by (auto simp: screen_info_ok_def max_absorb1 word_gt_0)

lemma for_this_machine_valid:
  assumes "trim host \<noteq> []" "screen_info_ok info"
  shows "validate (for_this_machine host (Some info)) = Inr ()"
proof -
  have "f32_is_finite F32_ONE" "\<not> f32_le_zero F32_ONE" "\<not> f32_above_ten F32_ONE"
    by (simp_all add: f32_is_finite_def f32_le_zero_def f32_above_ten_def F32_ONE_def)
  then show ?thesis
    using assms(1) display_sizes [OF assms(2)]
    by (simp add: for_this_machine_def validate_def max_absorb1 word_gt_0 not_less)
qed

lemma shift_screen_ok: "screen_config_ok (shift_screen ow oh dx dy s) = screen_config_ok s"
  "sf_name (shift_screen ow oh dx dy s) = sf_name s"
  by (simp_all add: shift_screen_def screen_config_ok_def Let_def)

lemma correction_valid:
  assumes "validate c = Inr ()" "correct_local_screen_to w h c = (changed, c')"
    "0 < w" "w \<le> MAX_DIMENSION" "0 < h" "h \<le> MAX_DIMENSION"
  shows "validate c' = Inr ()"
proof -
  have "list_all screen_config_ok (cf_screens c') \<and> map sf_name (cf_screens c') = map sf_name (cf_screens c)"
    using assms by (auto simp: correct_local_screen_to_def validate_ok Let_def shift_screen_ok list_all_iff
        split: list.splits if_splits) (auto simp: screen_config_ok_def)
  then show ?thesis using assms(1) by (auto simp: validate_ok)
qed

lemma correction_sizes:
  assumes "cf_screens c \<noteq> []" "correct_local_screen_to w h c = (changed, c')"
  shows "\<exists>l others. cf_screens c' = l # others \<and> sf_width l = w \<and> sf_height l = h"
  using assms by (auto simp: correct_local_screen_to_def Let_def split: list.splits if_splits)

lemma correction_settles:
  assumes "cf_screens c = l # others" "sf_width l = w" "sf_height l = h"
  shows "correct_local_screen_to w h c = (False, c)"
  using assms by (simp add: correct_local_screen_to_def)

text \<open>
  A start on a machine with a display: the file it leaves holds the configuration it runs with, whose
  local screen has the size of the display; another start finds nothing to change.
\<close>

lemma boot_config_fits:
  assumes toml: "\<And>c t. be_render env c = Some t \<Longrightarrow> be_parse env t = Some c"
    and "be_display env = Some info" "screen_info_ok info" "trim (be_host env) \<noteq> []" "be_writable env"
    "boot_config env file = (Inr c, file')" "be_render env c \<noteq> None"
  shows "load_config (be_parse env) file' = Inr c" "boot_config env file' = (Inr c, file')"
    "\<exists>l others. cf_screens c = l # others \<and> sf_width l = si_width info \<and> sf_height l = si_height info"
proof -
  let ?w = "si_width info" and ?h = "si_height info"
  note d = display_sizes [OF assms(3)]
  have saved: "\<exists>t. save_config (be_render env) True c0 f = (Inr (), Some t) \<and> be_parse env t = Some c0"
    if "be_render env c0 \<noteq> None" for c0 f
    using toml [of c0] that by (auto simp: save_config_def)
  obtain c0 created file1 where l: "load_or_create (be_parse env) (be_render env) (be_host env) (be_display env)
      (be_not_found env) (be_writable env) file = (Inr (c0, created), file1)"
    using assms(6) by (auto simp: boot_config_def split: prod.splits sum.splits)
  have c0: "load_config (be_parse env) file1 = Inr c0"
  proof (cases "file")
    case None
    then have nf: "be_not_found env" "c0 = for_this_machine (be_host env) (Some info)"
        "save_config (be_render env) True c0 None = (Inr (), file1)"
      using l assms(2,5) by (auto simp: load_or_create_def Let_def split: if_splits prod.splits sum.splits)
    then have "be_render env c0 \<noteq> None" by (cases "be_render env c0") (auto simp: save_config_def)
    then show ?thesis
      using nf saved [of c0 None] for_this_machine_valid [OF assms(4,3)] by (auto simp: load_config_ok)
  next
    case (Some t)
    then show ?thesis using l by (cases "load_config (be_parse env) (Some t)") (auto simp: load_or_create_def)
  qed
  then have v0: "validate c0 = Inr ()" "cf_screens c0 \<noteq> []" by (auto simp: load_config_ok validate_ok)
  obtain changed where k: "correct_local_screen_to ?w ?h c0 = (changed, c)"
      "file' = (if changed then snd (save_config (be_render env) True c file1) else file1)"
    using assms(2,5,6) l d(1,2)
    by (auto simp: boot_config_def correct_local_screen_def split: prod.splits bool.splits if_splits)
  have v: "validate c = Inr ()" using correction_valid [OF v0(1) k(1) d(3,5,4,6)] .
  show loads: "load_config (be_parse env) file' = Inr c"
  proof (cases changed)
    case True
    then show ?thesis using k(2) v saved [OF assms(7), of file1] by (auto simp: load_config_ok)
  next
    case False
    then have "c = c0" using k(1) by (auto simp: correct_local_screen_to_def Let_def split: list.splits if_splits)
    then show ?thesis using False k(2) c0 by simp
  qed
  show sizes: "\<exists>l others. cf_screens c = l # others \<and> sf_width l = ?w \<and> sf_height l = ?h"
    using correction_sizes [OF v0(2) k(1)] .
  obtain t where "file' = Some t" using loads by (auto simp: load_config_ok)
  then show "boot_config env file' = (Inr c, file')"
    using sizes loads assms(2) d(1,2) correction_settles [of c]
    by (auto simp: boot_config_def load_or_create_def correct_local_screen_def)
qed

section \<open>The start\<close>

text \<open>The local rectangle of the session has the size of the local screen of the configuration.\<close>

lemma session_local_size:
  assumes "cf_screens c = l # others" "session_from_config c = Some s"
    "sf_width l \<le> MAX_DIMENSION" "sf_height l \<le> MAX_DIMENSION" "0 < sf_width l" "0 < sf_height l"
  shows "rw (se_local s) = uint (sf_width l)" "rh (se_local s) = uint (sf_height l)" "se_mode s = Local"
proof -
  have ne: "cf_screens c \<noteq> []" and n: "0 < length (cf_screens c)" using assms(1) by simp_all
  have s: "se_local s = sc_rect (the (find_screen (to_layout c) 0))" "se_mode s = Local"
    using session_from_config_new [OF ne] assms(2) by auto
  obtain sc rest where l: "screens (to_layout c) = sc # rest" "sc_id sc = 0"
    using to_layout_nth(1,2) [OF n] n by (cases "screens (to_layout c)") auto
  have "same_shapes (map config_screen (enumerate 0 (cf_screens c))) (sc # rest)"
    using to_layout_shapes [of c] l(1) by simp
  then have "rw (sc_rect sc) = wrap_i32 (uint (sf_width l))" "rh (sc_rect sc) = wrap_i32 (uint (sf_height l))"
    using assms(1) by (auto simp: same_shapes_def config_screen_def config_rect_def)
  moreover have "find_screen (to_layout c) 0 = Some sc" using l by (simp add: find_screen_def)
  ultimately show "rw (se_local s) = uint (sf_width l)" "rh (se_local s) = uint (sf_height l)" "se_mode s = Local"
    using s config_dim(1) assms(3-6) by simp_all
qed

text \<open>
  C33. A server that starts fits its machine.  When a start succeeds on a machine with a display, with a
  file that can be written, then whatever the file was, or if there was none: the process holds the
  lock of the server role; the local screen of its session has the size of the display, and the cursor
  is at home; the file left behind loads to the configuration it runs with, and the next start on it
  changes nothing; policy and port are those of the file, but for a port on the command line; nobody
  is connected, and the capture has been told the chords.  TOML is assumed to write the configuration
  and to read back what it writes.
\<close>
theorem started_server_fits_machine:
  assumes toml: "\<And>c t. be_render env c = Some t \<Longrightarrow> be_parse env t = Some c" "be_render env (rs_config r) \<noteq> None"
    and env: "be_display env = Some info" "screen_info_ok info" "trim (be_host env) \<noteq> []" "be_writable env"
    and boot: "boot env (Args a) locks pid ident id_file file = Some (Inr r, file', id_file')"
  shows "rs_locks r ServerRole = Some pid \<and>
    rw (se_local (sv_session (rs_server r))) = uint (si_width info) \<and>
    rh (se_local (sv_session (rs_server r))) = uint (si_height info) \<and> se_mode (sv_session (rs_server r)) = Local \<and>
    load_config (be_parse env) file' = Inr (rs_config r) \<and> boot_config env file' = (Inr (rs_config r), file') \<and>
    sv_policy (rs_server r) = network_policy (rs_config r) \<and>
    be_tcp env (case sa_port a of None \<Rightarrow> cf_port (rs_config r) | Some n \<Rightarrow> if n = 0 then cf_port (rs_config r) else n)
      = Inr (rs_port r) \<and>
    registered (rs_server r) = [] \<and>
    sv_calls (rs_server r) = [SetBoundChords (bound_chords (sv_session (rs_server r)))]"
proof -
  obtain locks' c s machine sv port where steps: "acquire_in (be_state_dir env) ''server'' locks pid = Inr locks'"
      "boot_config env file = (Inr c, file')" "session_from_config c = Some s"
      "with_options env s (effective_port a c) (network_policy c) machine = Inr (sv, port)"
      "r = \<lparr>rs_server = engine_do [SetBoundChords (bound_chords s)] sv, rs_port = port, rs_config = c, rs_locks = locks'\<rparr>"
    using boot by (auto simp: boot_def Let_def split: if_splits sum.splits prod.splits option.splits)
  have "be_render env c \<noteq> None" using toml(2) by (simp add: steps(5))
  note fits = boot_config_fits [OF toml(1) env steps(2) this]
  obtain l others where l: "cf_screens c = l # others" "sf_width l = si_width info" "sf_height l = si_height info"
    using fits(3) by blast
  have locks: "locks' ServerRole = Some pid"
    using steps(1) by (auto simp: acquire_in_def role_named_def split: if_splits)
  have sv: "sv = new_server s (network_policy c) machine" "be_tcp env (effective_port a c) = Inr port"
    using steps(4) by (auto simp: with_options_def split: sum.splits option.splits)
  have port: "effective_port a c = (case sa_port a of None \<Rightarrow> cf_port c | Some n \<Rightarrow> if n = 0 then cf_port c else n)"
    by (auto simp: effective_port_def Let_def split: option.split)
  have bound: "be_tcp env (case sa_port a of None \<Rightarrow> cf_port (rs_config r) | Some n \<Rightarrow> if n = 0 then cf_port (rs_config r) else n)
      = Inr (rs_port r)"
    using sv(2) port by (cases "sa_port a") (simp_all add: steps(5) split: if_splits)
  show ?thesis
    using session_local_size [OF l(1) steps(3)] display_sizes [OF env(2)] l(2,3) fits(1,2) locks
    by (intro conjI bound) (simp_all add: steps(5) sv(1) engine_do_def new_server_def registered_def client_of_def)
qed

text \<open>A machine without a configuration, where TOML knows the default one only.\<close>

definition pc_config :: config where
  "pc_config = for_this_machine ''pc'' (Some default_screen_info)"

definition pc_env :: boot_env where
  "pc_env = \<lparr>be_parse = (\<lambda>t. if t = ''toml'' then Some pc_config else None),
     be_render = (\<lambda>c. if c = pc_config then Some ''toml'' else None), be_host = ''pc'',
     be_display = Some default_screen_info, be_not_found = True, be_writable = True, be_log_env = None, be_state_dir = True,
     be_platform = True, be_tcp = Inr, be_udp = (\<lambda>_. None), be_udp_timeout = (\<lambda>_. None)\<rparr>"

theorem started_server_fits_machine_witness:
  "\<exists>r file' id'. boot pc_env (Args no_server_args) (\<lambda>_. None) 7 (\<lambda>i. Some (''cafe'', i)) None None = Some (Inr r, file', id') \<and>
     rs_locks r ServerRole = Some 7 \<and> rw (se_local (sv_session (rs_server r))) = 1920 \<and> rs_port r = 24800"
proof -
  have ok: "screen_info_ok default_screen_info"
    by (simp add: screen_info_ok_def default_screen_info_def MAX_DIMENSION_def F32_ONE_def f32_is_finite_def f32_le_zero_def)
  have host: "trim ''pc'' \<noteq> []" by (simp add: trim_trimmed trimmed_printing printing_def)
  have "trim ''info'' = ''info''" by (simp add: trim_trimmed trimmed_printing printing_def)
  moreover have "to_ascii_lowercase ''info'' = ''info''" by code_simp
  ultimately have parsed: "parse_level ''info'' \<noteq> None" by (simp add: parse_level_def)
  have "cf_screens pc_config \<noteq> []" "cf_port pc_config = 24800"
    by (simp_all add: pc_config_def for_this_machine_def DEFAULT_PORT_def)
  moreover from this(1) obtain s where "session_from_config pc_config = Some s" using session_from_config_new by blast
  moreover have "boot_config pc_env None = (Inr pc_config, Some ''toml'')"
    by (simp add: boot_config_def pc_env_def load_or_create_def save_config_def pc_config_def [symmetric] Let_def correct_local_screen_def)
      (simp add: pc_config_def for_this_machine_def correct_local_screen_to_def default_screen_info_def)
  ultimately obtain r file' id' where b: "boot pc_env (Args no_server_args) (\<lambda>_. None) 7 (\<lambda>i. Some (''cafe'', i)) None None
        = Some (Inr r, file', id')" "rs_config r = pc_config" "rs_port r = 24800"
    using parsed by (auto simp: boot_def no_server_args_def level_from_env_or_default_def acquire_in_def role_named_def
        with_options_def effective_port_def pc_env_def)
  have toml: "be_parse pc_env t = Some c" if "be_render pc_env c = Some t" for c t
    using that by (simp add: pc_env_def split: if_splits)
  have "rs_locks r ServerRole = Some 7 \<and> rw (se_local (sv_session (rs_server r))) = uint (si_width default_screen_info)"
    using started_server_fits_machine [OF toml _ _ ok _ _ b(1)] b(2) host by (simp add: pc_env_def)
  then show ?thesis using b by (auto simp: default_screen_info_def)
qed

section \<open>The loops\<close>

text \<open>
  The messages of the app layer wait for a pause of the input: as long as every turn of the main loop
  finds an input event, however long, none is applied, and a machine revoked meanwhile stays connected.
\<close>

lemma input_keeps_policy:
  "handle_local_input now m sv = Some sv' \<Longrightarrow> sv_policy sv' = sv_policy sv"
proof -
  assume "handle_local_input now m sv = Some sv'"
  then obtain acts s' where "sv' = apply_actions now acts (feed_gain m sv\<lparr>sv_session := s'\<rparr>)"
    by (auto simp: handle_local_input_def Let_def split: option.splits)
  moreover have "sv_policy (feed_gain m sv) = sv_policy sv"
    by (cases m) (simp_all add: feed_gain_def split: prod.split)
  ultimately show ?thesis by simp
qed

lemma controls_wait_for_silence:
  assumes "\<forall>(now, sent, e) \<in> set es. \<exists>m. e = InputMsg m" "main_loop es cs sv = Some (cs', sv')"
  shows "cs' = cs @ concat (map (\<lambda>(now, sent, e). sent) es) \<and> sv_policy sv' = sv_policy sv"
  using assms
proof (induction es arbitrary: cs sv)
  case (Cons x es)
  obtain now sent m where x: "x = (now, sent, InputMsg m)" using Cons.prems(1) by (cases x) auto
  then obtain sv1 where "handle_local_input now m sv = Some sv1" "main_loop es (cs @ sent) sv1 = Some (cs', sv')"
    using Cons.prems(2) by (auto split: option.splits)
  then show ?case using Cons.IH [of "cs @ sent" sv1] Cons.prems(1) x input_keeps_policy by auto
qed simp

text \<open>A pause applies all of them, in order.\<close>

lemma pause_applies_controls:
  "main_turn now InputQuiet cs sv = Some (go, cs', sv') \<longleftrightarrow> go \<and> cs' = [] \<and> drain_controls now cs sv = Some sv'"
  by auto

text \<open>
  The watchdog of the cursor stream runs when the socket is quiet: datagrams of anyone, even such that
  do not decode, keep it from running, and a client that is wedged keeps the cursor.
\<close>

lemma strays_silence_watchdog:
  assumes "\<forall>(now, e) \<in> set es. \<exists>src bytes. e = UdpGot src bytes \<and> unpack (take 1500 bytes) = None"
  shows "udp_loop es sv = Some sv"
  using assms by (induction es) (auto simp: on_datagram_def)

section \<open>The list of clients\<close>

text \<open>The table has one entry for a name, and lists exactly the names whose last event is a connection.\<close>

definition listed :: "client_table \<Rightarrow> string set" where
  "listed t = fst ` set t"

fun names_after :: "server_event list \<Rightarrow> string set \<Rightarrow> string set" where
  "names_after [] ns = ns"
| "names_after (ClientJoined name i addr port since info # es) ns = names_after es (insert name ns)"
| "names_after (ClientLeft name # es) ns = names_after es (ns - {name})"
| "names_after (ControlChanged away # es) ns = names_after es ns"

lemma sink_lists:
  assumes "event_sink parse render json ok es (k, f) = (k', f')" "distinct (map fst (sk_clients k))"
  shows "listed (sk_clients k') = names_after es (listed (sk_clients k)) \<and> distinct (map fst (sk_clients k'))"
  using assms
proof (induction es arbitrary: k f)
  case (Cons e es)
  have one: "distinct (map fst t) \<Longrightarrow> distinct (map fst (filter P t))" for t :: client_table and P
    by (induction t) auto
  have "fst ` set (filter (\<lambda>(n, _). n \<noteq> name) t) = fst ` set t - {name}" for t :: client_table and name
    by force
  then show ?case
    using Cons.IH Cons.prems one by (cases e) (auto simp: Let_def listed_def)
qed (simp add: listed_def)

lemma names_after_append [simp]: "names_after (es @ ds) ns = names_after ds (names_after es ns)"
  by (induction es ns rule: names_after.induct) auto

text \<open>
  A client that is disconnected between its registration and its announcement (by a policy change or a
  command of the operator) is announced all the same: the list shows it, and the cursor may cross to
  it, although nobody is there.
\<close>

lemma departed_client_listed:
  assumes "server_ok sv" "sv_conns sv t = None" "ad_id a \<noteq> 0" "\<not> ad_dynamic a"
    "disconnect_client_inner now r (ad_id a) (register now t peer a sv) = Some sv2"
    "server_step now (SvAnnounce t peer port a) sv2 = Some sv3"
  shows "client_of sv3 (ad_id a) = None \<and> reachable (sv_session sv3) (ad_id a) \<and> ad_name a \<in> names_after (sv_events sv3) {}"
proof -
  let ?sv1 = "register now t peer a sv"
  have ok: "server_ok ?sv1" using server_ok_register [OF assms(1-3)] by simp
  have c: "sv_conns ?sv1 t \<noteq> None"
    using assms(2) by (auto simp: register_def Let_def send_to_def split: option.split)
  have gone: "store_evolves ?sv1 sv2" "client_of sv2 (ad_id a) = None"
    using server_ok_disconnect [OF ok assms(5)] by auto
  then have "rel_option conn_evolves (sv_conns ?sv1 t) (sv_conns sv2 t)" by (simp add: store_evolves_def)
  then obtain c2 where "sv_conns sv2 t = Some c2" using c by (cases "sv_conns sv2 t") auto
  then have "sv3 = announce c2 peer port a sv2" using assms(6) by simp
  then show ?thesis
    using gone(2) assms(4)
    by (simp add: announce_def Let_def client_of_def reachable_def on_client_connected_def emit_def split: option.splits)
qed

end
