(* ===== verification/Wheel_Daemon.thy ===== *)
theory Wheel_Daemon
  imports X11_Inject Machine_Role
begin

text \<open>
  The virtual wheel as a process: where its socket is (\<open>platform/src/x11/wheel_daemon.rs\<close>), how it starts,
  drops its privileges, serves and ends, and how the client starts it (\<open>wheel_server.rs\<close>).

  A run is the list of the system calls it makes, in order; what the operating system answers is a
  function from the call to success.
\<close>

section \<open>Where the socket is\<close>

record process =
  pr_euid :: u32
  pr_ruid :: u32
  pr_sudo_uid :: "string option"
  pr_sudo_gid :: "string option"
  pr_runtime :: "string option"

definition session_uid :: "process \<Rightarrow> u32" where
  "session_uid p =
     (case Option.bind (pr_sudo_uid p) parse_u32 of
        Some uid \<Rightarrow> uid
      | None \<Rightarrow> if pr_euid p = 0 \<and> pr_ruid p \<noteq> 0 then pr_ruid p else pr_euid p)"

definition run_user :: "u32 \<Rightarrow> string" where
  "run_user uid = ''/run/user/'' @ decimal (unat uid)"

definition socket_dir :: "process \<Rightarrow> u32 \<Rightarrow> string" where
  "socket_dir p uid = (case pr_runtime p of Some dir \<Rightarrow> dir | None \<Rightarrow> run_user uid)"

text \<open>The directory, and the name in it.\<close>

definition socket_path :: "process \<Rightarrow> path" where
  "socket_path p =
     (let uid = session_uid p in
      [if pr_euid p = 0 then run_user uid else socket_dir p uid, ''kvmshare-wheel-'' @ decimal (unat uid) @ ''.sock''])"

text \<open>The user to drop to: both numbers, or nobody.\<close>

definition session_owner :: "process \<Rightarrow> (u32 \<times> u32) option" where
  "session_owner p =
     (case (Option.bind (pr_sudo_uid p) parse_u32, Option.bind (pr_sudo_gid p) parse_u32) of
        (Some uid, Some gid) \<Rightarrow> Some (uid, gid)
      | _ \<Rightarrow> None)"

section \<open>System calls\<close>

definition UI_SET_EVBIT :: u64 where "UI_SET_EVBIT = 0x40045564"
definition UI_SET_KEYBIT :: u64 where "UI_SET_KEYBIT = 0x40045565"
definition UI_SET_RELBIT :: u64 where "UI_SET_RELBIT = 0x40045566"

text \<open>\<open>Chmod 0x180\<close> is mode 0600: the owner may read and write.\<close>

datatype sys_call =
  ConnectProbe
| RemoveSocket
| BindSocket
| Chmod nat
| OpenUinput
| SetPhys string
| SetBit u64 u16
| DevSetup string
| DevCreate
| DevDestroy
| Chown u32 u32
| SetGroups
| SetGid u32
| SetUid u32

text \<open>The calls that are made, and the one that failed.\<close>

fun sys_calls :: "(sys_call \<Rightarrow> bool) \<Rightarrow> sys_call list \<Rightarrow> sys_call list \<times> sys_call option" where
  "sys_calls ok [] = ([], None)"
| "sys_calls ok (c # cs) = (if ok c then (case sys_calls ok cs of (made, e) \<Rightarrow> (c # made, e)) else ([c], Some c))"

definition wheel_bits :: "sys_call list" where
  "wheel_bits =
     [SetBit UI_SET_EVBIT EV_KEY, SetBit UI_SET_EVBIT EV_REL, SetBit UI_SET_EVBIT 0,
      SetBit UI_SET_RELBIT REL_WHEEL, SetBit UI_SET_RELBIT REL_HWHEEL,
      SetBit UI_SET_RELBIT REL_WHEEL_HI_RES, SetBit UI_SET_RELBIT REL_HWHEEL_HI_RES, SetBit UI_SET_KEYBIT BTN_LEFT]"

definition daemon_open :: "sys_call list" where
  "daemon_open =
     [OpenUinput, SetPhys ''kvmshare/wheel''] @ wheel_bits @ [DevSetup ''kvmshare virtual wheel'', DevCreate]"

text \<open>The answers to these three are only logged.\<close>

definition drop_privileges :: "u32 \<times> u32 \<Rightarrow> sys_call list" where
  "drop_privileges owner = [SetGroups, SetGid (snd owner), SetUid (fst owner)]"

section \<open>Serving\<close>

datatype recv_event = Datagram "byte list" | RecvInterrupted | RecvReset | RecvFails

text \<open>The events that are fed to the kernel, and whether the loop has ended.\<close>

fun serve :: "recv_event list \<Rightarrow> bool \<Rightarrow> input_event list \<times> bool" where
  "serve [] held = ([], False)"
| "serve (Datagram bytes # es) held =
     (case daemon_recv bytes held of (out, held') \<Rightarrow> case serve es held' of (outs, over) \<Rightarrow> (out @ outs, over))"
| "serve (RecvInterrupted # es) held = serve es held"
| "serve (RecvReset # es) held = serve es held"
| "serve (RecvFails # es) held = ([], True)"

datatype daemon_end = AlreadyRunning | GivenUp sys_call | Listening | RecvFailed

text \<open>
  A run: the calls, what was fed to the kernel, and how it ended; \<open>Listening\<close> is a daemon that still
  serves.  Leaving drops the device (when there is one) and then the socket file.
\<close>

definition daemon_run :: "(sys_call \<Rightarrow> bool) \<Rightarrow> process \<Rightarrow> recv_event list \<Rightarrow> sys_call list \<times> input_event list \<times> daemon_end" where
  "daemon_run ok p es =
     (if ok ConnectProbe then ([ConnectProbe], [], AlreadyRunning)
      else if \<not> ok BindSocket then ([ConnectProbe, RemoveSocket, BindSocket], [], GivenUp BindSocket)
      else
        let start = [ConnectProbe, RemoveSocket, BindSocket] in
        case sys_calls ok (Chmod 0x180 # daemon_open) of
          (made, Some c) \<Rightarrow> (start @ made @ [RemoveSocket], [], GivenUp c)
        | (made, None) \<Rightarrow>
            (case (if pr_euid p = 0 then session_owner p else None) of
               Some (uid, gid) \<Rightarrow>
                 if \<not> ok (Chown uid gid)
                 then (start @ made @ [Chown uid gid, DevDestroy, RemoveSocket], [], GivenUp (Chown uid gid))
                 else (case serve es False of
                     (out, over) \<Rightarrow>
                       (start @ made @ [Chown uid gid] @ drop_privileges (uid, gid) @ (if over then [DevDestroy, RemoveSocket] else []),
                        out, if over then RecvFailed else Listening))
             | None \<Rightarrow>
                 (case serve es False of
                    (out, over) \<Rightarrow>
                      (start @ made @ (if over then [DevDestroy, RemoveSocket] else []), out,
                       if over then RecvFailed else Listening))))"

section \<open>The client starts it\<close>

datatype ensured = DaemonAlive | NoExecutable | SpawnFailed | CameUp | DidNotComeUp

text \<open>
  The polls of the socket after the spawn, each followed by a pause of 25 ms: the result and the time
  slept.
\<close>

fun wait_for_daemon :: "nat \<Rightarrow> (nat \<Rightarrow> bool) \<Rightarrow> nat \<Rightarrow> ensured \<times> nat" where
  "wait_for_daemon 0 alive slept = (DidNotComeUp, slept)"
| "wait_for_daemon (Suc n) alive slept =
     (if alive slept then (CameUp, slept) else wait_for_daemon n alive (slept + 25))"

definition ensure_daemon :: "bool \<Rightarrow> bool \<Rightarrow> bool \<Rightarrow> bool \<Rightarrow> (nat \<Rightarrow> bool) \<Rightarrow> ensured \<times> nat" where
  "ensure_daemon alive exe_known daemon_exists spawned alive_at =
     (if alive then (DaemonAlive, 0)
      else if \<not> exe_known \<or> \<not> daemon_exists then (NoExecutable, 0)
      else if \<not> spawned then (SpawnFailed, 0)
      else wait_for_daemon 20 alive_at 0)"

end
