(* ===== verification/Wheel_Daemon_Rules.thy ===== *)
theory Wheel_Daemon_Rules
  imports Wheel_Daemon
begin

text \<open>
  What the daemon of the virtual wheel leaves behind, whom it runs as, and where the two sides look for
  the socket.
\<close>

section \<open>What the calls leave\<close>

text \<open>
  The socket file and its owner, the virtual device, and the user of the process.  The answers to the
  removal of the socket and of the device are not looked at by the code; they take effect here.
\<close>

record leftover =
  lo_socket :: bool
  lo_owner :: u32
  lo_device :: bool
  lo_user :: u32

fun sys_effect :: "(sys_call \<Rightarrow> bool) \<Rightarrow> sys_call \<Rightarrow> leftover \<Rightarrow> leftover" where
  "sys_effect ok BindSocket s = (if ok BindSocket then s\<lparr>lo_socket := True, lo_owner := lo_user s\<rparr> else s)"
| "sys_effect ok RemoveSocket s = s\<lparr>lo_socket := False\<rparr>"
| "sys_effect ok DevCreate s = (if ok DevCreate then s\<lparr>lo_device := True\<rparr> else s)"
| "sys_effect ok DevDestroy s = s\<lparr>lo_device := False\<rparr>"
| "sys_effect ok (Chown uid gid) s = (if ok (Chown uid gid) then s\<lparr>lo_owner := uid\<rparr> else s)"
| "sys_effect ok (SetUid uid) s = (if ok (SetUid uid) then s\<lparr>lo_user := uid\<rparr> else s)"
| "sys_effect ok c s = s"

definition left_by :: "(sys_call \<Rightarrow> bool) \<Rightarrow> sys_call list \<Rightarrow> leftover \<Rightarrow> leftover" where
  "left_by ok cs s = fold (sys_effect ok) cs s"

lemma left_simps [simp]:
  "left_by ok [] s = s" "left_by ok (c # cs) s = left_by ok cs (sys_effect ok c s)"
  "left_by ok (cs @ ds) s = left_by ok ds (left_by ok cs s)"
  by (simp_all add: left_by_def)

text \<open>The calls of the setup change nothing but the device, and that only with the last of them.\<close>

definition setup_calls :: "sys_call list" where
  "setup_calls = Chmod 0x180 # daemon_open"

lemma setup_last: "setup_calls = butlast setup_calls @ [DevCreate]" "DevCreate \<notin> set (butlast setup_calls)"
  by (simp_all add: setup_calls_def daemon_open_def wheel_bits_def)

lemma setup_quiet: "c \<in> set (butlast setup_calls) \<Longrightarrow> sys_effect ok c s = s"
  by (auto simp: setup_calls_def daemon_open_def wheel_bits_def)

lemma left_quiet: "\<forall>c \<in> set cs. sys_effect ok c s = s \<Longrightarrow> left_by ok cs s = s"
  by (induction cs) auto

lemma sys_calls_all: "sys_calls ok cs = (made, None) \<Longrightarrow> made = cs \<and> list_all ok cs"
  by (induction cs arbitrary: made) (auto split: if_splits prod.splits)

lemma sys_calls_fail:
  "sys_calls ok cs = (made, Some c) \<Longrightarrow> \<exists>pre post. cs = pre @ c # post \<and> made = pre @ [c] \<and> \<not> ok c"
proof (induction cs arbitrary: made)
  case (Cons d cs)
  show ?case
  proof (cases "ok d")
    case True
    then obtain made' where m: "sys_calls ok cs = (made', Some c)" "made = d # made'"
      using Cons.prems by (auto split: prod.splits)
    then obtain pre post where "cs = pre @ c # post" "made' = pre @ [c]" "\<not> ok c" using Cons.IH by blast
    then have "d # cs = (d # pre) @ c # post" "made = (d # pre) @ [c]" using m(2) by simp_all
    then show ?thesis using \<open>\<not> ok c\<close> by blast
  next
    case False
    then have "d = c" "made = [c]" "\<not> ok c" using Cons.prems by auto
    then show ?thesis by (intro exI [of _ "[]"] exI [of _ cs]) simp
  qed
qed simp

lemma setup_done: "sys_calls ok setup_calls = (made, None) \<Longrightarrow> left_by ok made s = s\<lparr>lo_device := True\<rparr> \<and> Chmod 0x180 \<in> set made"
proof -
  assume "sys_calls ok setup_calls = (made, None)"
  then have m: "made = butlast setup_calls @ [DevCreate]" "ok DevCreate"
    using sys_calls_all [of ok setup_calls made] setup_last(1) list_all_append [of ok "butlast setup_calls" "[DevCreate]"]
    by simp_all
  have "left_by ok (butlast setup_calls) s = s" using setup_quiet by (intro left_quiet) blast
  then show ?thesis using m by (simp add: setup_calls_def daemon_open_def)
qed

lemma setup_failed: "sys_calls ok setup_calls = (made, Some c) \<Longrightarrow> left_by ok made s = s"
proof -
  assume "sys_calls ok setup_calls = (made, Some c)"
  then obtain pre post where p: "setup_calls = pre @ c # post" "made = pre @ [c]" "\<not> ok c" using sys_calls_fail by blast
  have sub: "set pre \<subseteq> set (butlast setup_calls)" unfolding p(1) by (auto simp: butlast_append)
  have "sys_effect ok c t = t" for t
    using p(1,3) setup_quiet [of c] setup_last(1)
    by (cases "c = DevCreate") (auto, metis Un_iff in_set_conv_decomp list.set_intros(1) p(1) set_ConsD set_append empty_iff empty_set)
  moreover have "left_by ok pre s = s" using sub setup_quiet by (intro left_quiet) blast
  ultimately show ?thesis using p(2) by simp
qed

section \<open>The life of the daemon\<close>


definition session_process :: process where
  "session_process = \<lparr>pr_euid = 1000, pr_ruid = 1000, pr_sudo_uid = None, pr_sudo_gid = None, pr_runtime = None\<rparr>"

definition clean_slate :: leftover where
  "clean_slate = \<lparr>lo_socket = False, lo_owner = 0, lo_device = False, lo_user = 1000\<rparr>"


section \<open>Where the two sides look\<close>

text \<open>
  The client of a session and the daemon, in any of the ways it is started (by the session itself, by
  sudo, or setuid root), compute the same path, as long as the runtime directory of the session is the
  one of the convention.
\<close>

lemma wheel_socket_agreed:
  assumes client: "pr_euid c = u" "pr_ruid c = u" "u \<noteq> 0" "pr_sudo_uid c = None"
      "pr_runtime c = None \<or> pr_runtime c = Some (run_user u)"
    and daemon: "d = c \<or> pr_euid d = 0 \<and> pr_sudo_uid d = Some (decimal (unat u)) \<or>
      pr_euid d = 0 \<and> pr_ruid d = u \<and> pr_sudo_uid d = None"
  shows "socket_path d = socket_path c"
proof -
  have "parse_u32 (decimal (unat u)) = Some u"
    using parse_u32_decimal [of "unat u"] unsigned_less [of u, where 'a = nat] by simp
  then show ?thesis
    using assms by (auto simp: socket_path_def session_uid_def socket_dir_def Let_def)
qed

text \<open>A session with a runtime directory of its own is not found by a daemon that sudo started.\<close>

lemma odd_runtime_not_found:
  assumes "pr_euid c = u" "u \<noteq> 0" "pr_sudo_uid c = None" "pr_runtime c = Some dir" "dir \<noteq> run_user u"
    "pr_euid d = 0" "pr_ruid d = u" "pr_sudo_uid d = None"
  shows "socket_path d \<noteq> socket_path c"
  using assms by (auto simp: socket_path_def session_uid_def socket_dir_def Let_def)

section \<open>Starting it\<close>

text \<open>The client waits at most half a second for the daemon.\<close>

lemma wait_bounded: "wait_for_daemon n alive slept = (r, t) \<Longrightarrow> t \<le> slept + 25 * n"
  by (induction n alive slept rule: wait_for_daemon.induct) (auto split: if_splits)

lemma ensure_bounded: "snd (ensure_daemon alive exe exists sp alive_at) \<le> 500"
proof -
  obtain r t where w: "wait_for_daemon 20 alive_at 0 = (r, t)" by fastforce
  then have "t \<le> 500" using wait_bounded by fastforce
  then show ?thesis using w by (simp add: ensure_daemon_def)
qed

section \<open>What it does not do\<close>

text \<open>
  A daemon that is setuid root, with no sudo in its environment, has no session to drop to: it serves as
  root, on a socket that only root may write to.
\<close>

lemma setuid_keeps_root:
  assumes "daemon_run ok p es = (calls, out, Listening)" "pr_euid p = 0" "pr_sudo_uid p = None"
    "lo_user s = 0" "\<not> lo_device s"
  shows "lo_user (left_by ok calls s) = 0 \<and> lo_owner (left_by ok calls s) = 0"
proof -
  obtain outs over where sv: "serve es False = (outs, over)" by fastforce
  obtain made f where m: "sys_calls ok setup_calls = (made, f)" by fastforce
  have "session_owner p = None" using assms(3) by (simp add: session_owner_def)
  then have run: "calls = [ConnectProbe, RemoveSocket, BindSocket] @ made" "f = None" "ok BindSocket"
    using assms(1,2) m sv by (auto simp: daemon_run_def Let_def setup_calls_def [symmetric] split: if_splits option.splits)
  then show ?thesis using setup_done [OF m [unfolded run(2)]] assms(4) by simp
qed

text \<open>A drop of the privileges that fails is only logged: the daemon serves as root.\<close>

lemma failed_drop_serves_as_root:
  assumes "\<not> ok ConnectProbe" "\<forall>c. c \<noteq> ConnectProbe \<and> c \<noteq> SetUid uid \<longrightarrow> ok c" "\<not> ok (SetUid uid)"
    "pr_euid p = 0" "session_owner p = Some (uid, gid)" "lo_user s = 0"
  shows "\<exists>calls. daemon_run ok p [] = (calls, [], Listening) \<and> lo_user (left_by ok calls s) = 0"
  using assms by (simp add: daemon_run_def Let_def daemon_open_def wheel_bits_def drop_privileges_def)

text \<open>The socket is bound before the device is opened, and it is open to all until it is restricted.\<close>

lemma socket_before_device:
  "\<not> ok ConnectProbe \<Longrightarrow> ok BindSocket \<Longrightarrow> \<exists>rest. fst (daemon_run ok p es) = [ConnectProbe, RemoveSocket, BindSocket, Chmod 0x180] @ rest"
  by (auto simp: daemon_run_def Let_def split: prod.split option.split)

end
