(* ===== verification/Clipboard.thy ===== *)
theory Clipboard
  imports Client Config
begin

text \<open>
  The clipboards of the two platforms behind the trait of \<open>core/src/clipboard.rs\<close>: the one of Windows
  (\<open>platform/src/windows/clipboard.rs\<close>), which keeps text as UTF-16, and the one of X11
  (\<open>platform/src/x11/injector.rs\<close>), which wraps a library.  Each remembers what was last set from a
  remote source, and the pollers of client and server compare with it.
\<close>

section \<open>UTF-8 and UTF-16\<close>

text \<open>The code points of a valid UTF-8 text, and back.\<close>

fun code_points :: "byte list \<Rightarrow> nat list" where
  "code_points (a # bs) =
     (if utf8_width a = 1 then unat a # code_points bs
      else if utf8_width a = 2 then
        (case bs of b # cs \<Rightarrow> (unat a mod 32 * 64 + unat b mod 64) # code_points cs | _ \<Rightarrow> [])
      else if utf8_width a = 3 then
        (case bs of b # c # ds \<Rightarrow> (unat a mod 16 * 4096 + unat b mod 64 * 64 + unat c mod 64) # code_points ds | _ \<Rightarrow> [])
      else
        (case bs of b # c # d # es \<Rightarrow>
           (unat a mod 8 * 262144 + unat b mod 64 * 4096 + unat c mod 64 * 64 + unat d mod 64) # code_points es | _ \<Rightarrow> []))"
| "code_points [] = []"

definition utf8_char :: "nat \<Rightarrow> byte list" where
  "utf8_char n =
     map word_of_nat
       (if n < 0x80 then [n]
        else if n < 0x800 then [192 + n div 64, 128 + n mod 64]
        else if n < 0x10000 then [224 + n div 4096, 128 + n div 64 mod 64, 128 + n mod 64]
        else [240 + n div 262144, 128 + n div 4096 mod 64, 128 + n div 64 mod 64, 128 + n mod 64])"

definition utf8_of :: "nat list \<Rightarrow> byte list" where
  "utf8_of ns = concat (map utf8_char ns)"

text \<open>\<open>encode_utf16\<close>, and \<open>from_utf16_lossy\<close>: a surrogate on its own becomes U+FFFD.\<close>

definition utf16_char :: "nat \<Rightarrow> u16 list" where
  "utf16_char n =
     map word_of_nat
       (if n < 0x10000 then [n] else [0xD800 + (n - 0x10000) div 1024, 0xDC00 + (n - 0x10000) mod 1024])"

definition encode_utf16 :: "nat list \<Rightarrow> u16 list" where
  "encode_utf16 ns = concat (map utf16_char ns)"

fun from_utf16_lossy :: "u16 list \<Rightarrow> nat list" where
  "from_utf16_lossy [] = []"
| "from_utf16_lossy (u # us) =
     (if unat u < 0xD800 \<or> 0xE000 \<le> unat u then unat u # from_utf16_lossy us
      else case us of
        [] \<Rightarrow> [0xFFFD]
      | v # vs \<Rightarrow>
          if unat u < 0xDC00 \<and> 0xDC00 \<le> unat v \<and> unat v < 0xE000
          then (0x10000 + (unat u - 0xD800) * 1024 + (unat v - 0xDC00)) # from_utf16_lossy vs
          else 0xFFFD # from_utf16_lossy us)"

section \<open>Windows\<close>

text \<open>
  The block of code units the system holds, with its terminator, and \<open>last_remote\<close>.  What the system
  answers to each call is an argument.
\<close>

record win_clip =
  wc_block :: "u16 list option"
  wc_last :: "clip option"

definition new_win_clip :: "u16 list option \<Rightarrow> win_clip" where
  "new_win_clip block = \<lparr>wc_block = block, wc_last = None\<rparr>"

record win_answers =
  wa_open :: bool
  wa_alloc :: bool
  wa_lock :: bool
  wa_empty :: bool
  wa_set :: bool

definition PLAIN :: string where "PLAIN = ''text/plain''"

definition win_set_text :: "win_answers \<Rightarrow> string \<Rightarrow> byte list \<Rightarrow> win_clip \<Rightarrow> win_clip" where
  "win_set_text os mime data c =
     (if mime \<noteq> PLAIN then c
      else if \<not> utf8_valid data then c
      else
        let wide = encode_utf16 (code_points data) @ [0] in
        if \<not> wa_open os then c
        else if \<not> wa_alloc os then c
        else if \<not> wa_lock os then c
        else
          let emptied = (if wa_empty os then None else wc_block c);
              block = (if wa_set os then Some wide else emptied) in
          c\<lparr>wc_block := block, wc_last := Some (mime, data)\<rparr>)"

definition win_get_text :: "win_answers \<Rightarrow> win_clip \<Rightarrow> clip option" where
  "win_get_text os c =
     (if \<not> wa_open os then None
      else case wc_block c of
        None \<Rightarrow> None
      | Some block \<Rightarrow>
          if \<not> wa_lock os then None
          else Some (PLAIN, utf8_of (from_utf16_lossy (takeWhile (\<lambda>u. u \<noteq> 0) block))))"

section \<open>X11\<close>

text \<open>
  The library keeps a state of its own; storing a text in it and reading it are arguments.  Without it
  (a display was named, or the library found no clipboard) nothing is set and nothing is read.
\<close>

record 'b x11_clip =
  xc_board :: "'b option"
  xc_last :: "clip option"

definition new_x11_clip :: "string option \<Rightarrow> 'b option \<Rightarrow> 'b x11_clip" where
  "new_x11_clip display opened = \<lparr>xc_board = (if display = None then opened else None), xc_last = None\<rparr>"

definition x11_clip_set :: "(byte list \<Rightarrow> 'b \<Rightarrow> 'b) \<Rightarrow> string \<Rightarrow> byte list \<Rightarrow> 'b x11_clip \<Rightarrow> 'b x11_clip" where
  "x11_clip_set store mime data c =
     (if mime \<noteq> PLAIN then c
      else case xc_board c of
        None \<Rightarrow> c
      | Some b \<Rightarrow>
          c\<lparr>xc_board := Some (if utf8_valid data then store data b else b), xc_last := Some (mime, data)\<rparr>)"

definition x11_clip_get :: "('b \<Rightarrow> byte list option) \<Rightarrow> 'b x11_clip \<Rightarrow> clip option" where
  "x11_clip_get fetch c = map_option (Pair PLAIN) (Option.bind (xc_board c) fetch)"

section \<open>The pollers over a clipboard\<close>

text \<open>
  What happens to the clipboard of a client: content from the server is set, the user copies something,
  the sync thread polls, holding the lock of the clipboard for the whole poll.  The result is what it
  sends.
\<close>

datatype ('os, 't) clip_event = SetRemote 'os string "byte list" | CopyLocal 't | PollClip 'os

fun client_clip_run ::
  "('os \<Rightarrow> string \<Rightarrow> byte list \<Rightarrow> 's \<Rightarrow> 's) \<Rightarrow> ('t \<Rightarrow> 's \<Rightarrow> 's) \<Rightarrow> ('os \<Rightarrow> 's \<Rightarrow> clip option) \<Rightarrow> ('s \<Rightarrow> clip option)
    \<Rightarrow> ('os, 't) clip_event list \<Rightarrow> clip option \<Rightarrow> 's \<Rightarrow> message list" where
  "client_clip_run put copy get injected [] seen s = []"
| "client_clip_run put copy get injected (SetRemote os mime data # es) seen s =
     client_clip_run put copy get injected es seen (put os mime data s)"
| "client_clip_run put copy get injected (CopyLocal t # es) seen s =
     client_clip_run put copy get injected es seen (copy t s)"
| "client_clip_run put copy get injected (PollClip os # es) seen s =
     (case sync_clipboard seen (injected s) (get os s) of
        (msgs, seen') \<Rightarrow> msgs @ client_clip_run put copy get injected es seen' s)"

text \<open>The user copies a block of code units, or a text.\<close>

definition win_copy :: "u16 list \<Rightarrow> win_clip \<Rightarrow> win_clip" where
  "win_copy block c = c\<lparr>wc_block := Some block\<rparr>"

definition x11_copy :: "(byte list \<Rightarrow> 'b \<Rightarrow> 'b) \<Rightarrow> byte list \<Rightarrow> 'b x11_clip \<Rightarrow> 'b x11_clip" where
  "x11_copy store data c = c\<lparr>xc_board := map_option (store data) (xc_board c)\<rparr>"

text \<open>
  The poller of the server reads the clipboard and what was last set under the lock twice: a set may
  come between the two.
\<close>

definition server_poll ::
  "('s \<Rightarrow> clip option) \<Rightarrow> ('s \<Rightarrow> clip option) \<Rightarrow> ('s \<Rightarrow> 's) \<Rightarrow> clip option \<Rightarrow> 's \<Rightarrow> clip option \<times> clip option \<times> 's" where
  "server_poll get injected between seen s =
     (let cur = get s; s' = between s; last_injected = injected s' in
      case clipboard_poll cur last_injected seen of (out, seen') \<Rightarrow> (out, seen', s'))"

end
