(* ===== verification/Clipboard_Rules.thy ===== *)
theory Clipboard_Rules
  imports Clipboard
begin

text \<open>
  Text survives the conversion to UTF-16 and back, and what came from the server never goes back to it;
  and where this fails.
\<close>

section \<open>Conversions\<close>

definition code_point :: "nat \<Rightarrow> bool" where
  "code_point n \<longleftrightarrow> n < 0xD800 \<or> 0xE000 \<le> n \<and> n < 0x110000"

lemma utf8_of_simps [simp]: "utf8_of [] = []" "utf8_of (n # ns) = utf8_char n @ utf8_of ns"
  by (simp_all add: utf8_of_def)

lemma encode_utf16_simps [simp]: "encode_utf16 [] = []" "encode_utf16 (n # ns) = utf16_char n @ encode_utf16 ns"
  by (simp_all add: encode_utf16_def)

lemma byte_eqI: "n = unat b \<Longrightarrow> (word_of_nat n :: byte) = b"
  by simp

lemma utf8_1: "utf8_width a = 1 \<Longrightarrow> utf8_char (unat a) = [a] \<and> code_point (unat a) \<and> (unat a = 0 \<longleftrightarrow> a = 0)"
  by (auto simp: utf8_width_def utf8_char_def code_point_def Let_def unat_eq_0 split: if_splits)

text \<open>A number by its high and its low part.\<close>

lemma parts: "b = k * m + j \<Longrightarrow> j < (m :: nat) \<Longrightarrow> b mod m = j" "b = k * m + j \<Longrightarrow> j < (m :: nat) \<Longrightarrow> b div m = k"
  by simp_all

lemma cont_low: "utf8_cont b \<Longrightarrow> \<exists>j < 64. unat b = 128 + j \<and> unat b mod 64 = j"
  using parts(1) [of "unat b" 2 64 "unat b - 128"] by (intro exI [of _ "unat b - 128"]) (auto simp: utf8_cont_def)

lemma second_low: "utf8_second a b \<Longrightarrow> \<exists>j < 64. unat b = 128 + j \<and> unat b mod 64 = j \<and>
    (unat a = 224 \<longrightarrow> 32 \<le> j) \<and> (unat a = 237 \<longrightarrow> j < 32) \<and> (unat a = 240 \<longrightarrow> 16 \<le> j) \<and> (unat a = 244 \<longrightarrow> j < 16)"
  using parts(1) [of "unat b" 2 64 "unat b - 128"]
  by (intro exI [of _ "unat b - 128"]) (auto simp: utf8_second_def utf8_cont_def split: if_splits)

lemma lead_2: "utf8_width a = 2 \<Longrightarrow> \<exists>i < 32. unat a = 192 + i \<and> unat a mod 32 = i \<and> 2 \<le> i"
  using parts(1) [of "unat a" 6 32 "unat a - 192"]
  by (intro exI [of _ "unat a - 192"]) (auto simp: utf8_width_def Let_def split: if_splits)

lemma lead_3: "utf8_width a = 3 \<Longrightarrow> \<exists>i < 16. unat a = 224 + i \<and> unat a mod 16 = i"
  using parts(1) [of "unat a" 14 16 "unat a - 224"]
  by (intro exI [of _ "unat a - 224"]) (auto simp: utf8_width_def Let_def split: if_splits)

lemma lead_4: "utf8_width a = 4 \<Longrightarrow> \<exists>i < 5. unat a = 240 + i \<and> unat a mod 8 = i"
  using parts(1) [of "unat a" 30 8 "unat a - 240"]
  by (intro exI [of _ "unat a - 240"]) (auto simp: utf8_width_def Let_def split: if_splits)

lemma utf8_2:
  assumes "utf8_width a = 2" "utf8_cont b"
  defines "n \<equiv> unat a mod 32 * 64 + unat b mod 64"
  shows "utf8_char n = [a, b] \<and> code_point n \<and> 0 < n"
proof -
  obtain i where i: "i < 32" "unat a = 192 + i" "unat a mod 32 = i" "2 \<le> i" using lead_2 [OF assms(1)] by blast
  obtain j where j: "j < 64" "unat b = 128 + j" "unat b mod 64 = j" using cont_low [OF assms(2)] by blast
  have n: "n = i * 64 + j" unfolding n_def i(3) j(3) ..
  then have "n div 64 = i" "n mod 64 = j" using parts [OF n j(1)] by simp_all
  moreover have "128 \<le> n" "n < 0x800" using n i j by linarith+
  moreover have "word_of_nat (192 + i) = a" "word_of_nat (128 + j) = b" by (rule byte_eqI, simp only: i(2) j(2))+
  ultimately show ?thesis by (simp add: utf8_char_def code_point_def)
qed

lemma utf8_3:
  assumes "utf8_width a = 3" "utf8_second a b" "utf8_cont c"
  defines "n \<equiv> unat a mod 16 * 4096 + unat b mod 64 * 64 + unat c mod 64"
  shows "utf8_char n = [a, b, c] \<and> code_point n \<and> 0 < n"
proof -
  obtain i where i: "i < 16" "unat a = 224 + i" "unat a mod 16 = i" using lead_3 [OF assms(1)] by blast
  obtain j where j: "j < 64" "unat b = 128 + j" "unat b mod 64 = j"
    and s: "unat a = 224 \<longrightarrow> 32 \<le> j" "unat a = 237 \<longrightarrow> j < 32"
    using second_low [OF assms(2)] by blast
  have s: "i = 0 \<longrightarrow> 32 \<le> j" "i = 13 \<longrightarrow> j < 32" using s i(2) by simp_all
  obtain k where k: "k < 64" "unat c = 128 + k" "unat c mod 64 = k" using cont_low [OF assms(3)] by blast
  have n: "n = (i * 64 + j) * 64 + k" unfolding n_def i(3) j(3) k(3) by (simp add: algebra_simps)
  then have d: "n div 64 = i * 64 + j" "n mod 64 = k" using parts [OF n k(1)] by simp_all
  then have "n div 64 mod 64 = j" using parts [OF d(1) j(1)] by simp
  moreover have "n = i * 4096 + (j * 64 + k)" "j * 64 + k < 4096" using n j(1) k(1) by (simp, linarith)
  then have "n div 4096 = i" by (rule parts(2))
  moreover have "0x800 \<le> n" "n < 0x10000" using n i(1) j(1) k(1) s by (cases "i = 0", simp_all)
  moreover have "code_point n"
    unfolding code_point_def using n i(1) j(1) k(1) s by (cases "i < 13"; cases "i = 13"; simp)
  moreover have "word_of_nat (224 + i) = a" "word_of_nat (128 + j) = b" "word_of_nat (128 + k) = c"
    by (rule byte_eqI, simp only: i(2) j(2) k(2))+
  ultimately show ?thesis using d(2) by (simp add: utf8_char_def)
qed

lemma utf8_4:
  assumes "utf8_width a = 4" "utf8_second a b" "utf8_cont c" "utf8_cont d"
  defines "n \<equiv> unat a mod 8 * 262144 + unat b mod 64 * 4096 + unat c mod 64 * 64 + unat d mod 64"
  shows "utf8_char n = [a, b, c, d] \<and> code_point n \<and> 0 < n"
proof -
  obtain i where i: "i < 5" "unat a = 240 + i" "unat a mod 8 = i" using lead_4 [OF assms(1)] by blast
  obtain j where j: "j < 64" "unat b = 128 + j" "unat b mod 64 = j"
    and s: "unat a = 240 \<longrightarrow> 16 \<le> j" "unat a = 244 \<longrightarrow> j < 16"
    using second_low [OF assms(2)] by blast
  have s: "i = 0 \<longrightarrow> 16 \<le> j" "i = 4 \<longrightarrow> j < 16" using s i(2) by simp_all
  obtain k where k: "k < 64" "unat c = 128 + k" "unat c mod 64 = k" using cont_low [OF assms(3)] by blast
  obtain l where l: "l < 64" "unat d = 128 + l" "unat d mod 64 = l" using cont_low [OF assms(4)] by blast
  have n: "n = ((i * 64 + j) * 64 + k) * 64 + l" unfolding n_def i(3) j(3) k(3) l(3) by (simp add: algebra_simps)
  then have d1: "n div 64 = (i * 64 + j) * 64 + k" "n mod 64 = l" using parts [OF n l(1)] by simp_all
  then have "n div 64 mod 64 = k" using parts [OF d1(1) k(1)] by simp
  moreover have d2: "n = (i * 64 + j) * 4096 + (k * 64 + l)" "k * 64 + l < 4096" using n k(1) l(1) by (simp, linarith)
  then have "n div 4096 = i * 64 + j" by (rule parts(2))
  then have "n div 4096 mod 64 = j" using j(1) by (rule parts(1))
  moreover have "n = i * 262144 + (j * 4096 + k * 64 + l)" "j * 4096 + k * 64 + l < 262144" using n j(1) k(1) l(1) by (simp, linarith)
  then have "n div 262144 = i" by (rule parts(2))
  moreover have "0x10000 \<le> n" using n i(1) j(1) k(1) l(1) s by (cases "i = 0", simp_all)
  moreover have "n < 0x110000" using n i(1) j(1) k(1) l(1) s by (cases "i = 4", simp_all)
  moreover have "word_of_nat (240 + i) = a" "word_of_nat (128 + j) = b" "word_of_nat (128 + k) = c" "word_of_nat (128 + l) = d"
    by (rule byte_eqI, simp only: i(2) j(2) k(2) l(2))+
  ultimately show ?thesis using d1(2) by (simp add: utf8_char_def code_point_def)
qed

lemma nonzero_conts: "utf8_cont b \<Longrightarrow> b \<noteq> 0" "utf8_second a b \<Longrightarrow> b \<noteq> 0" "utf8_width a \<noteq> 1 \<Longrightarrow> a \<noteq> 0"
  by (auto simp: utf8_cont_def utf8_second_def utf8_width_def split: if_splits)

text \<open>A valid text is the encoding of its code points, and has a zero byte only for the code point 0.\<close>

lemma code_points_valid:
  "utf8_valid bs \<Longrightarrow> utf8_of (code_points bs) = bs \<and> list_all code_point (code_points bs) \<and>
     (0 \<in> set (code_points bs) \<longleftrightarrow> 0 \<in> set bs)"
proof (induction bs rule: utf8_valid.induct)
  case (2 a bs)
  consider "utf8_width a = 1" | "utf8_width a = 2" | "utf8_width a = 3" | "utf8_width a = 4"
    using 2(5) by (auto split: if_splits)
  then show ?case
  proof cases
    case 1 then show ?thesis using 2(1,5) utf8_1 [OF 1] by auto
  next
    case k: 2
    then obtain b cs where bs: "bs = b # cs" "utf8_cont b" "utf8_valid cs" using 2(5) by (auto split: list.splits)
    then show ?thesis using k 2(2) utf8_2 [OF k bs(2)] nonzero_conts(1) [OF bs(2)] nonzero_conts(3) [of a] by auto
  next
    case k: 3
    then obtain b c ds where bs: "bs = b # c # ds" "utf8_second a b" "utf8_cont c" "utf8_valid ds"
      using 2(5) by (auto split: list.splits)
    then show ?thesis using k 2(3) utf8_3 [OF k bs(2,3)] nonzero_conts(2) [OF bs(2)] nonzero_conts(1) [OF bs(3)]
        nonzero_conts(3) [of a] by auto
  next
    case k: 4
    then obtain b c d es where bs: "bs = b # c # d # es" "utf8_second a b" "utf8_cont c" "utf8_cont d" "utf8_valid es"
      using 2(5) by (auto split: list.splits)
    then show ?thesis using k 2(4) utf8_4 [OF k bs(2,3,4)] nonzero_conts(2) [OF bs(2)] nonzero_conts(1) [OF bs(3)]
        nonzero_conts(1) [OF bs(4)] nonzero_conts(3) [of a] by auto
  qed
qed simp

text \<open>A code point above the basic plane is a pair of surrogates.\<close>

lemma surrogates:
  assumes "code_point n" "\<not> n < 0x10000"
  obtains i j where "utf16_char n = [word_of_nat (0xD800 + i), word_of_nat (0xDC00 + j)]" "n = 0x10000 + i * 1024 + j"
    "i < 1024" "j < 1024"
proof -
  have n: "0x10000 \<le> n" "n < 0x110000" using assms by (auto simp: code_point_def)
  let ?i = "(n - 0x10000) div 1024" and ?j = "(n - 0x10000) mod 1024"
  have "?i * 1024 + ?j = n - 0x10000" by (rule div_mult_mod_eq)
  moreover have j: "?j < 1024" by simp
  ultimately have "n = 0x10000 + ?i * 1024 + ?j" "?i < 1024" using n by linarith+
  then show thesis using that [of ?i ?j] j assms(2) by (simp add: utf16_char_def)
qed

lemma unat_u16: "n < 0x10000 \<Longrightarrow> unat (word_of_nat n :: u16) = n"
  by (simp add: unat_of_nat take_bit_nat_eq_self)

lemma utf16_char_lossy: "code_point n \<Longrightarrow> from_utf16_lossy (utf16_char n @ us) = n # from_utf16_lossy us"
proof (cases "n < 0x10000")
  case True
  moreover assume "code_point n"
  ultimately show ?thesis by (auto simp: utf16_char_def code_point_def unat_u16)
next
  case False
  assume "code_point n"
  then obtain i j where u: "utf16_char n = [word_of_nat (0xD800 + i), word_of_nat (0xDC00 + j)]"
      "n = 0x10000 + i * 1024 + j" "i < 1024" "j < 1024"
    using False surrogates by blast
  then have "unat (word_of_nat (0xD800 + i) :: u16) = 0xD800 + i" "unat (word_of_nat (0xDC00 + j) :: u16) = 0xDC00 + j"
    by (intro unat_u16; linarith)+
  then show ?thesis unfolding u(1) append_Cons append_Nil from_utf16_lossy.simps using u(2-) by simp
qed

lemma utf16_round_trip: "list_all code_point ns \<Longrightarrow> from_utf16_lossy (encode_utf16 ns) = ns"
  by (induction ns) (simp_all add: utf16_char_lossy)

lemma u16_zero: "n < 0x10000 \<Longrightarrow> (0 = (word_of_nat n :: u16)) \<longleftrightarrow> n = 0"
  using unat_u16 [of n] unat_eq_0 [of "word_of_nat n :: u16"] by auto

lemma utf16_zero: "code_point n \<Longrightarrow> 0 \<in> set (utf16_char n) \<longleftrightarrow> n = 0"
proof (cases "n < 0x10000")
  case True
  then show ?thesis using u16_zero [OF True] by (simp add: utf16_char_def)
next
  case False
  assume "code_point n"
  then obtain i j where u: "utf16_char n = [word_of_nat (0xD800 + i), word_of_nat (0xDC00 + j)]" "i < 1024" "j < 1024"
    using False surrogates by blast
  then have "(0 :: u16) \<noteq> word_of_nat (0xD800 + i)" "(0 :: u16) \<noteq> word_of_nat (0xDC00 + j)"
    by (subst u16_zero; linarith)+
  then show ?thesis using u(1) False by (simp del: of_nat_add)
qed

lemma encode_utf16_zero: "list_all code_point ns \<Longrightarrow> 0 \<in> set (encode_utf16 ns) \<longleftrightarrow> 0 \<in> set ns"
  by (induction ns) (auto simp: utf16_zero)

text \<open>A valid text without a zero byte comes back from a block of the system clipboard.\<close>

lemma block_round_trip:
  assumes "utf8_valid data" "0 \<notin> set data"
  shows "utf8_of (from_utf16_lossy (takeWhile (\<lambda>u. u \<noteq> 0) (encode_utf16 (code_points data) @ [0]))) = data"
proof -
  note cp = code_points_valid [OF assms(1)]
  then have "0 \<notin> set (encode_utf16 (code_points data))" using assms(2) encode_utf16_zero by blast
  then have "takeWhile (\<lambda>u. u \<noteq> 0) (encode_utf16 (code_points data) @ [0]) = encode_utf16 (code_points data)"
    by (subst takeWhile_append2) auto
  then show ?thesis using cp utf16_round_trip by simp
qed

section \<open>A clipboard that knows what came from the server\<close>

text \<open>
  The contract of the trait: setting remote content either changes nothing or remembers that content,
  and then the clipboard holds it or nothing; what the user copies is held and remembered nowhere;
  reading gives what is held, or nothing.
\<close>

locale remote_clipboard =
  fixes put :: "'os \<Rightarrow> string \<Rightarrow> byte list \<Rightarrow> 's \<Rightarrow> 's"
    and copy :: "'t \<Rightarrow> 's \<Rightarrow> 's"
    and get :: "'os \<Rightarrow> 's \<Rightarrow> clip option"
    and injected :: "'s \<Rightarrow> clip option"
    and holds :: "'s \<Rightarrow> clip option"
    and meant :: "'t \<Rightarrow> clip"
    and fit :: "'os \<Rightarrow> byte list \<Rightarrow> bool"
  assumes put: "fit os data \<Longrightarrow>
      holds (put os mime data s) = holds s \<and> injected (put os mime data s) = injected s \<or>
      holds (put os mime data s) \<in> {None, Some (mime, data)} \<and> injected (put os mime data s) = Some (mime, data)"
    and copy: "holds (copy t s) \<in> {None, Some (meant t)}" "injected (copy t s) = injected s"
    and get: "get os s \<in> {None, holds s}"
begin

lemma sent_is_local:
  assumes "\<forall>os mime data. SetRemote os mime data \<in> set es \<longrightarrow> fit os data" "holds s \<in> {None, injected s} \<union> Some ` L"
  shows "set (client_clip_run put copy get injected es seen s) \<subseteq>
    (\<lambda>c. ClipboardMsg (fst c) (snd c)) ` (L \<union> meant ` {t. CopyLocal t \<in> set es})"
  using assms
proof (induction es arbitrary: s seen L)
  case (Cons e es)
  show ?case
  proof (cases e)
    case (SetRemote os m d)
    have "holds (put os m d s) \<in> {None, injected (put os m d s)} \<union> Some ` L"
      using put [of os d m s] Cons.prems(2) Cons.prems(1) [rule_format, of os m d] SetRemote by auto
    then show ?thesis using Cons.IH [of "put os m d s" L] Cons.prems(1) SetRemote by simp
  next
    case (CopyLocal t)
    have "holds (copy t s) \<in> {None, injected (copy t s)} \<union> Some ` insert (meant t) L" using copy(1) [of t s] by auto
    moreover have "insert (meant t) L \<union> meant ` {u. CopyLocal u \<in> set es} = L \<union> meant ` {u. CopyLocal u \<in> set (e # es)}"
      using CopyLocal by auto
    ultimately show ?thesis using Cons.IH [of "copy t s" "insert (meant t) L"] Cons.prems(1) CopyLocal by simp
  next
    case (PollClip os)
    obtain msgs seen' where p: "sync_clipboard seen (injected s) (get os s) = (msgs, seen')" by fastforce
    have "m \<in> (\<lambda>c. ClipboardMsg (fst c) (snd c)) ` L" if "m \<in> set msgs" for m
      using p that get [of os s] Cons.prems(2) by (force simp: sync_clipboard_def split: option.splits prod.splits if_splits)
    then have "set msgs \<subseteq> (\<lambda>c. ClipboardMsg (fst c) (snd c)) ` L" by blast
    then show ?thesis using Cons.IH [of s L seen'] Cons.prems PollClip p by auto
  qed
qed simp

end

section \<open>Windows\<close>

definition block_text :: "u16 list \<Rightarrow> clip" where
  "block_text block = (PLAIN, utf8_of (from_utf16_lossy (takeWhile (\<lambda>u. u \<noteq> 0) block)))"

text \<open>A text without a zero byte, and a system that takes it or has at least emptied the clipboard.\<close>

definition win_fit :: "win_answers \<Rightarrow> byte list \<Rightarrow> bool" where
  "win_fit os data \<longleftrightarrow> 0 \<notin> set data \<and> (wa_set os \<or> wa_empty os)"

interpretation win: remote_clipboard win_set_text win_copy win_get_text wc_last
    "\<lambda>c. map_option block_text (wc_block c)" block_text win_fit
proof
  fix os data mime and s :: win_clip
  assume fit: "win_fit os data"
  show "map_option block_text (wc_block (win_set_text os mime data s)) = map_option block_text (wc_block s) \<and>
        wc_last (win_set_text os mime data s) = wc_last s \<or>
      map_option block_text (wc_block (win_set_text os mime data s)) \<in> {None, Some (mime, data)} \<and>
        wc_last (win_set_text os mime data s) = Some (mime, data)"
    using fit block_round_trip [of data]
    by (auto simp: win_set_text_def Let_def block_text_def win_fit_def)
qed (auto simp: win_copy_def win_get_text_def block_text_def split: option.split)


definition all_well :: win_answers where
  "all_well = \<lparr>wa_open = True, wa_alloc = True, wa_lock = True, wa_empty = True, wa_set = True\<rparr>"


text \<open>What the user copies is sent at the next poll the system answers.\<close>

lemma copy_is_sent:
  assumes "wa_open os" "wa_lock os" "seen \<noteq> Some (block_text b)" "wc_last c \<noteq> Some (block_text b)"
  shows "client_clip_run win_set_text win_copy win_get_text wc_last [CopyLocal b, PollClip os] seen c =
    [ClipboardMsg PLAIN (snd (block_text b))]"
  using assms by (simp add: win_copy_def win_get_text_def block_text_def sync_clipboard_def)

text \<open>A text with a zero character in it is cut there, and the rest of it goes back to the server.\<close>

lemma zero_text_echoed:
  "client_clip_run win_set_text win_copy win_get_text wc_last
     [SetRemote all_well PLAIN [0x61, 0, 0x62], PollClip all_well] None (new_win_clip block) = [ClipboardMsg PLAIN [0x61]]"
  by (simp add: all_well_def win_set_text_def win_get_text_def new_win_clip_def sync_clipboard_def utf8_width_def
      utf16_char_def utf8_char_def PLAIN_def)

section \<open>X11\<close>

text \<open>The same for X11, over a library that gives back the text it was given, and texts in UTF-8.\<close>

lemma x11_remote:
  assumes "\<forall>d b. fetch (store d b) = Some d"
  shows "remote_clipboard (\<lambda>os :: unit. x11_clip_set store) (x11_copy store) (\<lambda>os. x11_clip_get fetch) xc_last
    (x11_clip_get fetch) (Pair PLAIN) (\<lambda>os. utf8_valid)"
proof
  fix os :: unit and data mime and s :: "'a x11_clip"
  assume "utf8_valid data"
  then show "x11_clip_get fetch (x11_clip_set store mime data s) = x11_clip_get fetch s \<and>
        xc_last (x11_clip_set store mime data s) = xc_last s \<or>
      x11_clip_get fetch (x11_clip_set store mime data s) \<in> {None, Some (mime, data)} \<and>
        xc_last (x11_clip_set store mime data s) = Some (mime, data)"
    using assms by (auto simp: x11_clip_set_def x11_clip_get_def split: option.split)
next
  fix t and s :: "'a x11_clip"
  show "x11_clip_get fetch (x11_copy store t s) \<in> {None, Some (PLAIN, t)}"
    using assms by (cases "xc_board s") (auto simp: x11_copy_def x11_clip_get_def)
qed (auto simp: x11_copy_def)

lemma x11_never_echoes:
  assumes "\<forall>d b. fetch (store d b) = Some d" "\<forall>mime data. SetRemote () mime data \<in> set es \<longrightarrow> utf8_valid data"
    "xc_board c = None \<or> x11_clip_get fetch c = Some (PLAIN, held)" "xc_last c = None"
  shows "set (client_clip_run (\<lambda>os. x11_clip_set store) (x11_copy store) (\<lambda>os. x11_clip_get fetch) xc_last es None c) \<subseteq>
    {ClipboardMsg PLAIN t |t. CopyLocal t \<in> set es \<or> t = held}"
proof -
  show ?thesis
    using remote_clipboard.sent_is_local [OF x11_remote [OF assms(1)], of es c "{(PLAIN, held)}" None] assms(2,3)
    by (force simp: x11_clip_get_def)
qed

text \<open>
  Content that is not UTF-8 is remembered although it was not set: what the clipboard still holds, also
  from the server, goes back.
\<close>

lemma unset_content_echoes:
  assumes "fetch (store t b) = Some t" "utf8_valid t" "\<not> utf8_valid d"
  shows "client_clip_run (\<lambda>os. x11_clip_set store) (x11_copy store) (\<lambda>os. x11_clip_get fetch) xc_last
     [SetRemote () PLAIN t, SetRemote () PLAIN d, PollClip ()] None (new_x11_clip None (Some b)) = [ClipboardMsg PLAIN t]"
  using assms by (auto simp: x11_clip_set_def x11_clip_get_def new_x11_clip_def sync_clipboard_def)

section \<open>The server\<close>

text \<open>
  The poller of the server reads the content before it asks for what was last set: content of a client,
  set between the two, makes it broadcast the content of another client to all of them.
\<close>

lemma server_poll_echoes:
  assumes "win_fit os t" "utf8_valid t" "utf8_valid u" "t \<noteq> u" "wa_open os" "wa_alloc os" "wa_lock os" "wa_set os"
  shows "fst (server_poll (win_get_text os) wc_last (win_set_text os PLAIN u) None
      (win_set_text os PLAIN t (new_win_clip None))) = Some (PLAIN, t)"
  using assms block_round_trip [of t]
  by (simp add: server_poll_def clipboard_poll_def win_set_text_def win_get_text_def win_fit_def new_win_clip_def Let_def)

end
