(* ===== verification/Hotplug.thy ===== *)
theory Hotplug
  imports Evdev
begin

text \<open>
  The enumerator of the input devices (\<open>platform/src/evdev/hotplug.rs\<close>): its watch on \<open>/dev/input\<close>, the
  turns of its loop, and the hand-over of what it opened to the reader.
\<close>

section \<open>The watch\<close>

definition FALLBACK_PERIOD :: nat where "FALLBACK_PERIOD = 30000"

text \<open>Whether the descriptor of inotify exists, and whether the directory is taken to be watched.\<close>

record enumerator =
  en_inotify :: bool
  en_watching :: bool

definition new_enumerator :: enumerator where
  "new_enumerator = \<lparr>en_inotify = False, en_watching = False\<rparr>"

text \<open>\<open>init\<close> and \<open>watch\<close> are whether the two calls succeed.\<close>

definition init_watch :: "bool \<Rightarrow> bool \<Rightarrow> enumerator \<Rightarrow> bool \<times> enumerator" where
  "init_watch init watch s =
     (if \<not> en_inotify s \<and> \<not> init then (False, s)
      else (watch, s\<lparr>en_inotify := True\<rparr>))"

section \<open>A turn of the loop\<close>

text \<open>
  What the system answers in a turn: the two calls of the watch; \<open>poll\<close>, with the time it blocked
  and whether the descriptor is readable or in error; and the reads, of which the loop takes as many as
  it needs.
\<close>

datatype poll_answer = PollFails | PollTimeout | PollReady nat bool

datatype read_answer = ReadBytes "byte list" | ReadWouldBlock | ReadError | ReadNothing

record enum_env =
  ee_init :: bool
  ee_watch :: bool
  ee_poll :: poll_answer
  ee_reads :: "read_answer list"

fun drain_inotify :: "read_answer list \<Rightarrow> bool \<Rightarrow> bool option" where
  "drain_inotify [] changed = Some changed"
| "drain_inotify (ReadBytes buf # rs) changed =
     (if buf = [] then Some changed
      else Option.bind (parse_inotify buf) (\<lambda>c. drain_inotify rs (changed \<or> c)))"
| "drain_inotify (ReadWouldBlock # rs) changed = Some changed"
| "drain_inotify (ReadError # rs) changed = Some True"
| "drain_inotify (ReadNothing # rs) changed = Some changed"

text \<open>Whether the turn ends in a scan, the milliseconds it waited, and the state after it.\<close>

definition poll_turn :: "enum_env \<Rightarrow> (bool \<times> nat) option" where
  "poll_turn e =
     (case ee_poll e of
        PollFails \<Rightarrow> Some (False, 100)
      | PollTimeout \<Rightarrow> Some (True, FALLBACK_PERIOD)
      | PollReady t relevant \<Rightarrow>
          if \<not> relevant then Some (False, t)
          else map_option (\<lambda>changed. (changed, t)) (drain_inotify (ee_reads e) False))"

definition enum_turn :: "enum_env \<Rightarrow> enumerator \<Rightarrow> ((bool \<times> nat) \<times> enumerator) option" where
  "enum_turn e s =
     (if \<not> en_inotify s \<or> \<not> en_watching s then
        (case init_watch (ee_init e) (ee_watch e) s of
           (False, s') \<Rightarrow> Some ((True, FALLBACK_PERIOD), s')
         | (True, s') \<Rightarrow> map_option (\<lambda>r. (r, s'\<lparr>en_watching := True\<rparr>)) (poll_turn e))
      else map_option (\<lambda>r. (r, s)) (poll_turn e))"

section \<open>The hand-over\<close>

text \<open>
  The reader and the enumerator together: a scan takes the known paths, opens the devices, and sends
  the list; the reader applies the lists when it is at the top of its loop.
\<close>

record hotplug =
  hp_scan :: "string set option"
  hp_lists :: "(device list \<times> bool) list"
  hp_reader :: reader

definition start_hotplug :: "dir_entry list \<Rightarrow> hotplug" where
  "start_hotplug entries = \<lparr>hp_scan = None, hp_lists = [], hp_reader = start_reader entries\<rparr>"

definition scan_start :: "hotplug \<Rightarrow> hotplug" where
  "scan_start h = h\<lparr>hp_scan := Some (rd_known (hp_reader h))\<rparr>"

definition scan_send :: "dir_entry list \<Rightarrow> hotplug \<Rightarrow> hotplug" where
  "scan_send entries h =
     (case hp_scan h of
        None \<Rightarrow> h
      | Some known \<Rightarrow> h\<lparr>hp_scan := None, hp_lists := hp_lists h @ [open_devices known entries]\<rparr>)"

fun take_list :: "(string \<Rightarrow> bool) \<Rightarrow> hotplug \<Rightarrow> hotplug" where
  "take_list ok h =
     (case hp_lists h of
        [] \<Rightarrow> h
      | (fresh, denied) # rest \<Rightarrow>
          h\<lparr>hp_lists := rest, hp_reader := apply_fresh ok fresh denied (hp_reader h)\<rparr>)"

inductive hotplug_step :: "(string \<Rightarrow> bool) \<Rightarrow> hotplug \<Rightarrow> message list \<Rightarrow> hotplug \<Rightarrow> bool" for ok where
  scanning: "hp_scan h = None \<Longrightarrow> hotplug_step ok h [] (scan_start h)"
| scanned: "hp_scan h \<noteq> None \<Longrightarrow> hotplug_step ok h [] (scan_send entries h)"
| applying: "rd_pc (hp_reader h) = AtTop \<Longrightarrow> hotplug_step ok h [] (take_list ok h)"
| loading: "rd_pc (hp_reader h) = AtTop \<Longrightarrow> hp_lists h = [] \<Longrightarrow>
    hotplug_step ok h [] (h\<lparr>hp_reader := (hp_reader h)\<lparr>rd_pc := Loaded (rd_flag (hp_reader h))\<rparr>\<rparr>)"
| reading: "rd_pc (hp_reader h) \<noteq> AtTop \<Longrightarrow> reader_step ok (hp_reader h) out r \<Longrightarrow> hotplug_step ok h out (h\<lparr>hp_reader := r\<rparr>)"

end
