(* ===== verification/Hotplug_Rules.thy ===== *)
theory Hotplug_Rules
  imports Hotplug Evdev_Rules
begin

text \<open>
  When the enumerator scans, that the reader it feeds behaves as the reader of the capture, and which
  device it misses.
\<close>

section \<open>When it scans\<close>

lemma parse_inotify_some: "\<exists>c. parse_inotify buf = Some c"
  using parse_from_total by (auto simp: parse_inotify_def)

lemma drain_inotify_some: "\<exists>c. drain_inotify rs changed = Some c"
proof (induction rs changed rule: drain_inotify.induct)
  case (2 buf rs changed)
  then show ?case using parse_inotify_some [of buf] by auto
qed auto

lemma poll_turn_some: "\<exists>r. poll_turn e = Some r"
  using drain_inotify_some by (auto simp: poll_turn_def split: poll_answer.split)

lemma enum_turn_total: "enum_turn e s \<noteq> None"
  using poll_turn_some [of e] by (auto simp: enum_turn_def split: prod.split bool.split)

text \<open>
  Every turn waits at most the fallback period (when the system wakes it in time), and one that ends
  without a scan was woken early: the poll failed, or it reported something else than a change.
\<close>

lemma enum_turn_paced:
  assumes "enum_turn e s = Some ((scan, t), s')" "\<forall>w relevant. ee_poll e = PollReady w relevant \<longrightarrow> w \<le> FALLBACK_PERIOD"
  shows "t \<le> FALLBACK_PERIOD \<and> (scan \<or> ee_poll e = PollFails \<or> (\<exists>w relevant. ee_poll e = PollReady w relevant))"
  using assms by (auto simp: enum_turn_def poll_turn_def FALLBACK_PERIOD_def split: prod.splits bool.splits poll_answer.splits if_splits)

text \<open>A change that inotify reports is scanned in the same turn.\<close>

lemma drain_inotify_changed: "drain_inotify rs True = Some c \<Longrightarrow> c"
  by (induction rs "True" rule: drain_inotify.induct) (auto split: bind_splits if_splits)

lemma change_is_scanned:
  assumes "en_inotify s" "en_watching s" "ee_poll e = PollReady t True" "ee_reads e = ReadBytes buf # rs"
    "parse_inotify buf = Some True" "buf \<noteq> []"
  shows "enum_turn e s = Some ((True, t), s)"
  using assms drain_inotify_some [of rs True] drain_inotify_changed [of rs]
  by (auto simp: enum_turn_def poll_turn_def)

section \<open>The reader is the one of the capture\<close>

text \<open>The lists under way are such as a scan of some directory gives.\<close>

definition lists_ok :: "hotplug \<Rightarrow> bool" where
  "lists_ok h \<longleftrightarrow> (\<forall>l \<in> set (hp_lists h). \<exists>known es. open_devices known es = l)"

lemma hotplug_step_simulates:
  assumes "hotplug_step ok h out h'" "lists_ok h"
  shows "(hp_reader h' = hp_reader h \<and> out = [] \<or> reader_step ok (hp_reader h) out (hp_reader h')) \<and> lists_ok h'"
  using assms
proof (induction rule: hotplug_step.induct)
  case (scanned h entries)
  then show ?case by (auto simp: scan_send_def lists_ok_def split: option.split)
next
  case (applying h)
  show ?case
  proof (cases "hp_lists h")
    case Nil
    then show ?thesis using applying by simp
  next
    case (Cons l rest)
    obtain fresh denied where l: "l = (fresh, denied)" by fastforce
    obtain known es where "open_devices known es = (fresh, denied)" using applying(2) Cons l by (auto simp: lists_ok_def)
    then show ?thesis using reader_step.fresh [OF applying(1)] applying(2) Cons l by (auto simp: lists_ok_def)
  qed
next
  case (loading h)
  then show ?case using reader_step.load [of "hp_reader h" ok] by (simp add: lists_ok_def)
qed (auto simp: scan_start_def lists_ok_def)

text \<open>
  Whatever enumerator and reader do together, the reader makes a run of its own: what holds of every
  visit of the reader holds with the enumerator too.
\<close>

inductive hotplug_run :: "dir_entry list \<Rightarrow> hotplug \<Rightarrow> bool" for entries where
  begins: "hotplug_run entries (start_hotplug entries)"
| goes_on: "hotplug_run entries h \<Longrightarrow> hotplug_step ok h out h' \<Longrightarrow> hotplug_run entries h'"

lemma hotplug_simulates: "hotplug_run entries h \<Longrightarrow> (\<exists>sent. visit entries (hp_reader h) sent) \<and> lists_ok h"
proof (induction rule: hotplug_run.induct)
  case begins
  then show ?case by (auto simp: start_hotplug_def lists_ok_def intro: visit_some)
next
  case (goes_on h ok out h')
  then show ?case using hotplug_step_simulates [OF goes_on(2)] visit_more by metis
qed

lemma hotplug_paths_distinct:
  assumes "hotplug_run entries h" "distinct (map file_name entries)"
  shows "distinct (map dev_path (rd_devices (hp_reader h)))"
proof -
  obtain sent where "visit entries (hp_reader h) sent" using hotplug_simulates [OF assms(1)] by blast
  then show ?thesis using visit_watch_ok [OF assms(2)] by (auto simp: watch_ok_def)
qed

section \<open>What it does not do\<close>

text \<open>
  The watch is taken to be in place for ever: a directory that goes away and comes back is not watched
  again, whatever inotify says.  What it says, that the watch is gone, is no change either.
\<close>

lemma watch_never_reestablished:
  "en_inotify s \<Longrightarrow> en_watching s \<Longrightarrow> enum_turn e s = Some (r, s') \<Longrightarrow> s' = s \<and> map_option (\<lambda>r. (r, s)) (poll_turn e) = Some (r, s)"
  by (auto simp: enum_turn_def)

definition watch_gone :: inotify_event where
  "watch_gone = \<lparr>in_wd = 1, in_mask = 0x8000, in_cookie = 0, in_name = []\<rparr>"

lemma gone_watch_is_no_change: "parse_inotify (inotify_bytes watch_gone) = Some False"
proof -
  have "\<not> device_change watch_gone" by (simp add: device_change_def watch_gone_def WATCH_MASK_def IN_Q_OVERFLOW_def)
  then show ?thesis using parse_from_events [of "[watch_gone]" "[]" False] by (simp add: parse_inotify_def watch_gone_def)
qed

text \<open>A poll that goes on failing keeps the fallback scan from ever coming.\<close>

lemma failing_poll_never_scans:
  "en_inotify s \<Longrightarrow> en_watching s \<Longrightarrow> ee_poll e = PollFails \<Longrightarrow> enum_turn e s = Some ((False, 100), s)"
  by (simp add: enum_turn_def poll_turn_def)

text \<open>
  A device that is plugged out and in again before the reader has found its old descriptor dead is
  still known to the scan, which does not open it; when the reader drops it, there is no further
  change to be told of.
\<close>

lemma quick_replug_unseen:
  assumes "dev_path d \<in> rd_known (hp_reader h)" "hp_lists h = []"
  shows "d \<notin> set (concat (map fst (hp_lists (scan_send entries (scan_start h)))))"
  using assms open_devices_paths [of d "rd_known (hp_reader h)" entries] by (auto simp: scan_send_def scan_start_def)

end
