(* ===== verification/Windows_Loop.thy ===== *)
theory Windows_Loop
  imports Windows
begin

text \<open>
  The two threads of the Windows backend that own the low-level hooks: the capture of the server
  (\<open>platform/src/windows/capture.rs\<close>, \<open>start\<close> and \<open>run_forever\<close>) and the pump of the client
  (\<open>windows/isolation/pump.rs\<close>), from their start to their end.

  The procedures of the hooks run inside \<open>GetMessageW\<close>; it returns for a posted message only.
\<close>

section \<open>Windows and hooks\<close>

datatype win_call =
  RegisterClass
| CreateWindow
| SetTimer nat
| InstallMouse
| InstallKeyboard
| RegisterPower
| UnhookMouse
| UnhookKeyboard
| DestroyWindow
| KillTimer
| UnregisterPower

definition BEACON_MS :: nat where "BEACON_MS = 8"

text \<open>The window of the capture: the calls made, and the error of the one that failed.\<close>

definition create_capture_window :: "(win_call \<Rightarrow> bool) \<Rightarrow> win_call list \<times> string option" where
  "create_capture_window ok =
     (if \<not> ok RegisterClass then ([RegisterClass], Some ''RegisterClassW failed'')
      else if \<not> ok CreateWindow then ([RegisterClass, CreateWindow], Some ''CreateWindowExW failed'')
      else if \<not> ok (SetTimer BEACON_MS) then ([RegisterClass, CreateWindow, SetTimer BEACON_MS], Some ''SetTimer failed'')
      else ([RegisterClass, CreateWindow, SetTimer BEACON_MS], None))"

text \<open>Both hooks, or none: one that was installed beside one that was not is taken out again.\<close>

definition install_hooks :: "(win_call \<Rightarrow> bool) \<Rightarrow> win_call list \<times> bool" where
  "install_hooks ok =
     (let m = ok InstallMouse; k = ok InstallKeyboard in
      if m \<and> k then ([InstallMouse, InstallKeyboard], True)
      else ([InstallMouse, InstallKeyboard] @ (if m then [UnhookMouse] else []) @ (if k then [UnhookKeyboard] else [])
              @ [DestroyWindow], False))"

definition truth :: "bool \<Rightarrow> string" where
  "truth b = (if b then ''true'' else ''false'')"

definition start_capture :: "(win_call \<Rightarrow> bool) \<Rightarrow> win_call list \<times> string option" where
  "start_capture ok =
     (case create_capture_window ok of
        (calls, Some e) \<Rightarrow> (calls, Some e)
      | (calls, None) \<Rightarrow>
          (case install_hooks ok of
             (more_calls, installed) \<Rightarrow>
               (calls @ more_calls,
                if installed then None
                else Some (''input hooks failed to install (mouse: '' @ truth (\<not> ok InstallMouse) @ '', keyboard: '' @
                       truth (\<not> ok InstallKeyboard) @ '')''))))"

definition stop_capture :: "win_call list" where
  "stop_capture = [UnhookMouse, UnhookKeyboard, DestroyWindow]"

section \<open>The loop of the capture\<close>

text \<open>
  What happens while the loop runs: a hook is called, the engine makes a call from its own thread, a
  message is posted (the beacon's timer or another; the cursor as \<open>GetCursorPos\<close> answers; whether
  the queue is empty after it; the clock at the next turn), or \<open>GetMessageW\<close> ends the loop, with an
  error or not.
\<close>

datatype capture_event =
  CaptureMouse mouse_msg mouse_info "(int \<times> int) option"
| CaptureKey key_msg key_info
| EngineCalls engine_call
| Posted bool "(int \<times> int) option" bool nat
| LoopEnds bool

text \<open>The messages sent, the state and the tick after, and whether the loop ended with an error.\<close>

fun capture_loop ::
  "capture_event list \<Rightarrow> win_capture \<Rightarrow> nat \<Rightarrow> message list \<times> win_capture \<times> nat \<times> bool option" where
  "capture_loop [] w beat = ([], w, beat, None)"
| "capture_loop (CaptureMouse msg info cur # es) w beat =
     (case capture_mouse_proc 0 msg info cur w of (_, out, w') \<Rightarrow>
        case capture_loop es w' beat of (outs, r) \<Rightarrow> (out @ outs, r))"
| "capture_loop (CaptureKey msg info # es) w beat =
     (case capture_keyboard_proc 0 msg info w of (_, out, w') \<Rightarrow>
        case capture_loop es w' beat of (outs, r) \<Rightarrow> (out @ outs, r))"
| "capture_loop (EngineCalls c # es) w beat = capture_loop es (snd (win32_engine c w)) beat"
| "capture_loop (Posted timer cur drained now # es) w beat =
     (case (if timer then on_beacon_timer cur w else ([], w)) of (out, w1) \<Rightarrow>
        case (if drained then flush_pending_motion w1 else ([], w1)) of (moves, w2) \<Rightarrow>
        case capture_loop es w2 now of (outs, r) \<Rightarrow> (out @ moves @ outs, r))"
| "capture_loop (LoopEnds failed # es) w beat = ([], w, beat, Some failed)"

text \<open>The whole thread: its calls, what it sent, and its error.\<close>

definition capture_thread ::
  "(win_call \<Rightarrow> bool) \<Rightarrow> capture_event list \<Rightarrow> win_call list \<times> message list \<times> string option" where
  "capture_thread ok es =
     (case start_capture ok of
        (calls, Some e) \<Rightarrow> (calls, [], Some e)
      | (calls, None) \<Rightarrow>
          (case capture_loop es new_win_capture 0 of
             (out, _, _, None) \<Rightarrow> (calls, out, None)
           | (out, _, _, Some failed) \<Rightarrow>
               (calls @ stop_capture, out, if failed then Some ''GetMessageW failed'' else None)))"

section \<open>The pump of the client\<close>

text \<open>A class that is already registered is the one of an earlier instance.\<close>

definition create_pump_window :: "(win_call \<Rightarrow> bool) \<Rightarrow> bool \<Rightarrow> win_call list \<times> bool" where
  "create_pump_window ok known_class =
     (if \<not> ok RegisterClass \<and> \<not> known_class then ([RegisterClass], False)
      else ([RegisterClass, CreateWindow], ok CreateWindow))"

definition start_pump :: "(win_call \<Rightarrow> bool) \<Rightarrow> bool \<Rightarrow> win_call list \<times> bool" where
  "start_pump ok known_class =
     (case create_pump_window ok known_class of
        (calls, False) \<Rightarrow> (calls, False)
      | (calls, True) \<Rightarrow>
          (case install_hooks ok of
             (more_calls, False) \<Rightarrow> (calls @ more_calls, False)
           | (more_calls, True) \<Rightarrow> (calls @ more_calls @ [SetTimer WATCHDOG_PERIOD_MS, RegisterPower], True)))"

definition stop_pump :: "(win_call \<Rightarrow> bool) \<Rightarrow> win_call list" where
  "stop_pump ok =
     (if ok RegisterPower then [UnregisterPower] else []) @ [KillTimer, UnhookMouse, UnhookKeyboard, DestroyWindow]"

text \<open>
  What happens while it runs: the injector's threads work on the statics, a message is posted, or one is
  sent to the window, whose procedure is \<open>DefWindowProcW\<close>.
\<close>

datatype pump_msg = PumpTimer nat "string option" | PumpPower power_event | PumpQuit | PumpOther | PumpFails

datatype pump_event = PumpSets nat bool | PumpSteers nat | PumpPosted pump_msg | PumpSent power_event

fun pump_loop :: "pump_event list \<Rightarrow> isolation \<Rightarrow> isolation \<times> bool" where
  "pump_loop [] s = (s, False)"
| "pump_loop (PumpSets now b # es) s = pump_loop es (set_isolating now b s)"
| "pump_loop (PumpSteers now # es) s = pump_loop es (io_heartbeat now s)"
| "pump_loop (PumpPosted m # es) s =
     (case m of
        PumpFails \<Rightarrow> (s, True)
      | PumpQuit \<Rightarrow> (s, True)
      | PumpTimer now desktop \<Rightarrow> pump_loop es (io_watchdog now desktop s)
      | PumpPower e \<Rightarrow> pump_loop es (on_power_event e s)
      | PumpOther \<Rightarrow> pump_loop es s)"
| "pump_loop (PumpSent e # es) s = pump_loop es s"

definition pump_thread :: "(win_call \<Rightarrow> bool) \<Rightarrow> bool \<Rightarrow> pump_event list \<Rightarrow> win_call list \<times> isolation" where
  "pump_thread ok known_class es =
     (case start_pump ok known_class of
        (calls, False) \<Rightarrow> (calls, new_isolation)
      | (calls, True) \<Rightarrow>
          (case pump_loop es new_isolation of
             (s, over) \<Rightarrow> (calls @ (if over then stop_pump ok else []), s)))"

end
