(* ===== verification/Windows_Loop_Rules.thy ===== *)
theory Windows_Loop_Rules
  imports Windows_Loop Windows_Rules Evdev_Rules
begin

text \<open>
  The hooks of the Windows backend come and go together, the hardware of a controlled machine is never
  silenced for long whatever happens around the pump, and the capture loses no motion; and what does
  not hold.
\<close>

section \<open>Hooks and windows\<close>

text \<open>What the calls leave behind in the system.\<close>

datatype win_thing = TheWindow | TheMouseHook | TheKeyboardHook | TheTimer | ThePowerNotice

fun win_effect :: "(win_call \<Rightarrow> bool) \<Rightarrow> win_call \<Rightarrow> win_thing set \<Rightarrow> win_thing set" where
  "win_effect ok RegisterClass S = S"
| "win_effect ok CreateWindow S = (if ok CreateWindow then insert TheWindow S else S)"
| "win_effect ok (SetTimer ms) S = (if ok (SetTimer ms) then insert TheTimer S else S)"
| "win_effect ok InstallMouse S = (if ok InstallMouse then insert TheMouseHook S else S)"
| "win_effect ok InstallKeyboard S = (if ok InstallKeyboard then insert TheKeyboardHook S else S)"
| "win_effect ok RegisterPower S = (if ok RegisterPower then insert ThePowerNotice S else S)"
| "win_effect ok UnhookMouse S = S - {TheMouseHook}"
| "win_effect ok UnhookKeyboard S = S - {TheKeyboardHook}"
| "win_effect ok DestroyWindow S = S - {TheWindow, TheTimer}"
| "win_effect ok KillTimer S = S - {TheTimer}"
| "win_effect ok UnregisterPower S = S - {ThePowerNotice}"

definition left_by_calls :: "(win_call \<Rightarrow> bool) \<Rightarrow> win_call list \<Rightarrow> win_thing set" where
  "left_by_calls ok calls = fold (win_effect ok) calls {}"

lemmas pump_calls = start_pump_def create_pump_window_def install_hooks_def stop_pump_def Let_def
lemmas capture_calls = start_capture_def create_capture_window_def install_hooks_def stop_capture_def Let_def

text \<open>A pump that ran holds both hooks, and one that did not start or has ended nothing at all.\<close>

lemma started_pump: "start_pump ok known_class = (calls, True) \<Longrightarrow>
    {TheWindow, TheMouseHook, TheKeyboardHook} \<subseteq> left_by_calls ok calls \<and> left_by_calls ok (calls @ stop_pump ok) = {}"
  by (cases "ok RegisterClass"; cases known_class; cases "ok CreateWindow"; cases "ok InstallMouse"; cases "ok InstallKeyboard";
      cases "ok RegisterPower"; auto simp: pump_calls left_by_calls_def split: if_splits)

lemma failed_pump: "start_pump ok known_class = (calls, False) \<Longrightarrow> left_by_calls ok calls = {}"
  by (cases "ok RegisterClass"; cases known_class; cases "ok CreateWindow"; cases "ok InstallMouse"; cases "ok InstallKeyboard";
      auto simp: pump_calls left_by_calls_def)

text \<open>A capture that does not start leaves no hook, and one that ends leaves nothing.\<close>

lemma failed_capture:
  "start_capture ok = (calls, Some e) \<Longrightarrow> TheMouseHook \<notin> left_by_calls ok calls \<and> TheKeyboardHook \<notin> left_by_calls ok calls"
  by (cases "ok RegisterClass"; cases "ok CreateWindow"; cases "ok (SetTimer BEACON_MS)"; cases "ok InstallMouse";
      cases "ok InstallKeyboard"; auto simp: capture_calls left_by_calls_def)

lemma started_capture: "start_capture ok = (calls, None) \<Longrightarrow>
    {TheWindow, TheMouseHook, TheKeyboardHook, TheTimer} = left_by_calls ok calls \<and> left_by_calls ok (calls @ stop_capture) = {}"
  by (cases "ok RegisterClass"; cases "ok CreateWindow"; cases "ok (SetTimer BEACON_MS)"; cases "ok InstallMouse";
      cases "ok InstallKeyboard"; auto simp: capture_calls left_by_calls_def)

section \<open>The pump\<close>

text \<open>The instants at which the machine was taken over or steered.\<close>

fun steer_times :: "pump_event list \<Rightarrow> nat list" where
  "steer_times [] = []"
| "steer_times (PumpSets now b # es) = (if b then now # steer_times es else steer_times es)"
| "steer_times (PumpSteers now # es) = now # steer_times es"
| "steer_times (_ # es) = steer_times es"

text \<open>While the machine is silenced the heartbeat is one of them.\<close>

definition heart_in :: "nat set \<Rightarrow> isolation \<Rightarrow> bool" where
  "heart_in T s \<longleftrightarrow> (io_isolate s \<longrightarrow> io_last_steer s \<in> T)"

lemma watchdog_heart: "heart_in T s \<Longrightarrow> 0 \<notin> T \<Longrightarrow> heart_in T (io_watchdog now desktop s)"
  by (auto simp: heart_in_def io_watchdog_def on_secure_desktop_def split: prod.split)

lemma heart_steps:
  "heart_in T (set_isolating now b s)" if "heart_in T s" "b \<Longrightarrow> now \<in> T"
  using that by (auto simp: heart_in_def set_isolating_def io_heartbeat_def Let_def)

lemma power_heart: "heart_in T s \<Longrightarrow> heart_in T (on_power_event e s)"
  by (auto simp: heart_in_def on_power_event_def)

lemma pump_heart:
  "pump_loop es s = (s', over) \<Longrightarrow> heart_in T s \<Longrightarrow> set (steer_times es) \<subseteq> T \<Longrightarrow> 0 \<notin> T \<Longrightarrow> heart_in T s'"
proof (induction es s rule: pump_loop.induct)
  case (2 now b es s)
  then show ?case using heart_steps [of T s b now] by (cases b) auto
next
  case (3 now es s)
  moreover have "heart_in T (io_heartbeat now s)" using 3 by (simp add: heart_in_def io_heartbeat_def)
  ultimately show ?case by simp
next
  case (4 m es s)
  then show ?case using watchdog_heart power_heart by (cases m) auto
qed auto

lemma pump_loop_snoc:
  "pump_loop es s = (s', False) \<Longrightarrow> pump_loop (es @ ds) s = pump_loop ds s'"
  by (induction es s rule: pump_loop.induct) (auto split: pump_msg.splits)


definition takeover :: "pump_event list" where
  "takeover = [PumpSets 5000 True, PumpSteers 5004, PumpPosted (PumpTimer 5500 (Some ''Default''))]"


section \<open>The capture\<close>

text \<open>
  Over any run of the capture, on either axis, the moves it sends and what it still holds are what the
  hook was told, and nothing is held when the queue has run empty, up to the range of a message.
\<close>

fun hook_delta :: "capture_event \<Rightarrow> int \<times> int" where
  "hook_delta (CaptureMouse msg info (Some (ax, ay))) =
     (if msg = WM_MOUSEMOVE then (sub32 (fst (mi_pt info)) ax, sub32 (snd (mi_pt info)) ay) else (0, 0))"
| "hook_delta _ = (0, 0)"

fun move_of :: "message \<Rightarrow> int \<times> int" where
  "move_of (MouseMoveRel dx dy) = (dx, dy)"
| "move_of _ = (0, 0)"

definition moved :: "message list \<Rightarrow> int \<times> int" where
  "moved ms = (sum_list (map (fst \<circ> move_of) ms), sum_list (map (snd \<circ> move_of) ms))"

lemma moved_simps [simp]:
  "moved [] = (0, 0)" "moved (m # ms) = (fst (move_of m) + fst (moved ms), snd (move_of m) + snd (moved ms))"
  "moved (ms @ ns) = (fst (moved ms) + fst (moved ns), snd (moved ms) + snd (moved ns))"
  by (simp_all add: moved_def)

definition held_x :: "win_capture \<Rightarrow> real" where "held_x w = pm_fx (wn_pending w)"
definition held_y :: "win_capture \<Rightarrow> real" where "held_y w = pm_fy (wn_pending w)"

lemma flush_balance:
  "flush_pending_motion w = (out, w') \<Longrightarrow>
    held_x w' + of_int (fst (moved out)) = held_x w \<and> held_y w' + of_int (snd (moved out)) = held_y w"
  by (auto simp: flush_pending_motion_def pm_flush_def take_whole_def held_x_def held_y_def Let_def split: prod.splits option.splits if_splits)

lemma mouse_balance:
  "capture_mouse_proc 0 msg info cur w = (sw, out, w') \<Longrightarrow>
    moved out = (0, 0) \<and> held_x w' = held_x w + of_int (fst (hook_delta (CaptureMouse msg info cur))) \<and>
    held_y w' = held_y w + of_int (snd (hook_delta (CaptureMouse msg info cur)))"
  by (cases cur) (auto simp: capture_mouse_proc_def held_x_def held_y_def pm_push_def Let_def split: if_splits option.splits prod.splits)

lemma keyboard_balance:
  "capture_keyboard_proc 0 msg info w = (sw, out, w') \<Longrightarrow> moved out = (0, 0) \<and> held_x w' = held_x w \<and> held_y w' = held_y w"
  by (auto simp: capture_keyboard_proc_def hook_press_def hook_release_def held_x_def held_y_def Let_def
      split: if_splits option.splits prod.splits)

lemma timer_balance:
  "on_beacon_timer cur w = (out, w') \<Longrightarrow> moved out = (0, 0) \<and> held_x w' = held_x w \<and> held_y w' = held_y w"
  by (auto simp: on_beacon_timer_def held_x_def held_y_def split: if_splits option.splits)

lemma engine_balance: "held_x (snd (win32_engine c w)) = held_x w" "held_y (snd (win32_engine c w)) = held_y w"
  by (cases c; simp add: held_x_def held_y_def publish_chords_def)+

fun until_end :: "capture_event list \<Rightarrow> capture_event list" where
  "until_end [] = []"
| "until_end (LoopEnds f # es) = []"
| "until_end (e # es) = e # until_end es"

lemma capture_motion_conserved:
  "capture_loop es w beat = (out, w', beat', r) \<Longrightarrow>
    held_x w' + of_int (fst (moved out)) = held_x w + of_int (sum_list (map (fst \<circ> hook_delta) (until_end es))) \<and>
    held_y w' + of_int (snd (moved out)) = held_y w + of_int (sum_list (map (snd \<circ> hook_delta) (until_end es)))"
proof (induction es w beat arbitrary: out rule: capture_loop.induct)
  case (2 msg info cur es w beat)
  obtain sw o1 w1 where m: "capture_mouse_proc 0 msg info cur w = (sw, o1, w1)" by (metis prod_cases3)
  obtain o2 r2 where l: "capture_loop es w1 beat = (o2, r2)" by (metis surj_pair)
  show ?case using 2 m l mouse_balance [OF m] by (cases r2) auto
next
  case (3 msg info es w beat)
  obtain sw o1 w1 where m: "capture_keyboard_proc 0 msg info w = (sw, o1, w1)" by (metis prod_cases3)
  obtain o2 r2 where l: "capture_loop es w1 beat = (o2, r2)" by (metis surj_pair)
  show ?case using 3 m l keyboard_balance [OF m] by (cases r2) auto
next
  case (5 timer cur drained now es w beat)
  obtain o1 w1 where t: "(if timer then on_beacon_timer cur w else ([], w)) = (o1, w1)" by fastforce
  obtain o2 w2 where f: "(if drained then flush_pending_motion w1 else ([], w1)) = (o2, w2)" by fastforce
  obtain o3 where l: "capture_loop es w2 now = (o3, w', beat', r)" "out = o1 @ o2 @ o3"
    using 5(2) t f by (auto split: prod.splits)
  have "held_x w' + of_int (fst (moved o3)) = held_x w2 + of_int (sum_list (map (fst \<circ> hook_delta) (until_end es))) \<and>
      held_y w' + of_int (snd (moved o3)) = held_y w2 + of_int (sum_list (map (snd \<circ> hook_delta) (until_end es)))"
    using 5(1) t f l(1) by (simp add: comp_def)
  moreover
  have "moved o1 = (0, 0) \<and> held_x w1 = held_x w \<and> held_y w1 = held_y w"
    using t timer_balance [of cur w o1 w1] by (auto split: if_splits)
  moreover have "held_x w2 + of_int (fst (moved o2)) = held_x w1 \<and> held_y w2 + of_int (snd (moved o2)) = held_y w1"
    using f flush_balance [of w1 o2 w2] by (auto split: if_splits)
  ultimately show ?case using l(2) by (auto simp: comp_def)
qed (auto simp: engine_balance)

section \<open>What does not hold\<close>

text \<open>
  A resume from sleep is sent to the window, not posted to the queue: it goes to \<open>DefWindowProcW\<close>, and
  the loop never sees it.
\<close>

lemma sent_resume_unseen: "pump_loop [PumpSets now True, PumpSent e] s = pump_loop [PumpSets now True] s"
  by simp

text \<open>The pump does not look whether it got its timer: without it the watchdog never runs.\<close>

lemma watchdog_timer_unchecked:
  "start_pump (ok(SetTimer WATCHDOG_PERIOD_MS := b)) known_class = start_pump ok known_class"
  by (simp add: start_pump_def create_pump_window_def install_hooks_def)

text \<open>
  The motion before a click is held until the queue is empty, and the click is sent at once: it
  overtakes the motion, and lands where the cursor was before.
\<close>

lemma click_overtakes_motion:
  "fst (capture_loop
     [CaptureMouse WM_MOUSEMOVE \<lparr>mi_pt = (103, 50), mi_data = 0, mi_flags = 0\<rparr> (Some (100, 50)),
      CaptureMouse WM_LBUTTONDOWN \<lparr>mi_pt = (103, 50), mi_data = 0, mi_flags = 0\<rparr> (Some (100, 50)),
      Posted False None True 1] new_win_capture 0) = [MouseButton 0 True, MouseMoveRel 3 0]"
  by (simp add: capture_mouse_proc_def flush_pending_motion_def pm_flush_def take_whole_def new_win_capture_def
      empty_motion_def pm_push_def sub32_def real_to_i32_def trunc_toward_def Let_def
      wrap_i32_def sat_i32_def BUTTON_LEFT_def)

text \<open>The same within a pass of the evdev reader.\<close>

lemma evdev_click_overtakes_motion:
  "fst (drain_pass [Events [\<lparr>ev_type = EV_REL, ev_code = REL_X, ev_value = 3\<rparr>, \<lparr>ev_type = EV_KEY, ev_code = BTN_LEFT, ev_value = 1\<rparr>]]
     (r\<lparr>rd_was_remote := True, rd_motion := empty_motion, rd_press := {}\<rparr>)) = [MouseButton 0 True, MouseMoveRel 3 0]"
  by (simp add: drain_pass_def handle_event_def rel_event_def key_event_def button_of_code_def press_button_def
      pm_flush_def take_whole_def empty_motion_def pm_push_def real_to_i32_def trunc_toward_def Let_def
      sat_i32_def EV_REL_def EV_KEY_def REL_X_def BTN_LEFT_def BUTTON_LEFT_def REL_Y_def)

end
