(* ===== verification/Platform.thy ===== *)
theory Platform
  imports Clipboard Machine_Role X11_Inject Windows
begin

text \<open>
  What the platform crate asks of the system beside input: the host name and the primary display
  (\<open>platform/src/lib.rs\<close>, \<open>x11/mod.rs\<close>, \<open>windows/mod.rs\<close>, \<open>unsupported.rs\<close>), the resolution of the timer
  (\<open>windows/timer.rs\<close>); and how the X11 capture starts and runs its loop (\<open>x11/capture/thread.rs\<close>).
\<close>

section \<open>Host name\<close>

text \<open>\<open>String::from_utf8_lossy\<close>: what is not UTF-8 becomes U+FFFD, once per maximal part.\<close>

definition REPLACEMENT :: "byte list" where "REPLACEMENT = [0xEF, 0xBF, 0xBD]"

function from_utf8_lossy :: "byte list \<Rightarrow> byte list" where
  "from_utf8_lossy [] = []"
| "from_utf8_lossy (a # bs) =
     (if utf8_width a = 1 then a # from_utf8_lossy bs
      else if utf8_width a = 2 then
        (case bs of
           b # cs \<Rightarrow> if utf8_cont b then a # b # from_utf8_lossy cs else REPLACEMENT @ from_utf8_lossy bs
         | [] \<Rightarrow> REPLACEMENT)
      else if utf8_width a = 3 then
        (case bs of
           b # cs \<Rightarrow>
             if \<not> utf8_second a b then REPLACEMENT @ from_utf8_lossy bs
             else (case cs of
                 c # ds \<Rightarrow> if utf8_cont c then a # b # c # from_utf8_lossy ds else REPLACEMENT @ from_utf8_lossy cs
               | [] \<Rightarrow> REPLACEMENT)
         | [] \<Rightarrow> REPLACEMENT)
      else if utf8_width a = 4 then
        (case bs of
           b # cs \<Rightarrow>
             if \<not> utf8_second a b then REPLACEMENT @ from_utf8_lossy bs
             else (case cs of
                 c # ds \<Rightarrow>
                   if \<not> utf8_cont c then REPLACEMENT @ from_utf8_lossy cs
                   else (case ds of
                       d # es \<Rightarrow> if utf8_cont d then a # b # c # d # from_utf8_lossy es else REPLACEMENT @ from_utf8_lossy ds
                     | [] \<Rightarrow> REPLACEMENT)
               | [] \<Rightarrow> REPLACEMENT)
         | [] \<Rightarrow> REPLACEMENT)
      else REPLACEMENT @ from_utf8_lossy bs)"
  by pat_completeness auto
termination by (relation "measure length") auto

text \<open>
  What \<open>gethostname\<close> leaves in the buffer of 256 bytes, and \<open>GetComputerNameW\<close> in the one of 256 code
  units, with the length it reports.
\<close>

datatype host_answer = GotHostName "byte list" | GotComputerName "u16 list" nat | HostCallFailed | NoHostCall

fun platform_hostname :: "host_answer \<Rightarrow> string" where
  "platform_hostname (GotHostName buf) = trim (bytes_str (from_utf8_lossy (takeWhile (\<lambda>b. b \<noteq> 0) buf)))"
| "platform_hostname (GotComputerName buf n) = trim (bytes_str (utf8_of (from_utf16_lossy (take n buf))))"
| "platform_hostname HostCallFailed = []"
| "platform_hostname NoHostCall = []"

section \<open>The primary display\<close>

text \<open>
  X11: the size of the first root, when the display opens and has one, and what RandR answers.  Windows:
  the window station, whether it is visible, and the screen.
\<close>

datatype display_answer =
  X11Display "(nat \<times> nat) option" "output_reply list"
| X11Unreachable
| WinDisplay "bool option" screen_info
| NoDisplay

fun primary_display :: "display_answer \<Rightarrow> screen_info option" where
  "primary_display (X11Display None replies) = None"
| "primary_display (X11Display (Some (root_w, root_h)) replies) =
     (let (w, h) = (case visible_desktop_of replies of
          Some v \<Rightarrow> vd_size v
        | None \<Rightarrow> (word_of_nat root_w, word_of_nat root_h)) in
      Some \<lparr>si_width = w, si_height = h, si_scale = F32_ONE\<rparr>)"
| "primary_display X11Unreachable = None"
| "primary_display (WinDisplay station info) = (if station = Some True then Some info else None)"
| "primary_display NoDisplay = None"

text \<open>Platforms without a backend.\<close>

definition UNSUPPORTED :: string where
  "UNSUPPORTED = ''kvmshare: this OS does not have a platform backend yet (Linux/X11 is implemented)''"

definition unsupported_server :: "string option \<Rightarrow> string + unit" where
  "unsupported_server display = Inl UNSUPPORTED"

definition unsupported_client :: "string option \<Rightarrow> string + unit" where
  "unsupported_client display = Inl UNSUPPORTED"

section \<open>The timer of Windows\<close>

text \<open>The count of the guards, and the requests for the fine resolution that are open in the system.\<close>

record timer =
  tm_refs :: u32
  tm_open :: int

definition new_timer :: timer where
  "new_timer = \<lparr>tm_refs = 0, tm_open = 0\<rparr>"

text \<open>\<open>refs += 1\<close> panics past the end of \<open>u32\<close>.\<close>

definition timer_engage :: "timer \<Rightarrow> timer option" where
  "timer_engage t =
     (let t1 = (if tm_refs t = 0 then t\<lparr>tm_open := tm_open t + 1\<rparr> else t) in
      if tm_refs t1 = - 1 then None else Some (t1\<lparr>tm_refs := tm_refs t1 + 1\<rparr>))"

definition timer_drop :: "timer \<Rightarrow> timer" where
  "timer_drop t =
     (let refs = (if tm_refs t = 0 then 0 else tm_refs t - 1);
          t1 = t\<lparr>tm_refs := refs\<rparr> in
      if refs = 0 then t1\<lparr>tm_open := tm_open t1 - 1\<rparr> else t1)"

section \<open>The start of the X11 capture\<close>

text \<open>What the X server and the system answer, in the order of the calls; errors carry their text.\<close>

record x11_answers =
  xa_connect :: "string option"
  xa_version_query :: "string option"
  xa_version :: "string + nat \<times> nat"
  xa_select :: "string option"
  xa_xfixes_query :: "string option"
  xa_xfixes :: bool
  xa_xfixes_version :: "string option"
  xa_outputs :: "output_reply list"
  xa_root :: "nat \<times> nat"
  xa_pipe :: "string option"
  xa_nonblocking :: "string option"

definition first_error :: "(string \<times> string option) list \<Rightarrow> string option" where
  "first_error cs = first_some (map (\<lambda>(what, e). map_option (\<lambda>t. what @ t) e) cs)"

definition start_x11 :: "x11_answers \<Rightarrow> motion_probe \<Rightarrow> string + capture" where
  "start_x11 a probe =
     (case first_error
         [(''X11 connect: '', xa_connect a), (''XI2 query: '', xa_version_query a),
          (''XI2 reply: '', case xa_version a of Inl e \<Rightarrow> Some e | Inr _ \<Rightarrow> None)] of
        Some e \<Rightarrow> Inl e
      | None \<Rightarrow>
          let (major, minor) = (case xa_version a of Inr v \<Rightarrow> v | Inl _ \<Rightarrow> (0, 0)) in
          if major < 2 then Inl (''XI2 required, server has XI '' @ decimal major @ ''.'' @ decimal minor)
          else (case first_error
              [([], xa_select a), (''XFixes query: '', xa_xfixes_query a),
               ([], if xa_xfixes a then None else Some ''XFixes extension not available''),
               (''XFixes version: '', xa_xfixes_version a), (''wake pipe: '', xa_pipe a),
               (''wake pipe nonblocking: '', xa_nonblocking a)] of
             Some e \<Rightarrow> Inl e
           | None \<Rightarrow>
               Inr (new_capture
                 (case visible_desktop_of (xa_outputs a) of
                    Some v \<Rightarrow> v
                  | None \<Rightarrow> whole_root (word_of_nat (fst (xa_root a))) (word_of_nat (snd (xa_root a)))) probe)))"

section \<open>The loop of the X11 capture\<close>

text \<open>
  A turn: the wall clock and the monotonic one, the events of the connection, the error after them if
  it broke, the commands with the replies to their grabs, the position of the beacon thread, and how the
  poll ended: woken or timed out, interrupted, or failed.
\<close>

datatype x_poll = PollReturned | PollInterrupted | PollBroken

record x11_turn =
  xt_wall :: nat
  xt_now :: nat
  xt_events :: "x_event list"
  xt_error :: "string option"
  xt_commands :: "granted_command list"
  xt_pos :: "(int \<times> int) option"
  xt_poll :: x_poll

text \<open>The requests, the tick, the argument of each poll, the pauses slept, and the error that ends the loop.\<close>

record x11_out =
  xo_requests :: "x_request list"
  xo_tick :: nat
  xo_polls :: "nat option list"
  xo_slept :: nat
  xo_error :: "string option"

definition POLL_ERROR_PAUSE :: nat where "POLL_ERROR_PAUSE = 50"

definition no_x11_out :: x11_out where
  "no_x11_out = \<lparr>xo_requests = [], xo_tick = 0, xo_polls = [], xo_slept = 0, xo_error = None\<rparr>"

fun x11_loop :: "x11_turn list \<Rightarrow> x11_out \<Rightarrow> capture \<Rightarrow> x11_out \<times> capture" where
  "x11_loop [] r c = (r, c)"
| "x11_loop (t # ts) r c =
     (let r1 = r\<lparr>xo_tick := xt_wall t\<rparr> in
      case xt_error t of
        Some e \<Rightarrow>
          (case on_events (xt_now t) (xt_events t) c of
             (out, c') \<Rightarrow> (r1\<lparr>xo_requests := xo_requests r1 @ out, xo_error := Some (''X event: '' @ e)\<rparr>, c'))
      | None \<Rightarrow>
          (case capture_pass (xt_now t) (xt_events t) (xt_commands t) (xt_pos t) c of
             (out, c') \<Rightarrow>
               x11_loop ts
                 (r1\<lparr>xo_requests := xo_requests r1 @ out,
                     xo_polls := xo_polls r1 @ [poll_ms (wait_timeout (xt_now t) c')],
                     xo_slept := xo_slept r1 + (if xt_poll t = PollBroken then POLL_ERROR_PAUSE else 0)\<rparr>) c'))"

end
