(* ===== verification/Platform_Rules.thy ===== *)
theory Platform_Rules
  imports Platform Clipboard_Rules X11_Capture_Rules Handshake_Rules
begin

text \<open>
  What the platform reports is text, the resolution of the timer follows its guards, and the X11 capture
  keeps its invariant from its start through every turn of its loop.
\<close>

section \<open>Host name\<close>

lemma replacement_valid: "utf8_valid (REPLACEMENT @ bs) = utf8_valid bs"
  by (simp add: REPLACEMENT_def utf8_width_def utf8_second_def utf8_cont_def)

lemma lossy_valid: "utf8_valid (from_utf8_lossy bs)"
proof (induction bs rule: from_utf8_lossy.induct)
  case (2 a bs)
  have r: "utf8_valid REPLACEMENT" using replacement_valid [of "[]"] by simp
  show ?case
    using 2 r by (subst from_utf8_lossy.simps) (simp add: replacement_valid split: list.split)
qed simp

text \<open>Text that is valid already is kept.\<close>

lemma lossy_id: "utf8_valid bs \<Longrightarrow> from_utf8_lossy bs = bs"
proof (induction bs rule: utf8_valid.induct)
  case (2 a bs)
  consider "utf8_width a = 1" | "utf8_width a = 2" | "utf8_width a = 3" | "utf8_width a = 4"
    using 2(5) by (auto split: if_splits)
  then show ?case
  proof cases
    case 1 then show ?thesis using 2(1,5) by simp
  next
    case k: 2
    then obtain b cs where "bs = b # cs" "utf8_cont b" "utf8_valid cs" using 2(5) by (auto split: list.splits)
    then show ?thesis using k 2(2) by simp
  next
    case k: 3
    then obtain b c ds where "bs = b # c # ds" "utf8_second a b" "utf8_cont c" "utf8_valid ds"
      using 2(5) by (auto split: list.splits)
    then show ?thesis using k 2(3) by simp
  next
    case k: 4
    then obtain b c d es where "bs = b # c # d # es" "utf8_second a b" "utf8_cont c" "utf8_cont d" "utf8_valid es"
      using 2(5) by (auto split: list.splits)
    then show ?thesis using k 2(4) by simp
  qed
qed simp

text \<open>A host name in ASCII with no white space at its ends is reported as it is.\<close>

lemma ascii_hostname:
  assumes "ascii s" "trimmed s" "CHR 0x00 \<notin> set s"
  shows "platform_hostname (GotHostName (str_bytes s @ 0 # rest)) = s"
proof -
  have "0 \<notin> set (str_bytes s)"
  proof
    assume "0 \<in> set (str_bytes s)"
    then obtain c where "c \<in> set s" "(of_char c :: byte) = 0" by (auto simp: str_bytes_def)
    then have "(of_char c :: nat) = 0" using unat_of_char [of c] by simp
    then have "c = CHR 0x00" by (cases c) (auto simp: of_char_def)
    then show False using \<open>c \<in> set s\<close> assms(3) by simp
  qed
  then have "takeWhile (\<lambda>b. b \<noteq> 0) (str_bytes s @ 0 # rest) = str_bytes s" by (subst takeWhile_append2) auto
  moreover have "from_utf8_lossy (str_bytes s) = str_bytes s" by (rule lossy_id [OF ascii_valid [OF assms(1)]])
  ultimately show ?thesis using assms(2) by (simp add: trim_trimmed)
qed

section \<open>The timer\<close>

text \<open>The fine resolution is requested once while there is a guard, and not otherwise.\<close>

definition timer_ok :: "timer \<Rightarrow> bool" where
  "timer_ok t \<longleftrightarrow> tm_open t = (if tm_refs t = 0 then 0 else 1)"

lemma timer_engage_ok: "timer_ok t \<Longrightarrow> timer_engage t = Some t' \<Longrightarrow> timer_ok t' \<and> tm_refs t' \<noteq> 0"
proof -
  assume t: "timer_ok t" "timer_engage t = Some t'"
  then have "tm_refs t \<noteq> - 1" by (auto simp: timer_engage_def Let_def split: if_splits)
  then have "tm_refs t + 1 \<noteq> 0" by (metis add_eq_0_iff2)
  then show ?thesis using t by (auto simp: timer_engage_def timer_ok_def Let_def split: if_splits)
qed

lemma timer_drop_ok: "timer_ok t \<Longrightarrow> tm_refs t \<noteq> 0 \<Longrightarrow> timer_ok (timer_drop t)"
  by (auto simp: timer_drop_def timer_ok_def Let_def)

lemma timer_drop_engage: "timer_ok t \<Longrightarrow> timer_engage t = Some t' \<Longrightarrow> timer_drop t' = t"
proof -
  assume t: "timer_ok t" "timer_engage t = Some t'"
  then have "tm_refs t \<noteq> - 1" by (auto simp: timer_engage_def Let_def split: if_splits)
  then have "tm_refs t + 1 \<noteq> 0" by (metis add_eq_0_iff2)
  then show ?thesis using t by (auto simp: timer_engage_def timer_drop_def timer_ok_def Let_def split: if_splits)
qed

section \<open>The X11 capture\<close>

lemma capture_ok_later: "capture_ok now c \<Longrightarrow> now \<le> later \<Longrightarrow> capture_ok later c"
  by (auto simp: capture_ok_def held_ok_def)

lemma start_x11_ok: "start_x11 a probe = Inr c \<Longrightarrow> capture_ok now c \<and> cp_grabbed c = False"
  using new_capture_ok by (auto simp: start_x11_def Let_def new_capture_def split: option.splits prod.splits if_splits)

text \<open>
  A capture that has started keeps its invariant in every turn, and while it holds the input every poll
  of a turn that ends well is bounded by half a second.
\<close>

lemma x11_loop_ok:
  "capture_ok n c \<Longrightarrow> sorted (n # map xt_now ts) \<Longrightarrow> x11_loop ts r c = (r', c') \<Longrightarrow> capture_ok (last (n # map xt_now ts)) c'"
proof (induction ts arbitrary: n c r)
  case (Cons t ts)
  have now: "n \<le> xt_now t" "xt_now t \<le> last (n # map xt_now (t # ts))"
    using Cons.prems(2) last_in_set [of "map xt_now (t # ts)"] by auto
  have c: "capture_ok (xt_now t) c" by (rule capture_ok_later [OF Cons.prems(1) now(1)])
  show ?case
  proof (cases "xt_error t")
    case (Some e)
    obtain out c1 where "on_events (xt_now t) (xt_events t) c = (out, c1)" by fastforce
    then have "c' = c1" "capture_ok (xt_now t) c1"
      using Cons.prems(3) Some on_events_ok [OF c] by (auto simp: Let_def)
    then show ?thesis using capture_ok_later now(2) by blast
  next
    case None
    obtain out c1 where p: "capture_pass (xt_now t) (xt_events t) (xt_commands t) (xt_pos t) c = (out, c1)" by fastforce
    then have "capture_ok (xt_now t) c1" using capture_pass_ok [OF c] by blast
    moreover have "sorted (xt_now t # map xt_now ts)" using Cons.prems(2) by simp
    moreover obtain r1 where "x11_loop ts r1 c1 = (r', c')" using Cons.prems(3) None p by (auto simp: Let_def)
    ultimately show ?thesis using Cons.IH by fastforce
  qed
qed simp

text \<open>The loop polls once per turn, sleeps only after a failed poll, and ends only on an error of the connection.\<close>

lemma x11_loop_polls:
  "x11_loop ts r c = (r', c') \<Longrightarrow> xo_error r = None \<Longrightarrow>
    (xo_error r' = None \<longrightarrow> length (xo_polls r') = length (xo_polls r) + length ts) \<and>
    (xo_error r' \<noteq> None \<longrightarrow> (\<exists>t \<in> set ts. xt_error t \<noteq> None)) \<and>
    xo_slept r' \<le> xo_slept r + 50 * length (filter (\<lambda>t. xt_poll t = PollBroken) ts)"
proof (induction ts r c arbitrary: r' c' rule: x11_loop.induct)
  case (2 t ts r c)
  show ?case
  proof (cases "xt_error t")
    case None
    obtain out c1 where p: "capture_pass (xt_now t) (xt_events t) (xt_commands t) (xt_pos t) c = (out, c1)" by fastforce
    show ?thesis using "2.IH" [OF refl None p [symmetric]] "2.prems" None p by (auto simp: Let_def POLL_ERROR_PAUSE_def)
  next
    case (Some e)
    then show ?thesis using "2.prems" by (auto simp: Let_def split: prod.splits)
  qed
qed auto

end
