(* ===== verification/Locks.thy ===== *)
theory Locks
  imports Server Client
begin

text \<open>
  The locks of the threads.  Every handler of the server (\<open>core/src/server/\<close>) and of the client
  (\<open>core/src/client/\<close>) as the sequence of what it locks, unlocks and calls that may block, in the
  order of the code, with the guards living as long as the scopes of the code make them live: a guard in
  the head of an \<open>if let\<close> or a \<open>match\<close> lives to the end of its body.

  A \<open>try_lock\<close> is written as a lock; it waits where the code would go on.
\<close>

section \<open>Threads and locks\<close>

datatype blocking = NetRecv | NetSend | ClipboardCall | EngineCall | InjectorCall | WakeWait

datatype 'l act = Lock 'l | Unlock 'l | Op blocking

definition with_lock :: "'l \<Rightarrow> 'l act list \<Rightarrow> 'l act list" where
  "with_lock l as = Lock l # as @ [Unlock l]"

text \<open>
  A thread is what it still has to do in its handler and the locks it holds.  An idle thread may begin any
  handler; a lock is taken when no thread holds it, the thread itself included: the mutexes of the
  standard library are not reentrant.
\<close>

type_synonym 'l thread = "'l act list \<times> 'l list"

definition holds_lock :: "'l thread list \<Rightarrow> 'l \<Rightarrow> bool" where
  "holds_lock ts l \<longleftrightarrow> list_ex (\<lambda>t. List.member (snd t) l) ts"

inductive thread_step :: "('l act list \<Rightarrow> bool) \<Rightarrow> nat \<Rightarrow> 'l thread list \<Rightarrow> 'l thread list \<Rightarrow> bool" for handler i where
  begins: "i < length ts \<Longrightarrow> ts ! i = ([], []) \<Longrightarrow> handler as \<Longrightarrow> thread_step handler i ts (ts[i := (as, [])])"
| locks: "i < length ts \<Longrightarrow> ts ! i = (Lock l # as, held) \<Longrightarrow> \<not> holds_lock ts l \<Longrightarrow>
    thread_step handler i ts (ts[i := (as, l # held)])"
| unlocks: "i < length ts \<Longrightarrow> ts ! i = (Unlock l # as, held) \<Longrightarrow> thread_step handler i ts (ts[i := (as, remove1 l held)])"
| calls: "i < length ts \<Longrightarrow> ts ! i = (Op b # as, held) \<Longrightarrow> thread_step handler i ts (ts[i := (as, held)])"

text \<open>The states of \<open>n\<close> threads that all started idle.\<close>

inductive threads_reach :: "('l act list \<Rightarrow> bool) \<Rightarrow> nat \<Rightarrow> 'l thread list \<Rightarrow> bool" for handler n where
  idle: "threads_reach handler n (replicate n ([], []))"
| step: "threads_reach handler n ts \<Longrightarrow> thread_step handler i ts ts' \<Longrightarrow> threads_reach handler n ts'"

section \<open>The server\<close>

datatype server_lock =
  EngineSlot | EngineLock | SessionLock | PolicyLock | ActiveLock | ClientsLock | TcpIps | Addrs | Seqs | LastHeard
| EventsLock | GainLock | ControlLock | ClipboardLock

type_synonym server_acts = "server_lock act list"

definition enqueue_locks :: server_acts where
  "enqueue_locks = with_lock ClientsLock []"

text \<open>\<open>had\<close> is whether a client was active; the engine is locked by the caller.\<close>

fun action_locks :: "bool \<Rightarrow> action \<Rightarrow> server_acts" where
  "action_locks had Nothing = []"
| "action_locks had (Send m) = with_lock ActiveLock (if had then enqueue_locks else [])"
| "action_locks had (SwitchTo i x y) =
     with_lock ActiveLock (if had then enqueue_locks else []) @ with_lock ActiveLock [] @ with_lock LastHeard [] @
     enqueue_locks @ [Op EngineCall]"
| "action_locks had (SwitchToLocal x y) =
     with_lock ActiveLock (if had then enqueue_locks else []) @ [Op EngineCall]"

definition execute_locks :: "bool \<times> action \<Rightarrow> server_acts" where
  "execute_locks a = with_lock EventsLock [] @ action_locks (fst a) (snd a)"

definition local_input_locks :: "message \<Rightarrow> (bool \<times> action) list \<Rightarrow> server_acts" where
  "local_input_locks m acts =
     (case m of
        MouseMoveRel dx dy \<Rightarrow> with_lock GainLock []
      | MouseMoveAbs x y \<Rightarrow> with_lock GainLock [] @ with_lock SessionLock []
      | _ \<Rightarrow> []) @
     with_lock SessionLock [] @ with_lock EngineLock (concat (map execute_locks acts))"

text \<open>
  \<open>present\<close>: the client is still registered; \<open>home\<close>: the session brings the cursor home, and whether a
  client was active.
\<close>

definition go_home_locks :: "bool option \<Rightarrow> server_acts" where
  "go_home_locks home = (case home of None \<Rightarrow> [] | Some had \<Rightarrow> with_lock EngineLock (action_locks had (SwitchToLocal 0 0)))"

definition disconnect_locks :: "bool \<times> bool option \<Rightarrow> server_acts" where
  "disconnect_locks p =
     with_lock ClientsLock [] @
     (if \<not> fst p then []
      else enqueue_locks @ enqueue_locks @ with_lock ClientsLock [] @ with_lock Addrs [] @ with_lock Seqs [] @
        with_lock LastHeard [] @ with_lock TcpIps [] @ with_lock SessionLock [] @ with_lock ActiveLock [] @
        (case snd p of
           None \<Rightarrow> []
         | Some had \<Rightarrow>
             with_lock EngineSlot [] @
             with_lock EngineLock (with_lock EventsLock [] @ action_locks had (SwitchToLocal 0 0))) @
        with_lock EventsLock [])"

definition broadcast_locks :: server_acts where
  "broadcast_locks = with_lock ClientsLock []"

text \<open>The commands of the app layer, with what the handlers find.\<close>

datatype control_path =
  CommandFor bool "(bool \<times> bool option) option"
| PolicyChange "(bool \<times> bool option) list"
| LayoutChange "(bool \<times> action) list" "(bool \<times> bool option) list"

fun control_locks :: "control_path \<Rightarrow> server_acts" where
  "control_locks (CommandFor found disconnects) =
     with_lock ClientsLock [] @
     (if found then (case disconnects of Some p \<Rightarrow> disconnect_locks p | None \<Rightarrow> enqueue_locks) else [])"
| "control_locks (PolicyChange revoked) =
     with_lock PolicyLock (with_lock ClientsLock []) @ concat (map disconnect_locks revoked)"
| "control_locks (LayoutChange acts gone) =
     with_lock SessionLock [] @ with_lock EngineLock [Op EngineCall] @ with_lock SessionLock [] @
     with_lock EngineLock (concat (map execute_locks acts)) @
     with_lock SessionLock (with_lock ClientsLock []) @ concat (map disconnect_locks gone) @
     with_lock SessionLock [] @ broadcast_locks"

definition drain_locks :: "control_path list \<Rightarrow> server_acts" where
  "drain_locks cs = with_lock ControlLock [] @ concat (map control_locks cs)"

text \<open>The end of a connection: still registered at the first look, and at the second; then home.\<close>

definition teardown_locks :: "bool \<Rightarrow> bool \<Rightarrow> bool option \<Rightarrow> server_acts" where
  "teardown_locks first second home =
     with_lock ClientsLock [] @
     (if \<not> first then []
      else with_lock ClientsLock
          (if second then with_lock TcpIps [] @ with_lock Addrs [] @ with_lock Seqs [] @ with_lock LastHeard [] else []) @
        (if \<not> second then [] else with_lock ActiveLock [] @ with_lock SessionLock [] @ go_home_locks home))"

text \<open>A connection, by how far its handshake comes; the last is accepted, under the allowlist, admitted.\<close>

datatype hello_path =
  NoHello | WrongVersion | IsRevoked | NotLocal | NotAllowedHere | NameTaken bool | Accepted bool bool

definition allow_locks :: "bool \<Rightarrow> server_acts" where
  "allow_locks allowlist = with_lock PolicyLock [] @ (if allowlist then with_lock SessionLock [] @ with_lock PolicyLock [] else [])"

fun hello_locks :: "hello_path \<Rightarrow> server_acts" where
  "hello_locks NoHello = [Op NetRecv]"
| "hello_locks WrongVersion = [Op NetRecv, Op NetSend]"
| "hello_locks IsRevoked = [Op NetRecv] @ with_lock PolicyLock [] @ [Op NetSend]"
| "hello_locks NotLocal = [Op NetRecv] @ with_lock PolicyLock [] @ with_lock PolicyLock [] @ [Op NetSend]"
| "hello_locks NotAllowedHere =
     [Op NetRecv] @ with_lock PolicyLock [] @ with_lock PolicyLock [] @ allow_locks True @ [Op NetSend]"
| "hello_locks (NameTaken allowlist) =
     [Op NetRecv] @ with_lock PolicyLock [] @ with_lock PolicyLock [] @ allow_locks allowlist @
     with_lock SessionLock [Op NetSend]"
| "hello_locks (Accepted allowlist admitted) =
     [Op NetRecv] @ with_lock PolicyLock [] @ with_lock PolicyLock [] @ allow_locks allowlist @ with_lock SessionLock [] @
     with_lock SessionLock [] @ with_lock SessionLock [] @ [Op NetSend] @
     with_lock ClientsLock (with_lock TcpIps []) @ with_lock SessionLock [] @
     (if admitted then with_lock SessionLock [] @ with_lock ClientsLock [] else [])"

fun client_message_locks :: "message \<Rightarrow> server_acts" where
  "client_message_locks (ScreenInfoMsg info) = with_lock SessionLock [] @ with_lock SessionLock [] @ enqueue_locks"
| "client_message_locks (ClipboardMsg mime data) = with_lock ClipboardLock [Op ClipboardCall]"
| "client_message_locks (CursorPos x y) = with_lock SessionLock []"
| "client_message_locks m = []"

definition writer_locks :: "bool \<Rightarrow> server_acts" where
  "writer_locks datagram = (if datagram then with_lock Addrs [] else []) @ [Op NetSend]"

text \<open>
  A datagram: from the address of the handshake, from a new port, a beacon, a newer one, and the actions
  it fires.
\<close>

definition datagram_locks :: "bool \<Rightarrow> bool \<Rightarrow> bool \<Rightarrow> bool \<Rightarrow> (bool \<times> action) list \<Rightarrow> server_acts" where
  "datagram_locks known moved beacon newer acts =
     [Op NetRecv] @ with_lock TcpIps [] @
     (if \<not> known then []
      else with_lock LastHeard [] @ with_lock Addrs (if moved then with_lock Seqs [] else []) @
        (if \<not> beacon then []
         else with_lock Seqs [] @
           (if \<not> newer then []
            else with_lock SessionLock [] @
              (if acts = [] then []
               else with_lock EngineLock (concat (map (\<lambda>a. action_locks (fst a) (snd a)) acts))))))"

text \<open>A quiet read: a client is active, its stream is stale, it is still there, and its teardown.\<close>

definition watchdog_locks :: "bool \<Rightarrow> bool \<Rightarrow> bool \<Rightarrow> bool \<Rightarrow> bool \<Rightarrow> bool option \<Rightarrow> server_acts" where
  "watchdog_locks active stale there first second home =
     with_lock ActiveLock [] @
     (if \<not> active then []
      else with_lock LastHeard [] @
        (if \<not> stale then []
         else with_lock ClientsLock [] @
           (if there then teardown_locks first second home
            else with_lock ActiveLock [] @ with_lock SessionLock [] @ go_home_locks home)))"

definition clipboard_poll_locks :: "bool \<Rightarrow> server_acts" where
  "clipboard_poll_locks changed =
     with_lock ClipboardLock [Op ClipboardCall] @ with_lock ClipboardLock [] @ (if changed then broadcast_locks else [])"

definition startup_locks :: server_acts where
  "startup_locks =
     with_lock EngineSlot [] @ with_lock SessionLock [] @ with_lock EngineSlot (with_lock EngineLock [Op EngineCall]) @
     with_lock EventsLock []"

definition supervisor_locks :: server_acts where
  "supervisor_locks = with_lock ActiveLock []"

inductive server_handler :: "server_acts \<Rightarrow> bool" where
  "server_handler startup_locks"
| "server_handler (local_input_locks m acts)"
| "server_handler (drain_locks cs)"
| "server_handler (hello_locks h)"
| "server_handler (Op NetRecv # client_message_locks m)"
| "server_handler (teardown_locks first second home)"
| "server_handler (writer_locks datagram)"
| "server_handler (datagram_locks known moved beacon newer acts)"
| "server_handler (Op NetRecv # watchdog_locks active stale there first second home)"
| "server_handler (clipboard_poll_locks changed)"
| "server_handler supervisor_locks"

section \<open>The client\<close>

datatype client_lock = MotionLock | InjectorLock | EventQueue | ClientClipboard | WakeLock

type_synonym client_acts = "client_lock act list"

text \<open>The motion thread drops the motion guard first, and so does the end of control.\<close>

definition motion_tick_locks :: client_acts where
  "motion_tick_locks =
     [Lock MotionLock, Lock InjectorLock, Op InjectorCall] @ with_lock EventQueue [] @
     [Op InjectorCall, Unlock MotionLock, Unlock InjectorLock, Op NetSend]"

text \<open>The wait for control: the condition variable gives the lock back while it waits.\<close>

definition motion_idle_locks :: client_acts where
  "motion_idle_locks = [Lock WakeLock, Unlock WakeLock, Op WakeWait, Lock WakeLock, Unlock WakeLock]"

definition steer_locks :: client_acts where
  "steer_locks = with_lock MotionLock (with_lock InjectorLock [Op InjectorCall])"

fun dispatch_locks :: "message \<Rightarrow> client_acts" where
  "dispatch_locks (MouseMoveRel dx dy) = steer_locks"
| "dispatch_locks (MouseMoveAbs x y) = steer_locks"
| "dispatch_locks (Enter i x y) = steer_locks @ with_lock InjectorLock [Op InjectorCall] @ [Op NetSend]"
| "dispatch_locks (Leave i) =
     [Lock MotionLock, Lock InjectorLock, Op InjectorCall, Unlock MotionLock, Unlock InjectorLock]"
| "dispatch_locks (MouseButton b p) = with_lock EventQueue []"
| "dispatch_locks (MouseWheel x y) = with_lock EventQueue []"
| "dispatch_locks (Key k key) = with_lock EventQueue []"
| "dispatch_locks (ClipboardMsg mime data) = with_lock ClientClipboard [Op ClipboardCall]"
| "dispatch_locks m = []"

definition control_turn_locks :: "message option \<Rightarrow> client_acts" where
  "control_turn_locks m =
     with_lock InjectorLock [Op InjectorCall] @ with_lock InjectorLock [Op InjectorCall] @ [Op NetRecv] @
     (case m of Some msg \<Rightarrow> dispatch_locks msg | None \<Rightarrow> [Op NetSend])"

definition sync_locks :: "bool \<Rightarrow> bool \<Rightarrow> bool \<Rightarrow> client_acts" where
  "sync_locks screen_due changed clip_due =
     (if screen_due then with_lock InjectorLock [Op InjectorCall] @ (if changed then with_lock MotionLock [] else []) else []) @
     (if clip_due then with_lock ClientClipboard [Op ClipboardCall] else [])"

definition client_supervisor_locks :: client_acts where
  "client_supervisor_locks =
     with_lock MotionLock [] @ with_lock InjectorLock [] @ with_lock ClientClipboard [] @
     with_lock InjectorLock [Op InjectorCall]"

inductive client_handler :: "client_acts \<Rightarrow> bool" where
  "client_handler motion_tick_locks"
| "client_handler motion_idle_locks"
| "client_handler (Op NetRecv # steer_locks)"
| "client_handler (control_turn_locks m)"
| "client_handler (sync_locks screen_due changed clip_due)"
| "client_handler client_supervisor_locks"
| "client_handler steer_locks"

end
