(* ===== verification/Locks_Rules.thy ===== *)
theory Locks_Rules
  imports Locks
begin

text \<open>
  The threads of the server and those of the client take their locks in one order each, so that neither
  can deadlock; and what a call that never returns does to the client.
\<close>

section \<open>One order\<close>

text \<open>
  From the locks held, every lock is above all that are held when it is taken, and every unlock is of
  a lock that is held; and what is held at the end.
\<close>

fun ascends :: "('l \<Rightarrow> nat) \<Rightarrow> 'l list \<Rightarrow> 'l act list \<Rightarrow> bool" where
  "ascends rank held [] = True"
| "ascends rank held (Lock l # as) = ((\<forall>h \<in> set held. rank h < rank l) \<and> ascends rank (l # held) as)"
| "ascends rank held (Unlock l # as) = (l \<in> set held \<and> ascends rank (remove1 l held) as)"
| "ascends rank held (Op b # as) = ascends rank held as"

fun held_after :: "'l list \<Rightarrow> 'l act list \<Rightarrow> 'l list" where
  "held_after held [] = held"
| "held_after held (Lock l # as) = held_after (l # held) as"
| "held_after held (Unlock l # as) = held_after (remove1 l held) as"
| "held_after held (Op b # as) = held_after held as"

lemma ascends_append [simp]: "ascends rank held (as @ bs) \<longleftrightarrow> ascends rank held as \<and> ascends rank (held_after held as) bs"
  by (induction rank held as rule: ascends.induct) auto

lemma held_after_append [simp]: "held_after held (as @ bs) = held_after (held_after held as) bs"
  by (induction held as rule: held_after.induct) auto

text \<open>A stretch that begins and ends with the same locks.\<close>

definition tidy :: "('l \<Rightarrow> nat) \<Rightarrow> 'l list \<Rightarrow> 'l act list \<Rightarrow> bool" where
  "tidy rank held as \<longleftrightarrow> ascends rank held as \<and> held_after held as = held"

lemma tidy_Nil [simp]: "tidy rank held []"
  by (simp add: tidy_def)

lemma tidy_Op [simp]: "tidy rank held (Op b # as) = tidy rank held as"
  by (simp add: tidy_def)

lemma tidy_append: "tidy rank held as \<Longrightarrow> tidy rank held bs \<Longrightarrow> tidy rank held (as @ bs)"
  by (simp add: tidy_def)

lemma tidy_concat: "\<forall>as \<in> set ass. tidy rank held as \<Longrightarrow> tidy rank held (concat ass)"
  by (induction ass) (auto simp: tidy_append)

lemma tidy_with_lock: "\<forall>h \<in> set held. rank h < rank l \<Longrightarrow> tidy rank (l # held) as \<Longrightarrow> tidy rank held (with_lock l as)"
  by (simp add: tidy_def with_lock_def)

locale lock_order =
  fixes handler :: "'l act list \<Rightarrow> bool" and rank :: "'l \<Rightarrow> nat"
  assumes tidy_handler: "handler as \<Longrightarrow> tidy rank [] as"
begin

definition orderly :: "'l thread list \<Rightarrow> bool" where
  "orderly ts \<longleftrightarrow> (\<forall>t \<in> set ts. ascends rank (snd t) (fst t) \<and> held_after (snd t) (fst t) = [])"

lemma orderly_step: "thread_step handler i ts ts' \<Longrightarrow> orderly ts \<Longrightarrow> orderly ts'"
proof (induction rule: thread_step.induct)
  case (begins ts as)
  then show ?case using tidy_handler [of as] set_update_subset_insert by (fastforce simp: orderly_def tidy_def)
next
  case (locks ts l as held)
  then have "(Lock l # as, held) \<in> set ts" by (metis nth_mem)
  then show ?case using locks.prems set_update_subset_insert by (fastforce simp: orderly_def)
next
  case (unlocks ts l as held)
  then have "(Unlock l # as, held) \<in> set ts" by (metis nth_mem)
  then show ?case using unlocks.prems set_update_subset_insert by (fastforce simp: orderly_def)
next
  case (calls ts b as held)
  then have "(Op b # as, held) \<in> set ts" by (metis nth_mem)
  then show ?case using calls.prems set_update_subset_insert by (fastforce simp: orderly_def)
qed

lemma reach_orderly: "threads_reach handler n ts \<Longrightarrow> orderly ts"
proof (induction rule: threads_reach.induct)
  case idle
  then show ?case by (simp add: orderly_def)
next
  case (step ts i ts')
  then show ?case using orderly_step by blast
qed

text \<open>The lock a thread waits for.\<close>

definition waits_for :: "'l thread list \<Rightarrow> nat \<Rightarrow> 'l \<Rightarrow> bool" where
  "waits_for ts i l \<longleftrightarrow> i < length ts \<and> (\<exists>as. fst (ts ! i) = Lock l # as)"

lemma steps_unless_waiting:
  assumes "i < length ts" "fst (ts ! i) \<noteq> []" "\<nexists>ts'. thread_step handler i ts ts'"
  shows "\<exists>l. waits_for ts i l \<and> holds_lock ts l"
proof -
  obtain a as held where t: "ts ! i = (a # as, held)" using assms(2) by (metis list.exhaust prod.collapse)
  then obtain l where l: "a = Lock l"
    using assms(1,3) thread_step.unlocks thread_step.calls by (metis act.exhaust)
  then have "holds_lock ts l" using assms(1,3) t thread_step.locks by metis
  then show ?thesis using assms(1) t l by (auto simp: waits_for_def)
qed

text \<open>In a state of the threads where one is in a handler, one that is in a handler can go on.\<close>

lemma no_deadlock:
  assumes reach: "threads_reach handler n ts" and busy: "i < length ts" "fst (ts ! i) \<noteq> []"
  shows "\<exists>j ts'. j < length ts \<and> fst (ts ! j) \<noteq> [] \<and> thread_step handler j ts ts'"
proof (rule ccontr)
  assume stuck: "\<not> ?thesis"
  have ordered: "orderly ts" by (rule reach_orderly [OF reach])
  let ?W = "{rank l |j l. waits_for ts j l}"
  have waiting: "\<exists>l. waits_for ts j l \<and> holds_lock ts l" if "j < length ts" "fst (ts ! j) \<noteq> []" for j
    using steps_unless_waiting [OF that] that stuck by blast
  have "?W \<subseteq> (\<lambda>j. rank (case fst (ts ! j) of Lock l # as \<Rightarrow> l)) ` {..< length ts}"
    by (auto simp: waits_for_def image_def) (metis (no_types, lifting) act.case(1) lessThan_iff list.case(2))
  then have fin: "finite ?W" using finite_subset by blast
  have "?W \<noteq> {}" using waiting [OF busy] by blast
  then have "Max ?W \<in> ?W" using fin Max_in by blast
  then obtain j l where j: "waits_for ts j l" "rank l = Max ?W" by force
  then have "fst (ts ! j) \<noteq> []" "j < length ts" by (auto simp: waits_for_def)
  then have "holds_lock ts l" using waiting [of j] j(1) by (auto simp: waits_for_def)
  then obtain t where "t \<in> set ts" "l \<in> set (snd t)" by (auto simp: holds_lock_def list_ex_iff)
  then obtain k where k: "k < length ts" "l \<in> set (snd (ts ! k))" by (metis in_set_conv_nth)
  have ok: "ascends rank (snd (ts ! k)) (fst (ts ! k))" "held_after (snd (ts ! k)) (fst (ts ! k)) = []"
    using ordered k(1) by (auto simp: orderly_def)
  then have "fst (ts ! k) \<noteq> []" using k(2) by auto
  then obtain m where m: "waits_for ts k m" using waiting [OF k(1)] by blast
  then have "rank l < rank m" using ok(1) k(2) by (auto simp: waits_for_def)
  moreover have "rank m \<le> Max ?W" using Max_ge [OF fin] m by blast
  ultimately show False using j(2) by simp
qed

end

section \<open>The server\<close>

fun server_rank :: "server_lock \<Rightarrow> nat" where
  "server_rank EngineSlot = 0"
| "server_rank GainLock = 0"
| "server_rank ControlLock = 0"
| "server_rank ClipboardLock = 0"
| "server_rank EngineLock = 1"
| "server_rank SessionLock = 2"
| "server_rank PolicyLock = 2"
| "server_rank ActiveLock = 3"
| "server_rank ClientsLock = 4"
| "server_rank TcpIps = 5"
| "server_rank Addrs = 6"
| "server_rank Seqs = 7"
| "server_rank LastHeard = 8"
| "server_rank EventsLock = 9"

lemmas tidy_rules = tidy_append tidy_concat tidy_with_lock

lemma tidy_action: "tidy server_rank [EngineLock] (action_locks had a)"
  by (cases a) (auto intro!: tidy_rules simp: enqueue_locks_def)

lemma tidy_execute: "tidy server_rank [EngineLock] (execute_locks a)"
  by (auto intro!: tidy_rules tidy_action simp: execute_locks_def)

lemma tidy_home: "tidy server_rank [] (go_home_locks home)"
  using tidy_action by (auto intro!: tidy_rules simp del: action_locks.simps simp: go_home_locks_def split: option.split)

lemma tidy_disconnect: "tidy server_rank [] (disconnect_locks p)"
  using tidy_action
  by (auto intro!: tidy_rules simp del: action_locks.simps simp: disconnect_locks_def enqueue_locks_def split: option.split)

lemma tidy_control: "tidy server_rank [] (control_locks c)"
  by (cases c) (auto intro!: tidy_rules tidy_disconnect tidy_execute simp: enqueue_locks_def broadcast_locks_def split: option.split)

lemma tidy_teardown: "tidy server_rank [] (teardown_locks first second home)"
  by (auto intro!: tidy_rules tidy_home simp: teardown_locks_def)

lemma tidy_hello: "tidy server_rank [] (hello_locks h)"
  by (cases h) (auto intro!: tidy_rules simp: allow_locks_def)

lemma tidy_client_message: "tidy server_rank [] (client_message_locks m)"
  by (cases m) (auto intro!: tidy_rules simp: enqueue_locks_def)

interpretation server_locks: lock_order server_handler server_rank
proof
  fix as
  assume "server_handler as"
  then show "tidy server_rank [] as"
  proof cases
    case (2 m acts)
    then show ?thesis by (auto intro!: tidy_rules tidy_execute simp: local_input_locks_def split: message.split)
  qed (auto intro!: tidy_rules tidy_control tidy_hello tidy_client_message tidy_teardown tidy_home tidy_action
      simp: startup_locks_def drain_locks_def writer_locks_def datagram_locks_def watchdog_locks_def
        clipboard_poll_locks_def broadcast_locks_def supervisor_locks_def)
qed

section \<open>The client\<close>

fun client_rank :: "client_lock \<Rightarrow> nat" where
  "client_rank MotionLock = 0"
| "client_rank InjectorLock = 1"
| "client_rank EventQueue = 2"
| "client_rank ClientClipboard = 0"
| "client_rank WakeLock = 0"

lemma tidy_steer: "tidy client_rank [] steer_locks"
  by (auto intro!: tidy_rules simp: steer_locks_def)

lemma tidy_dispatch: "tidy client_rank [] (dispatch_locks m)"
  by (cases m) (auto intro!: tidy_rules tidy_steer simp: tidy_def [of _ _ "Lock MotionLock # _"])

interpretation client_locks: lock_order client_handler client_rank
proof
  fix as
  assume "client_handler as"
  then show "tidy client_rank [] as"
  proof cases
    case 1
    then show ?thesis by (simp add: tidy_def motion_tick_locks_def with_lock_def)
  next
    case 2
    then show ?thesis by (simp add: tidy_def motion_idle_locks_def)
  next
    case (4 m)
    then show ?thesis by (auto intro!: tidy_rules tidy_dispatch simp: control_turn_locks_def split: option.split)
  qed (auto intro!: tidy_rules tidy_steer simp: sync_locks_def client_supervisor_locks_def)
qed

section \<open>What is held during calls\<close>

fun calls_under :: "'l list \<Rightarrow> 'l act list \<Rightarrow> (blocking \<times> 'l list) list" where
  "calls_under held [] = []"
| "calls_under held (Lock l # as) = calls_under (l # held) as"
| "calls_under held (Unlock l # as) = calls_under (remove1 l held) as"
| "calls_under held (Op b # as) = (b, held) # calls_under held as"

text \<open>What waits for another machine or for the owner of the clipboard.\<close>

definition waits_outside :: "blocking \<Rightarrow> bool" where
  "waits_outside b \<longleftrightarrow> b = NetRecv \<or> b = NetSend \<or> b = ClipboardCall"

definition inside :: "'l act list \<Rightarrow> bool" where
  "inside as \<longleftrightarrow> (\<forall>b. Op b \<in> set as \<longrightarrow> \<not> waits_outside b)"

lemma inside_simps [simp]:
  "inside []" "inside (Lock l # as) = inside as" "inside (Unlock l # as) = inside as"
  "inside (Op b # as) \<longleftrightarrow> \<not> waits_outside b \<and> inside as" "inside (as @ bs) \<longleftrightarrow> inside as \<and> inside bs"
  "inside (with_lock l as) = inside as"
  by (auto simp: inside_def with_lock_def)

lemma inside_concat: "\<forall>as \<in> set ass. inside as \<Longrightarrow> inside (concat ass)"
  by (auto simp: inside_def)

lemma calls_inside: "inside as \<Longrightarrow> (b, held') \<in> set (calls_under held as) \<Longrightarrow> \<not> waits_outside b"
  by (induction held as rule: calls_under.induct) auto

lemma inside_action [simp]: "inside (action_locks had a)"
  by (cases a) (simp_all add: enqueue_locks_def waits_outside_def)

lemma inside_execute [simp]: "inside (execute_locks a)"
  by (simp add: execute_locks_def)

lemma inside_home [simp]: "inside (go_home_locks home)"
  by (simp add: go_home_locks_def del: action_locks.simps split: option.split)

lemma inside_disconnect [simp]: "inside (disconnect_locks p)"
  by (simp add: disconnect_locks_def enqueue_locks_def del: action_locks.simps split: option.split)

lemma inside_control [simp]: "inside (control_locks c)"
  by (cases c) (auto intro!: inside_concat simp: enqueue_locks_def broadcast_locks_def waits_outside_def split: option.split)

lemma inside_teardown [simp]: "inside (teardown_locks first second home)"
  by (simp add: teardown_locks_def)

lemma calls_receive: "inside as \<Longrightarrow> (b, held) \<in> set (calls_under [] (Op NetRecv # as)) \<Longrightarrow> waits_outside b \<Longrightarrow> held = []"
  using calls_inside by fastforce

lemma waits_hold_little:
  assumes "server_handler as" "(b, held) \<in> set (calls_under [] as)" "waits_outside b"
  shows "set held \<subseteq> {SessionLock, ClipboardLock}"
  using assms(1)
proof cases
  case 1
  then have "inside as" by (simp add: startup_locks_def waits_outside_def)
  then show ?thesis using calls_inside assms(2,3) by blast
next
  case (2 m acts)
  then have "inside as" by (auto intro!: inside_concat simp: local_input_locks_def split: message.split)
  then show ?thesis using calls_inside assms(2,3) by blast
next
  case (3 cs)
  then have "inside as" by (auto intro!: inside_concat simp: drain_locks_def)
  then show ?thesis using calls_inside assms(2,3) by blast
next
  case (4 h)
  then show ?thesis using assms(2,3) by (cases h) (auto simp: allow_locks_def with_lock_def split: if_splits)
next
  case (5 m)
  then show ?thesis using assms(2,3) by (cases m) (auto simp: with_lock_def enqueue_locks_def)
next
  case (6 first second home)
  then show ?thesis using calls_inside [of as] inside_teardown assms(2,3) by blast
next
  case (7 datagram)
  then show ?thesis using assms(2,3) by (auto simp: writer_locks_def with_lock_def split: if_splits)
next
  case (8 known moved beacon newer acts)
  then obtain rest where "as = Op NetRecv # rest" "rest = tl (datagram_locks known moved beacon newer acts)"
    by (simp add: datagram_locks_def)
  moreover from this have "inside rest" by (auto intro!: inside_concat simp: datagram_locks_def)
  ultimately obtain rest where "as = Op NetRecv # rest" "inside rest" by blast
  then show ?thesis using calls_receive assms(2,3) by fastforce
next
  case (9 active stale there first second home)
  then obtain rest where "as = Op NetRecv # rest" "inside rest" by (simp add: watchdog_locks_def)
  then show ?thesis using calls_receive assms(2,3) by fastforce
next
  case (10 changed)
  then show ?thesis using assms(2,3) by (auto simp: clipboard_poll_locks_def broadcast_locks_def with_lock_def split: if_splits)
next
  case 11
  then show ?thesis using assms(2,3) by (simp add: supervisor_locks_def with_lock_def)
qed

section \<open>No deadlock\<close>

text \<open>
  C17. The threads never deadlock: however many threads of the server run its handlers (local input,
  commands of the app layer, handshakes, messages of the clients, their ends, writers, datagrams, the
  watchdog, the clipboard), and whatever they find, in every state in which a thread is inside a handler
  one such thread can take its next step, as long as the calls of the system return; and the same for
  the threads of the client.  And no thread of the server waits for another machine or for the owner of
  the clipboard with a lock of the input path in its hands, other than the session's (see below).
\<close>
theorem threads_never_deadlock:
  assumes "threads_reach server_handler n ts" "i < length ts" "fst (ts ! i) \<noteq> []"
    "threads_reach client_handler m us" "j < length us" "fst (us ! j) \<noteq> []"
  shows "(\<exists>k ts'. k < length ts \<and> fst (ts ! k) \<noteq> [] \<and> thread_step server_handler k ts ts') \<and>
    (\<exists>k us'. k < length us \<and> fst (us ! k) \<noteq> [] \<and> thread_step client_handler k us us') \<and>
    (server_handler as \<and> (b, held) \<in> set (calls_under [] as) \<and> waits_outside b \<longrightarrow> set held \<subseteq> {SessionLock, ClipboardLock})"
  using server_locks.no_deadlock [OF assms(1-3)] client_locks.no_deadlock [OF assms(4-6)] waits_hold_little [of as b held]
  by blast

text \<open>A peer in its handshake, and a connection at its end.\<close>

definition two_busy :: "server_lock thread list" where
  "two_busy = [(hello_locks NoHello, []), (teardown_locks False False None, [])]"

lemma two_busy_reached: "threads_reach server_handler 2 two_busy"
proof -
  have "thread_step server_handler 0 [([], []), ([], [])] [(hello_locks NoHello, []), ([], [])]"
    using thread_step.begins [of 0 "[([], []), ([], [])]" server_handler "hello_locks NoHello"] server_handler.intros(4) [of NoHello]
    by (simp del: hello_locks.simps)
  moreover have "thread_step server_handler 1 [(hello_locks NoHello, []), ([], [])] two_busy"
    using thread_step.begins [of 1 "[(hello_locks NoHello, []), ([], [])]" server_handler "teardown_locks False False None"]
      server_handler.intros(6) by (simp add: two_busy_def)
  moreover have "threads_reach server_handler 2 [([], []), ([], [])]"
    using threads_reach.idle [of server_handler 2] by (simp add: numeral_2_eq_2)
  ultimately show ?thesis by (meson threads_reach.step)
qed

theorem threads_never_deadlock_witness:
  "\<exists>k ts'. k < length two_busy \<and> thread_step server_handler k two_busy ts'"
proof -
  have "thread_step client_handler 0 [([], [])] [(steer_locks, [])]"
    using thread_step.begins [of 0 "[([], [])]" client_handler steer_locks] client_handler.intros(7) by simp
  then have "threads_reach client_handler 1 [(steer_locks, [])]"
    using threads_reach.step [OF threads_reach.idle [of client_handler 1]] by simp
  then show ?thesis
    using threads_never_deadlock [OF two_busy_reached, of 0 1 "[(steer_locks, [])]" 0]
    by (simp add: two_busy_def steer_locks_def with_lock_def del: hello_locks.simps) (simp, blast)
qed

section \<open>Calls that do not return\<close>

text \<open>
  The refusal of a name is sent with the session locked: as long as a peer does not take it, every
  movement of the cursor waits.
\<close>

lemma name_refusal_holds_session: "(NetSend, [SessionLock]) \<in> set (calls_under [] (hello_locks (NameTaken allowlist)))"
  by (simp add: allow_locks_def with_lock_def)

text \<open>
  A call of the injector that never returns is made with the injector locked.  The control thread of the
  client looks at the injector at every turn: it never takes another step, whatever the other threads
  do, the supervisor included, and the session does not end.
\<close>

lemma stuck_thread:
  assumes "holds_lock [ts ! w] l" "w < length ts" "c < length ts" "w \<noteq> c" "ts ! c = (Lock l # as, held)"
    "thread_step handler i ts ts'" "i \<noteq> w"
  shows "ts' ! c = ts ! c \<and> ts' ! w = ts ! w \<and> length ts' = length ts"
proof -
  have "holds_lock ts l" using assms(1,2) by (auto simp: holds_lock_def list_ex_iff)
  with assms(6) show ?thesis
  proof cases
    case (locks l' as' held')
    then have "i \<noteq> c" using \<open>holds_lock ts l\<close> assms(5) by auto
    then show ?thesis using locks(1) assms(7) by simp
  qed (use assms(5,7) in \<open>auto simp: nth_list_update\<close>)
qed

inductive steps_without :: "('l act list \<Rightarrow> bool) \<Rightarrow> nat \<Rightarrow> 'l thread list \<Rightarrow> 'l thread list \<Rightarrow> bool" for handler w ts where
  none: "steps_without handler w ts ts"
| more_steps: "steps_without handler w ts us \<Longrightarrow> thread_step handler i us vs \<Longrightarrow> i \<noteq> w \<Longrightarrow> steps_without handler w ts vs"

lemma stuck_for_good:
  assumes "l \<in> set locks" "ts ! w = (todo, locks)" "w < length ts" "c < length ts" "w \<noteq> c"
    "ts ! c = (Lock l # as, held)" "steps_without handler w ts us"
  shows "us ! c = ts ! c \<and> us ! w = ts ! w \<and> length us = length ts"
  using assms(7)
proof (induction rule: steps_without.induct)
  case none
  then show ?case by simp
next
  case (more_steps us i vs)
  have "holds_lock [us ! w] l" using more_steps.IH assms(1,2) by (simp add: holds_lock_def)
  then show ?case using stuck_thread [of us w l c as held handler i vs] more_steps assms(3-6) by simp
qed

lemma wedged_injector_freezes_session:
  assumes "ts ! w = (Op InjectorCall # as, [InjectorLock, MotionLock])" "w < length ts" "c < length ts" "w \<noteq> c"
    "ts ! c = (control_turn_locks m, [])" "steps_without client_handler w ts us"
  shows "us ! c = (control_turn_locks m, []) \<and> us ! w = ts ! w \<and> length us = length ts"
proof -
  have "control_turn_locks m = Lock InjectorLock # tl (control_turn_locks m)" by (simp add: control_turn_locks_def with_lock_def)
  then show ?thesis using stuck_for_good [OF _ assms(1) assms(2-4) _ assms(6), of InjectorLock] assms(5) by auto
qed

text \<open>
  And when the session ends all the same, its last act waits for the locks of the motion thread it has
  just abandoned: it places the cursor once more.
\<close>

lemma abandoned_worker_hangs_end:
  assumes "ts ! w = (Op InjectorCall # as, [InjectorLock, MotionLock])" "w < length ts" "c < length ts" "w \<noteq> c"
    "ts ! c = (steer_locks, [])" "steps_without client_handler w ts us"
  shows "us ! c = (steer_locks, []) \<and> us ! w = ts ! w \<and> length us = length ts"
proof -
  have "steer_locks = Lock MotionLock # tl steer_locks" by (simp add: steer_locks_def with_lock_def)
  then show ?thesis using stuck_for_good [OF _ assms(1) assms(2-4) _ assms(6), of MotionLock] assms(5) by auto
qed

end
