(* ===== verification/Client_Idle.thy ===== *)
theory Client_Idle
  imports Client
begin

text \<open>
  The idle wait of the motion thread of the client (\<open>core/src/client/threads.rs\<close>, the head of
  \<open>motion_loop\<close>) beside the threads that wake it: control that comes and goes
  (\<open>client/dispatch.rs\<close>), and the end of the session (\<open>client/mod.rs\<close>, \<open>client/supervisor.rs\<close>).

  Every read of a flag, every store and every notification is a step of its own.  The lock of the
  condition variable is taken by the motion thread only, so it is free whenever that thread wants it.
\<close>

section \<open>The motion thread\<close>

text \<open>
  Where it is: reading \<open>stop\<close> at the head, then \<open>active\<close>; with the lock, reading \<open>active\<close> and then
  \<open>stop\<close> before it waits; at the call of the wait, which takes the lock back; blocked in it; in a tick; over.
\<close>

datatype motion_pc = ReadStop | ReadActive | TestActive | TestStop | ToWait | Asleep | InTick | Over

datatype idle_op = SetActive bool | SetStop | NotifyAll

record idle =
  id_pc :: motion_pc
  id_active :: bool
  id_stop :: bool
  id_todo :: "idle_op list"

definition new_idle :: idle where
  "new_idle = \<lparr>id_pc = ReadStop, id_active = False, id_stop = False, id_todo = []\<rparr>"

fun motion_next :: "idle \<Rightarrow> motion_pc" where
  "motion_next s =
     (case id_pc s of
        ReadStop \<Rightarrow> if id_stop s then Over else ReadActive
      | ReadActive \<Rightarrow> if id_active s then InTick else TestActive
      | TestActive \<Rightarrow> if id_active s then ReadStop else TestStop
      | TestStop \<Rightarrow> if id_stop s then ReadStop else ToWait
      | ToWait \<Rightarrow> Asleep
      | Asleep \<Rightarrow> Asleep
      | InTick \<Rightarrow> ReadStop
      | Over \<Rightarrow> Over)"

section \<open>The threads that wake it\<close>

fun wake_op :: "idle_op \<Rightarrow> idle \<Rightarrow> idle" where
  "wake_op (SetActive b) s = s\<lparr>id_active := b\<rparr>"
| "wake_op SetStop s = s\<lparr>id_stop := True\<rparr>"
| "wake_op NotifyAll s = (if id_pc s = Asleep then s\<lparr>id_pc := TestActive\<rparr> else s)"

text \<open>What \<open>Enter\<close>, \<open>Leave\<close> and the end of the session do to the flags and the condition variable.\<close>

definition enter_wakes :: "idle_op list" where "enter_wakes = [SetActive True, NotifyAll]"
definition leave_wakes :: "idle_op list" where "leave_wakes = [SetActive False, NotifyAll]"
definition stop_wakes :: "idle_op list" where "stop_wakes = [SetStop, NotifyAll]"

section \<open>Steps\<close>

text \<open>
  The motion thread goes on, or its wait returns for no reason; the others begin something when they
  are free, and do the next part of it.  \<open>may\<close> limits the instants of the stores; the code does not.
\<close>

inductive idle_step :: "(idle_op \<Rightarrow> idle \<Rightarrow> bool) \<Rightarrow> idle \<Rightarrow> idle \<Rightarrow> bool" for may where
  motion: "id_pc s \<notin> {Asleep, Over} \<Longrightarrow> idle_step may s (s\<lparr>id_pc := motion_next s\<rparr>)"
| spurious: "id_pc s = Asleep \<Longrightarrow> idle_step may s (s\<lparr>id_pc := TestActive\<rparr>)"
| entering: "id_todo s = [] \<Longrightarrow> idle_step may s (s\<lparr>id_todo := enter_wakes\<rparr>)"
| leaving: "id_todo s = [] \<Longrightarrow> idle_step may s (s\<lparr>id_todo := leave_wakes\<rparr>)"
| stopping: "id_todo s = [] \<Longrightarrow> idle_step may s (s\<lparr>id_todo := stop_wakes\<rparr>)"
| waking: "id_todo s = a # as \<Longrightarrow> may a s \<Longrightarrow> idle_step may s (wake_op a (s\<lparr>id_todo := as\<rparr>))"

definition any_time :: "idle_op \<Rightarrow> idle \<Rightarrow> bool" where "any_time a s = True"

text \<open>Storing the flags with the lock of the condition variable held, as its documentation asks.\<close>

definition with_wake_lock :: "idle_op \<Rightarrow> idle \<Rightarrow> bool" where
  "with_wake_lock a s \<longleftrightarrow> a = NotifyAll \<or> id_pc s \<notin> {TestActive, TestStop, ToWait}"

inductive idle_reach :: "(idle_op \<Rightarrow> idle \<Rightarrow> bool) \<Rightarrow> idle \<Rightarrow> bool" for may where
  start: "idle_reach may new_idle"
| step: "idle_reach may s \<Longrightarrow> idle_step may s s' \<Longrightarrow> idle_reach may s'"

section \<open>The end of the session\<close>

text \<open>
  \<open>join_bounded\<close>: \<open>finished t\<close> says whether the thread has ended \<open>t\<close> milliseconds after the call, which
  looks every 20; the result is how long it took, and whether the thread was joined or abandoned.
\<close>

definition JOIN_GRACE :: nat where "JOIN_GRACE = 2000"
definition JOIN_POLL :: nat where "JOIN_POLL = 20"

function join_from :: "(nat \<Rightarrow> bool) \<Rightarrow> nat \<Rightarrow> nat \<times> bool" where
  "join_from finished t =
     (if t < JOIN_GRACE \<and> \<not> finished t then join_from finished (t + JOIN_POLL) else (t, finished t))"
  by pat_completeness auto
termination by (relation "measure (\<lambda>(f, t). JOIN_GRACE - t)") (auto simp: JOIN_GRACE_def JOIN_POLL_def)

declare join_from.simps [simp del]

definition join_bounded :: "(nat \<Rightarrow> bool) \<Rightarrow> nat \<times> bool" where
  "join_bounded finished = join_from finished 0"

text \<open>The three workers one after the other, each looked at from when its turn comes.\<close>

fun join_workers :: "(nat \<Rightarrow> bool) list \<Rightarrow> nat \<times> bool list" where
  "join_workers [] = (0, [])"
| "join_workers (f # fs) =
     (let (t, joined) = join_bounded f; (ts, rest) = join_workers (map (\<lambda>g n. g (n + t)) fs) in (t + ts, joined # rest))"

end
