(* ===== verification/Client_Idle_Rules.thy ===== *)
theory Client_Idle_Rules
  imports Client_Idle Client_Rules
begin

text \<open>
  When the motion thread of the client sleeps through the arrival of control, and what the supervisor
  makes of the tick it has not had yet.
\<close>

lemmas idle_wakes = enter_wakes_def leave_wakes_def stop_wakes_def

section \<open>Woken, if the flags are stored under the lock\<close>

text \<open>
  Nothing is stored between the test and the wait, so the thread waits with both flags down; a store
  after that has its notification still to come.
\<close>

definition wake_pending :: "idle \<Rightarrow> bool" where
  "wake_pending s \<longleftrightarrow>
     id_todo s \<in> {[], enter_wakes, leave_wakes, stop_wakes, [NotifyAll]} \<and>
     (id_pc s \<in> {TestStop, ToWait} \<longrightarrow> \<not> id_active s) \<and>
     (id_pc s = ToWait \<longrightarrow> \<not> id_stop s) \<and>
     (id_pc s = Asleep \<longrightarrow> id_active s \<or> id_stop s \<longrightarrow> id_todo s = [NotifyAll])"

lemma wake_pending_motion: "wake_pending s \<Longrightarrow> id_pc s \<notin> {Asleep, Over} \<Longrightarrow> wake_pending (s\<lparr>id_pc := motion_next s\<rparr>)"
  by (cases "id_pc s") (auto simp: wake_pending_def)

lemma wake_pending_waking:
  assumes "wake_pending s" "id_todo s = a # as" "with_wake_lock a s"
  shows "wake_pending (wake_op a (s\<lparr>id_todo := as\<rparr>))"
  using assms by (cases a) (auto simp: wake_pending_def with_wake_lock_def idle_wakes)

lemma wake_pending_step:
  assumes "idle_step with_wake_lock s s'" "wake_pending s"
  shows "wake_pending s'"
  using assms(1)
proof (cases rule: idle_step.cases)
  case motion
  then show ?thesis using assms(2) wake_pending_motion by auto
next
  case spurious
  then show ?thesis using assms(2) by (auto simp: wake_pending_def)
next
  case (waking a as)
  then show ?thesis using assms(2) wake_pending_waking by auto
qed (use assms(2) in \<open>auto simp: wake_pending_def\<close>)

lemma wake_pending_reach: "idle_reach with_wake_lock s \<Longrightarrow> wake_pending s"
proof (induction rule: idle_reach.induct)
  case start
  then show ?case by (simp add: wake_pending_def new_idle_def)
qed (rule wake_pending_step)

lemma woken_under_lock:
  assumes "idle_reach with_wake_lock s" "id_pc s = Asleep" "id_todo s = []"
  shows "\<not> id_active s \<and> \<not> id_stop s"
  using wake_pending_reach [OF assms(1)] assms(2,3) by (auto simp: wake_pending_def)

section \<open>Lost, as the flags are stored\<close>

text \<open>The flags come up while the thread is between its test and its wait, and the notification finds no one.\<close>

lemma wakes_between:
  assumes "wakes = [a, NotifyAll]" "wakes \<in> {enter_wakes, leave_wakes, stop_wakes}"
    and s: "idle_reach any_time s" "id_pc s = ToWait" "id_todo s = []"
  shows "idle_reach any_time ((wake_op a s)\<lparr>id_pc := Asleep\<rparr>)"
proof -
  let ?s1 = "s\<lparr>id_todo := [a, NotifyAll]\<rparr>"
  have a: "a \<noteq> NotifyAll" using assms(1,2) by (auto simp: idle_wakes)
  have pc: "id_pc (wake_op a t) = id_pc t" for t using a by (cases a) auto
  have todo: "wake_op a (t\<lparr>id_todo := as\<rparr>) = (wake_op a t)\<lparr>id_todo := as\<rparr>" for t as using a by (cases a) auto
  have 1: "idle_reach any_time ?s1"
    using assms(1,2) s idle_step.entering idle_step.leaving idle_step.stopping by (auto intro: idle_reach.step)
  have 2: "idle_reach any_time ((wake_op a s)\<lparr>id_todo := [NotifyAll]\<rparr>)"
    using idle_reach.step [OF 1 idle_step.waking [of ?s1 a "[NotifyAll]"]] a todo by (auto simp: any_time_def)
  have 3: "idle_reach any_time ((wake_op a s)\<lparr>id_todo := []\<rparr>)"
    using idle_reach.step [OF 2 idle_step.waking [of _ NotifyAll "[]"]] pc s(2) by (auto simp: any_time_def)
  moreover have "(wake_op a s)\<lparr>id_todo := []\<rparr> = wake_op a s" using s(3) a by (cases a) (cases s; auto)+
  ultimately show ?thesis
    using idle_reach.step [OF _ idle_step.motion [of "wake_op a s" any_time]] pc s(2) by auto
qed

lemma about_to_wait: "idle_reach any_time (new_idle\<lparr>id_pc := ToWait\<rparr>)"
proof -
  have run: "idle_reach any_time (new_idle\<lparr>id_pc := p\<rparr>) \<Longrightarrow> p \<notin> {Asleep, Over} \<Longrightarrow>
      idle_reach any_time (new_idle\<lparr>id_pc := motion_next (new_idle\<lparr>id_pc := p\<rparr>)\<rparr>)" for p
    using idle_reach.step [OF _ idle_step.motion [of "new_idle\<lparr>id_pc := p\<rparr>"]] by auto
  have 0: "idle_reach any_time (new_idle\<lparr>id_pc := ReadStop\<rparr>)"
    using idle_reach.start by (simp add: new_idle_def)
  have 1: "idle_reach any_time (new_idle\<lparr>id_pc := ReadActive\<rparr>)" using run [OF 0] by (simp add: new_idle_def)
  have 2: "idle_reach any_time (new_idle\<lparr>id_pc := TestActive\<rparr>)" using run [OF 1] by (simp add: new_idle_def)
  have 3: "idle_reach any_time (new_idle\<lparr>id_pc := TestStop\<rparr>)" using run [OF 2] by (simp add: new_idle_def)
  show ?thesis using run [OF 3] by (simp add: new_idle_def)
qed

lemma control_arrives_unseen: "idle_reach any_time \<lparr>id_pc = Asleep, id_active = True, id_stop = False, id_todo = []\<rparr>"
  using wakes_between [OF _ _ about_to_wait, of enter_wakes "SetActive True"] by (simp add: enter_wakes_def new_idle_def)

lemma end_of_session_unseen: "idle_reach any_time \<lparr>id_pc = Asleep, id_active = False, id_stop = True, id_todo = []\<rparr>"
  using wakes_between [OF _ _ about_to_wait, of stop_wakes SetStop] by (simp add: stop_wakes_def new_idle_def)

text \<open>From there the thread itself has no step: it sleeps until the next notification, or for no reason.\<close>

lemma sleeps_until_notified:
  assumes "idle_step may s s'" "id_pc s = Asleep" "id_pc s' \<noteq> Asleep"
  shows "s' = s\<lparr>id_pc := TestActive\<rparr> \<or> (\<exists>as. id_todo s = NotifyAll # as)"
  using assms(1)
proof (cases rule: idle_step.cases)
  case (waking a as)
  then show ?thesis using assms(2,3) by (cases a) auto
qed (use assms(2,3) in auto)

section \<open>The tick that is not yet there\<close>

text \<open>
  The tick of the motion thread is as old as the last control of this machine.  A supervisor that wakes
  between the arrival of control and the next tick takes the thread for stalled and ends the session; one
  that wakes after that tick leaves it alone.
\<close>

lemma arriving_control_ends_session:
  assumes "\<not> cl_stop c" "cl_motion_tick c + 3000 < ms"
  shows "cl_stop (supervisor_wake ms True (dispatch now own absolute pos pos' (Enter i x y) c))"
    "EmergencyRelease \<in> set (cl_calls (supervisor_wake ms True (dispatch now own absolute pos pos' (Enter i x y) c)))"
  using assms by (auto simp: supervisor_wake_def enter_control_def inject_def on_motion_def send_beacon_def Let_def)

lemma ticked_control_goes_on:
  assumes "ms \<le> now div 10 ^ 6 + 3000" "cl_motion_tick c = now div 10 ^ 6"
  shows "supervisor_wake ms free c = c"
  using assms by (auto simp: supervisor_wake_def)

section \<open>The end of the session is bounded\<close>

lemma join_from_bounds:
  assumes "t \<le> JOIN_GRACE"
  shows "fst (join_from finished t) < JOIN_GRACE + JOIN_POLL \<and>
    (snd (join_from finished t) \<longleftrightarrow> finished (fst (join_from finished t))) \<and>
    (\<not> snd (join_from finished t) \<longrightarrow> JOIN_GRACE \<le> fst (join_from finished t))"
  using assms
proof (induction finished t rule: join_from.induct)
  case (1 finished t)
  show ?case
  proof (cases "t < JOIN_GRACE \<and> \<not> finished t")
    case True
    show ?thesis
    proof (cases "t + JOIN_POLL \<le> JOIN_GRACE")
      case next_turn: True
      then show ?thesis using 1 True by (subst (1 2 3 4 5) join_from.simps) simp
    next
      case False
      then show ?thesis
        using True by (subst (1 2 3 4 5) join_from.simps, subst (1 2 3 4 5) join_from.simps) simp
    qed
  next
    case False
    then show ?thesis using 1 by (subst (1 2 3 4 5) join_from.simps) (auto simp: JOIN_POLL_def)
  qed
qed

text \<open>Whatever the workers do, \<open>run\<close> waits little more than two seconds for each of them.\<close>

lemma join_workers_bounded: "fst (join_workers fs) \<le> length fs * (JOIN_GRACE + JOIN_POLL)"
proof (induction "length fs" arbitrary: fs)
  case 0
  then show ?case by simp
next
  case (Suc n)
  then obtain f rest where fs: "fs = f # rest" "n = length rest" by (cases fs) auto
  let ?t = "fst (join_bounded f)"
  have "?t < JOIN_GRACE + JOIN_POLL"
    using join_from_bounds [of 0 f] by (simp add: join_bounded_def)
  moreover have "fst (join_workers (map (\<lambda>g n. g (n + ?t)) rest)) \<le> length rest * (JOIN_GRACE + JOIN_POLL)"
    using Suc.hyps(1) [of "map (\<lambda>g n. g (n + ?t)) rest"] fs(2) by simp
  ultimately show ?case by (simp add: fs(1) case_prod_unfold Let_def)
qed

end
