(* ===== verification/Build_Id.thy ===== *)
theory Build_Id
  imports Machine_Role Wire "HOL-Library.List_Lexorder" "HOL-Library.Char_ord" "HOL-Library.Multiset"
begin

text \<open>
  The build id stamped into every binary (\<open>app/build.rs\<close>): the members of the workspace as the script
  reads them from the manifest, and the fingerprint of the version and the members.  The digest is an
  argument.

  The members are read from every layout of the array, and the id depends on neither layout nor order.
\<close>

section \<open>The members of the workspace\<close>

text \<open>\<open>str::find\<close>: the text from the first occurrence on.\<close>

fun from_first :: "string \<Rightarrow> string \<Rightarrow> string option" where
  "from_first p s = (if prefix p s then Some s else case s of [] \<Rightarrow> None | c # t \<Rightarrow> from_first p t)"

declare from_first.simps [simp del]

definition trim_quotes :: "string \<Rightarrow> string" where
  "trim_quotes s = (let q = CHR 0x22; t = dropWhile (\<lambda>c. c = q) s in rev (dropWhile (\<lambda>c. c = q) (rev t)))"

definition member_of :: "string \<Rightarrow> string" where
  "member_of part = trim (trim_quotes (trim part))"

text \<open>No manifest, no array, or one that is never closed: no members.\<close>

definition workspace_members :: "string option \<Rightarrow> string list" where
  "workspace_members manifest =
     (case Option.bind manifest (from_first ''members'') of
        None \<Rightarrow> []
      | Some found \<Rightarrow>
          (case split_once (CHR ''['') found of
             None \<Rightarrow> []
           | Some (_, rest) \<Rightarrow>
               (case split_once (CHR '']'') rest of
                  None \<Rightarrow> []
                | Some (inside, _) \<Rightarrow> sort (filter (\<lambda>m. m \<noteq> []) (map member_of (split_at (CHR '','') inside))))))"

section \<open>The id\<close>

definition build_input :: "string \<Rightarrow> string list \<Rightarrow> string" where
  "build_input version members = version @ ''|'' @ concat (map (\<lambda>m. m @ ''|'') members)"

definition build_id :: "(byte list \<Rightarrow> byte list) \<Rightarrow> string option \<Rightarrow> string option \<Rightarrow> string" where
  "build_id sha256 version manifest =
     hex (take 8 (sha256 (str_bytes (build_input (case version of Some v \<Rightarrow> v | None \<Rightarrow> []) (workspace_members manifest)))))"

section \<open>Reading the array back\<close>

text \<open>One member with the spaces and line ends around it, and the array with what stands around it.\<close>

definition blank :: "string \<Rightarrow> bool" where
  "blank s \<longleftrightarrow> set s \<subseteq> {CHR '' '', NL}"

definition member_name :: "string \<Rightarrow> bool" where
  "member_name m \<longleftrightarrow> m \<noteq> [] \<and> (\<forall>c \<in> set m. printing c \<and> c \<noteq> CHR 0x22 \<and> c \<noteq> CHR '','' \<and> c \<noteq> CHR '']'')"

fun member_part :: "string \<times> string \<times> string \<Rightarrow> string" where
  "member_part (before, m, after) = before @ [CHR 0x22] @ m @ [CHR 0x22] @ after"

fun array_text :: "(string \<times> string \<times> string) list \<Rightarrow> string" where
  "array_text [] = []"
| "array_text [p] = member_part p"
| "array_text (p # ps) = member_part p @ [CHR '',''] @ array_text ps"

definition part_ok :: "string \<times> string \<times> string \<Rightarrow> bool" where
  "part_ok p \<longleftrightarrow> blank (fst p) \<and> member_name (fst (snd p)) \<and> blank (snd (snd p))"

lemma white_single:
  assumes "ws \<in> {WHITE_SPACE, map rev WHITE_SPACE}" "c \<in> {CHR '' '', NL}"
  shows "[c] \<in> set ws" "\<forall>v \<in> set ws. v \<noteq> [] \<longrightarrow> hd v = c \<longrightarrow> v = [c]"
proof -
  have "[CHR '' ''] \<in> set WHITE_SPACE \<and> [NL] \<in> set WHITE_SPACE"
    by (simp add: WHITE_SPACE_def NL_def char_of_def bit_Suc_0_iff)
  then show "[c] \<in> set ws" using assms by force
  have 1: "\<forall>v \<in> set WHITE_SPACE. v \<noteq> [] \<longrightarrow> hd v \<in> {CHR '' '', NL} \<longrightarrow> v = [hd v]"
    by (simp add: WHITE_SPACE_def NL_def char_of_eq_iff)
  have 2: "\<forall>v \<in> set (map rev WHITE_SPACE). v \<noteq> [] \<longrightarrow> hd v \<in> {CHR '' '', NL} \<longrightarrow> v = [hd v]"
    by (simp add: WHITE_SPACE_def NL_def char_of_eq_iff)
  show "\<forall>v \<in> set ws. v \<noteq> [] \<longrightarrow> hd v = c \<longrightarrow> v = [c]" using assms 1 2 by blast
qed

lemma skip_white_blank:
  assumes "ws \<in> {WHITE_SPACE, map rev WHITE_SPACE}" "blank w"
  shows "skip_white ws (w @ s) = skip_white ws s"
  using assms(2)
proof (induction w)
  case (Cons c w)
  then have c: "c \<in> {CHR '' '', NL}" by (simp add: blank_def)
  obtain v where v: "List.find (\<lambda>v. v \<noteq> [] \<and> prefix v (c # w @ s)) ws = Some v"
    using white_single(1) [OF assms(1) c] by (cases "List.find (\<lambda>v. v \<noteq> [] \<and> prefix v (c # w @ s)) ws") (auto simp: find_None_iff)
  then have "v \<in> set ws" "v \<noteq> []" "hd v = c" by (auto dest!: find_SomeD simp: prefix_Cons)
  then have "v = [c]" using white_single(2) [OF assms(1) c] by simp
  then have "skip_white ws (c # w @ s) = skip_white ws (w @ s)" using v by (subst skip_white.simps) simp
  then show ?case using Cons by (simp add: blank_def)
qed simp

lemma blank_rev [simp]: "blank (rev w) = blank w" by (simp add: blank_def)

lemma trim_blank: "blank v \<Longrightarrow> blank w \<Longrightarrow> trim (v @ s @ w) = trim (s @ w)" "blank w \<Longrightarrow> trim_end (s @ w) = trim_end s"
  by (simp_all add: trim_def trim_start_def trim_end_def skip_white_blank)

lemma trim_padded:
  assumes "blank v" "blank w" "s \<noteq> []" "printing (hd s)" "printing (last s)"
  shows "trim (v @ s @ w) = s"
proof -
  have s: "trimmed s" using assms(3-5) by (rule trimmed_printing)
  have "\<forall>x \<in> set WHITE_SPACE. \<not> prefix x (s @ w)"
    using assms(3,4) white_space_ends by (metis hd_append2 prefix_def)
  then have "trim_start (s @ w) = s @ w" by (simp add: trim_start_def skip_white_none)
  moreover have "trim_end s = s" using trim_trimmed [OF s] s by (simp add: trim_def trim_start_def trimmed_def skip_white_none)
  ultimately show ?thesis
    using assms(1,2) trim_blank by (simp add: trim_def)
qed

lemma member_of_part: "part_ok p \<Longrightarrow> member_of (member_part p) = fst (snd p)"
proof (cases p)
  case (fields v m w)
  assume ok: "part_ok p"
  then have m: "m \<noteq> []" "hd m \<noteq> CHR 0x22" "last m \<noteq> CHR 0x22" "printing (hd m)" "printing (last m)"
    using fields by (auto simp: part_ok_def member_name_def)
  have "printing (CHR 0x22)" by (simp add: printing_def)
  then have "trim (member_part p) = [CHR 0x22] @ m @ [CHR 0x22]"
    using ok fields trim_padded [of v w "[CHR 0x22] @ m @ [CHR 0x22]"] by (simp add: part_ok_def)
  moreover have "trim_quotes ([CHR 0x22] @ m @ [CHR 0x22]) = m"
  proof -
    have "dropWhile (\<lambda>c. c = CHR 0x22) (m @ x) = m @ x" for x using m by (cases m) auto
    moreover have "dropWhile (\<lambda>c. c = CHR 0x22) (rev m) = rev m" using m by (cases "rev m") (auto simp: last_rev hd_rev [symmetric])
    ultimately show ?thesis by (simp add: trim_quotes_def Let_def)
  qed
  moreover have "trim m = m" using trim_padded [of "[]" "[]" m] m by (simp add: blank_def)
  ultimately show ?thesis using fields by (simp add: member_of_def)
qed

lemma part_chars: "part_ok p \<Longrightarrow> CHR '','' \<notin> set (member_part p) \<and> CHR '']'' \<notin> set (member_part p)"
proof (cases p)
  case (fields v m w)
  assume "part_ok p"
  then have ok: "blank v" "member_name m" "blank w" using fields by (simp_all add: part_ok_def)
  then have "set v \<subseteq> {CHR '' '', NL}" "set w \<subseteq> {CHR '' '', NL}" by (simp_all add: blank_def)
  moreover have "CHR '','' \<notin> set m" "CHR '']'' \<notin> set m" using ok(2) unfolding member_name_def by blast+
  moreover have "CHR '','' \<notin> {CHR '' '', NL}" "CHR '']'' \<notin> {CHR '' '', NL}" by (simp_all add: NL_def)
  ultimately have "CHR '','' \<notin> set v" "CHR '','' \<notin> set w" "CHR '']'' \<notin> set v" "CHR '']'' \<notin> set w" by blast+
  then show ?thesis using fields \<open>CHR '','' \<notin> set m\<close> \<open>CHR '']'' \<notin> set m\<close> by simp
qed

lemma split_array: "list_all part_ok ps \<Longrightarrow> ps \<noteq> [] \<Longrightarrow> split_at (CHR '','') (array_text ps) = map member_part ps"
proof (induction ps rule: array_text.induct)
  case (3 p q ps)
  then show ?case using part_chars [of p] by (simp add: split_at_append del: member_part.simps)
qed (auto simp: part_chars split_at_no_sep simp del: member_part.simps)

lemma array_closed: "list_all part_ok ps \<Longrightarrow> CHR '']'' \<notin> set (array_text ps)"
  by (induction ps rule: array_text.induct) (auto simp: part_chars simp del: member_part.simps)

text \<open>
  Whatever the spacing, the members are read, sorted.  The array may be followed by anything; before it
  the word must not occur.
\<close>

lemma members_read:
  assumes "from_first ''members'' manifest = Some (''members'' @ eq @ [CHR ''[''] @ array_text ps @ [CHR '']''] @ rest)"
    "CHR ''['' \<notin> set eq" "list_all part_ok ps" "ps \<noteq> []"
  shows "workspace_members (Some manifest) = sort (map (\<lambda>p. fst (snd p)) ps)"
proof -
  have "split_once (CHR ''['') (''members'' @ eq @ [CHR ''[''] @ array_text ps @ [CHR '']''] @ rest) =
      Some (''members'' @ eq, array_text ps @ [CHR '']''] @ rest)"
    using split_once_append [of "CHR ''[''" "''members'' @ eq"] assms(2) by simp
  moreover have "split_once (CHR '']'') (array_text ps @ [CHR '']''] @ rest) = Some (array_text ps, rest)"
    using split_once_append [OF array_closed [OF assms(3)]] by simp
  moreover have "map member_of (map member_part ps) = map (\<lambda>p. fst (snd p)) ps"
    using assms(3) by (simp add: member_of_part list_all_iff)
  moreover have "filter (\<lambda>m. m \<noteq> []) (map (\<lambda>p. fst (snd p)) ps) = map (\<lambda>p. fst (snd p)) ps"
    using assms(3) by (induction ps) (auto simp: part_ok_def member_name_def)
  ultimately show ?thesis
    using assms(1,3,4) by (simp add: workspace_members_def split_array del: append_Cons map_map)
qed

text \<open>So two manifests with the same version and the same members give the same id.\<close>

lemma build_id_ignores_layout:
  assumes "workspace_members a = sort ms" "workspace_members b = sort ms'" "mset ms = mset ms'"
  shows "build_id sha256 version a = build_id sha256 version b"
proof -
  have "sort ms = sort ms'" using assms(3) by (metis properties_for_sort mset_sort sorted_sort)
  then show ?thesis using assms(1,2) by (simp add: build_id_def)
qed

end
