(* ===== verification/Control_Handover.thy ===== *)
theory Control_Handover
  imports Server_Properties Client_Rules
begin

text \<open>
  Server and clients together: who has control.  The words of control are the \<open>Enter\<close> and \<open>Leave\<close> of
  the control link (\<open>core/src/server/actions.rs\<close> sends them, \<open>core/src/client/dispatch.rs\<close> obeys them).

  A client that has been told to take over and not yet to leave is the one the cursor of the session is
  on, in every state the server reaches without a full queue; so when everything has arrived at most
  one client has control, and none while the cursor is at home.
\<close>

section \<open>The words of control\<close>

fun word_of_control :: "message \<Rightarrow> bool \<Rightarrow> bool" where
  "word_of_control (Enter i x y) b = True"
| "word_of_control (Leave i) b = False"
| "word_of_control m b = b"

definition control_after :: "message list \<Rightarrow> bool \<Rightarrow> bool" where
  "control_after ms b = fold word_of_control ms b"

fun tcp_part :: "outbound \<Rightarrow> message list" where
  "tcp_part (OutTcp m) = [m]"
| "tcp_part (OutUdp m) = []"

text \<open>What the control link carries to the client: what was sent, and what waits in the queue.\<close>

definition control_stream :: "connection \<Rightarrow> message list" where
  "control_stream c = cn_tcp_sent c @ concat (map tcp_part (cn_out c))"

definition told :: "connection \<Rightarrow> bool" where
  "told c \<longleftrightarrow> control_after (control_stream c) False"

lemma control_after_simps [simp]:
  "control_after [] b = b" "control_after (ms @ ns) b = control_after ns (control_after ms b)"
  "control_after [m] b = word_of_control m b"
  by (simp_all add: control_after_def)

lemma word_of_route: "control_after (tcp_part (route m)) b = word_of_control m b"
  by (cases m) auto

section \<open>Room in the queues\<close>

definition roomy :: "server \<Rightarrow> bool" where
  "roomy sv \<longleftrightarrow> (\<forall>t c. sv_conns sv t = Some c \<longrightarrow> length (cn_out c) < OUT_QUEUE_CAP)"

definition grows :: "server \<Rightarrow> server \<Rightarrow> bool" where
  "grows sv sv' \<longleftrightarrow>
     (\<forall>t c. sv_conns sv t = Some c \<longrightarrow> (\<exists>c'. sv_conns sv' t = Some c' \<and> length (cn_out c) \<le> length (cn_out c')))"

lemma roomy_grows: "grows sv sv' \<Longrightarrow> roomy sv' \<Longrightarrow> roomy sv"
  unfolding grows_def roomy_def by (meson order_le_less_trans)

text \<open>A queue that has room after a send had room for it.\<close>

lemma told_try_send:
  assumes "length (cn_out (try_send (route m) c)) < OUT_QUEUE_CAP" "cn_open c"
  shows "told (try_send (route m) c) = word_of_control m (told c)"
proof -
  have "try_send (route m) c = c\<lparr>cn_out := cn_out c @ [route m]\<rparr>"
    using assms by (auto simp: try_send_def split: if_splits)
  then show ?thesis by (simp add: told_def control_stream_def word_of_route)
qed

lemma try_send_fields [simp]:
  "cn_id (try_send x c) = cn_id c" "cn_open (try_send x c) = cn_open c" "length (cn_out c) \<le> length (cn_out (try_send x c))"
  by (simp_all add: try_send_def)

lemma grows_send_to: "grows sv (send_to t m sv)"
  by (auto simp: grows_def send_to_def split: option.split)

section \<open>The invariant and its steps\<close>

definition handed :: "server \<Rightarrow> bool" where
  "handed sv \<longleftrightarrow>
     (\<forall>i t. sv_clients sv i = Some t \<longrightarrow> (\<exists>c. sv_conns sv t = Some c \<and> cn_id c = i)) \<and>
     (\<forall>t c. sv_conns sv t = Some c \<longrightarrow> cn_open c \<longrightarrow>
        (told c \<longleftrightarrow> sv_active sv = Some (cn_id c) \<and> sv_clients sv (cn_id c) = Some t))"

text \<open>What an operation that only adds to the queues does to the invariant.\<close>

definition moves :: "server \<Rightarrow> server \<Rightarrow> bool" where
  "moves sv sv' \<longleftrightarrow> grows sv sv' \<and> (handed sv \<longrightarrow> roomy sv' \<longrightarrow> handed sv')"

lemma moves_trans [trans]: "moves a b \<Longrightarrow> moves b c \<Longrightarrow> moves a c"
proof -
  assume ab: "moves a b" and bc: "moves b c"
  have "grows a c"
    using ab bc unfolding moves_def grows_def by (meson le_trans)
  then show "moves a c" using ab bc roomy_grows unfolding moves_def by blast
qed

lemma moves_same:
  "sv_conns sv' = sv_conns sv \<Longrightarrow> sv_clients sv' = sv_clients sv \<Longrightarrow> sv_active sv' = sv_active sv \<Longrightarrow> moves sv sv'"
  by (simp add: moves_def grows_def handed_def)

lemma moves_then: "moves sv (f sv') \<Longrightarrow> sv_conns sv'' = sv_conns (f sv') \<Longrightarrow> sv_clients sv'' = sv_clients (f sv') \<Longrightarrow>
    sv_active sv'' = sv_active (f sv') \<Longrightarrow> moves sv sv''"
  using moves_trans moves_same by blast

text \<open>A send to a connection, seen from the state after it.\<close>

lemma send_to_conns:
  assumes "sv_conns (send_to t m sv) u = Some c'"
  shows "\<exists>c. sv_conns sv u = Some c \<and> c' = (if u = t then try_send (route m) c else c)"
  using assms by (auto simp: send_to_def split: option.splits if_splits)

lemma send_to_told:
  assumes "sv_conns (send_to t m sv) u = Some c'" "cn_open c'" "roomy (send_to t m sv)"
  shows "\<exists>c. sv_conns sv u = Some c \<and> cn_id c' = cn_id c \<and> cn_open c \<and>
    told c' = (if u = t then word_of_control m (told c) else told c)"
proof -
  obtain c where c: "sv_conns sv u = Some c" "c' = (if u = t then try_send (route m) c else c)"
    using send_to_conns [OF assms(1)] by blast
  then show ?thesis using assms told_try_send [of m c] by (auto simp: roomy_def)
qed

lemma handed_conns_send: 
  assumes "\<forall>i t. sv_clients sv i = Some t \<longrightarrow> (\<exists>c. sv_conns sv t = Some c \<and> cn_id c = i)"
  shows "\<forall>i t. sv_clients sv i = Some t \<longrightarrow> (\<exists>c. sv_conns (send_to u m sv) t = Some c \<and> cn_id c = i)"
  using assms by (fastforce simp: send_to_def split: option.split)

text \<open>A message that is no word of control changes nothing.\<close>

definition no_word :: "message \<Rightarrow> bool" where
  "no_word m \<longleftrightarrow> (\<forall>b. word_of_control m b = b)"

lemma handed_ids: "handed sv \<Longrightarrow> sv_conns sv t = Some c \<Longrightarrow> sv_clients sv i = Some t \<Longrightarrow> cn_id c = i"
  by (fastforce simp: handed_def)

lemma moves_send_to:
  assumes "no_word m" shows "moves sv (send_to t m sv)"
proof -
  have "handed (send_to t m sv)" if h: "handed sv" and room: "roomy (send_to t m sv)"
  proof -
    have "told c' \<longleftrightarrow> sv_active sv = Some (cn_id c') \<and> sv_clients sv (cn_id c') = Some u"
      if c': "sv_conns (send_to t m sv) u = Some c'" "cn_open c'" for u c'
    proof -
      obtain c where c: "sv_conns sv u = Some c" "cn_id c' = cn_id c" "cn_open c"
        "told c' = (if u = t then word_of_control m (told c) else told c)"
        using send_to_told [OF c' room] by blast
      then have "told c' = told c" using assms by (simp add: no_word_def)
      then show ?thesis using h c by (simp add: handed_def)
    qed
    moreover have "\<forall>i u. sv_clients sv i = Some u \<longrightarrow> (\<exists>c. sv_conns (send_to t m sv) u = Some c \<and> cn_id c = i)"
      by (rule handed_conns_send) (use h in \<open>simp add: handed_def\<close>)
    ultimately show ?thesis by (simp add: handed_def)
  qed
  then show ?thesis by (simp add: moves_def grows_send_to)
qed

lemma moves_enqueue: "no_word m \<Longrightarrow> moves sv (enqueue i m sv)"
  using moves_send_to by (auto simp: enqueue_def moves_same split: option.split)

lemma moves_broadcast: "no_word m \<Longrightarrow> moves sv (broadcast m sv)"
proof -
  assume m: "no_word m"
  have "moves sv (fold (\<lambda>i. enqueue i m) is sv)" for "is"
  proof (induction "is" arbitrary: sv)
    case (Cons a "is")
    show ?case using moves_trans [OF moves_enqueue [OF m] Cons.IH] by simp
  qed (simp add: moves_same)
  then show ?thesis by (simp add: broadcast_def)
qed

lemma no_words [simp]: "no_word (Control k)" "no_word (LayoutMsg l)" "no_word (MouseMoveRel dx dy)"
  "no_word (MouseButton b pressed)" "no_word (MouseWheel dx dy)" "no_word (Key kind key)"
  by (simp_all add: no_word_def)

text \<open>Nobody has control once it was told to leave.\<close>

lemma told_to_leave:
  assumes "roomy (send_to t m (send_to t (Leave i) sv))" "no_word m"
    "sv_conns (send_to t m (send_to t (Leave i) sv)) t = Some c" "cn_open c"
  shows "\<not> told c"
proof -
  let ?sv1 = "send_to t (Leave i) sv"
  obtain c1 where c1: "sv_conns ?sv1 t = Some c1" "cn_open c1" "told c = told c1"
    using send_to_told [OF assms(3,4,1)] assms(2) by (auto simp: no_word_def)
  have "roomy ?sv1" using roomy_grows [OF grows_send_to assms(1)] .
  then have "\<not> told c1" using send_to_told [OF c1(1,2)] by auto
  then show ?thesis using c1(3) by simp
qed

section \<open>The operations\<close>

text \<open>Leaving: the latch goes first, the word follows.\<close>

lemma moves_leave_active: "moves sv (leave_active sv)"
proof (cases "sv_active sv")
  case None
  then show ?thesis by (simp add: leave_active_def moves_same)
next
  case (Some old)
  let ?sv0 = "sv\<lparr>sv_active := None\<rparr>"
  have alone: "handed sv \<Longrightarrow> sv_conns sv u = Some c \<Longrightarrow> cn_open c \<Longrightarrow> told c \<Longrightarrow> sv_clients sv old = Some u" for u c
    using Some by (auto simp: handed_def)
  show ?thesis
  proof (cases "sv_clients sv old")
    case None
    have "handed ?sv0" if "handed sv"
      using that alone None by (fastforce simp: handed_def)
    then show ?thesis using Some None by (simp add: leave_active_def enqueue_def moves_def grows_def)
  next
    case t: (Some t)
    let ?sv1 = "send_to t (Leave old) ?sv0"
    have "handed ?sv1" if h: "handed sv" and room: "roomy ?sv1"
    proof -
      have "\<not> told c'" if c': "sv_conns ?sv1 u = Some c'" "cn_open c'" for u c'
      proof -
        obtain c where c0: "sv_conns ?sv0 u = Some c" and c: "cn_open c"
          "told c' = (if u = t then word_of_control (Leave old) (told c) else told c)"
          using send_to_told [OF c' room] by blast
        have "told c \<Longrightarrow> sv_clients sv old = Some u" using alone [OF h _ c(1)] c0 by simp
        then show ?thesis using c(2) t by auto
      qed
      moreover have "\<forall>i u. sv_clients ?sv0 i = Some u \<longrightarrow> (\<exists>c. sv_conns ?sv1 u = Some c \<and> cn_id c = i)"
        by (rule handed_conns_send) (use h in \<open>simp add: handed_def\<close>)
      ultimately show ?thesis by (auto simp: handed_def)
    qed
    moreover have "grows sv ?sv1" using grows_send_to [of ?sv0 t "Leave old"] by (simp add: grows_def)
    ultimately show ?thesis using Some t by (simp add: leave_active_def enqueue_def moves_def)
  qed
qed

text \<open>Entering: the latch and the word.\<close>

lemma moves_activate:
  assumes "sv_active sv = None"
  shows "moves sv (enqueue i (Enter i x y) (sv\<lparr>sv_active := Some i, sv_heard := heard\<rparr>))"
proof -
  let ?sv0 = "sv\<lparr>sv_active := Some i, sv_heard := heard\<rparr>"
  have untold: "handed sv \<Longrightarrow> sv_conns sv u = Some c \<Longrightarrow> cn_open c \<Longrightarrow> \<not> told c" for u c
    using assms by (auto simp: handed_def)
  show ?thesis
  proof (cases "sv_clients sv i")
    case None
    have "handed ?sv0" if h: "handed sv"
      using h untold [OF h] None by (auto simp: handed_def)
    then show ?thesis using None by (simp add: enqueue_def moves_def grows_def)
  next
    case (Some t)
    let ?sv1 = "send_to t (Enter i x y) ?sv0"
    have "handed ?sv1" if h: "handed sv" and room: "roomy ?sv1"
    proof -
      have "told c' \<longleftrightarrow> Some i = Some (cn_id c') \<and> sv_clients sv (cn_id c') = Some u"
        if c': "sv_conns ?sv1 u = Some c'" "cn_open c'" for u c'
      proof -
        obtain c where c0: "sv_conns ?sv0 u = Some c" and c: "cn_id c' = cn_id c" "cn_open c"
          "told c' = (if u = t then word_of_control (Enter i x y) (told c) else told c)"
          using send_to_told [OF c' room] by blast
        have here: "sv_conns sv u = Some c" using c0 by simp
        show ?thesis
        proof (cases "u = t")
          case True
          then show ?thesis using handed_ids [OF h] here Some c(1,3) by simp
        next
          case False
          moreover have "sv_clients sv i \<noteq> Some u" using False Some by simp
          ultimately show ?thesis using untold [OF h here c(2)] c(3) by auto
        qed
      qed
      moreover have "\<forall>i u. sv_clients ?sv0 i = Some u \<longrightarrow> (\<exists>c. sv_conns ?sv1 u = Some c \<and> cn_id c = i)"
        by (rule handed_conns_send) (use h in \<open>simp add: handed_def\<close>)
      ultimately show ?thesis by (simp add: handed_def)
    qed
    moreover have "grows sv ?sv1" using grows_send_to [of ?sv0 t "Enter i x y"] by (simp add: grows_def)
    ultimately show ?thesis using Some by (simp add: enqueue_def moves_def)
  qed
qed

definition plain :: "action list \<Rightarrow> bool" where
  "plain acts \<longleftrightarrow> (\<forall>m. Send m \<in> set acts \<longrightarrow> no_word m)"

lemma moves_apply_action: "plain [a] \<Longrightarrow> moves sv (apply_action now a sv)"
proof (cases a)
  case (Send m)
  assume "plain [a]"
  then show ?thesis using Send moves_enqueue [of m sv] by (auto simp: plain_def moves_same split: option.split)
next
  case (SwitchTo i x y)
  let ?sv1 = "leave_active sv"
  let ?sv2 = "?sv1\<lparr>sv_active := Some i, sv_heard := (sv_heard ?sv1)(i \<mapsto> now_ms now)\<rparr>"
  have "moves sv ?sv1" by (rule moves_leave_active)
  also have "moves ?sv1 (enqueue i (Enter i x y) ?sv2)" by (rule moves_activate) simp
  finally have "moves sv (enqueue i (Enter i x y) ?sv2)" .
  then show ?thesis using SwitchTo by (auto simp: Let_def intro: moves_then)
next
  case (SwitchToLocal x y)
  then show ?thesis using moves_leave_active [of sv] by (auto intro: moves_then)
qed (simp add: moves_same)

lemma moves_apply_actions: "plain acts \<Longrightarrow> moves sv (apply_actions now acts sv)"
proof -
  assume "plain acts"
  then have "moves sv (fold (apply_action now) acts sv)"
  proof (induction acts arbitrary: sv)
    case (Cons a acts)
    then have "plain [a]" "plain acts" by (simp_all add: plain_def)
    then show ?case using moves_trans [OF moves_apply_action Cons.IH] by (simp del: apply_action.simps)
  qed (simp add: moves_same)
  then show ?thesis by (simp add: apply_actions_def)
qed

text \<open>The session forwards input only.\<close>

lemma plain_Nil [simp]: "plain []" "plain [SwitchTo i x y]" "plain [SwitchToLocal x y]" "plain [Nothing]"
  by (simp_all add: plain_def)

lemma plain_Send [simp]: "plain [Send m] = no_word m"
  by (simp add: plain_def)

lemma plain_switch [simp]: "plain [switch_action i x y]"
  by (simp add: switch_action_def)

lemma plain_swap: "swap_layout l s = (acts, s') \<Longrightarrow> plain acts"
  by (auto simp: swap_layout_def Let_def split: option.splits prod.splits if_splits)

lemma plain_crossings:
  "switch_out dir s = Some (acts, s') \<Longrightarrow> plain acts"
  "cross_from_remote i dir s = Some (acts, s') \<Longrightarrow> plain acts"
  "jump_to i s = Some (acts, s') \<Longrightarrow> plain acts"
  by (auto simp: switch_out_def cross_from_remote_def jump_to_def split: option.splits prod.splits if_splits)

lemma plain_forward [simp]: "no_word m \<Longrightarrow> plain (forward_while_remote m s)"
  by (simp add: forward_while_remote_def)

lemma plain_force_local: "force_local s = Some (a, s') \<Longrightarrow> plain [a]"
  by (auto simp: force_local_def Let_def split: prod.splits)

lemma plain_local_pushes: "local_pushes dirs now dx dy s = Some (acts, s') \<Longrightarrow> plain acts"
proof (induction dirs now dx dy s rule: local_pushes.induct)
  case (2 dir dirs now dx dy s)
  then show ?case
    by (auto simp: Let_def split: option.splits prod.splits if_splits intro: plain_crossings(1))
qed simp

lemma plain_remote_pushes: "remote_pushes dirs fresh now i dx dy s = Some (Some acts, s') \<Longrightarrow> plain acts"
proof (induction dirs fresh now i dx dy s rule: remote_pushes.induct)
  case (2 dir dirs fresh now i dx dy s)
  then show ?case
    by (auto simp: Let_def split: if_splits intro: plain_crossings(2))
qed simp

lemma plain_parks:
  "local_parks dirs newly now s = Some (acts, s') \<Longrightarrow> plain acts"
  "remote_parks dirs newly now i s = Some (acts, s') \<Longrightarrow> plain acts"
  by (induction dirs arbitrary: s)
    (auto split: option.splits prod.splits if_splits intro: plain_crossings)

lemma plain_local_motion: "handle_local_motion now dx dy s = Some (acts, s') \<Longrightarrow> plain acts"
  by (auto simp: handle_local_motion_def split: option.splits prod.splits if_splits
      intro: plain_local_pushes plain_crossings)

lemma plain_remote_motion: "handle_remote_motion now i dx dy s = Some (acts, s') \<Longrightarrow> plain acts"
  by (auto simp: handle_remote_motion_def Let_def split: option.splits prod.splits if_splits
      intro: plain_remote_pushes plain_crossings)

lemma plain_beacon: "on_remote_beacon now i x y s = Some (acts, s') \<Longrightarrow> plain acts"
  by (auto simp: on_remote_beacon_def Let_def split: option.splits if_splits intro: plain_parks)

lemma plain_user_action: "execute_user_action a s = Some (acts, s') \<Longrightarrow> plain acts"
  by (cases a) (auto split: option.splits if_splits intro: plain_crossings plain_force_local)

lemma plain_key: "on_local_key now kind key s = Some (acts, s') \<Longrightarrow> plain acts"
  by (auto simp: on_local_key_def split: key_kind.splits option.splits prod.splits intro: plain_user_action)

lemma plain_local: "on_local_event now m s = Some (acts, s') \<Longrightarrow> plain acts"
proof (induction now m s rule: on_local_event.induct)
  case (1 now dx dy s)
  then show ?case
    by (auto simp: on_local_motion_def Let_def split: mode.splits prod.splits
        intro: plain_local_motion plain_remote_motion)
next
  case (2 now x y s)
  then show ?case by (auto simp: on_local_beacon_def Let_def split: if_splits intro: plain_parks)
next
  case (5 now kind key s)
  then show ?case by (auto intro: plain_key)
qed (auto simp: Let_def split: prod.splits intro: plain_force_local)

lemma moves_session: "moves (sv\<lparr>sv_session := s\<rparr>) sv' \<Longrightarrow> moves sv sv'"
  using moves_trans [OF moves_same [of "sv\<lparr>sv_session := s\<rparr>" sv]] by simp

text \<open>Saying goodbye: the words, then the registration; then the cursor.\<close>

lemma moves_farewell:
  assumes "sv_clients sv i = Some t" "no_word m"
  shows "moves sv (unregister i (send_to t m (send_to t (Leave i) sv)))"
proof -
  let ?sv0 = "send_to t (Leave i) sv"
  let ?sv1 = "send_to t m ?sv0"
  have g: "grows sv ?sv1" using grows_send_to unfolding grows_def by (meson le_trans)
  have "handed (unregister i ?sv1)" if h: "handed sv" and room: "roomy ?sv1"
  proof -
    have "told c' \<longleftrightarrow> sv_active sv = Some (cn_id c') \<and> ((sv_clients sv)(i := None)) (cn_id c') = Some u"
      if c': "sv_conns ?sv1 u = Some c'" "cn_open c'" for u c'
    proof (cases "u = t")
      case True
      then have "\<not> told c'" using told_to_leave [OF room assms(2) _ c'(2)] c'(1) by simp
      moreover obtain c where "sv_conns sv t = Some c" "cn_id c' = cn_id c"
        using send_to_conns [OF c'(1)] send_to_conns True by (metis try_send_fields(1))
      ultimately show ?thesis using handed_ids [OF h _ assms(1)] by simp
    next
      case False
      then have "sv_conns sv u = Some c'" using send_to_conns [OF c'(1)] send_to_conns by fastforce
      then show ?thesis using h c'(2) False assms(1) by (auto simp: handed_def)
    qed
    moreover have "\<forall>j u. sv_clients sv j = Some u \<longrightarrow> (\<exists>c. sv_conns ?sv1 u = Some c \<and> cn_id c = j)"
      using handed_conns_send [of sv t "Leave i"] handed_conns_send [of ?sv0 t m] h by (simp add: handed_def)
    ultimately show ?thesis by (auto simp: handed_def)
  qed
  then show ?thesis using g by (simp add: moves_def grows_def roomy_def)
qed

lemma moves_clear_active: "sv_clients sv i = None \<Longrightarrow> moves sv (clear_active i sv)"
  by (fastforce simp: moves_def grows_def handed_def)

lemma moves_session_forgets:
  assumes "session_forgets f now i sv = Some sv'" "sv_clients sv i = None"
  shows "moves sv sv'"
proof -
  obtain a s' where sv': "sv' = come_home now a (clear_active i (sv\<lparr>sv_session := s'\<rparr>))"
    using assms(1) by (auto simp: session_forgets_def split: option.splits)
  have "moves (sv\<lparr>sv_session := s'\<rparr>) (clear_active i (sv\<lparr>sv_session := s'\<rparr>))"
    by (rule moves_clear_active) (simp add: assms(2))
  moreover have "moves sv1 (come_home now a sv1)" for sv1
    using moves_apply_action by (auto simp: come_home_def moves_same plain_def simp del: apply_action.simps split: action.split)
  ultimately show ?thesis unfolding sv' using moves_session moves_trans by blast
qed

lemma moves_disconnect:
  assumes "disconnect_client_inner now r i sv = Some sv'" shows "moves sv sv'"
proof (cases "client_of sv i")
  case None
  then show ?thesis using assms by (simp add: disconnect_client_inner_def moves_same)
next
  case (Some c)
  then obtain t where t: "sv_clients sv i = Some t" by (auto simp: client_of_def split: option.splits)
  let ?sv1 = "unregister i (send_to t (Control CTRL_DISCONNECT) (send_to t (Leave i) sv))"
  let ?f = "if r then on_client_removed else on_client_disconnected"
  obtain sv2 where sv2: "session_forgets ?f now i ?sv1 = Some sv2" "sv' = emit (ClientLeft (cn_name c)) sv2"
    using assms Some t by (auto simp: disconnect_client_inner_def enqueue_def Let_def)
  have "moves sv ?sv1" by (rule moves_farewell [OF t]) simp
  also have "moves ?sv1 sv2" by (rule moves_session_forgets [OF sv2(1)]) simp
  finally show ?thesis by (rule moves_then [of sv "\<lambda>x. x"]) (simp_all add: sv2(2))
qed

lemma moves_disconnect_all: "disconnect_all now r ids sv = Some sv' \<Longrightarrow> moves sv sv'"
  by (induction ids arbitrary: sv)
    (auto simp: moves_same bind_eq_Some_conv intro: moves_trans moves_disconnect)

lemma moves_teardown:
  assumes "teardown now t sv = Some sv'" "handed sv" shows "moves sv sv'"
proof (cases "\<exists>c. sv_conns sv t = Some c \<and> sv_clients sv (cn_id c) = Some t")
  case False
  then show ?thesis using assms by (auto simp: teardown_def moves_same split: option.splits if_splits)
next
  case True
  then obtain c where c: "sv_conns sv t = Some c" "sv_clients sv (cn_id c) = Some t" by blast
  let ?sv1 = "unregister (cn_id c) (send_to t (Control CTRL_RECONNECT) (send_to t (Leave (cn_id c)) sv))"
  have sf: "session_forgets on_client_disconnected now (cn_id c) (emit (ClientLeft (cn_name c)) ?sv1) = Some sv'"
    using assms(1) c by (simp add: teardown_def Let_def)
  have "moves sv ?sv1" by (rule moves_farewell [OF c(2)]) simp
  also have "moves ?sv1 (emit (ClientLeft (cn_name c)) ?sv1)" by (rule moves_same) simp_all
  also have "moves \<dots> sv'" by (rule moves_session_forgets [OF sf]) simp
  finally show ?thesis .
qed

lemma moves_register:
  assumes "sv_conns sv t = None" "sv_active sv \<noteq> Some (ad_id a)"
  shows "moves sv (register now t peer a sv)"
proof -
  let ?i = "ad_id a"
  let ?sv1 = "sv\<lparr>sv_conns := (sv_conns sv)(t \<mapsto> new_connection now a), sv_ips := (sv_ips sv)(?i \<mapsto> peer),
     sv_clients := (sv_clients sv)(?i \<mapsto> t)\<rparr>"
  have new: "\<not> told (new_connection now a)" "cn_id (new_connection now a) = ?i"
    by (simp_all add: told_def control_stream_def new_connection_def)
  have g1: "grows sv ?sv1" using assms(1) by (auto simp: grows_def)
  have fresh: "sv_clients sv j \<noteq> Some t" if "handed sv" for j
    using that assms(1) unfolding handed_def by (metis option.distinct(1))
  have h1: "handed ?sv1" if h: "handed sv"
  proof -
    have "told c \<longleftrightarrow> sv_active sv = Some (cn_id c) \<and> sv_clients ?sv1 (cn_id c) = Some u"
      if c: "sv_conns ?sv1 u = Some c" "cn_open c" for u c
    proof (cases "u = t")
      case True
      then show ?thesis using c new assms(2) by auto
    next
      case False
      then have "sv_conns sv u = Some c" using c by simp
      then show ?thesis using h c(2) assms(2) False by (auto simp: handed_def)
    qed
    moreover have "\<forall>j u. sv_clients ?sv1 j = Some u \<longrightarrow> (\<exists>c. sv_conns ?sv1 u = Some c \<and> cn_id c = j)"
    proof (intro allI impI)
      fix j u
      assume j: "sv_clients ?sv1 j = Some u"
      show "\<exists>c. sv_conns ?sv1 u = Some c \<and> cn_id c = j"
      proof (cases "j = ?i")
        case True
        then show ?thesis using j new(2) by simp
      next
        case False
        then have "sv_clients sv j = Some u" "u \<noteq> t" using j fresh [OF h] by auto
        then show ?thesis using h by (auto simp: handed_def)
      qed
    qed
    ultimately show ?thesis by (simp add: handed_def)
  qed
  show ?thesis
  proof (cases "sv_clients sv ?i")
    case None
    then show ?thesis using h1 g1 by (simp add: register_def Let_def moves_def)
  next
    case (Some old)
    let ?sv2 = "send_to old (Leave ?i) ?sv1"
    have "handed ?sv2" if h: "handed sv" and room: "roomy ?sv2"
    proof -
      have "told c' \<longleftrightarrow> sv_active sv = Some (cn_id c') \<and> sv_clients ?sv1 (cn_id c') = Some u"
        if c': "sv_conns ?sv2 u = Some c'" "cn_open c'" for u c'
      proof -
        obtain c where c: "sv_conns ?sv1 u = Some c" "cn_id c' = cn_id c" "cn_open c"
          "told c' = (if u = old then word_of_control (Leave ?i) (told c) else told c)"
          using send_to_told [OF c' room] by blast
        have "told c \<longleftrightarrow> sv_active sv = Some (cn_id c) \<and> sv_clients ?sv1 (cn_id c) = Some u"
          using h1 [OF h] c(1,3) by (simp add: handed_def)
        moreover have "sv_clients ?sv1 (cn_id c) \<noteq> Some old" if "u = old"
        proof -
          have "old \<noteq> t" using fresh [OF h] Some by metis
          then have "cn_id c = ?i" using handed_ids [OF h _ Some] c(1) that by simp
          then show ?thesis using \<open>old \<noteq> t\<close> by simp
        qed
        ultimately show ?thesis using c(2,4) by auto
      qed
      moreover have "\<forall>j u. sv_clients ?sv1 j = Some u \<longrightarrow> (\<exists>c. sv_conns ?sv2 u = Some c \<and> cn_id c = j)"
        by (rule handed_conns_send) (use h1 [OF h] in \<open>simp add: handed_def\<close>)
      ultimately show ?thesis by (simp add: handed_def)
    qed
    moreover have "grows sv ?sv2" using g1 grows_send_to [of ?sv1] unfolding grows_def by (meson le_trans)
    ultimately have "moves sv ?sv2" by (simp add: moves_def)
    then show ?thesis using Some moves_trans [OF _ moves_send_to] by (simp add: register_def Let_def)
  qed
qed

lemma moves_reload: "reload now l b p sv = Some sv' \<Longrightarrow> moves sv sv'"
proof -
  assume r: "reload now l b p sv = Some sv'"
  let ?s1 = "set_prefs p (set_bindings b (sv_session sv))"
  let ?sv1 = "engine_do [SetBoundChords (bound_chords ?s1)] (sv\<lparr>sv_session := ?s1\<rparr>)"
  obtain acts s2 where sw: "swap_layout l ?s1 = (acts, s2)" by fastforce
  let ?sv2 = "apply_actions now acts (?sv1\<lparr>sv_session := s2\<rparr>)"
  obtain sv3 where d: "disconnect_all now False (stale_clients ?sv2) ?sv2 = Some sv3"
    and sv': "sv' = broadcast (LayoutMsg (layout_snapshot sv3)) sv3"
    using r sw by (auto simp: reload_def Let_def drop_stale_clients_def)
  have "moves sv ?sv2" by (rule moves_trans [OF moves_same moves_apply_actions]) (simp_all add: plain_swap [OF sw])
  also have "moves ?sv2 sv3" by (rule moves_disconnect_all [OF d])
  also have "moves sv3 sv'" unfolding sv' by (rule moves_broadcast) simp
  finally show ?thesis .
qed

lemma moves_control: "apply_control now c sv = Some sv' \<Longrightarrow> moves sv sv'"
proof (cases c)
  case (SetPolicy p)
  assume "apply_control now c sv = Some sv'"
  then have "moves (sv\<lparr>sv_policy := p\<rparr>) sv'"
    using SetPolicy moves_disconnect_all by (simp add: apply_policy_def Let_def)
  then show ?thesis by (rule moves_trans [OF moves_same, rotated -1]) simp_all
next
  case (ClientCommand name command)
  assume "apply_control now c sv = Some sv'"
  then show ?thesis using ClientCommand moves_disconnect
    by (auto simp: apply_client_command_def moves_same intro: moves_enqueue split: option.splits if_splits)
qed (use moves_reload in auto)

lemma moves_message:
  assumes "handle_client_message now c m sv = Some sv'" shows "moves sv sv'"
proof (cases m)
  case (ScreenInfoMsg info)
  let ?s = "update_screen_info (cn_id c) info (sv_session sv)"
  have "moves (sv\<lparr>sv_session := ?s\<rparr>) sv'"
    using assms ScreenInfoMsg by (auto simp: handle_client_message_def Let_def moves_enqueue)
  then show ?thesis by (rule moves_session)
qed (use assms in \<open>auto simp: handle_client_message_def intro: moves_same\<close>)

lemma moves_datagram:
  assumes "on_datagram now src bytes sv = Some sv'" shows "moves sv sv'"
proof -
  have beacon: "moves sv1 sv2" if "on_beacon_datagram now i seq x y sv1 = Some sv2" for i seq x y sv1 sv2
    using that plain_beacon by (auto simp: on_beacon_datagram_def Let_def split: option.splits if_splits
        intro: moves_same moves_trans [OF moves_same moves_apply_actions])
  have learnt: "moves sv (learn_addr i src (sv\<lparr>sv_heard := h\<rparr>))" for i h by (rule moves_same) simp_all
  show ?thesis using assms moves_trans [OF learnt beacon] learnt
    by (auto simp: on_datagram_def Let_def moves_same split: option.splits if_splits message.splits)
qed

text \<open>The writer takes from the queue what it puts on the link, or ends.\<close>

lemma writer_turn_told: "cn_open (writer_turn sent addr c) \<Longrightarrow> told (writer_turn sent addr c) = told c \<and> cn_open c"
  by (auto simp: writer_turn_def told_def control_stream_def Let_def split: list.splits outbound.splits option.splits if_splits)

lemma writer_turn_id [simp]: "cn_id (writer_turn sent addr c) = cn_id c"
  by (auto simp: writer_turn_def Let_def split: list.split outbound.split option.split)

lemma handed_write:
  assumes "handed sv" "sv_conns sv t = Some c"
  shows "handed (sv\<lparr>sv_conns := (sv_conns sv)(t \<mapsto> writer_turn sent addr c)\<rparr>)"
proof -
  let ?c = "writer_turn sent addr c" and ?sv = "sv\<lparr>sv_conns := (sv_conns sv)(t \<mapsto> writer_turn sent addr c)\<rparr>"
  have "told c' \<longleftrightarrow> sv_active sv = Some (cn_id c') \<and> sv_clients sv (cn_id c') = Some u"
    if "sv_conns ?sv u = Some c'" "cn_open c'" for u c'
  proof (cases "u = t")
    case True
    then have "c' = ?c" using that by simp
    then show ?thesis using assms that(2) True writer_turn_told [of sent addr c] by (simp add: handed_def)
  next
    case False
    then show ?thesis using assms(1) that by (simp add: handed_def)
  qed
  moreover have "\<exists>c'. sv_conns ?sv u = Some c' \<and> cn_id c' = i" if "sv_clients sv i = Some u" for i u
    using assms that handed_ids [OF assms] by (cases "u = t") (auto simp: handed_def)
  ultimately show ?thesis by (simp add: handed_def)
qed

fun no_takeover :: "step \<Rightarrow> server \<Rightarrow> bool" where
  "no_takeover (SvRegister t peer a) sv \<longleftrightarrow> sv_active sv \<noteq> Some (ad_id a)"
| "no_takeover _ sv \<longleftrightarrow> True"

lemma moves_input:
  assumes "handle_local_input now m sv = Some sv'" shows "moves sv sv'"
proof -
  obtain acts s where e: "on_local_event now m (sv_session (feed_gain m sv)) = Some (acts, s)"
    "sv' = apply_actions now acts ((feed_gain m sv)\<lparr>sv_session := s\<rparr>)"
    using assms by (auto simp: handle_local_input_def Let_def split: option.splits)
  have "moves sv (feed_gain m sv)" by (rule moves_same) simp_all
  moreover have "moves (feed_gain m sv) sv'"
    unfolding e(2) by (rule moves_session [OF moves_apply_actions [OF plain_local [OF e(1)]]])
  ultimately show ?thesis by (rule moves_trans)
qed

lemma step_keeps_handed:
  assumes "handed sv" "step_ok e sv" "server_step now e sv = Some sv'" "roomy sv'" "no_takeover e sv"
  shows "handed sv'"
proof -
  have "moves sv sv' \<or> handed sv'"
  proof (cases e)
    case (SvInput m)
    then show ?thesis using assms(3) moves_input by simp
  next
    case (SvControl c)
    then show ?thesis using assms(3) moves_control by simp
  next
    case (SvHandshake peer first)
    then show ?thesis using assms(3)
      by (auto simp: handshake_def Let_def intro: moves_same split: prod.splits sum.splits)
  next
    case (SvRegister t peer a)
    then show ?thesis using assms(2,3,5) moves_register by auto
  next
    case (SvAnnounce t peer port a)
    have "moves sv (announce c peer port a sv)" for c
      by (auto simp: announce_def Let_def moves_same intro: moves_trans [OF moves_same moves_broadcast])
    then show ?thesis using assms(3) SvAnnounce by (auto simp: moves_same split: option.splits)
  next
    case (SvRead last_seen t res)
    then show ?thesis using assms(1,3) moves_message moves_teardown
      by (auto simp: reader_turn_def moves_same split: option.splits sum.splits recv_result.splits if_splits)
  next
    case (SvDatagram src bytes)
    then show ?thesis using assms(3) moves_datagram by simp
  next
    case SvIdle
    have "moves sv sv'" if "sv_clients sv i = None" "session_forgets on_client_disconnected now i sv = Some sv'" for i
      using that moves_session_forgets by blast
    then show ?thesis using assms(1,3) SvIdle moves_teardown
      by (auto simp: check_active_beacon_staleness_def moves_same split: option.splits if_splits)
  next
    case (SvWrite t sent)
    then show ?thesis using assms(1,3) handed_write by (auto split: option.splits)
  qed
  then show ?thesis using assms(1,4) by (auto simp: moves_def)
qed

section \<open>Orderly runs\<close>

text \<open>
  No queue fills, and no machine connects a second time while the cursor is on it: a takeover of the
  cursor's own client strands it (\<open>takeover_strands_cursor\<close>).
\<close>

inductive orderly_reaches :: "server \<Rightarrow> server \<Rightarrow> bool" where
  boot: "orderly_reaches sv sv"
| step: "orderly_reaches sv0 sv \<Longrightarrow> step_ok e sv \<Longrightarrow> no_takeover e sv \<Longrightarrow> server_step now e sv = Some sv' \<Longrightarrow> roomy sv' \<Longrightarrow>
    orderly_reaches sv0 sv'"

lemma orderly_reaches_server: "orderly_reaches sv0 sv \<Longrightarrow> server_reaches sv0 sv"
  by (induction rule: orderly_reaches.induct) (auto intro: server_reaches.intros)

lemma orderly_reaches_handed: "orderly_reaches sv0 sv \<Longrightarrow> handed sv0 \<Longrightarrow> handed sv"
  by (induction rule: orderly_reaches.induct) (auto intro: step_keeps_handed)

section \<open>The clients\<close>

text \<open>What the events of a client bring from the control link; nothing else gives or takes control.\<close>

fun message_of :: "client_event \<Rightarrow> message list" where
  "message_of (CeMessage now absolute pos pos' m) = [m]"
| "message_of _ = []"

lemma client_step_active: "cl_active (client_step own e c) = control_after (message_of e) (cl_active c)"
proof (cases e)
  case (CeMessage now absolute pos pos' m)
  then show ?thesis
    by (cases m) (auto simp: enter_control_def leave_control_def apply_motion_frame_def enqueue_event_def Let_def split: prod.split)
next
  case (CeTick now absolute pos scr)
  then show ?thesis by (auto simp: motion_tick_def Let_def split: prod.split)
next
  case (CeDatagram absolute bytes)
  then show ?thesis
    by (auto simp: on_motion_datagram_def apply_motion_frame_def Let_def split: option.split message.split prod.split)
next
  case (CeSupervisor ms free)
  then show ?thesis by (simp add: supervisor_wake_def)
next
  case (CeScreen last_info info)
  then show ?thesis by (simp add: sync_screen_def)
qed

lemma client_run_active:
  "cl_active (run (client_step own) es c) = control_after (concat (map message_of es)) (cl_active c)"
  by (induction es arbitrary: c) (simp_all add: client_step_active)

section \<open>One machine at a time\<close>

text \<open>A client that has taken in everything the control link carries to it.\<close>

definition caught_up :: "client_event list \<Rightarrow> connection \<Rightarrow> bool" where
  "caught_up es c \<longleftrightarrow> concat (map message_of es) = control_stream c"

lemma new_server_handed: "handed (new_server s p name)"
  by (simp add: handed_def new_server_def)

lemma latch_of_Some [simp]: "latch_of m = Some i \<longleftrightarrow> m = Remote i"
  by (cases m) auto

lemma caught_up_active:
  assumes "new_session l 0 = Some s" "orderly_reaches (new_server s p name) sv"
    "sv_conns sv t = Some c" "cn_open c" "\<not> cl_active k" "caught_up es c"
  shows "cl_active (run (client_step own) es k) \<longleftrightarrow>
    se_mode (sv_session sv) = Remote (cn_id c) \<and> sv_clients sv (cn_id c) = Some t"
proof -
  have "sv_active sv = latch_of (se_mode (sv_session sv))"
    using reaches_server_ok [OF orderly_reaches_server [OF assms(2)] new_server_ok [OF assms(1)]]
    by (simp add: server_ok_def mirrors_def)
  moreover have "handed sv" by (rule orderly_reaches_handed [OF assms(2) new_server_handed])
  ultimately have "told c \<longleftrightarrow> se_mode (sv_session sv) = Remote (cn_id c) \<and> sv_clients sv (cn_id c) = Some t"
    using assms(3,4) by (simp add: handed_def)
  then show ?thesis using assms(5,6) by (simp add: client_run_active caught_up_def told_def)
qed


text \<open>A run in which the cursor goes to the client, and the client that hears of it.\<close>

lemma orderly_away_run:
  "\<exists>s sv c. new_session two_screens 0 = Some s \<and> orderly_reaches (new_server s default_policy ''id'') sv \<and>
     se_mode (sv_session sv) = Remote 1 \<and> sv_clients sv 1 = Some 7 \<and> sv_conns sv 7 = Some c \<and> cn_open c \<and> cn_id c = 1"
proof -
  obtain s where s: "new_session two_screens 0 = Some s" "two_session = on_client_connected 1 s"
    by (simp add: two_session_def session_eval)
  let ?sv0 = "new_server s default_policy ''id''"
  let ?c = "new_connection 0 hp_client"
  let ?sv1 = "register 0 7 (V4 10 0 0 7) hp_client ?sv0"
  let ?sv2 = "announce ?c (V4 10 0 0 7) 2401 hp_client ?sv1"
  have c: "cn_id ?c = 1" "cn_open ?c" "cn_out ?c = []"
    by (simp_all add: new_connection_def hp_client_def)
  have conns: "sv_conns ?sv1 = [7 \<mapsto> ?c]" "sv_clients ?sv1 = [1 \<mapsto> 7]" "sv_conns ?sv2 = [7 \<mapsto> ?c]" "sv_clients ?sv2 = [1 \<mapsto> 7]"
    "sv_active ?sv2 = None" "sv_gain ?sv2 = new_gain" "sv_session ?sv2 = two_session"
    by (simp_all add: announce_def register_def new_server_def Let_def hp_client_def emit_def s(2))
  have small: "roomy sv" if "sv_conns sv = [7 \<mapsto> ?c]" for sv using that c by (simp add: roomy_def OUT_QUEUE_CAP_def)
  have 1: "orderly_reaches ?sv0 ?sv1"
    by (rule orderly_reaches.step [OF orderly_reaches.boot, of "SvRegister 7 (V4 10 0 0 7) hp_client" _ 0])
      (simp_all add: small [OF conns(1)], simp_all add: new_server_def hp_client_def)
  have 2: "orderly_reaches ?sv0 ?sv2"
    by (rule orderly_reaches.step [OF 1, of "SvAnnounce 7 (V4 10 0 0 7) 2401 hp_client" 0])
      (simp_all add: small [OF conns(3)] conns(1), simp add: hp_client_def)
  let ?fed = "feed_gain (MouseMoveAbs 0 500) ?sv2"
  have "fst (on_beacon 0 500 new_gain) = 1" "set_gain 1 two_session = two_session"
    by (simp_all add: on_beacon_def new_gain_def Let_def set_gain_def two_session_def session_eval clamp_real_def)
  then have fed: "sv_session ?fed = two_session"
    using conns by (auto simp: feed_gain_def split: prod.split)
  let ?sv3 = "?fed\<lparr>sv_session := at_left_wall\<lparr>se_x := 0\<rparr>\<rparr>"
  have sv3: "handle_local_input 0 (MouseMoveAbs 0 500) ?sv2 = Some ?sv3"
    using at_left_wall_beacon fed by (simp add: handle_local_input_def Let_def apply_actions_def del: on_local_event.simps)
  have conns3: "sv_conns ?sv3 = [7 \<mapsto> ?c]" "sv_clients ?sv3 = [1 \<mapsto> 7]" "sv_active ?sv3 = None" by (simp_all add: conns)
  have 3: "orderly_reaches ?sv0 ?sv3"
    by (rule orderly_reaches.step [OF 2, of "SvInput (MouseMoveAbs 0 500)" 0]) (simp_all add: sv3 small [OF conns3(1)])
  obtain s' where s': "on_local_event 0 (MouseMoveRel (- 3) 0) (at_left_wall\<lparr>se_x := 0\<rparr>) = Some ([SwitchTo 1 1895 496], s')"
    "se_mode s' = Remote 1" using at_left_wall_crosses by blast
  define sv4 where "sv4 = apply_actions 0 [SwitchTo 1 1895 496] ((feed_gain (MouseMoveRel (- 3) 0) ?sv3)\<lparr>sv_session := s'\<rparr>)"
  have in4: "handle_local_input 0 (MouseMoveRel (- 3) 0) ?sv3 = Some sv4"
    using s'(1) by (simp add: handle_local_input_def feed_gain_def sv4_def del: on_local_event.simps)
  have conns4: "sv_conns sv4 = [7 \<mapsto> try_send (route (Enter 1 1895 496)) ?c]" "sv_clients sv4 = [1 \<mapsto> 7]"
    "sv_session sv4 = s'"
    using conns3 by (simp_all add: sv4_def apply_actions_def Let_def leave_active_def enqueue_def send_to_def)
  have "roomy sv4" using conns4(1) c(2,3) by (simp add: roomy_def try_send_def OUT_QUEUE_CAP_def)
  then have "orderly_reaches ?sv0 sv4"
    by (intro orderly_reaches.step [OF 3, of "SvInput (MouseMoveRel (- 3) 0)" 0]) (simp_all add: in4)
  then show ?thesis using s(1) s'(2) conns4 c(1,2) by auto
qed


end
