(* ===== verification/Spec2Isabelle.thy ===== *)
theory Spec2Isabelle
  imports Messages Transport Desktop Actions Motion Session Crossing Crossing_Rules
    Admission Server Server_Rules Server_Properties Client Client_Rules
    Keys Evdev Evdev_Rules X11_Capture X11_Capture_Rules Held_Keys X11_Inject X11_Inject_Rules
    Windows Windows_Rules
    Rust_Text Config Config_Rules Config_Store Machine_Role
    Client_App Client_App_Rules Logging Handshake Handshake_Rules Server_App Server_App_Rules
    Wheel_Daemon Wheel_Daemon_Rules
    Clipboard Clipboard_Rules Hotplug Hotplug_Rules Windows_Loop Windows_Loop_Rules
    Platform Platform_Rules Locks Locks_Rules
    Client_Idle Client_Idle_Rules Build_Id Control_Handover
begin

text \<open>
  This library verifies the Rust programs of kvmshare, which share one mouse, one keyboard and one
  clipboard between machines: \<open>crates/protocol\<close>, \<open>crates/core\<close>, \<open>crates/platform\<close>, \<open>crates/app\<close> and
  \<open>crates/log\<close>.

  \<^bold>\<open>The program.\<close>  A server owns the devices.  Its capture (X11 with the kernel's evdev, or the hooks of
  Windows) turns physical input into messages; the session decides where the one cursor is, on the
  local screen or on a client's, and answers every event with actions; the executor carries them out
  on the engine (grab and isolate local input, hide and warp the cursor) and on the outbound queues of
  the clients.  Relative motion and cursor beacons travel in datagrams, everything else on the
  control link.  A client steers its own cursor towards the commanded point, injects keys, buttons and
  wheel in order, and reports where the real cursor is; the server uses these beacons for the crossing
  back.  Around the two stand a configuration with hot reload, an admission policy, locks that keep one
  role per machine, a supervisor on each side, clipboards and a logger.

  \<^bold>\<open>Conventions.\<close>  A Rust integer is a word of its width, where the code relies on its wrapping, or an
  \<open>int\<close> with the range written out (\<open>Prelude\<close>).  A panic is \<open>None\<close>, an error is \<open>Inl\<close>.  A clock
  reading is an argument, in nanoseconds or, where a name says so, milliseconds.  What the operating
  system or a library answers is an argument, as a function from the call or as a list of answers; the
  calls made on it are a list.  A component has a record for its state and one definition per
  operation, with the name of the function it models; the operations that run concurrently are steps of
  an inductive relation, or events of a run, in any order.  A theory \<open>X\<close> holds the model, \<open>X_Rules\<close> the
  lemmas about it.

  \<^bold>\<open>The wire.\<close>
  \<^item> \<open>Wire\<close> (\<open>protocol/src/wire.rs\<close>), \<open>Frames\<close> (\<open>frame.rs\<close>, \<open>id.rs\<close>, \<open>lib.rs\<close>), \<open>Messages\<close>
    (\<open>message/\<close>): the locales \<open>codec\<close>, \<open>safe_reader\<close> and \<open>validating_reader\<close> state what a pair of a writer
    and a reader promises, and each type of the wire is an interpretation.  From them follow the round
    trip of every message, that a decoded message is well formed, and that decoding does not depend on
    the cutting of the stream.
  \<^item> \<open>Transport\<close> (\<open>core/src/transport.rs\<close>, \<open>udp.rs\<close>): resynchronisation, delivery in order, the envelope
    of the datagrams and the wrapping order of their sequence numbers.
  \<^item> \<open>Handshake\<close> (\<open>Transport\<close> constructors, \<open>Client::connect\<close>, \<open>Client::spawn\<close>): both ends of a
    connection attempt, their socket calls up to the first that fails; they agree on what was decided.

  \<^bold>\<open>The core.\<close>
  \<^item> \<open>Desktop\<close> (\<open>layout.rs\<close>): lookup, normalisation, ray cast.  Normalisation makes at most eight passes
    (the bound of the code); \<open>normalize_loop\<close> has them as fuel.
  \<^item> \<open>Actions\<close> (\<open>actions.rs\<close>), \<open>Motion\<close> (\<open>motion/\<close>, \<open>input.rs\<close>): chords; motion kept to the sub-pixel (the
    locale \<open>conserving\<close>), pointer gain and the follower that never leaves the screen.
  \<^item> \<open>Session\<close> (\<open>session/\<close>), \<open>Crossing\<close>, \<open>Crossing_Rules\<close>: the state of the cursor and every handler.
    Each handler either stays or enters one other screen, and says so in its action; from this come the
    invariant of the reachable states, the absence of panics on sane rectangles (half the range of \<open>i32\<close>)
    and what a crossing needs.
  \<^item> \<open>Admission\<close>, \<open>Server\<close>, \<open>Server_Rules\<close>, \<open>Server_Properties\<close> (\<open>server/\<close>): the policy, connections
    and queues, executor, control commands, datagrams, watchdog and supervisor; the invariant that ties
    session, active client, engine and registrations together over every event.
  \<^item> \<open>Client\<close>, \<open>Client_Rules\<close> (\<open>client/\<close>): the shared state of the client and one turn of each of its loops.
  \<^item> \<open>Control_Handover\<close>: server and clients together.  The \<open>Enter\<close> and \<open>Leave\<close> on a control link say whether
    its client has control; over every event of the server they agree with the cursor of the session, so
    one machine at a time has control.  It holds for runs in which no queue fills and the machine that has
    the cursor does not connect again; \<open>takeover_strands_cursor\<close> shows what happens otherwise.
  \<^item> \<open>Locks\<close>, \<open>Locks_Rules\<close>: every handler of server and client as what it locks, unlocks and calls that
    may block.  The locale \<open>lock_order\<close> derives the absence of deadlock from an order of the locks, for
    any number of threads; server and client are its interpretations.
  \<^item> \<open>Client_Idle\<close>, \<open>Client_Idle_Rules\<close>: the wait of the motion thread on its condition variable, one
    atomic step at a time, and the bounded joins at the end of a session.

  \<^bold>\<open>The platforms.\<close>
  \<^item> \<open>Keys\<close> (\<open>platform/src/keys.rs\<close>): the tables of key codes, and that a key keeps its identity.
  \<^item> \<open>Evdev\<close>, \<open>Evdev_Rules\<close>, \<open>Hotplug\<close>, \<open>Hotplug_Rules\<close> (\<open>evdev/\<close>): translation, the reader with its grabs,
    the inotify parser, and the enumerator that hands the devices over.
  \<^item> \<open>X11_Capture\<close>, \<open>X11_Capture_Rules\<close> (\<open>x11/capture/\<close>), \<open>X11_Inject\<close>, \<open>X11_Inject_Rules\<close>
    (\<open>x11/injector.rs\<close>), \<open>Wheel_Daemon\<close>, \<open>Wheel_Daemon_Rules\<close> (\<open>x11/wheel_daemon.rs\<close>, \<open>wheel_server.rs\<close>):
    events, grabs, repeats and the sleep of the capture; held keys and the wheel of the injector; the
    daemon of the virtual wheel as a process with privileges, a socket and a device.
  \<^item> \<open>Windows\<close>, \<open>Windows_Rules\<close>, \<open>Windows_Loop\<close>, \<open>Windows_Loop_Rules\<close> (\<open>windows/\<close>): the hook procedures,
    the isolation of a controlled machine with its watchdog, the injector, and the two threads that own
    the hooks.  \<open>Held_Keys\<close> is the contract of both injectors.
  \<^item> \<open>Clipboard\<close>, \<open>Clipboard_Rules\<close> (\<open>windows/clipboard.rs\<close>, \<open>x11/injector.rs\<close>, \<open>app/src/clipboard.rs\<close>): text
    in UTF-8 and UTF-16, and the pollers; the locale \<open>remote_clipboard\<close> says when nothing goes back.
  \<^item> \<open>Platform\<close>, \<open>Platform_Rules\<close> (\<open>platform/src/lib.rs\<close> and the parts it calls): host name, display, timer,
    and how the X11 capture starts and runs.

  \<^bold>\<open>The application.\<close>
  \<^item> \<open>Rust_Text\<close>: the operations of \<open>str\<close> the layer uses, on byte strings.
  \<^item> \<open>Config\<close>, \<open>Config_Rules\<close>, \<open>Config_Store\<close> (\<open>app/src/config/\<close>, \<open>trust.rs\<close>, \<open>session.rs\<close>): loading and
    validation (at most 256 screens are told apart by their ids), corrections of the geometry, trust on
    first use, and the concurrent writers of the file as interleaved steps.
  \<^item> \<open>Machine_Role\<close> (\<open>guard.rs\<close>, \<open>machine_id.rs\<close>, \<open>hostname.rs\<close>): the role locks and the identity.
  \<^item> \<open>Client_App\<close>, \<open>Client_App_Rules\<close>, \<open>Server_App\<close>, \<open>Server_App_Rules\<close> (\<open>args.rs\<close>, \<open>client_state.rs\<close>,
    \<open>bin/\<close>): command lines, reconnect loop, the start and the main loop of the server.
  \<^item> \<open>Logging\<close> (\<open>log/src/lib.rs\<close>): levels, the bounded queue and its writer.
  \<^item> \<open>Build_Id\<close> (\<open>app/build.rs\<close>): the fingerprint in the binaries.

  \<^bold>\<open>What is shown.\<close>  A property stands right after the text that names its number; the others are
  lemmas that carry them.  First come the cursor and the input: the cursor is never on a dead screen,
  local input is held exactly while the cursor is away, from the session through the server to the
  grabs of the X server, one machine at
  a time has control, a crossing needs intent, no key stays down, hardware is not silenced for
  longer than it is steered.  Then the wire, the policy (who gets in, what revocation does, which
  datagrams count), the threads (no deadlock, wakes in time), the files and the processes.  Several
  lemmas show behaviours that contradict a comment or an intention of the code; their texts say so.

  \<^bold>\<open>Bounds.\<close>  Queues carry the capacities of the code (\<open>OUT_QUEUE_CAP\<close>, \<open>EVENT_QUEUE_CAP\<close>, \<open>SINK_CAP\<close>,
  payloads \<open>MAX_PAYLOAD\<close>), and the locale \<open>bounded_queue\<close> shows that they are kept.  The loops of the
  programs run over lists of what reaches them, so every run is finite and all its prefixes are runs; no
  result depends on a length.  The inotify parser is a partial function, with its termination proved;
  the resynchronisation of the transport ends because the buffer shrinks.  Floating point appears in
  the pointer gain and the scaling of wheels and motion and is computed in the reals, rounding included
  where the code rounds; the scale of a screen stays the bits of its \<open>f32\<close>.

  \<^bold>\<open>Not modelled.\<close>  The graphical interface in \<open>gui/\<close>, another program in another language; the scripts
  and packages; the tests.  Of the Rust code: log lines as far as they are only printed, trait and module
  declarations, the raising of priorities and of the DPI mode, whose results are ignored, and unsafe
  pointer work inside a call of the system.  Third-party crates (TOML, the X protocol, evdev, the
  clipboard library, SHA-256) are arguments.  Memory orderings weaker than sequential consistency are
  not modelled: a load or store of an atomic is one step.
\<close>

end
